(* ===== verification/App_Names.thy ===== *)
theory App_Names
  imports Rust_Text
begin

text \<open>
  App names and the names derived from them: \<open>riku-util/src/validation.rs\<close>
  (sanitising and validating an app name), the kind check of
  \<open>riku-util/src/procfile.rs\<close> and \<open>riku-util/src/file_names/\<close> (worker names
  and copy sockets).  The derived names carry one \<open>@\<close> right after the app name;
  the lemmas show that they read back, hence never collide across apps.
\<close>

datatype name_error = ReservedSuffix string | InvalidAppName string

section \<open>App names\<close>

definition REPO_SUFFIX :: string where
  "REPO_SUFFIX = ''.git''"

definition allowed_char :: "char \<Rightarrow> bool" where
  "allowed_char c \<longleftrightarrow> is_alphanumeric c \<or> c = CHR ''.'' \<or> c = CHR ''_'' \<or> c = CHR ''-''"

definition allowed_chars :: "string \<Rightarrow> string" where
  "allowed_chars app = trim_end (filter allowed_char (dropWhile (\<lambda>c. c = CHR ''/'') app))"

text \<open>\<open>trim_matches('.').is_empty()\<close>: nothing is left once dots are cut at both ends.\<close>

definition only_dots :: "string \<Rightarrow> bool" where
  "only_dots s \<longleftrightarrow> rev (dropWhile (\<lambda>c. c = CHR ''.'') (rev (dropWhile (\<lambda>c. c = CHR ''.'') s))) = []"

definition sanitize_app_name :: "string \<Rightarrow> string" where
  "sanitize_app_name app =
     (let sanitized = allowed_chars app
      in if contains_text ''..'' sanitized \<or> only_dots sanitized \<or> ends_with REPO_SUFFIX sanitized
         then [] else sanitized)"

definition validate_app_name :: "string \<Rightarrow> (name_error, string) result" where
  "validate_app_name app =
     (if ends_with REPO_SUFFIX (allowed_chars app) then Inl (ReservedSuffix app)
      else let sanitized = sanitize_app_name app
           in if sanitized = [] then Inl (InvalidAppName app) else Inr sanitized)"

section \<open>File names\<close>

definition APP_SEPARATOR :: char where
  "APP_SEPARATOR = CHR ''@''"

definition exact_app_name :: "string \<Rightarrow> string option" where
  "exact_app_name name = (if name \<noteq> [] \<and> sanitize_app_name name = name then Some name else None)"

definition kind_char :: "char \<Rightarrow> bool" where
  "kind_char c \<longleftrightarrow> is_ascii_alphanumeric c \<or> c = CHR ''_'' \<or> c = CHR ''-''"

definition is_valid_kind :: "string \<Rightarrow> bool" where
  "is_valid_kind kind \<longleftrightarrow> kind \<noteq> [] \<and> list_all kind_char kind"

record worker_name =
  wn_app :: string
  wn_kind :: string
  wn_ordinal :: u32

definition CONFIG_EXTENSION :: string where
  "CONFIG_EXTENSION = ''toml''"

definition worker_name_new :: "string \<Rightarrow> string \<Rightarrow> u32 \<Rightarrow> worker_name" where
  "worker_name_new app kind ordinal = \<lparr>wn_app = app, wn_kind = kind, wn_ordinal = ordinal\<rparr>"

definition worker_name_parse :: "string \<Rightarrow> worker_name option" where
  "worker_name_parse wid =
     (case split_once APP_SEPARATOR wid of
        None \<Rightarrow> None
      | Some (app, rest) \<Rightarrow>
          (case rsplit_once (CHR ''.'') rest of
             None \<Rightarrow> None
           | Some (kind, ordinal) \<Rightarrow>
               (case exact_app_name app of
                  None \<Rightarrow> None
                | Some app \<Rightarrow>
                    if \<not> is_valid_kind kind \<or> \<not> list_all is_ascii_digit ordinal then None
                    else (case parse_u32 ordinal of
                            Some n \<Rightarrow> Some (worker_name_new app kind n)
                          | None \<Rightarrow> None))))"

definition worker_name_display :: "worker_name \<Rightarrow> string" where
  "worker_name_display w =
     wn_app w @ [APP_SEPARATOR] @ wn_kind w @ ''.'' @ show_u32 (wn_ordinal w)"

definition worker_file_name :: "worker_name \<Rightarrow> string" where
  "worker_file_name w = worker_name_display w @ ''.'' @ CONFIG_EXTENSION"

definition SOCKET_EXTENSION :: string where
  "SOCKET_EXTENSION = ''.sock''"

definition copy_socket_file_name :: "string \<Rightarrow> u32 \<Rightarrow> string" where
  "copy_socket_file_name app copy = app @ [APP_SEPARATOR] @ show_u32 copy @ SOCKET_EXTENSION"

definition copy_number :: "string \<Rightarrow> u32 option" where
  "copy_number t = (if t = [] \<or> \<not> list_all is_ascii_digit t then None else parse_u32 t)"

definition copy_socket_parse :: "string \<Rightarrow> (string \<times> u32) option" where
  "copy_socket_parse file_name =
     (case strip_suffix SOCKET_EXTENSION file_name of
        None \<Rightarrow> None
      | Some stem \<Rightarrow>
          (case split_once APP_SEPARATOR stem of
             None \<Rightarrow> None
           | Some (app, copy) \<Rightarrow>
               (case (exact_app_name app, copy_number copy) of
                  (Some app, Some copy) \<Rightarrow> Some (app, copy)
                | _ \<Rightarrow> None)))"

section \<open>Sanitising\<close>

lemma allowed_char_not_white: "allowed_char c \<Longrightarrow> \<not> is_whitespace c"
  by (auto simp: allowed_char_def char_class_defs)

lemma allowed_char_facts: "\<not> allowed_char (CHR ''@'')" "\<not> allowed_char (CHR ''/'')"
  by (simp_all add: allowed_char_def char_class_defs)

lemma allowed_chars_eq: "allowed_chars app = filter allowed_char app"
proof -
  have "filter allowed_char (dropWhile (\<lambda>c. c = CHR ''/'') app) = filter allowed_char app"
    by (induction app) (auto simp: allowed_char_facts)
  moreover have "trim_end (filter allowed_char app) = filter allowed_char app"
    using allowed_char_not_white last_in_set [of "filter allowed_char app"]
    by (intro trim_end_id) auto
  ultimately show ?thesis by (simp add: allowed_chars_def)
qed

definition safe_app_name :: "string \<Rightarrow> bool" where
  "safe_app_name s \<longleftrightarrow> list_all allowed_char s \<and> \<not> contains_text ''..'' s \<and> \<not> only_dots s
     \<and> \<not> ends_with REPO_SUFFIX s"

lemma only_dots_Nil [simp]: "only_dots []"
  by (simp add: only_dots_def)

lemma sanitize_safe: "sanitize_app_name app \<noteq> [] \<Longrightarrow> safe_app_name (sanitize_app_name app)"
  by (auto simp: sanitize_app_name_def safe_app_name_def allowed_chars_eq Let_def list_all_iff
      split: if_splits)

lemma sanitize_fixed: "safe_app_name s \<Longrightarrow> sanitize_app_name s = s"
  by (auto simp: sanitize_app_name_def safe_app_name_def allowed_chars_eq Let_def list_all_iff
      filter_id_conv)

lemma safe_iff_fixed: "safe_app_name s \<longleftrightarrow> s \<noteq> [] \<and> sanitize_app_name s = s"
  using sanitize_fixed [of s] sanitize_safe [of s] by (auto simp: safe_app_name_def)

lemma validate_app_name_Inr:
  "validate_app_name app = Inr r \<longleftrightarrow> r = sanitize_app_name app \<and> r \<noteq> []"
  by (auto simp: validate_app_name_def sanitize_app_name_def Let_def)

lemma exact_app_name_iff: "exact_app_name s = Some t \<longleftrightarrow> t = s \<and> safe_app_name s"
  by (auto simp: exact_app_name_def safe_iff_fixed)

lemma exact_app_name_safe [simp]: "safe_app_name s \<Longrightarrow> exact_app_name s = Some s"
  by (simp add: exact_app_name_iff)

lemma safe_no_sep: "safe_app_name s \<Longrightarrow> APP_SEPARATOR \<notin> set s"
  using allowed_char_facts by (auto simp: safe_app_name_def list_all_iff APP_SEPARATOR_def)

lemma kind_no_sep: "is_valid_kind k \<Longrightarrow> APP_SEPARATOR \<notin> set k \<and> CHR ''.'' \<notin> set k"
  by (auto simp: is_valid_kind_def list_all_iff kind_char_def APP_SEPARATOR_def char_class_defs)

text \<open>
  Sanitising an app name is idempotent, and whatever it returns is either the empty
  name or a name made of letters, digits, dots, underscores and hyphens that holds no
  path separator, no \<open>..\<close>, is not only dots and does not end in \<open>.git\<close>.
\<close>

lemma sanitize_app_name_safe:
  "sanitize_app_name (sanitize_app_name app) = sanitize_app_name app
   \<and> (sanitize_app_name app = [] \<or>
      list_all allowed_char (sanitize_app_name app) \<and> CHR ''/'' \<notin> set (sanitize_app_name app)
      \<and> \<not> contains_text ''..'' (sanitize_app_name app) \<and> \<not> only_dots (sanitize_app_name app)
      \<and> \<not> ends_with REPO_SUFFIX (sanitize_app_name app))"
proof (cases "sanitize_app_name app = []")
  case True
  then show ?thesis
    by (simp add: sanitize_app_name_def allowed_chars_def trim_end_def)
next
  case False
  then have "safe_app_name (sanitize_app_name app)" by (rule sanitize_safe)
  then show ?thesis
    using sanitize_fixed allowed_char_facts by (auto simp: safe_app_name_def list_all_iff)
qed

text \<open>
  Validation accepts a name exactly when sanitising leaves something, and then returns
  the sanitised name; a name whose allowed characters end in \<open>.git\<close> gets the reserved-suffix
  error, every other refused name the invalid-name error.
\<close>

lemma validate_app_name_spec:
  "validate_app_name app =
     (if sanitize_app_name app \<noteq> [] then Inr (sanitize_app_name app)
      else if ends_with REPO_SUFFIX (filter allowed_char app) then Inl (ReservedSuffix app)
      else Inl (InvalidAppName app))"
  by (auto simp: validate_app_name_def sanitize_app_name_def allowed_chars_eq Let_def)

section \<open>Derived names read back\<close>

definition worker_ok :: "worker_name \<Rightarrow> bool" where
  "worker_ok w \<longleftrightarrow> safe_app_name (wn_app w) \<and> is_valid_kind (wn_kind w)"

lemma worker_parse_display: "worker_ok w \<Longrightarrow> worker_name_parse (worker_name_display w) = Some w"
  by (simp add: worker_ok_def worker_name_parse_def worker_name_display_def safe_no_sep show_u32_no
      show_u32_digits worker_name_new_def)

interpretation worker_codec: name_codec worker_ok worker_name_display worker_name_parse
  by unfold_locales (rule worker_parse_display)

lemma worker_file_name_inj:
  "worker_ok v \<Longrightarrow> worker_ok w \<Longrightarrow> worker_file_name v = worker_file_name w \<Longrightarrow> v = w"
  by (rule worker_codec.render_inj) (simp_all add: worker_file_name_def)

text \<open>
  Every worker of a valid app and kind reads back from its name as itself, and two different
  workers never share a config file name, whatever dots and hyphens the names hold.
\<close>

lemma worker_names_distinct:
  assumes "safe_app_name (wn_app v)" "is_valid_kind (wn_kind v)"
    and "safe_app_name (wn_app w)" "is_valid_kind (wn_kind w)"
  shows "worker_name_parse (worker_name_display w) = Some w
    \<and> (worker_file_name v = worker_file_name w \<longleftrightarrow> v = w)"
  using assms worker_parse_display [of w] worker_file_name_inj [of v w]
  by (auto simp: worker_ok_def)

definition socket_ok :: "string \<times> u32 \<Rightarrow> bool" where
  "socket_ok s \<longleftrightarrow> safe_app_name (fst s)"

lemma copy_socket_parse_name:
  "safe_app_name app \<Longrightarrow> copy_socket_parse (copy_socket_file_name app n) = Some (app, n)"
proof -
  assume app: "safe_app_name app"
  have "strip_suffix SOCKET_EXTENSION (copy_socket_file_name app n)
      = Some (app @ [APP_SEPARATOR] @ show_u32 n)"
    using strip_suffix_append [of SOCKET_EXTENSION "app @ [APP_SEPARATOR] @ show_u32 n"]
    by (simp add: copy_socket_file_name_def)
  then show ?thesis
    using app
    by (simp add: copy_socket_parse_def safe_no_sep copy_number_def show_u32_digits)
qed

interpretation socket_codec: name_codec socket_ok "\<lambda>(app, n). copy_socket_file_name app n" copy_socket_parse
  by unfold_locales (auto simp: socket_ok_def copy_socket_parse_name)

lemma single_socket_not_copy: "safe_app_name app \<Longrightarrow> copy_socket_parse (app @ SOCKET_EXTENSION) = None"
  using safe_no_sep [of app] by (simp add: copy_socket_parse_def split_once_None [THEN iffD2])

text \<open>
  A copy socket reads back as its app and copy number, and the single socket
  \<open><app>.sock\<close> of any app is never read as a copy of another app.
\<close>

lemma copy_socket_roundtrip:
  assumes "safe_app_name app"
  shows "copy_socket_parse (copy_socket_file_name app n) = Some (app, n)
    \<and> copy_socket_parse (app @ SOCKET_EXTENSION) = None"
  using assms by (simp add: copy_socket_parse_name single_socket_not_copy)

end
