(* ===== verification/Container_Types.thy ===== *)
theory Container_Types
  imports App_Names
begin

text \<open>
  The validated value types of \<open>riku-container/src/types/\<close>: container, service and
  network names, copy numbers, stop signals, restart policies, health checks, mounts
  and port bindings, and the errors of the crate.

  The crate's \<open>anyhow\<close> errors are the constructors below, grouped by the module
  that raises them; a constructor carries the values its message shows.
\<close>

section \<open>Errors\<close>

datatype type_error =
    EngineUnsafeName string string
  | AppNameRefused name_error
  | AppNameNotExact string
  | AppNameEngineUnsafe string
  | ServiceNameDotted string
  | ServiceNameInvalid string
  | StopSignalInvalid string

section \<open>Names\<close>

definition SERVICE_NAME_MAX :: nat where
  "SERVICE_NAME_MAX = 63"

definition engine_char :: "char \<Rightarrow> bool" where
  "engine_char c \<longleftrightarrow> is_ascii_alphanumeric c \<or> c = CHR ''_'' \<or> c = CHR ''.'' \<or> c = CHR ''-''"

fun is_engine_safe :: "string \<Rightarrow> bool" where
  "is_engine_safe [] = False"
| "is_engine_safe (c # cs) = (is_ascii_alphanumeric c \<and> list_all engine_char cs)"

definition check_engine_name :: "string \<Rightarrow> string \<Rightarrow> (type_error, unit) result" where
  "check_engine_name what name =
     (if is_engine_safe name then Inr () else Inl (EngineUnsafeName what name))"

definition check_app_name :: "string \<Rightarrow> (type_error, unit) result" where
  "check_app_name app =
     (case validate_app_name app of
        Inl e \<Rightarrow> Inl (AppNameRefused e)
      | Inr validated \<Rightarrow>
          if validated \<noteq> app then Inl (AppNameNotExact app)
          else if \<not> is_engine_safe app then Inl (AppNameEngineUnsafe app)
          else Inr ())"

datatype app_name = AppName (app_str: string)

definition app_name_try_from :: "string \<Rightarrow> (type_error, app_name) result" where
  "app_name_try_from raw =
     (case check_app_name raw of Inr _ \<Rightarrow> Inr (AppName raw) | Inl e \<Rightarrow> Inl e)"

datatype service_name = ServiceName (service_str: string)

definition service_name_try_from :: "string \<Rightarrow> (type_error, service_name) result" where
  "service_name_try_from raw =
     (if CHR ''.'' \<in> set raw then Inl (ServiceNameDotted raw)
      else if str_len raw > SERVICE_NAME_MAX \<or> \<not> is_engine_safe raw then Inl (ServiceNameInvalid raw)
      else Inr (ServiceName raw))"

datatype copy_index = CopyIndex (copy_get: u32)

definition copy_index_new :: "u32 \<Rightarrow> copy_index option" where
  "copy_index_new n = (if n = 0 then None else Some (CopyIndex n))"

datatype container_name = ContainerName (container_str: string)

definition container_name_new ::
  "string \<Rightarrow> service_name \<Rightarrow> copy_index \<Rightarrow> (type_error, container_name) result" where
  "container_name_new app service copy =
     (case check_app_name app of
        Inl e \<Rightarrow> Inl e
      | Inr _ \<Rightarrow> Inr (ContainerName
          (app @ ''.'' @ service_str service @ ''.'' @ show_u32 (copy_get copy))))"

definition container_name_for_release :: "string \<Rightarrow> (type_error, container_name) result" where
  "container_name_for_release app =
     (case check_app_name app of
        Inl e \<Rightarrow> Inl e
      | Inr _ \<Rightarrow> Inr (ContainerName (app @ ''-release'')))"

datatype network_name = NetworkName (network_str: string)

definition network_name_for_app :: "string \<Rightarrow> network_name" where
  "network_name_for_app app = NetworkName (''riku-'' @ app)"

text \<open>Label keys.\<close>

definition LABEL_APP :: string where "LABEL_APP = ''riku.app''"
definition LABEL_SERVICE :: string where "LABEL_SERVICE = ''riku.service''"
definition LABEL_COPY :: string where "LABEL_COPY = ''riku.copy''"
definition LABEL_PUBLIC :: string where "LABEL_PUBLIC = ''riku.public''"
definition LABEL_HTTP :: string where "LABEL_HTTP = ''riku.http''"
definition LABEL_HEALTH :: string where "LABEL_HEALTH = ''riku.health''"
definition LABEL_PORT :: string where "LABEL_PORT = ''riku.port''"
definition LABEL_RESTART :: string where "LABEL_RESTART = ''riku.restart''"

section \<open>Lifecycle, mounts and ports\<close>

text \<open>A \<open>Duration\<close> is its length in nanoseconds.\<close>

type_synonym duration = nat

definition NANOS_PER_SEC :: nat where
  "NANOS_PER_SEC = 1000000000"

definition from_secs :: "nat \<Rightarrow> duration" where
  "from_secs n = n * NANOS_PER_SEC"

definition DEFAULT_STOP_GRACE :: duration where
  "DEFAULT_STOP_GRACE = from_secs 30"

datatype stop_signal = StopSignal (signal_str: string)

definition stop_signal_default :: stop_signal where
  "stop_signal_default = StopSignal ''SIGTERM''"

definition stop_signal_try_from :: "string \<Rightarrow> (type_error, stop_signal) result" where
  "stop_signal_try_from raw =
     (let upper = to_ascii_uppercase raw;
          suffix = (case strip_prefix ''SIG'' upper of Some s \<Rightarrow> s | None \<Rightarrow> [])
      in if suffix \<noteq> [] \<and> list_all (\<lambda>c. is_ascii_uppercase c \<or> is_ascii_digit c) suffix
         then Inr (StopSignal upper) else Inl (StopSignalInvalid raw))"

datatype restart_policy = RestartNo | RestartAlways | RestartOnFailure "u32 option" | RestartUnlessStopped

datatype health_test = TestExec "string list" | TestShell string | TestDisabled

record health_check =
  hc_test :: health_test
  hc_interval :: "duration option"
  hc_timeout :: "duration option"
  hc_retries :: "u32 option"
  hc_start_period :: "duration option"

datatype host_ip = Loopback | AllInterfaces
datatype protocol = Tcp | Udp

record port_binding =
  pb_host_ip :: host_ip
  pb_host_port :: "u16 option"
  pb_container_port :: u16
  pb_protocol :: protocol

section \<open>Names the engine takes as one argument\<close>

lemma engine_safe_chars: "is_engine_safe s \<Longrightarrow> list_all engine_char s"
  by (cases s) (auto simp: engine_char_def)

lemma engine_safe_nonempty: "is_engine_safe s \<Longrightarrow> s \<noteq> []"
  by auto

lemma engine_char_ascii: "engine_char c \<Longrightarrow> code_point c < 128 \<and> \<not> is_whitespace c \<and> c \<noteq> CHR ''/''
    \<and> c \<noteq> CHR '':'' \<and> c \<noteq> CHR '','' \<and> \<not> is_control c"
  by (auto simp: engine_char_def char_class_defs)

lemma check_app_name_ok: "check_app_name app = Inr u \<longleftrightarrow> safe_app_name app \<and> is_engine_safe app"
proof (cases "validate_app_name app")
  case (Inl e)
  then have "sanitize_app_name app = []"
    using validate_app_name_Inr [of app "sanitize_app_name app"] by fastforce
  then show ?thesis using Inl by (auto simp: check_app_name_def safe_iff_fixed)
next
  case (Inr v)
  then have "v = sanitize_app_name app" "v \<noteq> []" by (auto simp: validate_app_name_Inr)
  then show ?thesis using Inr by (auto simp: check_app_name_def safe_iff_fixed)
qed

lemma service_name_ok:
  "service_name_try_from raw = Inr s \<longleftrightarrow>
     s = ServiceName raw \<and> CHR ''.'' \<notin> set raw \<and> is_engine_safe raw \<and> str_len raw \<le> SERVICE_NAME_MAX"
  by (auto simp: service_name_try_from_def)

definition valid_service :: "service_name \<Rightarrow> bool" where
  "valid_service s \<longleftrightarrow> CHR ''.'' \<notin> set (service_str s) \<and> is_engine_safe (service_str s)
     \<and> str_len (service_str s) \<le> SERVICE_NAME_MAX"

lemma service_name_valid: "service_name_try_from raw = Inr s \<Longrightarrow> valid_service s"
  by (auto simp: service_name_ok valid_service_def)

section \<open>Container names read back from the right\<close>

text \<open>
  The reader the documentation of \<open>ContainerName\<close> describes: the copy follows the
  last dot, the service sits between the last two.
\<close>

definition read_container_name :: "string \<Rightarrow> (string \<times> service_name \<times> copy_index) option" where
  "read_container_name s =
     (case rsplit_once (CHR ''.'') s of
        None \<Rightarrow> None
      | Some (front, copy) \<Rightarrow>
          (case rsplit_once (CHR ''.'') front of
             None \<Rightarrow> None
           | Some (app, service) \<Rightarrow>
               (case parse_u32 copy of
                  None \<Rightarrow> None
                | Some n \<Rightarrow> Some (app, ServiceName service, CopyIndex n))))"

definition container_text :: "string \<times> service_name \<times> copy_index \<Rightarrow> string" where
  "container_text = (\<lambda>(app, service, copy).
     app @ ''.'' @ service_str service @ ''.'' @ show_u32 (copy_get copy))"

definition container_ok :: "string \<times> service_name \<times> copy_index \<Rightarrow> bool" where
  "container_ok = (\<lambda>(app, service, copy). valid_service service)"

lemma read_container_text: "container_ok x \<Longrightarrow> read_container_name (container_text x) = Some x"
proof -
  assume ok: "container_ok x"
  obtain app service copy where x: "x = (app, service, copy)" by (cases x)
  have split: "rsplit_once (CHR ''.'') (container_text x)
      = Some (app @ ''.'' @ service_str service, show_u32 (copy_get copy))"
    using rsplit_once_append [of "CHR ''.''" "show_u32 (copy_get copy)" "app @ ''.'' @ service_str service"]
    by (simp add: x container_text_def show_u32_no)
  have "rsplit_once (CHR ''.'') (app @ ''.'' @ service_str service) = Some (app, service_str service)"
    using ok by (simp add: x container_ok_def valid_service_def)
  with split show ?thesis by (simp add: read_container_name_def x)
qed

interpretation container_codec: name_codec container_ok container_text read_container_name
  by unfold_locales (rule read_container_text)

lemma container_name_new_text:
  "container_name_new app service copy = Inr n \<Longrightarrow>
     container_str n = container_text (app, service, copy) \<and> safe_app_name app \<and> is_engine_safe app"
  by (auto simp: container_name_new_def container_text_def check_app_name_ok split: sum.splits)

text \<open>
  Two containers of any two apps have the same engine name only when app, service and
  copy agree, although app names may hold dots and service names hyphens.
\<close>

lemma container_names_distinct:
  assumes "container_name_new app1 s1 c1 = Inr n1" and "container_name_new app2 s2 c2 = Inr n2"
    and "valid_service s1" and "valid_service s2"
  shows "n1 = n2 \<longleftrightarrow> app1 = app2 \<and> s1 = s2 \<and> c1 = c2"
proof
  assume "n1 = n2"
  then have "container_text (app1, s1, c1) = container_text (app2, s2, c2)"
    using container_name_new_text assms(1,2) by metis
  then have "(app1, s1, c1) = (app2, s2, c2)"
    using assms(3,4) by (intro container_codec.render_inj) (simp_all add: container_ok_def)
  then show "app1 = app2 \<and> s1 = s2 \<and> c1 = c2" by simp
next
  assume "app1 = app2 \<and> s1 = s2 \<and> c1 = c2"
  then show "n1 = n2" using assms(1,2) by simp
qed

lemma engine_safe_container:
  assumes "container_name_new app s c = Inr n" and "valid_service s"
  shows "is_engine_safe (container_str n)"
proof -
  have "container_str n = app @ ''.'' @ service_str s @ ''.'' @ show_u32 (copy_get c)"
    "is_engine_safe app"
    using container_name_new_text [OF assms(1)] by (simp_all add: container_text_def)
  moreover have "list_all engine_char (show_u32 (copy_get c))"
    using show_u32_digits [of "copy_get c"]
    by (auto simp: list_all_iff engine_char_def is_ascii_alphanumeric_def)
  ultimately show ?thesis
    using assms(2) engine_safe_chars [of "service_str s"]
    by (cases app) (auto simp: valid_service_def engine_char_def)
qed

lemma release_name_not_copy:
  assumes "container_name_for_release app1 = Inr r" and "container_name_new app2 s c = Inr n"
  shows "r \<noteq> n"
proof
  assume "r = n"
  then have "app1 @ ''-release'' = container_text (app2, s, c)"
    using assms container_name_new_text [OF assms(2)]
    by (auto simp: container_name_for_release_def split: sum.splits)
  then have "last (app1 @ ''-release'') = last (container_text (app2, s, c))" by simp
  moreover have "last (container_text (app2, s, c)) \<in> set (show_u32 (copy_get c))"
    by (simp add: container_text_def)
  moreover have "last (app1 @ ''-release'') = CHR ''e''" by simp
  ultimately have "is_ascii_digit (CHR ''e'')"
    using show_u32_digits [of "copy_get c"] by (metis list_all_iff)
  then show False by (simp add: is_ascii_digit_def)
qed

text \<open>
  Every container name riku builds is a single engine-safe argument, and the release
  container of an app never has the name of a copy of any app.
\<close>

lemma container_names_engine_safe:
  assumes "container_name_new app s c = Inr n" and "valid_service s"
    and "container_name_for_release app' = Inr r"
  shows "is_engine_safe (container_str n) \<and> r \<noteq> n"
  using engine_safe_container [OF assms(1,2)] release_name_not_copy [OF assms(3,1)] by simp

lemma stop_signal_shape:
  "stop_signal_try_from raw = Inr s \<Longrightarrow>
     \<exists>suffix. signal_str s = ''SIG'' @ suffix \<and> suffix \<noteq> []
       \<and> list_all (\<lambda>c. is_ascii_uppercase c \<or> is_ascii_digit c) suffix"
  by (auto simp: stop_signal_try_from_def Let_def strip_prefix_Some split: option.splits if_splits)

end
