(* ===== verification/Compose_Values.thy ===== *)
theory Compose_Values
  imports Container_Types
begin

text \<open>
  The YAML tree a compose file is read into and the scalar helpers on it:
  \<open>compose/mod.rs\<close> (\<open>Value\<close>, \<open>Mapping\<close>), \<open>compose/scalar.rs\<close>,
  \<open>compose/keys.rs\<close> and \<open>compose/duration.rs\<close>.

  A \<open>Mapping\<close> is \<open>serde_json::Map\<close> without insertion order, so its entries
  are visited in ascending key order: the list of a \<open>VObject\<close> is an ordered map.
\<close>

section \<open>Values and errors\<close>

text \<open>A JSON number: an unsigned or a negative integer, or a float given by its text.\<close>

datatype number = PosInt nat | NegInt int | Float string

datatype yaml =
    VNull
  | VBool bool
  | VNumber number
  | VString string
  | VArray "yaml list"
  | VObject "(string \<times> yaml) list"

type_synonym mapping = "(string \<times> yaml) list"

datatype scalar_error =
    DecimalNumber string
  | NotScalar string
  | LineBreakOrNul string
  | NotAList string
  | InvalidPairName string string
  | PairNotString string
  | PairWithoutEquals string string
  | NotAMapOrList string
  | UnsupportedKey string string

datatype key_error =
    UnsupportedTopLevelKey string
  | NetworksNotMapping
  | NetworkNotDefault string
  | NetworkHasSettings
  | ServicesNotMapping
  | ServiceNotMapping string
  | UnsupportedServiceKey string string

fun number_text :: "number \<Rightarrow> string" where
  "number_text (PosInt n) = show_nat n"
| "number_text (NegInt i) = ''-'' @ show_nat (nat (- i))"
| "number_text (Float t) = t"

fun is_integer :: "number \<Rightarrow> bool" where
  "is_integer (PosInt n) = True"
| "is_integer (NegInt i) = True"
| "is_integer (Float t) = False"

fun as_u64 :: "number \<Rightarrow> nat option" where
  "as_u64 (PosInt n) = Some n"
| "as_u64 (NegInt i) = None"
| "as_u64 (Float t) = None"

definition bool_text :: "bool \<Rightarrow> string" where
  "bool_text b = (if b then ''true'' else ''false'')"

section \<open>scalar.rs\<close>

text \<open>\<open>format!("{what} '{key}'")\<close>, the field an error names.\<close>

definition field_of :: "string \<Rightarrow> string \<Rightarrow> string" where
  "field_of what key = what @ '' '' @ [CHR 0x27] @ key @ [CHR 0x27]"

fun scalar_text :: "yaml \<Rightarrow> string \<Rightarrow> (scalar_error, string) result" where
  "scalar_text (VString t) what = Inr t"
| "scalar_text (VBool flag) what = Inr (bool_text flag)"
| "scalar_text (VNumber n) what =
     (if is_integer n then Inr (number_text n) else Inl (DecimalNumber what))"
| "scalar_text _ what = Inl (NotScalar what)"

definition has_line_break_or_nul :: "string \<Rightarrow> bool" where
  "has_line_break_or_nul t \<longleftrightarrow> list_ex (\<lambda>c. c = CHR 0x0A \<or> c = CHR 0x0D \<or> c = CHR 0x00) t"

definition check_text :: "string \<Rightarrow> string \<Rightarrow> (scalar_error, unit) result" where
  "check_text t what = (if has_line_break_or_nul t then Inl (LineBreakOrNul what) else Inr ())"

definition text_value :: "yaml \<Rightarrow> string \<Rightarrow> (scalar_error, string) result" where
  "text_value v what =
     (case scalar_text v what of
        Inl e \<Rightarrow> Inl e
      | Inr t \<Rightarrow> (case check_text t what of Inr _ \<Rightarrow> Inr t | Inl e \<Rightarrow> Inl e))"

definition string_list :: "yaml \<Rightarrow> string \<Rightarrow> (scalar_error, string list) result" where
  "string_list v what =
     (case v of VArray items \<Rightarrow> traverse (\<lambda>item. text_value item what) items
      | _ \<Rightarrow> Inl (NotAList what))"

definition check_pair_key :: "string \<Rightarrow> string \<Rightarrow> (scalar_error, unit) result" where
  "check_pair_key key what =
     (if key = [] \<or> list_ex (\<lambda>c. c = CHR ''='' \<or> is_control c \<or> is_whitespace c) key
      then Inl (InvalidPairName what key) else Inr ())"

definition map_entry :: "string \<Rightarrow> string \<times> yaml \<Rightarrow> (scalar_error, string \<times> string) result" where
  "map_entry what = (\<lambda>(key, raw).
     case raw of
       VNull \<Rightarrow> Inr (key, [])
     | other \<Rightarrow> (case text_value other (field_of what key) of
                   Inr t \<Rightarrow> Inr (key, t) | Inl e \<Rightarrow> Inl e))"

definition list_entry :: "string \<Rightarrow> yaml \<Rightarrow> (scalar_error, string \<times> string) result" where
  "list_entry what item =
     (case item of
        VString entry \<Rightarrow>
          (case split_once (CHR ''='') entry of
             None \<Rightarrow> Inl (PairWithoutEquals what entry)
           | Some (key, t) \<Rightarrow>
               (case check_text t (field_of what key) of
                  Inl e \<Rightarrow> Inl e | Inr _ \<Rightarrow> Inr (key, t)))
      | _ \<Rightarrow> Inl (PairNotString what))"

definition string_map :: "yaml \<Rightarrow> string \<Rightarrow> (scalar_error, (string, string) btree) result" where
  "string_map v what =
     (case (case v of
              VObject entries \<Rightarrow> traverse (map_entry what) entries
            | VArray items \<Rightarrow> traverse (list_entry what) items
            | _ \<Rightarrow> Inl (NotAMapOrList what)) of
        Inl e \<Rightarrow> Inl e
      | Inr pairs \<Rightarrow>
          (let out = bt_collect pairs
           in case check_each (\<lambda>key. check_pair_key key what) (bt_keys out) of
                Inl e \<Rightarrow> Inl e | Inr _ \<Rightarrow> Inr out))"

definition reject_unknown :: "mapping \<Rightarrow> string list \<Rightarrow> string \<Rightarrow> (scalar_error, unit) result" where
  "reject_unknown m allowed what =
     (case find (\<lambda>key. key \<notin> set allowed) (bt_keys m) of
        Some key \<Rightarrow> Inl (UnsupportedKey what key)
      | None \<Rightarrow> Inr ())"

section \<open>keys.rs\<close>

definition SERVICE_KEYS :: "string list" where
  "SERVICE_KEYS = [''build'', ''command'', ''depends_on'', ''entrypoint'', ''env_file'',
     ''environment'', ''healthcheck'', ''image'', ''labels'', ''networks'', ''ports'', ''restart'',
     ''stop_grace_period'', ''stop_signal'', ''user'', ''volumes'', ''working_dir'']"

definition TOP_LEVEL_KEYS :: "string list" where
  "TOP_LEVEL_KEYS = [''services'', ''version'', ''volumes'', ''networks'', ''name'']"

text \<open>A network declared without settings.\<close>

definition plain_network :: "yaml \<Rightarrow> bool" where
  "plain_network settings =
     (case settings of VNull \<Rightarrow> True | VObject fs \<Rightarrow> fs = [] | _ \<Rightarrow> False)"

definition check_networks_key :: "yaml \<Rightarrow> (key_error, unit) result" where
  "check_networks_key networks =
     (case networks of
        VNull \<Rightarrow> Inr ()
      | VObject declared \<Rightarrow>
          check_each (\<lambda>(name, settings).
            if name \<noteq> ''default'' then Inl (NetworkNotDefault name)
            else if \<not> plain_network settings then Inl NetworkHasSettings
            else Inr ()) declared
      | _ \<Rightarrow> Inl NetworksNotMapping)"

definition check_services :: "yaml \<Rightarrow> (key_error, unit) result" where
  "check_services services =
     (case services of
        VObject entries \<Rightarrow>
          check_each (\<lambda>(name, service).
            case service of
              VObject fs \<Rightarrow>
                (case find (\<lambda>key. key \<notin> set SERVICE_KEYS) (bt_keys fs) of
                   Some key \<Rightarrow> Inl (UnsupportedServiceKey name key)
                 | None \<Rightarrow> Inr ())
            | _ \<Rightarrow> Inl (ServiceNotMapping name)) entries
      | _ \<Rightarrow> Inl ServicesNotMapping)"

definition check_keys :: "mapping \<Rightarrow> (key_error, unit) result" where
  "check_keys project =
     and_then (check_each (\<lambda>key.
         if key \<notin> set TOP_LEVEL_KEYS \<and> \<not> starts_with ''x-'' key
         then Inl (UnsupportedTopLevelKey key) else Inr ()) (bt_keys project)) (\<lambda>_.
     and_then (case bt_get project ''networks'' of
         Some networks \<Rightarrow> check_networks_key networks | None \<Rightarrow> Inr ()) (\<lambda>_.
     case bt_get project ''services'' of
       None \<Rightarrow> Inr ()
     | Some services \<Rightarrow> check_services services))"

section \<open>duration.rs\<close>

text \<open>
  \<open>Duration\<close> holds whole seconds in a \<open>u64\<close> and a sub-second part, so a sum
  overflows from \<open>2 ^ 64\<close> seconds on; an amount of minutes or hours overflows when its
  seconds do.
\<close>

definition DURATION_LIMIT :: nat where
  "DURATION_LIMIT = 2 ^ 64 * NANOS_PER_SEC"

definition checked_duration_add :: "duration \<Rightarrow> duration \<Rightarrow> duration option" where
  "checked_duration_add a b = (if a + b < DURATION_LIMIT then Some (a + b) else None)"

definition checked_secs :: "nat \<Rightarrow> nat \<Rightarrow> duration option" where
  "checked_secs amount factor =
     (if amount * factor < 2 ^ 64 then Some (from_secs (amount * factor)) else None)"

definition duration_part :: "nat \<Rightarrow> string \<Rightarrow> duration option" where
  "duration_part amount unit =
     (if unit = ''us'' then Some (amount * 1000)
      else if unit = ''ms'' then Some (amount * 1000000)
      else if unit = ''s'' then Some (from_secs amount)
      else if unit = ''m'' then checked_secs amount 60
      else if unit = ''h'' then checked_secs amount 3600
      else None)"

text \<open>One round of the loop reads digits and then a unit, and leaves a shorter rest.\<close>

definition duration_round :: "string \<Rightarrow> (duration \<times> string) option" where
  "duration_round rest =
     (let digits = takeWhile is_ascii_digit rest; after = dropWhile is_ascii_digit rest
      in if digits = [] \<or> after = [] then None
         else case parse_u64 digits of
                None \<Rightarrow> None
              | Some amount \<Rightarrow>
                  (case duration_part amount (takeWhile (\<lambda>c. \<not> is_ascii_digit c) after) of
                     None \<Rightarrow> None
                   | Some part \<Rightarrow> Some (part, dropWhile (\<lambda>c. \<not> is_ascii_digit c) after)))"

lemma duration_round_shorter: "duration_round rest = Some (part, rest') \<Longrightarrow> length rest' < length rest"
proof -
  let ?after = "dropWhile is_ascii_digit rest"
  assume "duration_round rest = Some (part, rest')"
  then have rest': "rest' = dropWhile (\<lambda>c. \<not> is_ascii_digit c) ?after"
    and "takeWhile is_ascii_digit rest \<noteq> []"
    by (auto simp: duration_round_def Let_def split: option.splits if_splits)
  then have "length ?after < length rest"
    by (metis append_self_conv2 le_neq_implies_less length_dropWhile_le length_append
        add_cancel_left_left length_0_conv takeWhile_dropWhile_id)
  moreover have "length rest' \<le> length ?after"
    unfolding rest' by (rule length_dropWhile_le)
  ultimately show ?thesis by simp
qed

function parse_duration_loop :: "string \<Rightarrow> duration \<Rightarrow> duration option" where
  "parse_duration_loop rest acc =
     (if rest = [] then Some acc
      else case duration_round rest of
             None \<Rightarrow> None
           | Some (part, rest') \<Rightarrow>
               (case checked_duration_add acc part of
                  None \<Rightarrow> None
                | Some acc' \<Rightarrow> parse_duration_loop rest' acc'))"
  by pat_completeness auto
termination
  by (relation "measure (length \<circ> fst)") (auto dest: duration_round_shorter)

declare parse_duration_loop.simps [simp del]

definition parse_duration :: "string \<Rightarrow> (string, duration) result" where
  "parse_duration raw =
     (if raw = [] then Inl raw
      else case parse_duration_loop raw 0 of Some d \<Rightarrow> Inr d | None \<Rightarrow> Inl raw)"

section \<open>What the scalar helpers guarantee\<close>

lemma check_text_Inr [result_simps]: "check_text t what = Inr u \<longleftrightarrow> \<not> has_line_break_or_nul t"
  by (simp add: check_text_def)

lemma text_value_clean: "text_value v what = Inr t \<Longrightarrow> \<not> has_line_break_or_nul t"
  by (auto simp: text_value_def result_simps split: sum.splits)

lemma string_list_clean: "string_list v what = Inr ts \<Longrightarrow> t \<in> set ts \<Longrightarrow> \<not> has_line_break_or_nul t"
  by (auto simp: string_list_def split: yaml.splits dest!: traverse_set text_value_clean)

lemma reject_unknown_Inr [result_simps]:
  "reject_unknown m allowed what = Inr u \<longleftrightarrow> set (bt_keys m) \<subseteq> set allowed"
  by (auto simp: reject_unknown_def find_None_iff split: option.splits)
     (metis (no_types, lifting) find_Some_iff nth_mem subsetD)

definition clean_pair :: "string \<times> string \<Rightarrow> bool" where
  "clean_pair p \<longleftrightarrow> fst p \<noteq> [] \<and> \<not> has_line_break_or_nul (snd p)
     \<and> list_all (\<lambda>c. c \<noteq> CHR ''='' \<and> \<not> is_control c \<and> \<not> is_whitespace c) (fst p)"

lemma map_entry_clean: "map_entry what kv = Inr p \<Longrightarrow> \<not> has_line_break_or_nul (snd p)"
  by (cases kv) (auto simp: map_entry_def has_line_break_or_nul_def [of "[]"]
      split: yaml.splits sum.splits dest: text_value_clean)

lemma list_entry_clean: "list_entry what item = Inr p \<Longrightarrow> \<not> has_line_break_or_nul (snd p)"
  by (auto simp: list_entry_def check_text_Inr split: yaml.splits option.splits sum.splits)

lemma string_map_clean:
  assumes "string_map v what = Inr m"
  shows "bt_ok m \<and> (\<forall>p \<in> set m. clean_pair p)"
proof -
  let ?pairs = "case v of VObject entries \<Rightarrow> traverse (map_entry what) entries
    | VArray items \<Rightarrow> traverse (list_entry what) items | _ \<Rightarrow> Inl (NotAMapOrList what)"
  obtain pairs where pairs: "?pairs = Inr pairs" and m: "m = bt_collect pairs"
    and keys: "\<forall>key \<in> set (bt_keys m). check_pair_key key what = Inr ()"
    using assms unfolding string_map_def
    by (cases ?pairs) (auto simp: Let_def check_each_Inr split: sum.splits)
  have "\<forall>p \<in> set pairs. \<not> has_line_break_or_nul (snd p)"
    using pairs by (auto split: yaml.splits dest!: traverse_set map_entry_clean list_entry_clean)
  then have vals: "\<forall>p \<in> set m. \<not> has_line_break_or_nul (snd p)"
    unfolding m bt_collect_def by (intro bt_extend_all) auto
  have "clean_pair p" if "p \<in> set m" for p
  proof -
    have "fst p \<in> set (bt_keys m)" using that by (simp add: bt_keys_def)
    then have "check_pair_key (fst p) what = Inr ()" using keys by blast
    then show ?thesis
      using vals that
      by (auto simp: clean_pair_def check_pair_key_def list_ex_iff list_all_iff split: if_splits)
  qed
  then show ?thesis using bt_ok_collect m by blast
qed

section \<open>Durations\<close>

lemma loop_bound:
  "parse_duration_loop s acc = Some d \<Longrightarrow> acc < DURATION_LIMIT \<Longrightarrow> acc \<le> d \<and> d < DURATION_LIMIT"
proof (induction s acc rule: parse_duration_loop.induct)
  case (1 s acc)
  show ?case
  proof (cases "s = []")
    case True
    then show ?thesis using 1 by (simp add: parse_duration_loop.simps)
  next
    case False
    then obtain part rest' acc' where r: "duration_round s = Some (part, rest')"
      "checked_duration_add acc part = Some acc'" "parse_duration_loop rest' acc' = Some d"
      using "1.prems"(1) by (subst (asm) parse_duration_loop.simps) (auto split: option.splits)
    then have "acc \<le> acc'" "acc' < DURATION_LIMIT"
      by (auto simp: checked_duration_add_def split: if_splits)
    then show ?thesis using "1.IH" [OF False r(1) refl r(2,3)] by auto
  qed
qed

lemma round_append:
  assumes "duration_round a = Some (part, rest')" and "b \<noteq> []" "is_ascii_digit (hd b)"
  shows "duration_round (a @ b) = Some (part, rest' @ b)"
proof -
  let ?D = is_ascii_digit and ?N = "\<lambda>c. \<not> is_ascii_digit c"
  have ne: "takeWhile ?D a \<noteq> []" "dropWhile ?D a \<noteq> []"
    using assms(1) by (auto simp: duration_round_def Let_def split: if_splits)
  then have some: "\<exists>x \<in> set a. \<not> ?D x" by (metis dropWhile_eq_Nil_conv)
  have split: "takeWhile ?D (a @ b) = takeWhile ?D a" "dropWhile ?D (a @ b) = dropWhile ?D a @ b"
    using some by (auto simp: takeWhile_append1 dropWhile_append1)
  have unit: "takeWhile ?N (dropWhile ?D a @ b) = takeWhile ?N (dropWhile ?D a)
      \<and> dropWhile ?N (dropWhile ?D a @ b) = dropWhile ?N (dropWhile ?D a) @ b"
  proof (cases "\<exists>x \<in> set (dropWhile ?D a). ?D x")
    case True
    then show ?thesis by (auto simp: takeWhile_append1 dropWhile_append1)
  next
    case False
    then have "takeWhile ?N (dropWhile ?D a @ b) = dropWhile ?D a @ takeWhile ?N b"
      "dropWhile ?N (dropWhile ?D a @ b) = dropWhile ?N b"
      "takeWhile ?N (dropWhile ?D a) = dropWhile ?D a" "dropWhile ?N (dropWhile ?D a) = []"
      by (auto simp: takeWhile_append2 dropWhile_append2 takeWhile_eq_all_conv)
    moreover have "takeWhile ?N b = []" "dropWhile ?N b = b" using assms(2,3) by (cases b; simp)+
    ultimately show ?thesis by (simp only: append_Nil append_Nil2 conj_assoc simp_thms)
  qed
  show ?thesis
    using assms(1) ne unit by (auto simp: duration_round_def Let_def split split: option.splits if_splits)
qed

lemma loop_append:
  assumes "parse_duration_loop a acc = Some d" and "b \<noteq> []" "is_ascii_digit (hd b)"
  shows "parse_duration_loop (a @ b) acc = parse_duration_loop b d"
  using assms
proof (induction a acc rule: parse_duration_loop.induct)
  case (1 a acc)
  show ?case
  proof (cases "a = []")
    case True
    then show ?thesis using "1.prems" by (simp add: parse_duration_loop.simps [of "[]"])
  next
    case False
    then obtain part rest' acc' where r: "duration_round a = Some (part, rest')"
      "checked_duration_add acc part = Some acc'" "parse_duration_loop rest' acc' = Some d"
      using "1.prems"(1) by (subst (asm) parse_duration_loop.simps) (auto split: option.splits)
    have "parse_duration_loop (a @ b) acc = parse_duration_loop (rest' @ b) acc'"
      using False r round_append [OF r(1) "1.prems"(2,3)]
      by (subst parse_duration_loop.simps) simp
    then show ?thesis using "1.IH" [OF False r(1) refl r(2,3) "1.prems"(2,3)] by simp
  qed
qed

lemma loop_shift:
  "acc + d < DURATION_LIMIT \<Longrightarrow> parse_duration_loop s k = Some (k + d)
    \<Longrightarrow> parse_duration_loop s acc = Some (acc + d)"
proof (induction s k arbitrary: acc d rule: parse_duration_loop.induct)
  case (1 s k)
  show ?case
  proof (cases "s = []")
    case True
    then show ?thesis using "1.prems" by (simp add: parse_duration_loop.simps)
  next
    case False
    then obtain part rest' k' where r: "duration_round s = Some (part, rest')"
      "checked_duration_add k part = Some k'" "parse_duration_loop rest' k' = Some (k + d)"
      using "1.prems"(2) by (subst (asm) parse_duration_loop.simps) (auto split: option.splits)
    then have k': "k' = k + part" "k' < DURATION_LIMIT"
      by (auto simp: checked_duration_add_def split: if_splits)
    then have "part \<le> d" using loop_bound [OF r(3)] by simp
    then have "parse_duration_loop rest' k' = Some (k' + (d - part))" using r(3) k' by simp
    moreover have "acc + part + (d - part) < DURATION_LIMIT" using "1.prems"(1) \<open>part \<le> d\<close> by simp
    ultimately have "parse_duration_loop rest' (acc + part) = Some (acc + part + (d - part))"
      using "1.IH" [OF False r(1) refl r(2)] by blast
    then show ?thesis
      using False r(1) "1.prems"(1) \<open>part \<le> d\<close>
      by (subst parse_duration_loop.simps) (simp add: checked_duration_add_def)
  qed
qed

lemma parse_duration_Inr:
  "parse_duration raw = Inr d \<longleftrightarrow> raw \<noteq> [] \<and> parse_duration_loop raw 0 = Some d"
  by (auto simp: parse_duration_def split: option.splits)

lemma parse_duration_digit: "parse_duration raw = Inr d \<Longrightarrow> raw \<noteq> [] \<and> is_ascii_digit (hd raw)"
proof -
  assume "parse_duration raw = Inr d"
  then have ne: "raw \<noteq> []" and loop: "parse_duration_loop raw 0 = Some d"
    by (simp_all add: parse_duration_Inr)
  then have "duration_round raw \<noteq> None"
    by (subst (asm) parse_duration_loop.simps) (auto split: option.splits)
  then have "takeWhile is_ascii_digit raw \<noteq> []"
    by (auto simp: duration_round_def Let_def split: if_splits)
  then show ?thesis using ne by (cases raw) (auto split: if_splits)
qed

text \<open>
  Durations written one after the other add up: if two texts parse, their
  concatenation parses to the sum, unless the sum passes \<open>2 ^ 64\<close> seconds, and then it is
  refused.  No parsed duration ever reaches that limit.
\<close>

lemma parse_duration_append:
  assumes "parse_duration a = Inr x" and "parse_duration b = Inr y"
  shows "x < DURATION_LIMIT
    \<and> (x + y < DURATION_LIMIT \<longrightarrow> parse_duration (a @ b) = Inr (x + y))
    \<and> (DURATION_LIMIT \<le> x + y \<longrightarrow> parse_duration (a @ b) = Inl (a @ b))"
proof -
  have loops: "parse_duration_loop a 0 = Some x" "parse_duration_loop b 0 = Some y"
    and ne: "a \<noteq> []" using assms by (simp_all add: parse_duration_Inr)
  have pos: "0 < DURATION_LIMIT" by (simp add: DURATION_LIMIT_def NANOS_PER_SEC_def)
  have x: "x < DURATION_LIMIT" using loop_bound [OF loops(1) pos] by simp
  have join: "parse_duration_loop (a @ b) 0 = parse_duration_loop b x"
    using loop_append [OF loops(1)] parse_duration_digit [OF assms(2)] by simp
  have ok: "x + y < DURATION_LIMIT \<Longrightarrow> parse_duration_loop b x = Some (x + y)"
    using loop_shift [of x y b 0] loops(2) by simp
  have over: "parse_duration_loop b x = None" if "DURATION_LIMIT \<le> x + y"
  proof (rule ccontr)
    assume "parse_duration_loop b x \<noteq> None"
    then obtain z where z: "parse_duration_loop b x = Some z" by blast
    have "x \<le> z" "z < DURATION_LIMIT" using loop_bound [OF z x] by simp_all
    then have "parse_duration_loop b 0 = Some (0 + (z - x))"
      using loop_shift [of 0 "z - x" b x] z by simp
    then have "y = z - x" using loops(2) by simp
    then show False using that \<open>x \<le> z\<close> \<open>z < DURATION_LIMIT\<close> by simp
  qed
  show ?thesis using x ne ok over join by (auto simp: parse_duration_def)
qed

end
