(* ===== verification/Compose_Text.thy ===== *)
theory Compose_Text
  imports Compose_Values
begin

text \<open>
  Expansion of variables and the \<open>.env\<close> syntax: \<open>compose/interpolate.rs\<close>,
  \<open>compose/dotenv_value.rs\<close> and the parser of \<open>compose/environment.rs\<close>.

  The \<open>warnings\<close> vector the Rust functions push to is returned with the value.  It is
  local to \<open>read_raw\<close>, which drops it when an error is returned, so an error carries none.
  A byte index returned by a scan is only used to cut the text there; the scans return the pieces.
\<close>

section \<open>interpolate.rs\<close>

type_synonym lookup = "string \<Rightarrow> string option"
type_synonym warnings = "string list"

datatype interp_error =
    TooLarge
  | LoneDollar string
  | Unterminated string
  | UnsupportedName string
  | UnsupportedForm string

definition push_capped :: "string \<Rightarrow> string \<Rightarrow> nat \<Rightarrow> (interp_error, string) result" where
  "push_capped out piece cap =
     (if cap < str_len out + str_len piece then Inl TooLarge else Inr (out @ piece))"

definition is_name_char :: "char \<Rightarrow> bool" where
  "is_name_char c \<longleftrightarrow> is_ascii_alphanumeric c \<or> c = CHR ''_''"

definition is_valid_name :: "string \<Rightarrow> bool" where
  "is_valid_name name \<longleftrightarrow> name \<noteq> [] \<and> \<not> is_ascii_digit (hd name)"

text \<open>
  The text up to the brace that brings the depth back to 0.  The scanned text starts with
  \<open>${\<close>, so the depth is positive whenever a closing brace is met.
\<close>

fun matching_brace :: "nat \<Rightarrow> string \<Rightarrow> string option" where
  "matching_brace depth [] = None"
| "matching_brace depth (c # s) =
     (if c = CHR ''{'' then map_option (Cons c) (matching_brace (depth + 1) s)
      else if c = CHR ''}'' then
        (if depth - 1 = 0 then Some [c] else map_option (Cons c) (matching_brace (depth - 1) s))
      else map_option (Cons c) (matching_brace depth s))"

definition braced_expression :: "string \<Rightarrow> (interp_error, string) result" where
  "braced_expression s =
     (case matching_brace 0 s of Some e \<Rightarrow> Inr e | None \<Rightarrow> Inl (Unterminated s))"

definition expression_at :: "string \<Rightarrow> (interp_error, string) result" where
  "expression_at s =
     (let after = tl s
      in if starts_with ''$'' after then Inr ''$$''
         else if starts_with ''{'' after then braced_expression s
         else let name = takeWhile is_name_char after
              in if \<not> is_valid_name name then Inl (LoneDollar (take 2 s))
                 else Inr (take (1 + length name) s))"

definition unset_warning :: "string \<Rightarrow> string" where
  "unset_warning name = ''variable '' @ name @ '' is not set; using an empty string''"

definition value_or_warn :: "string \<Rightarrow> lookup \<Rightarrow> warnings \<Rightarrow> string \<times> warnings" where
  "value_or_warn name lookup warnings =
     (case lookup name of
        Some v \<Rightarrow> (v, warnings)
      | None \<Rightarrow>
          (if unset_warning name \<in> set warnings then ([], warnings)
           else ([], warnings @ [unset_warning name])))"

definition braced_body :: "string \<Rightarrow> string option" where
  "braced_body expression =
     (case strip_prefix ''${'' expression of None \<Rightarrow> None | Some b \<Rightarrow> strip_suffix ''}'' b)"

definition expand :: "string \<Rightarrow> lookup \<Rightarrow> warnings \<Rightarrow> (interp_error, string \<times> warnings) result" where
  "expand expression lookup warnings =
     (if expression = ''$$'' then Inr (''$'', warnings)
      else case braced_body expression of
             None \<Rightarrow> Inr (value_or_warn (tl expression) lookup warnings)
           | Some body \<Rightarrow>
               (let name = takeWhile is_name_char body; rest = dropWhile is_name_char body
                in if \<not> is_valid_name name then Inl (UnsupportedName expression)
                   else if rest = [] then Inr (value_or_warn name lookup warnings)
                   else case strip_prefix '':-'' rest of
                          Some fallback \<Rightarrow>
                            (if CHR ''$'' \<notin> set fallback
                             then Inr (case lookup name of
                                         Some v \<Rightarrow> if v \<noteq> [] then v else fallback
                                       | None \<Rightarrow> fallback, warnings)
                             else Inl (UnsupportedForm expression))
                        | None \<Rightarrow> Inl (UnsupportedForm expression)))"

lemma matching_brace_nonempty: "matching_brace depth s = Some e \<Longrightarrow> e \<noteq> []"
  by (induction depth s rule: matching_brace.induct) (auto split: if_splits)

lemma expression_at_nonempty: "expression_at s = Inr e \<Longrightarrow> s \<noteq> [] \<Longrightarrow> 0 < length e"
  by (auto simp: expression_at_def braced_expression_def Let_def
      split: if_splits option.splits dest: matching_brace_nonempty)

lemma rest_shrinks:
  assumes "CHR ''$'' \<in> set rest" and "expression_at (dropWhile (\<lambda>c. c \<noteq> CHR ''$'') rest) = Inr e"
  shows "length (drop (length e) (dropWhile (\<lambda>c. c \<noteq> CHR ''$'') rest)) < length rest"
proof -
  let ?at = "dropWhile (\<lambda>c. c \<noteq> CHR ''$'') rest"
  have ne: "?at \<noteq> []" using assms(1) by (auto simp: dropWhile_eq_Nil_conv)
  then have "0 < length e" using assms(2) expression_at_nonempty by blast
  moreover have "length ?at \<le> length rest" by (rule length_dropWhile_le)
  moreover have "0 < length ?at" using ne by simp
  ultimately show ?thesis unfolding length_drop by linarith
qed

text \<open>The loop of \<open>interpolate_capped\<close>: \<open>rest\<close> is the text not yet expanded.\<close>

function interpolate_loop ::
  "lookup \<Rightarrow> nat \<Rightarrow> string \<Rightarrow> string \<Rightarrow> warnings \<Rightarrow> (interp_error, string \<times> warnings) result" where
  "interpolate_loop lookup cap rest out warnings =
     (if CHR ''$'' \<notin> set rest
      then and_then (push_capped out rest cap) (\<lambda>out. Inr (out, warnings))
      else
        let before = takeWhile (\<lambda>c. c \<noteq> CHR ''$'') rest; at = dropWhile (\<lambda>c. c \<noteq> CHR ''$'') rest
        in and_then (push_capped out before cap) (\<lambda>out.
           and_then (expression_at at) (\<lambda>expression.
           and_then (expand expression lookup warnings) (\<lambda>(piece, warnings).
           and_then (push_capped out piece cap) (\<lambda>out.
             interpolate_loop lookup cap (drop (length expression) at) out warnings)))))"
  by pat_completeness auto

termination
  by (relation "measure (\<lambda>(lookup, cap, rest, out, w). length rest)") (auto dest: rest_shrinks)

declare interpolate_loop.simps [simp del]

definition interpolate_capped ::
  "string \<Rightarrow> lookup \<Rightarrow> nat \<Rightarrow> warnings \<Rightarrow> (interp_error, string \<times> warnings) result" where
  "interpolate_capped text lookup cap warnings = interpolate_loop lookup cap text [] warnings"

section \<open>dotenv_value.rs\<close>

datatype open_quote = QuoteNone | QuoteSingle | QuoteDouble

datatype value_error = Malformed malformed | ValueTooLarge
  and malformed =
    OpenSingleQuote
  | OpenDoubleQuote
  | UnescapedQuote
  | LoneBackslash
  | BadInterpolation interp_error

abbreviation SQUOTE :: char where "SQUOTE \<equiv> CHR 0x27"
abbreviation DQUOTE :: char where "DQUOTE \<equiv> CHR 0x22"
abbreviation BACKSLASH :: char where "BACKSLASH \<equiv> CHR 0x5C"
abbreviation NEWLINE :: char where "NEWLINE \<equiv> CHR 0x0A"
abbreviation TAB :: char where "TAB \<equiv> CHR 0x09"

text \<open>The text before and after the first double quote that no backslash escapes.\<close>

fun quote_scan :: "bool \<Rightarrow> string \<Rightarrow> (string \<times> string) option" where
  "quote_scan escaped [] = None"
| "quote_scan escaped (c # s) =
     (if escaped then map_option (apfst (Cons c)) (quote_scan False s)
      else if c = BACKSLASH then map_option (apfst (Cons c)) (quote_scan True s)
      else if c = DQUOTE then Some ([], s)
      else map_option (apfst (Cons c)) (quote_scan False s))"

definition closing_double_quote :: "string \<Rightarrow> (string \<times> string) option" where
  "closing_double_quote quoted = quote_scan False quoted"

definition after_line :: "open_quote \<Rightarrow> string \<Rightarrow> open_quote" where
  "after_line quote line =
     (let closed = (case quote of
                      QuoteNone \<Rightarrow> True
                    | QuoteSingle \<Rightarrow> SQUOTE \<in> set line
                    | QuoteDouble \<Rightarrow> closing_double_quote line \<noteq> None)
      in if closed then QuoteNone else quote)"

definition after_first_line :: "string \<Rightarrow> open_quote" where
  "after_first_line line =
     (case strip_prefix [SQUOTE] line of
        Some quoted \<Rightarrow> after_line QuoteSingle quoted
      | None \<Rightarrow>
          (case strip_prefix [DQUOTE] line of
             Some quoted \<Rightarrow> after_line QuoteDouble quoted
           | None \<Rightarrow> QuoteNone))"

definition within_cap :: "string \<Rightarrow> nat \<Rightarrow> (value_error, string) result" where
  "within_cap v cap = (if cap < str_len v then Inl ValueTooLarge else Inr v)"

definition is_blank_or_comment :: "string \<Rightarrow> bool" where
  "is_blank_or_comment after_quote \<longleftrightarrow>
     (let rest = trim_start after_quote
      in rest = [] \<or> starts_with ''#'' rest \<and> after_quote \<noteq> [] \<and> is_whitespace (hd after_quote))"

fun unescape_double_quoted :: "string \<Rightarrow> (malformed, string) result" where
  "unescape_double_quoted [] = Inr []"
| "unescape_double_quoted (c # s) =
     (if c = DQUOTE then Inl UnescapedQuote
      else if c = BACKSLASH then
        (case s of
           [] \<Rightarrow> Inl LoneBackslash
         | d # s' \<Rightarrow>
             and_then (unescape_double_quoted s') (\<lambda>out. Inr
               ((if d = CHR ''n'' then [NEWLINE] else if d = CHR ''t'' then [TAB]
                 else if d = BACKSLASH then [BACKSLASH] else if d = DQUOTE then [DQUOTE]
                 else [BACKSLASH, d]) @ out)))
      else and_then (unescape_double_quoted s) (\<lambda>out. Inr (c # out)))"

text \<open>\<open>raw[..raw.find(" #")]\<close>: the text before a comment.\<close>

fun before_comment :: "string \<Rightarrow> string" where
  "before_comment [] = []"
| "before_comment (c # s) = (if starts_with '' #'' (c # s) then [] else c # before_comment s)"

definition value_text :: "string \<Rightarrow> (value_error, string) result" where
  "value_text raw =
     (case strip_prefix [DQUOTE] raw of
        Some quoted \<Rightarrow>
          (case closing_double_quote quoted of
             Some (inner, after) \<Rightarrow>
               (if is_blank_or_comment after then map_err Malformed (unescape_double_quoted inner)
                else Inl (Malformed OpenDoubleQuote))
           | None \<Rightarrow> Inl (Malformed OpenDoubleQuote))
      | None \<Rightarrow> Inr (trim_end (before_comment raw)))"

fun interp_value_error :: "interp_error \<Rightarrow> value_error" where
  "interp_value_error TooLarge = ValueTooLarge"
| "interp_value_error e = Malformed (BadInterpolation e)"

definition parse_value ::
  "string \<Rightarrow> lookup \<Rightarrow> nat \<Rightarrow> warnings \<Rightarrow> (value_error, string \<times> warnings) result" where
  "parse_value raw lookup cap warnings =
     (case strip_prefix [SQUOTE] raw of
        Some quoted \<Rightarrow>
          (case split_once SQUOTE quoted of
             Some (inner, after) \<Rightarrow>
               (if is_blank_or_comment after
                then and_then (within_cap inner cap) (\<lambda>v. Inr (v, warnings))
                else Inl (Malformed OpenSingleQuote))
           | None \<Rightarrow> Inl (Malformed OpenSingleQuote))
      | None \<Rightarrow>
          and_then (value_text raw) (\<lambda>text.
            if CHR ''$'' \<notin> set text
            then and_then (within_cap text cap) (\<lambda>v. Inr (v, warnings))
            else map_err interp_value_error (interpolate_capped text lookup cap warnings)))"

section \<open>environment.rs\<close>

definition MAX_APP_FILE_BYTES :: nat where
  "MAX_APP_FILE_BYTES = 1024 * 1024"

definition MAX_EXPANDED_BYTES :: nat where
  "MAX_EXPANDED_BYTES = MAX_APP_FILE_BYTES"

datatype dotenv_reason =
    ExpectedKeyValue
  | InvalidVariable string
  | ValuesTooLarge string
  | ValueMalformed string malformed

text \<open>A \<open>.env\<close> error names the file, the line the entry starts on and the reason.\<close>

datatype dotenv_error = DotenvError string nat dotenv_reason

type_synonym env_map = "(string, string) btree"

definition is_valid_key :: "string \<Rightarrow> bool" where
  "is_valid_key key \<longleftrightarrow>
     (case key of
        [] \<Rightarrow> False
      | c # cs \<Rightarrow> (is_ascii_alphabetic c \<or> c = CHR ''_'') \<and>
          list_all (\<lambda>c. is_ascii_alphanumeric c \<or> c = CHR ''_'' \<or> c = CHR ''.'' \<or> c = CHR ''-'') cs)"

text \<open>
  The loop that appends lines while the value's quote is open; it returns the raw value and
  the lines left.
\<close>

fun open_lines :: "open_quote \<Rightarrow> string \<Rightarrow> string list \<Rightarrow> string \<times> string list" where
  "open_lines quote raw [] = (raw, [])"
| "open_lines quote raw (l # ls) =
     (if quote = QuoteNone then (raw, l # ls)
      else open_lines (after_line quote l) (raw @ [NEWLINE] @ l) ls)"

lemma open_lines_length: "length (snd (open_lines quote raw ls)) \<le> length ls"
  by (induction quote raw ls rule: open_lines.induct) auto

definition dotenv_lookup :: "env_map \<Rightarrow> env_map \<Rightarrow> lookup" where
  "dotenv_lookup outside vars name =
     (case bt_get outside name of Some v \<Rightarrow> Some v | None \<Rightarrow> bt_get vars name)"

fun value_reason :: "string \<Rightarrow> value_error \<Rightarrow> dotenv_reason" where
  "value_reason key ValueTooLarge = ValuesTooLarge key"
| "value_reason key (Malformed reason) = ValueMalformed key reason"

text \<open>
  One round of the \<open>while\<close> loop, on line \<open>l\<close> with index \<open>start\<close>: the lines left, the
  variables, the bytes used so far and the warnings.
\<close>

definition dotenv_entry ::
  "string \<Rightarrow> env_map \<Rightarrow> nat \<Rightarrow> string \<Rightarrow> string list \<Rightarrow> env_map \<Rightarrow> nat \<Rightarrow> warnings
     \<Rightarrow> (dotenv_error, string list \<times> env_map \<times> nat \<times> warnings) result" where
  "dotenv_entry source outside start l ls vars used warnings =
     (let line = trim l; fail = (\<lambda>r. Inl (DotenvError source (start + 1) r))
      in if line = [] \<or> starts_with ''#'' line then Inr (ls, vars, used, warnings)
         else
           let statement = (case strip_prefix ''export '' line of Some s \<Rightarrow> s | None \<Rightarrow> line)
           in case split_once (CHR ''='') statement of
                None \<Rightarrow>
                  (let key = trim statement
                   in if \<not> is_valid_key key then fail ExpectedKeyValue
                      else case bt_get outside key of
                             Some v \<Rightarrow> Inr (ls, bt_insert key v vars, used, warnings)
                           | None \<Rightarrow> Inr (ls, vars, used, warnings))
              | Some (key, value1) \<Rightarrow>
                  (let key = trim key
                   in if \<not> is_valid_key key then fail (InvalidVariable key)
                      else
                        let raw1 = trim value1;
                            gathered = open_lines (after_first_line raw1) raw1 ls
                        in case parse_value (trim_end (fst gathered)) (dotenv_lookup outside vars)
                                  (MAX_EXPANDED_BYTES - used) warnings of
                             Inl e \<Rightarrow> fail (value_reason key e)
                           | Inr (v, warnings) \<Rightarrow>
                               Inr (snd gathered, bt_insert key v vars, used + str_len v, warnings)))"

lemma dotenv_entry_length:
  "dotenv_entry source outside start l ls vars used ws = Inr (ls', r) \<Longrightarrow> length ls' \<le> length ls"
  by (auto simp: dotenv_entry_def Let_def open_lines_length
      split: if_splits option.splits sum.splits prod.splits)

function dotenv_loop ::
  "string \<Rightarrow> env_map \<Rightarrow> nat \<Rightarrow> string list \<Rightarrow> env_map \<Rightarrow> nat \<Rightarrow> warnings
     \<Rightarrow> (dotenv_error, env_map \<times> warnings) result" where
  "dotenv_loop source outside start [] vars used warnings = Inr (vars, warnings)"
| "dotenv_loop source outside start (l # ls) vars used warnings =
     and_then (dotenv_entry source outside start l ls vars used warnings)
       (\<lambda>(ls', vars', used', warnings').
          dotenv_loop source outside (start + 1 + (length ls - length ls')) ls' vars' used' warnings')"
  by pat_completeness auto
termination
  by (relation "measure (\<lambda>(source, outside, start, ls, r). length ls)")
     (auto simp: less_Suc_eq_le dest: dotenv_entry_length)

declare dotenv_loop.simps [simp del]

definition parse_dotenv ::
  "string \<Rightarrow> string \<Rightarrow> env_map \<Rightarrow> warnings \<Rightarrow> (dotenv_error, env_map \<times> warnings) result" where
  "parse_dotenv source text outside warnings = dotenv_loop source outside 0 (lines text) [] 0 warnings"

section \<open>Expansion against its specification\<close>

text \<open>
  A text is a sequence of segments; an expansion is the concatenation of their values, read off
  the variables once.  This is what a single pass means: no value is scanned again.
\<close>

datatype segment = Literal string | Variable string | VariableOr string string

definition classify :: "string \<Rightarrow> (interp_error, segment) result" where
  "classify expression =
     (if expression = ''$$'' then Inr (Literal ''$'')
      else case braced_body expression of
             None \<Rightarrow> Inr (Variable (tl expression))
           | Some body \<Rightarrow>
               (let name = takeWhile is_name_char body; rest = dropWhile is_name_char body
                in if \<not> is_valid_name name then Inl (UnsupportedName expression)
                   else if rest = [] then Inr (Variable name)
                   else case strip_prefix '':-'' rest of
                          Some fallback \<Rightarrow>
                            (if CHR ''$'' \<notin> set fallback then Inr (VariableOr name fallback)
                             else Inl (UnsupportedForm expression))
                        | None \<Rightarrow> Inl (UnsupportedForm expression)))"

fun segment_text :: "lookup \<Rightarrow> segment \<Rightarrow> string" where
  "segment_text lookup (Literal t) = t"
| "segment_text lookup (Variable name) = (case lookup name of Some v \<Rightarrow> v | None \<Rightarrow> [])"
| "segment_text lookup (VariableOr name fallback) =
     (case lookup name of Some v \<Rightarrow> if v \<noteq> [] then v else fallback | None \<Rightarrow> fallback)"

fun noted :: "lookup \<Rightarrow> segment \<Rightarrow> warnings \<Rightarrow> warnings" where
  "noted lookup (Variable name) warnings = snd (value_or_warn name lookup warnings)"
| "noted lookup _ warnings = warnings"

function text_segments :: "string \<Rightarrow> (interp_error, segment list) result" where
  "text_segments rest =
     (if CHR ''$'' \<notin> set rest then Inr [Literal rest]
      else
        let at = dropWhile (\<lambda>c. c \<noteq> CHR ''$'') rest
        in and_then (expression_at at) (\<lambda>expression.
           and_then (classify expression) (\<lambda>segment.
           and_then (text_segments (drop (length expression) at)) (\<lambda>segments.
             Inr (Literal (takeWhile (\<lambda>c. c \<noteq> CHR ''$'') rest) # segment # segments)))))"
  by pat_completeness auto
termination
  by (relation "measure length") (auto dest: rest_shrinks)

declare text_segments.simps [simp del]

definition expanded :: "lookup \<Rightarrow> segment list \<Rightarrow> string" where
  "expanded lookup segments = concat (map (segment_text lookup) segments)"

definition all_noted :: "lookup \<Rightarrow> segment list \<Rightarrow> warnings \<Rightarrow> warnings" where
  "all_noted lookup segments warnings = fold (noted lookup) segments warnings"

lemma expanded_simps [simp]:
  "expanded lookup [] = []"
  "expanded lookup (seg # segs) = segment_text lookup seg @ expanded lookup segs"
  by (simp_all add: expanded_def)

lemma all_noted_simps [simp]:
  "all_noted lookup [] ws = ws"
  "all_noted lookup (seg # segs) ws = all_noted lookup segs (noted lookup seg ws)"
  by (simp_all add: all_noted_def)

lemma push_capped_Inr [result_simps]:
  "push_capped out piece cap = Inr out' \<longleftrightarrow> str_len out + str_len piece \<le> cap \<and> out' = out @ piece"
  by (auto simp: push_capped_def)

lemma expand_classify:
  "expand e lookup ws = and_then (classify e) (\<lambda>seg. Inr (segment_text lookup seg, noted lookup seg ws))"
  by (simp add: expand_def classify_def Let_def value_or_warn_def split: option.splits)

lemma interpolate_loop_Inr:
  "interpolate_loop lookup cap rest out ws = Inr (res, ws') \<longleftrightarrow>
     (\<exists>segs. text_segments rest = Inr segs \<and> res = out @ expanded lookup segs
        \<and> str_len res \<le> cap \<and> ws' = all_noted lookup segs ws)"
proof (induction lookup cap rest out ws rule: interpolate_loop.induct)
  case (1 lookup cap rest out ws)
  show ?case
  proof (cases "CHR ''$'' \<in> set rest")
    case False
    then show ?thesis
      by (subst interpolate_loop.simps, subst text_segments.simps) (auto simp: result_simps)
  next
    case True
    let ?before = "takeWhile (\<lambda>c. c \<noteq> CHR ''$'') rest"
    let ?at = "dropWhile (\<lambda>c. c \<noteq> CHR ''$'') rest"
    let ?seg = "\<lambda>e seg. expression_at ?at = Inr e \<and> classify e = Inr seg"
    have step: "interpolate_loop lookup cap rest out ws = Inr (res, ws') \<longleftrightarrow>
        (\<exists>e seg. ?seg e seg \<and> str_len out + str_len ?before + str_len (segment_text lookup seg) \<le> cap
          \<and> interpolate_loop lookup cap (drop (length e) ?at)
              (out @ ?before @ segment_text lookup seg) (noted lookup seg ws) = Inr (res, ws'))"
      using True by (subst interpolate_loop.simps) (auto simp: result_simps expand_classify Let_def)
    have segs: "text_segments rest = Inr segs \<longleftrightarrow> (\<exists>e seg segs'. ?seg e seg
        \<and> text_segments (drop (length e) ?at) = Inr segs' \<and> segs = Literal ?before # seg # segs')" for segs
      using True by (subst text_segments.simps) (auto simp: result_simps Let_def)
    have ih: "interpolate_loop lookup cap (drop (length e) ?at)
          (out @ ?before @ segment_text lookup seg) (noted lookup seg ws) = Inr (res, ws') \<longleftrightarrow>
        (\<exists>segs'. text_segments (drop (length e) ?at) = Inr segs'
          \<and> res = out @ expanded lookup (Literal ?before # seg # segs') \<and> str_len res \<le> cap
          \<and> ws' = all_noted lookup (Literal ?before # seg # segs') ws)"
      if "?seg e seg" "str_len out + str_len ?before + str_len (segment_text lookup seg) \<le> cap" for e seg
      using True that
      by (subst 1 [of ?before ?at "out @ ?before" e "(segment_text lookup seg, noted lookup seg ws)"])
         (auto simp: push_capped_def expand_classify)
    show ?thesis (is "?loop \<longleftrightarrow> ?spec")
    proof
      assume ?loop
      then show ?spec unfolding step segs using ih by blast
    next
      assume ?spec
      then obtain e seg segs' where e: "?seg e seg" "text_segments (drop (length e) ?at) = Inr segs'"
        and res: "res = out @ expanded lookup (Literal ?before # seg # segs')" "str_len res \<le> cap"
          "ws' = all_noted lookup (Literal ?before # seg # segs') ws"
        unfolding segs by blast
      then have "str_len out + str_len ?before + str_len (segment_text lookup seg) \<le> cap" by simp
      with e res ih [of e seg] show ?loop unfolding step by blast
    qed
  qed
qed

text \<open>
  An expansion succeeds exactly when the text splits into supported segments and
  the concatenation of their values has at most \<open>cap\<close> bytes; that concatenation is the
  result, and every unset variable is noted once.
\<close>

lemma interpolate_capped_spec:
  "interpolate_capped text lookup cap ws = Inr (out, ws') \<longleftrightarrow>
     (\<exists>segs. text_segments text = Inr segs \<and> out = expanded lookup segs \<and> str_len out \<le> cap
        \<and> ws' = all_noted lookup segs ws)"
  by (simp add: interpolate_capped_def interpolate_loop_Inr)

lemma all_noted_set:
  "set (all_noted lookup segs ws) =
     set ws \<union> {unset_warning name | name. Variable name \<in> set segs \<and> lookup name = None}"
proof (induction segs arbitrary: ws)
  case (Cons seg segs)
  show ?case
    by (cases seg) (auto simp: Cons.IH value_or_warn_def split: option.splits)
qed simp

lemma all_noted_distinct: "distinct ws \<Longrightarrow> distinct (all_noted lookup segs ws)"
proof (induction segs arbitrary: ws)
  case (Cons seg segs)
  then show ?case
    by (cases seg) (auto simp: value_or_warn_def split: option.splits)
qed simp

section \<open>Quoting\<close>

text \<open>Writers for the quoted forms of a value.\<close>

definition escape_dollars :: "string \<Rightarrow> string" where
  "escape_dollars t = concat (map (\<lambda>c. if c = CHR ''$'' then ''$$'' else [c]) t)"

definition escape_quotes :: "string \<Rightarrow> string" where
  "escape_quotes t =
     concat (map (\<lambda>c. if c = BACKSLASH \<or> c = DQUOTE then [BACKSLASH, c] else [c]) t)"

definition quote_double :: "string \<Rightarrow> string" where
  "quote_double t = [DQUOTE] @ escape_quotes (escape_dollars t) @ [DQUOTE]"

definition quote_single :: "string \<Rightarrow> string" where
  "quote_single t = [SQUOTE] @ t @ [SQUOTE]"

lemma escape_dollars_simps [simp]:
  "escape_dollars [] = []"
  "escape_dollars (a @ b) = escape_dollars a @ escape_dollars b"
  "escape_dollars (CHR ''$'' # t) = CHR ''$'' # CHR ''$'' # escape_dollars t"
  by (simp_all add: escape_dollars_def)

lemma escape_dollars_id: "CHR ''$'' \<notin> set t \<Longrightarrow> escape_dollars t = t"
  unfolding escape_dollars_def by (induction t) auto

lemma escape_quotes_simps [simp]:
  "escape_quotes [] = []"
  "escape_quotes (c # t) = (if c = BACKSLASH \<or> c = DQUOTE then [BACKSLASH, c] else [c]) @ escape_quotes t"
  by (simp_all add: escape_quotes_def)

lemma segments_escape:
  "\<exists>segs. text_segments (escape_dollars t) = Inr segs \<and> expanded lookup segs = t
     \<and> all_noted lookup segs ws = ws"
proof (induction t rule: length_induct)
  case (1 t)
  show ?case
  proof (cases "CHR ''$'' \<in> set t")
    case False
    then show ?thesis by (subst text_segments.simps) (simp add: escape_dollars_id)
  next
    case True
    then obtain a b where t: "t = a @ CHR ''$'' # b" and a: "CHR ''$'' \<notin> set a"
      by (meson split_list_first)
    obtain segs where segs: "text_segments (escape_dollars b) = Inr segs" "expanded lookup segs = b"
        "all_noted lookup segs ws = ws"
      using 1 [rule_format, of b] t by auto
    have esc: "escape_dollars t = a @ ''$$'' @ escape_dollars b" using t a by (simp add: escape_dollars_id)
    have cut: "takeWhile (\<lambda>c. c \<noteq> CHR ''$'') (a @ CHR ''$'' # r) = a"
        "dropWhile (\<lambda>c. c \<noteq> CHR ''$'') (a @ CHR ''$'' # r) = CHR ''$'' # r" for r
      using a by (induction a) auto
    have "text_segments (escape_dollars t) = Inr (Literal a # Literal ''$'' # segs)"
      unfolding esc using segs(1)
      by (subst text_segments.simps) (simp add: cut Let_def expression_at_def classify_def)
    then show ?thesis using segs t by simp
  qed
qed

lemma interpolate_escape:
  "str_len t \<le> cap \<Longrightarrow> interpolate_capped (escape_dollars t) lookup cap ws = Inr (t, ws)"
  using segments_escape [of t lookup ws] by (auto simp: interpolate_capped_def interpolate_loop_Inr)

lemma quote_scan_escape: "quote_scan False (escape_quotes t @ DQUOTE # r) = Some (escape_quotes t, r)"
  by (induction t) auto

lemma unescape_escape: "unescape_double_quoted (escape_quotes t) = Inr t"
  by (induction t) auto

lemma escape_dollars_none: "CHR ''$'' \<notin> set (escape_dollars t) \<Longrightarrow> escape_dollars t = t"
  by (induction t) (auto simp: escape_dollars_def split: if_splits)

lemma parse_value_double:
  assumes "str_len t \<le> cap"
  shows "parse_value (quote_double t) lookup cap ws = Inr (t, ws)"
proof -
  have inner: "value_text (quote_double t) = Inr (escape_dollars t)"
    by (simp add: value_text_def quote_double_def closing_double_quote_def quote_scan_escape
        strip_prefix_def is_blank_or_comment_def trim_start_def unescape_escape)
  have "strip_prefix [SQUOTE] (quote_double t) = None"
    by (simp add: strip_prefix_def quote_double_def)
  then show ?thesis
    using assms inner interpolate_escape [OF assms, of lookup ws] escape_dollars_none [of t]
    by (cases "CHR ''$'' \<in> set (escape_dollars t)") (simp_all add: parse_value_def within_cap_def)
qed

lemma parse_value_single:
  assumes "str_len t \<le> cap" and "SQUOTE \<notin> set t"
  shows "parse_value (quote_single t) lookup cap ws = Inr (t, ws)"
  using assms
  by (simp add: parse_value_def quote_single_def strip_prefix_def within_cap_def
      is_blank_or_comment_def trim_start_def)

text \<open>
  A value of a \<open>.env\<close> file survives quoting: written between double quotes
  with backslashes, quotes and dollars escaped, or, when it holds no single quote, between single
  quotes, it is read back as itself under every set of variables, with no warning, as long as it fits the cap.
\<close>

lemma quoted_value_roundtrip:
  assumes "str_len t \<le> cap"
  shows "parse_value (quote_double t) lookup cap ws = Inr (t, ws)
    \<and> (SQUOTE \<notin> set t \<longrightarrow> parse_value (quote_single t) lookup cap ws = Inr (t, ws))"
  using assms parse_value_double parse_value_single by blast

section \<open>What a parsed file holds\<close>

lemma interpolate_capped_bound:
  "interpolate_capped text lookup cap ws = Inr (out, ws') \<Longrightarrow> str_len out \<le> cap"
  by (auto simp: interpolate_capped_def interpolate_loop_Inr)

lemma parse_value_bound: "parse_value raw lookup cap ws = Inr (v, ws') \<Longrightarrow> str_len v \<le> cap"
  by (auto simp: parse_value_def within_cap_def result_simps split: option.splits if_splits
      dest: interpolate_capped_bound)

text \<open>The bytes of the values that were written in the file, not taken over from outside.\<close>

definition own_bytes :: "env_map \<Rightarrow> env_map \<Rightarrow> nat" where
  "own_bytes outside vars =
     sum_list (map (\<lambda>(k, v). if bt_get outside k = Some v then 0 else str_len v) vars)"

lemma own_bytes_insert: "own_bytes outside (bt_insert k v vars) \<le> own_bytes outside vars + str_len v"
  unfolding own_bytes_def by (induction k v vars rule: bt_insert.induct) auto

lemma own_bytes_outside:
  "bt_get outside k = Some v \<Longrightarrow> own_bytes outside (bt_insert k v vars) \<le> own_bytes outside vars"
  unfolding own_bytes_def by (induction k v vars rule: bt_insert.induct) auto

definition dotenv_ok :: "env_map \<Rightarrow> env_map \<Rightarrow> nat \<Rightarrow> bool" where
  "dotenv_ok outside vars used \<longleftrightarrow>
     bt_ok vars \<and> (\<forall>(k, v) \<in> set vars. is_valid_key k) \<and> own_bytes outside vars \<le> used
     \<and> used \<le> MAX_EXPANDED_BYTES"

lemma dotenv_ok_insert:
  assumes "dotenv_ok outside vars used" "is_valid_key k" "str_len v \<le> MAX_EXPANDED_BYTES - used"
  shows "dotenv_ok outside (bt_insert k v vars) (used + str_len v)"
  using assms own_bytes_insert [of outside k v vars] bt_ok_insert [of vars k v]
    bt_insert_all [of vars "\<lambda>(k, v). is_valid_key k" k v]
  by (auto simp: dotenv_ok_def)

lemma dotenv_ok_outside:
  assumes "dotenv_ok outside vars used" "is_valid_key k" "bt_get outside k = Some v"
  shows "dotenv_ok outside (bt_insert k v vars) used"
  using assms own_bytes_outside [of outside k v vars] bt_ok_insert [of vars k v]
    bt_insert_all [of vars "\<lambda>(k, v). is_valid_key k" k v]
  by (auto simp: dotenv_ok_def)

lemma dotenv_entry_ok:
  assumes "dotenv_entry source outside start l ls vars used ws = Inr (ls', vars', used', ws')"
    and "dotenv_ok outside vars used"
  shows "dotenv_ok outside vars' used'"
  using assms
  by (auto simp: dotenv_entry_def Let_def
      intro: dotenv_ok_insert dotenv_ok_outside dest!: parse_value_bound
      split: if_splits option.splits sum.splits prod.splits)

lemma dotenv_loop_ok:
  "dotenv_loop source outside start ls vars used ws = Inr (vars', ws') \<Longrightarrow> dotenv_ok outside vars used
     \<Longrightarrow> \<exists>used'. dotenv_ok outside vars' used'"
  by (induction source outside start ls vars used ws rule: dotenv_loop.induct)
     (auto simp: dotenv_loop.simps result_simps, metis dotenv_entry_ok)

lemma dotenv_result_ok:
  assumes "parse_dotenv source text outside ws = Inr (vars, ws')"
  shows "bt_ok vars \<and> (\<forall>(k, v) \<in> set vars. is_valid_key k)
    \<and> own_bytes outside vars \<le> MAX_EXPANDED_BYTES"
proof -
  have "dotenv_ok outside [] 0" by (simp add: dotenv_ok_def own_bytes_def bt_ok_def)
  then obtain used where "dotenv_ok outside vars used"
    using assms dotenv_loop_ok unfolding parse_dotenv_def by blast
  then show ?thesis by (auto simp: dotenv_ok_def)
qed

text \<open>
  Whatever a parsed \<open>.env\<close> file holds, it is a map of valid variable names,
  and the values written in it take at most 1 MiB together after expansion, however often
  they refer to each other.
\<close>

lemma parse_dotenv_bounded:
  assumes "parse_dotenv source text outside ws = Inr (vars, ws')"
  shows "bt_ok vars \<and> (\<forall>(k, v) \<in> set vars. is_valid_key k)
    \<and> own_bytes outside vars \<le> MAX_EXPANDED_BYTES"
  using assms by (rule dotenv_result_ok)

end
