(* ===== verification/Compose_Paths.thy ===== *)
theory Compose_Paths
  imports Compose_Text
begin

text \<open>
  Paths named by the pushed app and the reading of its files: \<open>compose/paths.rs\<close>,
  \<open>compose/locate.rs\<close>, the file readers of \<open>compose/environment.rs\<close> and
  \<open>ensure_path_within\<close> of \<open>riku-util/src/validation.rs\<close>.

  A \<open>Path\<close> is the list of its \<open>components()\<close>.  The disk is a record of the calls the
  code makes to it; every function takes it as an argument.
\<close>

section \<open>std::path\<close>

datatype component = RootDir | CurDir | ParentDir | Normal string

type_synonym path = "component list"

definition part_component :: "string \<Rightarrow> component" where
  "part_component p = (if p = ''.'' then CurDir else if p = ''..'' then ParentDir else Normal p)"

text \<open>
  \<open>Path::components\<close>: repeated separators vanish, and \<open>.\<close> stays only at the start of a
  relative path.
\<close>

definition components :: "string \<Rightarrow> path" where
  "components s =
     (let parts = map part_component (filter (\<lambda>p. p \<noteq> []) (split_on (CHR ''/'') s));
          later = filter (\<lambda>c. c \<noteq> CurDir)
      in if starts_with ''/'' s then RootDir # later parts
         else case parts of [] \<Rightarrow> [] | c # cs \<Rightarrow> c # later cs)"

definition is_absolute :: "path \<Rightarrow> bool" where
  "is_absolute p \<longleftrightarrow> p \<noteq> [] \<and> hd p = RootDir"

definition path_join :: "path \<Rightarrow> path \<Rightarrow> path" where
  "path_join base p =
     (if is_absolute p \<or> base = [] then p else base @ filter (\<lambda>c. c \<noteq> CurDir) p)"

definition path_pop :: "path \<Rightarrow> path" where
  "path_pop p = (if p = [] \<or> last p = RootDir then p else butlast p)"

definition path_push :: "path \<Rightarrow> component \<Rightarrow> path" where
  "path_push p c = (if c = RootDir then [RootDir] else p @ [c])"

fun path_strip_prefix :: "path \<Rightarrow> path \<Rightarrow> path option" where
  "path_strip_prefix [] p = Some p"
| "path_strip_prefix (c # cs) [] = None"
| "path_strip_prefix (c # cs) (d # ds) = (if c = d then path_strip_prefix cs ds else None)"

definition path_starts_with :: "path \<Rightarrow> path \<Rightarrow> bool" where
  "path_starts_with prefix p \<longleftrightarrow> path_strip_prefix prefix p \<noteq> None"

definition path_parent :: "path \<Rightarrow> path option" where
  "path_parent p = (if p = [] \<or> last p = RootDir then None else Some (butlast p))"

fun component_text :: "component \<Rightarrow> string" where
  "component_text RootDir = ''/''"
| "component_text CurDir = ''.''"
| "component_text ParentDir = ''..''"
| "component_text (Normal n) = n"

definition path_text :: "path \<Rightarrow> string" where
  "path_text p =
     (case p of RootDir # cs \<Rightarrow> ''/'' @ join ''/'' (map component_text cs)
      | _ \<Rightarrow> join ''/'' (map component_text p))"

section \<open>The disk\<close>

datatype lstat = LSymlink | LOther | LNotFound | LError string

record file_system =
  fs_lstat :: "path \<Rightarrow> lstat"
  fs_exists :: "path \<Rightarrow> bool"
  fs_is_file :: "path \<Rightarrow> bool"
  fs_canonicalize :: "path \<Rightarrow> (string, path) result"
  fs_len :: "path \<Rightarrow> (string, nat) result"
  fs_read :: "path \<Rightarrow> (string, string) result"

datatype path_error =
    BadPathText string string
  | OutsideApp string string
  | ThroughSymlink string string path
  | CannotInspect string string path string

datatype file_error =
    CannotResolve path string
  | CannotResolveRoot path string
  | EscapesRoot path path
  | FileTooLarge path
  | FileIo path string

section \<open>paths.rs\<close>

fun normalize_step :: "path \<Rightarrow> component \<Rightarrow> path" where
  "normalize_step out CurDir = out"
| "normalize_step out ParentDir = path_pop out"
| "normalize_step out RootDir = path_push out RootDir"
| "normalize_step out (Normal n) = path_push out (Normal n)"

definition normalize_path :: "path \<Rightarrow> path" where
  "normalize_path p = foldl normalize_step [] p"

fun refuse_symlinks ::
  "file_system \<Rightarrow> path \<Rightarrow> path \<Rightarrow> string \<Rightarrow> string \<Rightarrow> (path_error, unit) result" where
  "refuse_symlinks fs walked [] what raw = Inr ()"
| "refuse_symlinks fs walked (c # cs) what raw =
     (let here = path_push walked c
      in case fs_lstat fs here of
           LSymlink \<Rightarrow> Inl (ThroughSymlink what raw here)
         | LOther \<Rightarrow> refuse_symlinks fs here cs what raw
         | LNotFound \<Rightarrow> Inr ()
         | LError e \<Rightarrow> Inl (CannotInspect what raw here e))"

definition bad_path_char :: "char \<Rightarrow> bool" where
  "bad_path_char c \<longleftrightarrow> c = CHR '':'' \<or> c = CHR '','' \<or> c = NEWLINE \<or> c = CHR 0x0D \<or> c = CHR 0x00"

definition resolve_inside ::
  "file_system \<Rightarrow> path \<Rightarrow> path \<Rightarrow> string \<Rightarrow> string \<Rightarrow> (path_error, path) result" where
  "resolve_inside fs app_path base raw what =
     (if raw = [] \<or> list_ex bad_path_char raw then Inl (BadPathText what raw)
      else
        let root = normalize_path app_path;
            resolved = normalize_path (path_join base (components raw))
        in case path_strip_prefix root resolved of
             None \<Rightarrow> Inl (OutsideApp what raw)
           | Some below_root \<Rightarrow>
               (case refuse_symlinks fs root below_root what raw of
                  Inl e \<Rightarrow> Inl e
                | Inr _ \<Rightarrow> Inr resolved))"

definition check_bind_source :: "file_system \<Rightarrow> path \<Rightarrow> path \<Rightarrow> (path_error, unit) result" where
  "check_bind_source fs app_path source =
     (case resolve_inside fs app_path app_path (path_text source) ''bind source'' of
        Inr _ \<Rightarrow> Inr () | Inl e \<Rightarrow> Inl e)"

section \<open>Reading the app's files\<close>

definition ensure_path_within :: "file_system \<Rightarrow> path \<Rightarrow> path \<Rightarrow> (file_error, unit) result" where
  "ensure_path_within fs p root =
     and_then (map_err (CannotResolve p) (fs_canonicalize fs p)) (\<lambda>resolved.
     and_then (map_err (CannotResolveRoot root) (fs_canonicalize fs root)) (\<lambda>root_resolved.
     if \<not> path_starts_with root_resolved resolved then Inl (EscapesRoot resolved root_resolved)
     else Inr ()))"

definition read_app_file :: "file_system \<Rightarrow> path \<Rightarrow> path \<Rightarrow> (file_error, string) result" where
  "read_app_file fs app_path p =
     and_then (ensure_path_within fs p app_path) (\<lambda>_.
     and_then (map_err (FileIo p) (fs_len fs p)) (\<lambda>len.
     if MAX_APP_FILE_BYTES < len then Inl (FileTooLarge p)
     else map_err (FileIo p) (fs_read fs p)))"

datatype env_error = EnvFile file_error | EnvSyntax dotenv_error

definition read_dotenv ::
  "file_system \<Rightarrow> path \<Rightarrow> path \<Rightarrow> env_map \<Rightarrow> warnings \<Rightarrow> (env_error, env_map \<times> warnings) result" where
  "read_dotenv fs app_path p outside warnings =
     (if \<not> fs_exists fs p then Inr ([], warnings)
      else and_then (map_err EnvFile (read_app_file fs app_path p)) (\<lambda>text.
           map_err EnvSyntax (parse_dotenv (path_text p) text outside warnings)))"

section \<open>locate.rs\<close>

definition COMPOSE_FILE_NAMES :: "string list" where
  "COMPOSE_FILE_NAMES =
     [''compose.yaml'', ''compose.yml'', ''docker-compose.yaml'', ''docker-compose.yml'']"

text \<open>The relative path as it was written.\<close>

datatype compose_file = ComposeFile (compose_arg: string)

definition compose_relative :: "compose_file \<Rightarrow> path" where
  "compose_relative f = components (compose_arg f)"

datatype locate_error =
    SeveralFiles string
  | EmptyOrBroken string
  | NotPlainRelative string
  | AppUnresolved path string
  | ComposeNotFound string string
  | ComposeLeavesApp string path
  | ComposeNotFile string

definition default_compose_file :: "file_system \<Rightarrow> path \<Rightarrow> compose_file option" where
  "default_compose_file fs app_path =
     map_option ComposeFile
       (find (\<lambda>name. fs_lstat fs (path_join app_path (components name)) \<in> {LSymlink, LOther})
          COMPOSE_FILE_NAMES)"

fun plain_component :: "component \<Rightarrow> bool" where
  "plain_component (Normal n) = True"
| "plain_component CurDir = True"
| "plain_component _ = False"

definition validate_compose_file ::
  "file_system \<Rightarrow> path \<Rightarrow> string \<Rightarrow> (locate_error, compose_file) result" where
  "validate_compose_file fs app_path requested =
     (if CHR '':'' \<in> set requested then Inl (SeveralFiles requested)
      else if requested = [] \<or> has_line_break_or_nul requested then Inl (EmptyOrBroken requested)
      else
        let relative = components requested
        in if \<not> list_all plain_component relative then Inl (NotPlainRelative requested)
           else
             and_then (map_err (AppUnresolved app_path) (fs_canonicalize fs app_path)) (\<lambda>app_root.
             and_then (map_err (ComposeNotFound requested)
                 (fs_canonicalize fs (path_join app_path relative))) (\<lambda>resolved.
             if \<not> path_starts_with app_root resolved then Inl (ComposeLeavesApp requested resolved)
             else if \<not> fs_is_file fs resolved then Inl (ComposeNotFile requested)
             else Inr (ComposeFile requested))))"

definition find_compose_file ::
  "file_system \<Rightarrow> path \<Rightarrow> string option \<Rightarrow> (locate_error, compose_file option) result" where
  "find_compose_file fs app_path requested =
     (case requested of
        Some name \<Rightarrow> and_then (validate_compose_file fs app_path name) (\<lambda>f. Inr (Some f))
      | None \<Rightarrow>
          (case default_compose_file fs app_path of
             Some f \<Rightarrow> and_then (validate_compose_file fs app_path (compose_arg f)) (\<lambda>f. Inr (Some f))
           | None \<Rightarrow> Inr None))"

section \<open>Normalised paths\<close>

lemma path_strip_prefix_Some [text_simps]: "path_strip_prefix a p = Some r \<longleftrightarrow> p = a @ r"
  by (induction a p rule: path_strip_prefix.induct) auto

lemma path_strip_prefix_append [simp]: "path_strip_prefix a (a @ r) = Some r"
  by (simp add: path_strip_prefix_Some)

lemma normalize_snoc: "normalize_path (p @ [c]) = normalize_step (normalize_path p) c"
  by (simp add: normalize_path_def)

text \<open>A root, or nothing, and then plain names.\<close>

definition plain_path :: "path \<Rightarrow> bool" where
  "plain_path p \<longleftrightarrow> (\<exists>r ns. p = r @ map Normal ns \<and> (r = [] \<or> r = [RootDir]))"

lemma plain_rooted: "plain_path (RootDir # map Normal ns)"
  unfolding plain_path_def by (intro exI [of _ "[RootDir]"] exI [of _ ns]) simp

lemma plain_pop: "plain_path p \<Longrightarrow> plain_path (path_pop p)"
  unfolding plain_path_def path_pop_def
proof (elim exE conjE)
  fix r ns
  assume p: "p = r @ map Normal ns" and r: "r = [] \<or> r = [RootDir]"
  show "\<exists>r ns. (if p = [] \<or> last p = RootDir then p else butlast p) = r @ map Normal ns
      \<and> (r = [] \<or> r = [RootDir])"
    using r by (cases ns rule: rev_cases) (auto simp: p butlast_append intro: exI [of _ "[]"])
qed

lemma plain_push: "plain_path p \<Longrightarrow> plain_path (p @ [Normal n])"
  unfolding plain_path_def by (metis append.assoc list.map(1,2) map_append)

lemma normalize_plain: "plain_path (normalize_path p)"
proof (induction p rule: rev_induct)
  case Nil
  show ?case by (simp add: normalize_path_def plain_path_def)
next
  case (snoc c p)
  have root: "plain_path [RootDir]" using plain_rooted [of "[]"] by simp
  show ?case
    using snoc.IH root
    by (cases c) (auto simp: normalize_snoc path_push_def intro: plain_pop plain_push)
qed

lemma normalize_absolute: "is_absolute p \<Longrightarrow> is_absolute (normalize_path p)"
proof (induction p rule: rev_induct)
  case (snoc c p)
  show ?case
  proof (cases "p = []")
    case True
    then show ?thesis using snoc.prems by (simp add: is_absolute_def normalize_path_def path_push_def)
  next
    case False
    then have ih: "is_absolute (normalize_path p)" using snoc by (simp add: is_absolute_def)
    then have "is_absolute (path_pop (normalize_path p))"
      by (cases "normalize_path p") (auto simp: path_pop_def is_absolute_def split: if_splits)
    with ih show ?thesis
      by (cases c) (auto simp: normalize_snoc path_push_def is_absolute_def)
  qed
qed (simp add: is_absolute_def)

lemma normalize_names: "Normal n \<in> set (normalize_path p) \<Longrightarrow> Normal n \<in> set p"
proof (induction p rule: rev_induct)
  case Nil
  then show ?case by (simp add: normalize_path_def)
next
  case (snoc c p)
  then show ?case
    by (cases c) (auto simp: normalize_snoc path_push_def path_pop_def split: if_splits dest: in_set_butlastD)
qed

lemma foldl_names: "foldl normalize_step p (map Normal ns) = p @ map Normal ns"
  by (induction ns arbitrary: p) (auto simp: path_push_def)

lemma normalize_fixed: "plain_path p \<Longrightarrow> normalize_path p = p"
  by (auto simp: plain_path_def normalize_path_def foldl_names path_push_def)

lemma below_plain:
  assumes "is_absolute root" "plain_path root" "plain_path (root @ below)"
  shows "\<exists>names. below = map Normal names"
proof -
  obtain r ns where p: "root @ below = r @ map Normal ns" and r: "r = [] \<or> r = [RootDir]"
    using assms(3) by (auto simp: plain_path_def)
  obtain cs where root: "root = RootDir # cs" using assms(1) by (cases root) (auto simp: is_absolute_def)
  have "r = [RootDir]" using r p root by (cases ns) auto
  then have "cs @ below = map Normal ns" using p root by simp
  then have "below = map Normal (drop (length cs) ns)"
    by (metis append_eq_conv_conj drop_map)
  then show ?thesis by blast
qed

section \<open>Names of components\<close>

definition name_ok :: "string \<Rightarrow> bool" where
  "name_ok n \<longleftrightarrow> n \<noteq> [] \<and> n \<noteq> ''.'' \<and> n \<noteq> ''..'' \<and> CHR ''/'' \<notin> set n"

definition path_ok :: "path \<Rightarrow> bool" where
  "path_ok p \<longleftrightarrow> (\<forall>n. Normal n \<in> set p \<longrightarrow> name_ok n)"

lemma components_parts:
  "set (components s) \<subseteq>
     insert RootDir (part_component ` {p \<in> set (split_on (CHR ''/'') s). p \<noteq> []})"
proof -
  have first: "set (case cs of [] \<Rightarrow> [] | c # cs \<Rightarrow> c # filter P cs) \<subseteq> set cs" for cs and P :: "component \<Rightarrow> bool"
    by (cases cs) auto
  let ?parts = "map part_component (filter (\<lambda>p. p \<noteq> []) (split_on (CHR ''/'') s))"
  have "set (components s) \<subseteq> insert RootDir (set ?parts)"
    unfolding components_def Let_def using first [of _ ?parts] by (auto simp del: set_map)
  then show ?thesis by simp
qed

lemma components_ok: "path_ok (components s)"
  unfolding path_ok_def
proof (intro allI impI)
  fix n
  assume "Normal n \<in> set (components s)"
  then obtain p where "p \<in> set (split_on (CHR ''/'') s)" "p \<noteq> []" "part_component p = Normal n"
    using components_parts [of s] by fastforce
  then show "name_ok n"
    using split_by_pieces [of p "\<lambda>x. x = CHR ''/''" s "CHR ''/''"]
    by (auto simp: name_ok_def split_on_def part_component_def split: if_splits)
qed

lemma path_join_ok: "path_ok base \<Longrightarrow> path_ok p \<Longrightarrow> path_ok (path_join base p)"
  by (auto simp: path_ok_def path_join_def)

lemma normalize_ok: "path_ok p \<Longrightarrow> path_ok (normalize_path p)"
  using normalize_names by (auto simp: path_ok_def)

section \<open>Resolved paths stay inside the app\<close>

lemma refuse_symlinks_Inr:
  "refuse_symlinks fs walked (map Normal names) what raw = Inr u \<longleftrightarrow>
     (\<forall>k < length names.
        (\<forall>j < k. fs_lstat fs (walked @ map Normal (take (Suc j) names)) = LOther) \<longrightarrow>
        fs_lstat fs (walked @ map Normal (take (Suc k) names)) \<in> {LOther, LNotFound})"
proof (induction names arbitrary: walked)
  case (Cons n names)
  let ?here = "walked @ [Normal n]"
  have step: "refuse_symlinks fs walked (map Normal (n # names)) what raw = Inr u \<longleftrightarrow>
      fs_lstat fs ?here = LNotFound \<or>
      fs_lstat fs ?here = LOther \<and> refuse_symlinks fs ?here (map Normal names) what raw = Inr u"
    by (auto simp: path_push_def Let_def split: lstat.splits)
  show ?case
    unfolding step Cons.IH by (auto simp: All_less_Suc2 simp del: all_simps)
qed simp

lemma resolve_inside_Inr:
  "resolve_inside fs app_path base raw what = Inr p \<longleftrightarrow>
     raw \<noteq> [] \<and> \<not> list_ex bad_path_char raw \<and> p = normalize_path (path_join base (components raw)) \<and>
     (\<exists>below. p = normalize_path app_path @ below \<and>
        refuse_symlinks fs (normalize_path app_path) below what raw = Inr ())"
  by (auto simp: resolve_inside_def Let_def text_simps split: option.splits sum.splits if_splits)

lemma resolve_below:
  assumes "is_absolute app_path" "path_ok base" "resolve_inside fs app_path base raw what = Inr p"
  shows "\<exists>names. p = normalize_path app_path @ map Normal names \<and> list_all name_ok names
    \<and> refuse_symlinks fs (normalize_path app_path) (map Normal names) what raw = Inr ()"
proof -
  obtain below where p: "p = normalize_path (path_join base (components raw))" "p = normalize_path app_path @ below"
    and walk: "refuse_symlinks fs (normalize_path app_path) below what raw = Inr ()"
    using assms(3) by (auto simp: resolve_inside_Inr)
  have "plain_path (normalize_path app_path @ below)" using p normalize_plain by metis
  then obtain names where names: "below = map Normal names"
    using below_plain assms(1) normalize_absolute normalize_plain by blast
  have "path_ok p"
    unfolding p(1) using assms(2) components_ok by (intro normalize_ok path_join_ok)
  then have "list_all name_ok names" using p(2) names by (auto simp: path_ok_def list_all_iff)
  then show ?thesis using p(2) names walk by blast
qed

text \<open>
  A path taken from a compose file resolves to the app directory followed by plain
  names, so it never leaves the app, and on the way down from the app directory every component
  up to the first missing one is not a symlink.
\<close>

lemma resolve_inside_stays_inside:
  assumes "is_absolute app_path" and "path_ok base"
    and "resolve_inside fs app_path base raw what = Inr p"
  shows "\<exists>names. p = normalize_path app_path @ map Normal names \<and> list_all name_ok names
    \<and> (\<forall>k < length names.
         (\<forall>j < k. fs_lstat fs (normalize_path app_path @ map Normal (take (Suc j) names)) = LOther) \<longrightarrow>
         fs_lstat fs (normalize_path app_path @ map Normal (take (Suc k) names)) \<in> {LOther, LNotFound})"
  using resolve_below [OF assms] unfolding refuse_symlinks_Inr by blast

text \<open>An empty disk, for concrete runs.\<close>

definition empty_disk :: file_system where
  "empty_disk = \<lparr>fs_lstat = (\<lambda>p. LNotFound), fs_exists = (\<lambda>p. False), fs_is_file = (\<lambda>p. False),
     fs_canonicalize = (\<lambda>p. Inl ''not found''), fs_len = (\<lambda>p. Inl ''not found''),
     fs_read = (\<lambda>p. Inl ''not found'')\<rparr>"

lemma empty_disk_resolves:
  "resolve_inside empty_disk [RootDir, Normal ''app''] [RootDir, Normal ''app''] ''./data/../db'' ''bind source''
     = Inr [RootDir, Normal ''app'', Normal ''db'']"
  by (simp add: resolve_inside_def empty_disk_def components_def split_on_def normalize_path_def
      path_join_def is_absolute_def path_push_def path_pop_def bad_path_char_def part_component_def)

section \<open>Checking a resolved path again\<close>

lemma split_join:
  assumes "\<forall>p \<in> set ps. CHR ''/'' \<notin> set p" and "ps \<noteq> []"
  shows "split_on (CHR ''/'') (join ''/'' ps) = ps"
  using assms unfolding split_on_def
proof (induction ps rule: induct_list012)
  case (2 p)
  then show ?case
    using split_by_none [of "\<lambda>x. x = CHR ''/''" p] by (auto simp: list_all_iff)
next
  case (3 p q ps)
  then show ?case
    using split_by_append [of "\<lambda>x. x = CHR ''/''" p "CHR ''/''" "join ''/'' (q # ps)"]
    by (auto simp: list_all_iff)
qed simp

lemma components_path_text:
  assumes "list_all name_ok ns"
  shows "components (path_text (RootDir # map Normal ns)) = RootDir # map Normal ns"
proof -
  have parts: "filter (\<lambda>p. p \<noteq> []) (split_on (CHR ''/'') (join ''/'' ns)) = ns"
  proof (cases "ns = []")
    case False
    moreover have "\<forall>p \<in> set ns. CHR ''/'' \<notin> set p" "filter (\<lambda>p. p \<noteq> []) ns = ns"
      using assms by (auto simp: list_all_iff name_ok_def filter_id_conv)
    ultimately show ?thesis by (simp add: split_join)
  qed (simp add: split_on_def)
  have names: "filter (\<lambda>c. c \<noteq> CurDir) (map part_component ns) = map Normal ns"
    using assms by (induction ns) (auto simp: name_ok_def part_component_def)
  have "map component_text (map Normal ns) = ns" by (induction ns) auto
  then show ?thesis using parts names by (simp add: components_def path_text_def split_on_def Let_def)
qed

lemma absolute_plain: "is_absolute p \<Longrightarrow> plain_path p \<Longrightarrow> \<exists>ns. p = RootDir # map Normal ns"
  by (auto simp: is_absolute_def plain_path_def hd_append split: if_splits) (metis component.distinct(5) hd_map)

lemma refuse_symlinks_any:
  "refuse_symlinks fs walked (map Normal names) what raw = Inr u \<Longrightarrow>
     refuse_symlinks fs walked (map Normal names) what' raw' = Inr ()"
  by (simp add: refuse_symlinks_Inr)

text \<open>
  The check repeated at start time accepts every bind source the parser
  resolved, as long as the disk has not changed and the path has none of the characters the engine
  would split at.
\<close>

lemma bind_source_checked_again:
  assumes "is_absolute app_path" and "path_ok app_path" and "path_ok base"
    and "resolve_inside fs app_path base raw what = Inr p"
    and "\<not> list_ex bad_path_char (path_text p)"
  shows "check_bind_source fs app_path p = Inr ()"
proof -
  obtain names where p: "p = normalize_path app_path @ map Normal names" and ok: "list_all name_ok names"
    and walk: "refuse_symlinks fs (normalize_path app_path) (map Normal names) what raw = Inr ()"
    using resolve_below [OF assms(1,3,4)] by blast
  obtain ns where root: "normalize_path app_path = RootDir # map Normal ns"
    using absolute_plain normalize_absolute [OF assms(1)] normalize_plain by blast
  have "path_ok (normalize_path app_path)" using assms(2) by (rule normalize_ok)
  then have "list_all name_ok (ns @ names)"
    using ok root by (auto simp: path_ok_def list_all_iff)
  moreover have p': "p = RootDir # map Normal (ns @ names)" using p root by simp
  ultimately have comps: "components (path_text p) = p" by (simp only: components_path_text)
  have plain: "normalize_path p = p"
    unfolding p' by (intro normalize_fixed plain_rooted)
  have "path_text p \<noteq> []" by (simp add: p' path_text_def)
  moreover have "path_join app_path p = p" by (simp add: path_join_def p' is_absolute_def)
  ultimately have "resolve_inside fs app_path app_path (path_text p) ''bind source'' = Inr p"
    using assms(5) comps plain p refuse_symlinks_any [OF walk] by (auto simp: resolve_inside_Inr)
  then show ?thesis by (simp add: check_bind_source_def)
qed

end
