(* ===== verification/Compose_Fields.thy ===== *)
theory Compose_Fields
  imports Compose_Paths
begin

text \<open>
  The fds of a compose service: \<open>compose/ports.rs\<close>, \<open>compose/volumes.rs\<close>,
  \<open>compose/health.rs\<close>, \<open>compose/depends.rs\<close>, \<open>compose/fds.rs\<close>,
  \<open>compose/build.rs\<close> and \<open>compose/service_env.rs\<close>, with the types of
  \<open>compose/definition.rs\<close> and \<open>compose/mounts.rs\<close> they fill.

  \<open>shlex::split\<close> is a third-party function; it is the argument \<open>shlex\<close> of the parsers
  that call it.
\<close>

section \<open>definition.rs and mounts.rs\<close>

record service_context =
  sc_app_path :: path
  sc_compose_dir :: path
  sc_vars :: env_map
  sc_declared_volumes :: "string list"

record build_def =
  bd_context :: path
  bd_dockerfile :: "path option"
  bd_args :: "(string, string) btree"

datatype depends_condition = Started | Healthy

record dependency =
  dep_service :: service_name
  dep_condition :: depends_condition

datatype volume_key = VolumeKey (volume_key_str: string)

datatype service_mount_source = SVolume volume_key | SBind path | SAnonymous

record service_mount =
  sm_source :: service_mount_source
  sm_target :: string
  sm_read_only :: bool

definition sm_is_writable :: "service_mount \<Rightarrow> bool" where
  "sm_is_writable m \<longleftrightarrow> \<not> sm_read_only m"

section \<open>ports.rs\<close>

datatype port_error =
    BadPublicLabel string
  | PortsNotList
  | BadPortEntry
  | NotAPort string string
  | UnsupportedProtocol string string
  | HostIpRefused
  | PortScalar scalar_error
  | PortFieldNotNumber string
  | PortWithoutTarget
  | ProtocolNotString

definition host_ip_for :: "(string, string) btree \<Rightarrow> (port_error, host_ip) result" where
  "host_ip_for service_labels =
     (case bt_get service_labels LABEL_PUBLIC of
        None \<Rightarrow> Inr Loopback
      | Some v \<Rightarrow>
          (if v = ''false'' then Inr Loopback
           else if v = ''true'' then Inr AllInterfaces
           else Inl (BadPublicLabel v)))"

definition parse_port :: "string \<Rightarrow> string \<Rightarrow> (port_error, u16) result" where
  "parse_port text entry =
     (case parse_u16 text of
        Some port \<Rightarrow> (if port \<noteq> 0 then Inr port else Inl (NotAPort entry text))
      | None \<Rightarrow> Inl (NotAPort entry text))"

definition parse_protocol :: "string \<Rightarrow> string \<Rightarrow> (port_error, protocol) result" where
  "parse_protocol text entry =
     (if text = ''tcp'' then Inr Tcp else if text = ''udp'' then Inr Udp
      else Inl (UnsupportedProtocol entry text))"

definition port_parse_short :: "string \<Rightarrow> host_ip \<Rightarrow> (port_error, port_binding) result" where
  "port_parse_short text host_ip =
     and_then
       (case rsplit_once (CHR ''/'') text of
          Some (spec, protocol) \<Rightarrow> and_then (parse_protocol protocol text) (\<lambda>protocol. Inr (spec, protocol))
        | None \<Rightarrow> Inr (text, Tcp)) (\<lambda>(spec, protocol).
     and_then
       (case split_on (CHR '':'') spec of
          [container] \<Rightarrow> Inr (None, container)
        | [host, container] \<Rightarrow> Inr (Some host, container)
        | _ \<Rightarrow> Inl HostIpRefused) (\<lambda>(host, container).
     and_then
       (case host of
          Some host \<Rightarrow> and_then (parse_port host text) (\<lambda>port. Inr (Some port))
        | None \<Rightarrow> Inr None) (\<lambda>host_port.
     and_then (parse_port container text) (\<lambda>container_port.
     Inr \<lparr>pb_host_ip = host_ip, pb_host_port = host_port, pb_container_port = container_port,
          pb_protocol = protocol\<rparr>))))"

definition port_field :: "mapping \<Rightarrow> string \<Rightarrow> (port_error, u16 option) result" where
  "port_field fs key =
     (case bt_get fs key of
        None \<Rightarrow> Inr None
      | Some VNull \<Rightarrow> Inr None
      | Some (VString text) \<Rightarrow> and_then (parse_port text text) (\<lambda>port. Inr (Some port))
      | Some (VNumber n) \<Rightarrow>
          and_then (parse_port (number_text n) (number_text n)) (\<lambda>port. Inr (Some port))
      | Some _ \<Rightarrow> Inl (PortFieldNotNumber key))"

definition port_parse_long :: "mapping \<Rightarrow> host_ip \<Rightarrow> (port_error, port_binding) result" where
  "port_parse_long fs host_ip =
     (if bt_get fs ''host_ip'' \<noteq> None \<or> bt_get fs ''mode'' \<noteq> None then Inl HostIpRefused
      else
        and_then (map_err PortScalar
          (reject_unknown fs [''target'', ''published'', ''protocol''] ''port'')) (\<lambda>_.
        and_then (port_field fs ''target'') (\<lambda>tgt.
        and_then (case tgt of Some port \<Rightarrow> Inr port | None \<Rightarrow> Inl PortWithoutTarget) (\<lambda>container_port.
        and_then (port_field fs ''published'') (\<lambda>host_port.
        and_then
          (case bt_get fs ''protocol'' of
             None \<Rightarrow> Inr Tcp
           | Some (VString text) \<Rightarrow> parse_protocol text text
           | Some _ \<Rightarrow> Inl ProtocolNotString) (\<lambda>protocol.
        Inr \<lparr>pb_host_ip = host_ip, pb_host_port = host_port, pb_container_port = container_port,
             pb_protocol = protocol\<rparr>))))))"

definition parse_port_entry :: "host_ip \<Rightarrow> yaml \<Rightarrow> (port_error, port_binding) result" where
  "parse_port_entry host_ip entry =
     (case entry of
        VString text \<Rightarrow> port_parse_short text host_ip
      | VNumber n \<Rightarrow> port_parse_short (number_text n) host_ip
      | VObject fs \<Rightarrow> port_parse_long fs host_ip
      | _ \<Rightarrow> Inl BadPortEntry)"

definition parse_ports :: "yaml \<Rightarrow> host_ip \<Rightarrow> (port_error, port_binding list) result" where
  "parse_ports v host_ip =
     (case v of VArray entries \<Rightarrow> traverse (parse_port_entry host_ip) entries | _ \<Rightarrow> Inl PortsNotList)"

section \<open>volumes.rs\<close>

datatype volume_error =
    VolumesNotList
  | BadVolumeEntry
  | NotVolumeName string
  | UndeclaredVolume string
  | SourcePath path_error
  | BlankSource path
  | BadTarget string
  | BadShortForm string
  | VolumeFieldNotString string
  | VolumeScalar scalar_error
  | BindNeedsSource
  | BadVolumeType "string option"
  | VolumeNeedsTarget
  | ReadOnlyNotBool

definition is_volume_name :: "string \<Rightarrow> bool" where
  "is_volume_name name \<longleftrightarrow>
     (case name of
        [] \<Rightarrow> False
      | c # cs \<Rightarrow> is_ascii_alphanumeric c \<and>
          list_all (\<lambda>c. is_ascii_alphanumeric c \<or> c = CHR ''_'' \<or> c = CHR ''.'' \<or> c = CHR ''-'') cs)"

definition named_volume :: "service_context \<Rightarrow> string \<Rightarrow> (volume_error, service_mount_source) result" where
  "named_volume ctx name =
     (if \<not> is_volume_name name then Inl (NotVolumeName name)
      else if name \<notin> set (sc_declared_volumes ctx) then Inl (UndeclaredVolume name)
      else Inr (SVolume (VolumeKey name)))"

definition has_blank_or_control :: "string \<Rightarrow> bool" where
  "has_blank_or_control text \<longleftrightarrow> list_ex (\<lambda>c. is_whitespace c \<or> is_control c) text"

definition bind_source ::
  "file_system \<Rightarrow> service_context \<Rightarrow> string \<Rightarrow> (volume_error, service_mount_source) result" where
  "bind_source fs ctx raw =
     and_then (map_err SourcePath
       (resolve_inside fs (sc_app_path ctx) (sc_compose_dir ctx) raw ''bind source'')) (\<lambda>p.
     if has_blank_or_control (path_text p) then Inl (BlankSource p) else Inr (SBind p))"

definition bind_or_named ::
  "file_system \<Rightarrow> service_context \<Rightarrow> string \<Rightarrow> (volume_error, service_mount_source) result" where
  "bind_or_named fs ctx source =
     (if starts_with ''/'' source \<or> starts_with ''.'' source then bind_source fs ctx source
      else named_volume ctx source)"

definition container_path :: "string \<Rightarrow> (volume_error, string) result" where
  "container_path raw =
     (if \<not> starts_with ''/'' raw \<or> CHR '':'' \<in> set raw \<or> CHR '','' \<in> set raw \<or> has_blank_or_control raw
      then Inl (BadTarget raw) else Inr raw)"

definition short_parts :: "string \<Rightarrow> (volume_error, string option \<times> string \<times> bool) result" where
  "short_parts text =
     (case split_on (CHR '':'') text of
        [tgt] \<Rightarrow> Inr (None, tgt, False)
      | [source, tgt] \<Rightarrow> Inr (Some source, tgt, False)
      | [source, tgt, opt] \<Rightarrow>
          (if opt = ''ro'' then Inr (Some source, tgt, True)
           else if opt = ''rw'' then Inr (Some source, tgt, False)
           else Inl (BadShortForm text))
      | _ \<Rightarrow> Inl (BadShortForm text))"

definition volume_parse_short ::
  "file_system \<Rightarrow> service_context \<Rightarrow> string \<Rightarrow> (volume_error, service_mount) result" where
  "volume_parse_short fs ctx text =
     and_then (short_parts text) (\<lambda>(source, tgt, read_only).
     and_then (case source of Some source \<Rightarrow> bind_or_named fs ctx source | None \<Rightarrow> Inr SAnonymous) (\<lambda>source.
     and_then (container_path tgt) (\<lambda>tgt.
     Inr \<lparr>sm_source = source, sm_target = tgt, sm_read_only = read_only\<rparr>)))"

definition text_field :: "mapping \<Rightarrow> string \<Rightarrow> (volume_error, string option) result" where
  "text_field fs key =
     (case bt_get fs key of
        None \<Rightarrow> Inr None
      | Some (VString text) \<Rightarrow> Inr (Some text)
      | Some _ \<Rightarrow> Inl (VolumeFieldNotString key))"

definition long_source ::
  "file_system \<Rightarrow> service_context \<Rightarrow> string option \<Rightarrow> string option
     \<Rightarrow> (volume_error, service_mount_source) result" where
  "long_source fs ctx ty source =
     (if ty = Some ''bind'' then
        (case source of Some source \<Rightarrow> bind_source fs ctx source | None \<Rightarrow> Inl BindNeedsSource)
      else if ty = Some ''volume'' then
        (case source of Some source \<Rightarrow> named_volume ctx source | None \<Rightarrow> Inr SAnonymous)
      else Inl (BadVolumeType ty))"

definition volume_parse_long ::
  "file_system \<Rightarrow> service_context \<Rightarrow> mapping \<Rightarrow> (volume_error, service_mount) result" where
  "volume_parse_long fs ctx fds =
     and_then (map_err VolumeScalar
       (reject_unknown fds [''type'', ''source'', ''target'', ''read_only''] ''volume'')) (\<lambda>_.
     and_then (text_field fds ''type'') (\<lambda>ty.
     and_then (text_field fds ''source'') (\<lambda>source.
     and_then (long_source fs ctx ty source) (\<lambda>source.
     and_then (text_field fds ''target'') (\<lambda>tgt.
     and_then (case tgt of Some raw \<Rightarrow> container_path raw | None \<Rightarrow> Inl VolumeNeedsTarget) (\<lambda>tgt.
     and_then
       (case bt_get fds ''read_only'' of
          None \<Rightarrow> Inr False | Some (VBool flag) \<Rightarrow> Inr flag | Some _ \<Rightarrow> Inl ReadOnlyNotBool) (\<lambda>read_only.
     Inr \<lparr>sm_source = source, sm_target = tgt, sm_read_only = read_only\<rparr>)))))))"

definition parse_volume_entry ::
  "file_system \<Rightarrow> service_context \<Rightarrow> yaml \<Rightarrow> (volume_error, service_mount) result" where
  "parse_volume_entry fs ctx entry =
     (case entry of
        VString text \<Rightarrow> volume_parse_short fs ctx text
      | VObject fds \<Rightarrow> volume_parse_long fs ctx fds
      | _ \<Rightarrow> Inl BadVolumeEntry)"

definition parse_volumes ::
  "file_system \<Rightarrow> service_context \<Rightarrow> yaml \<Rightarrow> (volume_error, service_mount list) result" where
  "parse_volumes fs ctx v =
     (case v of VArray entries \<Rightarrow> traverse (parse_volume_entry fs ctx) entries | _ \<Rightarrow> Inl VolumesNotList)"

section \<open>What the parsers guarantee\<close>

definition port_safe :: "host_ip \<Rightarrow> port_binding \<Rightarrow> bool" where
  "port_safe ip b \<longleftrightarrow> pb_host_ip b = ip \<and> pb_container_port b \<noteq> 0 \<and> pb_host_port b \<noteq> Some 0"

lemma parse_port_nonzero: "parse_port text entry = Inr p \<Longrightarrow> p \<noteq> 0"
  by (auto simp: parse_port_def split: option.splits if_splits)

lemma port_parse_short_safe:
  assumes "port_parse_short text ip = Inr b"
  shows "port_safe ip b"
proof -
  obtain host container host_port container_port protocol where
    h: "(case host of Some host \<Rightarrow> and_then (parse_port host text) (\<lambda>port. Inr (Some port)) | None \<Rightarrow> Inr None)
          = Inr host_port"
    and c: "parse_port container text = Inr container_port"
    and b: "b = \<lparr>pb_host_ip = ip, pb_host_port = host_port, pb_container_port = container_port,
                 pb_protocol = protocol\<rparr>"
    using assms unfolding port_parse_short_def and_then_Inr by (auto simp: and_then_Inr)
  have "host_port \<noteq> Some 0" using h by (auto simp: and_then_Inr split: option.splits dest: parse_port_nonzero)
  then show ?thesis using parse_port_nonzero [OF c] by (simp add: port_safe_def b)
qed

lemma port_field_nonzero: "port_field fds key = Inr p \<Longrightarrow> p \<noteq> Some 0"
  by (auto simp: port_field_def result_simps split: option.splits yaml.splits dest!: parse_port_nonzero)

lemma port_parse_long_safe:
  assumes "port_parse_long fds ip = Inr b"
  shows "port_safe ip b"
proof -
  obtain tgt container host protocol where tgt: "port_field fds ''target'' = Inr tgt"
    and c: "(case tgt of Some port \<Rightarrow> Inr port | None \<Rightarrow> Inl PortWithoutTarget) = Inr container"
    and h: "port_field fds ''published'' = Inr host"
    and b: "b = \<lparr>pb_host_ip = ip, pb_host_port = host, pb_container_port = container, pb_protocol = protocol\<rparr>"
    using assms unfolding port_parse_long_def if_Inl_Inr and_then_Inr by auto
  have "tgt = Some container" using c by (auto split: option.splits)
  then show ?thesis
    using port_field_nonzero [OF tgt] port_field_nonzero [OF h] by (simp add: port_safe_def b)
qed

lemma parse_ports_safe:
  assumes "parse_ports v ip = Inr bs" and "b \<in> set bs"
  shows "port_safe ip b"
proof -
  obtain entry where "parse_port_entry ip entry = Inr b"
    using assms by (auto simp: parse_ports_def split: yaml.splits dest!: traverse_set)
  then show ?thesis
    by (auto simp: parse_port_entry_def split: yaml.splits
        intro: port_parse_short_safe port_parse_long_safe)
qed

lemma host_ip_for_Inr:
  "host_ip_for labels = Inr ip \<Longrightarrow>
     ip = (if bt_get labels LABEL_PUBLIC = Some ''true'' then AllInterfaces else Loopback)"
  by (auto simp: host_ip_for_def split: option.splits if_splits)

fun plain_name :: "component \<Rightarrow> bool" where
  "plain_name (Normal n) = name_ok n"
| "plain_name _ = False"

definition inside_app :: "path \<Rightarrow> path \<Rightarrow> bool" where
  "inside_app app_path p =
     (case path_strip_prefix (normalize_path app_path) p of
        None \<Rightarrow> False | Some below \<Rightarrow> list_all plain_name below)"

lemma inside_app_append: "list_all name_ok names \<Longrightarrow> inside_app app_path (normalize_path app_path @ map Normal names)"
  by (simp add: inside_app_def list_all_iff)

text \<open>What is known of the context a service is parsed in: absolute, well-formed paths.\<close>

definition context_ok :: "service_context \<Rightarrow> bool" where
  "context_ok ctx \<longleftrightarrow> is_absolute (sc_app_path ctx) \<and> path_ok (sc_app_path ctx) \<and> path_ok (sc_compose_dir ctx)"

lemma resolve_inside_app:
  "is_absolute app_path \<Longrightarrow> path_ok base \<Longrightarrow> resolve_inside fs app_path base raw what = Inr p \<Longrightarrow>
     inside_app app_path p"
  using resolve_below [of app_path base fs raw what p] inside_app_append by blast

definition target_safe :: "string \<Rightarrow> bool" where
  "target_safe t \<longleftrightarrow> starts_with ''/'' t \<and> CHR '':'' \<notin> set t \<and> CHR '','' \<notin> set t \<and> \<not> has_blank_or_control t"

fun source_safe :: "service_context \<Rightarrow> service_mount_source \<Rightarrow> bool" where
  "source_safe ctx (SVolume k) =
     (volume_key_str k \<in> set (sc_declared_volumes ctx) \<and> is_volume_name (volume_key_str k))"
| "source_safe ctx (SBind p) = (inside_app (sc_app_path ctx) p \<and> \<not> has_blank_or_control (path_text p))"
| "source_safe ctx SAnonymous = True"

definition mount_safe :: "service_context \<Rightarrow> service_mount \<Rightarrow> bool" where
  "mount_safe ctx m \<longleftrightarrow> source_safe ctx (sm_source m) \<and> target_safe (sm_target m)"

lemma named_volume_safe: "named_volume ctx name = Inr src \<Longrightarrow> source_safe ctx src"
  by (auto simp: named_volume_def split: if_splits)

lemma bind_source_safe: "context_ok ctx \<Longrightarrow> bind_source fs ctx raw = Inr src \<Longrightarrow> source_safe ctx src"
  by (auto simp: bind_source_def context_ok_def result_simps split: if_splits intro: resolve_inside_app)

lemma container_path_safe: "container_path raw = Inr t \<Longrightarrow> target_safe t"
  by (auto simp: container_path_def target_safe_def split: if_splits)

lemma bind_or_named_safe: "context_ok ctx \<Longrightarrow> bind_or_named fs ctx raw = Inr src \<Longrightarrow> source_safe ctx src"
  by (auto simp: bind_or_named_def split: if_splits intro: bind_source_safe named_volume_safe)

lemma long_source_safe: "context_ok ctx \<Longrightarrow> long_source fs ctx ty raw = Inr src \<Longrightarrow> source_safe ctx src"
  by (auto simp: long_source_def split: if_splits option.splits intro: bind_source_safe named_volume_safe)

lemma volume_parse_short_safe:
  assumes "context_ok ctx" and "volume_parse_short fs ctx text = Inr m"
  shows "mount_safe ctx m"
proof -
  obtain source tgt read_only src t where
    src: "(case source of Some source \<Rightarrow> bind_or_named fs ctx source | None \<Rightarrow> Inr SAnonymous) = Inr src"
    and t: "container_path tgt = Inr t" and m: "m = \<lparr>sm_source = src, sm_target = t, sm_read_only = read_only\<rparr>"
    using assms(2) unfolding volume_parse_short_def and_then_Inr by (auto simp: and_then_Inr)
  have "source_safe ctx src" using src assms(1) by (auto split: option.splits intro: bind_or_named_safe)
  then show ?thesis using container_path_safe [OF t] by (simp add: mount_safe_def m)
qed

lemma volume_parse_long_safe:
  assumes "context_ok ctx" and "volume_parse_long fs ctx fds = Inr m"
  shows "mount_safe ctx m"
proof -
  obtain ty source src tgt t read_only where src: "long_source fs ctx ty source = Inr src"
    and t: "(case tgt of Some raw \<Rightarrow> container_path raw | None \<Rightarrow> Inl VolumeNeedsTarget) = Inr t"
    and m: "m = \<lparr>sm_source = src, sm_target = t, sm_read_only = read_only\<rparr>"
    using assms(2) unfolding volume_parse_long_def and_then_Inr by auto
  have "target_safe t" using t by (auto split: option.splits intro: container_path_safe)
  then show ?thesis using long_source_safe [OF assms(1) src] by (simp add: mount_safe_def m)
qed

lemma parse_volumes_safe:
  assumes "context_ok ctx" "parse_volumes fs ctx v = Inr ms" and "m \<in> set ms"
  shows "mount_safe ctx m"
proof -
  obtain entry where "parse_volume_entry fs ctx entry = Inr m"
    using assms by (auto simp: parse_volumes_def split: yaml.splits dest!: traverse_set)
  then show ?thesis
    using assms(1)
    by (auto simp: parse_volume_entry_def split: yaml.splits
        intro: volume_parse_short_safe volume_parse_long_safe)
qed

end
