(* ===== verification/Compose_Settings.thy ===== *)
theory Compose_Settings
  imports Compose_Fields
begin

text \<open>
  The remaining fields of a compose service: \<open>compose/health.rs\<close>,
  \<open>compose/depends.rs\<close>, \<open>compose/fields.rs\<close>, \<open>compose/build.rs\<close> and
  \<open>compose/service_env.rs\<close>.

  \<open>shlex::split\<close> is a third-party function; it is the argument \<open>shlex\<close> of the parsers
  that call it.
\<close>

section \<open>health.rs\<close>

datatype health_error =
    HealthNotMapping
  | HealthScalar scalar_error
  | DisableNotBool
  | HealthNeedsTest
  | HealthDuration string string
  | HealthDurationNotString string
  | BadRetries
  | RetriesNotNumber
  | BadHealthTest "string list"

definition HEALTH_KEYS :: "string list" where
  "HEALTH_KEYS = [''test'', ''interval'', ''timeout'', ''retries'', ''start_period'', ''disable'']"

definition duration_field :: "mapping \<Rightarrow> string \<Rightarrow> (health_error, duration option) result" where
  "duration_field fds key =
     (case bt_get fds key of
        None \<Rightarrow> Inr None
      | Some (VString text) \<Rightarrow>
          and_then (map_err (HealthDuration key) (parse_duration text)) (\<lambda>d. Inr (Some d))
      | Some _ \<Rightarrow> Inl (HealthDurationNotString key))"

definition parse_test :: "yaml \<Rightarrow> (health_error, health_test) result" where
  "parse_test v =
     (case v of
        VString line \<Rightarrow> Inr (TestShell line)
      | _ \<Rightarrow>
          and_then (map_err HealthScalar (string_list v ''healthcheck test'')) (\<lambda>words.
          case words of
            [] \<Rightarrow> Inl (BadHealthTest words)
          | head # rest \<Rightarrow>
              (if head = ''NONE'' \<and> rest = [] then Inr TestDisabled
               else if head = ''CMD'' \<and> rest \<noteq> [] then Inr (TestExec rest)
               else if head = ''CMD-SHELL'' \<and> length rest = 1 then Inr (TestShell (hd rest))
               else Inl (BadHealthTest words))))"

definition retries_field :: "mapping \<Rightarrow> (health_error, u32 option) result" where
  "retries_field fds =
     (case bt_get fds ''retries'' of
        None \<Rightarrow> Inr None
      | Some (VNumber n) \<Rightarrow>
          (case as_u64 n of
             Some k \<Rightarrow> (if k < 2 ^ 32 then Inr (Some (of_nat k)) else Inl BadRetries)
           | None \<Rightarrow> Inl BadRetries)
      | Some _ \<Rightarrow> Inl RetriesNotNumber)"

definition parse_healthcheck :: "yaml \<Rightarrow> (health_error, health_check) result" where
  "parse_healthcheck v =
     (case v of
        VObject fds \<Rightarrow>
          and_then (map_err HealthScalar (reject_unknown fds HEALTH_KEYS ''healthcheck'')) (\<lambda>_.
          and_then
            (case bt_get fds ''disable'' of
               None \<Rightarrow> Inr False | Some (VBool flag) \<Rightarrow> Inr flag | Some _ \<Rightarrow> Inl DisableNotBool) (\<lambda>disabled.
          and_then
            (if disabled then Inr TestDisabled
             else case bt_get fds ''test'' of Some t \<Rightarrow> parse_test t | None \<Rightarrow> Inl HealthNeedsTest) (\<lambda>test.
          and_then (duration_field fds ''interval'') (\<lambda>interval.
          and_then (duration_field fds ''timeout'') (\<lambda>timeout.
          and_then (duration_field fds ''start_period'') (\<lambda>start_period.
          and_then (retries_field fds) (\<lambda>retries.
          Inr \<lparr>hc_test = test, hc_interval = interval, hc_timeout = timeout, hc_retries = retries,
               hc_start_period = start_period\<rparr>)))))))
      | _ \<Rightarrow> Inl HealthNotMapping)"

section \<open>depends.rs\<close>

datatype depends_error =
    DependsEntryNotName
  | DependsNotListOrMap
  | DependsName type_error
  | DependsSettings string
  | DependsScalar scalar_error
  | DependsConditionUnsupported string yaml

definition dependency_of :: "string \<Rightarrow> depends_condition \<Rightarrow> (depends_error, dependency) result" where
  "dependency_of name condition =
     (case service_name_try_from name of
        Inr service \<Rightarrow> Inr \<lparr>dep_service = service, dep_condition = condition\<rparr>
      | Inl e \<Rightarrow> Inl (DependsName e))"

definition parse_condition :: "string \<Rightarrow> yaml \<Rightarrow> (depends_error, depends_condition) result" where
  "parse_condition name settings =
     (case settings of
        VNull \<Rightarrow> Inr Started
      | VObject fds \<Rightarrow>
          and_then (map_err DependsScalar
            (reject_unknown fds [''condition''] (field_of ''depends_on'' name))) (\<lambda>_.
          case bt_get fds ''condition'' of
            None \<Rightarrow> Inr Started
          | Some other \<Rightarrow>
              (if other = VString ''service_started'' then Inr Started
               else if other = VString ''service_healthy'' then Inr Healthy
               else Inl (DependsConditionUnsupported name other)))
      | _ \<Rightarrow> Inl (DependsSettings name))"

definition parse_depends_on :: "yaml \<Rightarrow> (depends_error, dependency list) result" where
  "parse_depends_on v =
     (case v of
        VArray names \<Rightarrow>
          traverse (\<lambda>name. case name of
              VString name \<Rightarrow> dependency_of name Started
            | _ \<Rightarrow> Inl DependsEntryNotName) names
      | VObject entries \<Rightarrow>
          traverse (\<lambda>(name, settings).
            and_then (parse_condition name settings) (dependency_of name)) entries
      | _ \<Rightarrow> Inl DependsNotListOrMap)"

section \<open>fields.rs\<close>

datatype field_error =
    ImageNotString
  | InvalidImage string
  | UnbalancedQuotes string string
  | FieldScalar scalar_error
  | UserNotString
  | InvalidUser string
  | BadWorkingDir yaml
  | RestartUnsupported yaml
  | BadGrace string
  | GraceNotString
  | SignalNotString yaml
  | BadSignal type_error
  | NetworkEntryNotName
  | ServiceNetworksShape
  | ServiceNetwork string

definition parse_image :: "yaml \<Rightarrow> (field_error, string) result" where
  "parse_image v =
     (case v of
        VString img \<Rightarrow>
          (case img of
             [] \<Rightarrow> Inl (InvalidImage img)
           | c # cs \<Rightarrow>
               (if is_ascii_alphanumeric c \<and>
                   list_all (\<lambda>c. is_ascii_alphanumeric c \<or> c \<in> set ''/:@._-'') cs
                then Inr img else Inl (InvalidImage img)))
      | _ \<Rightarrow> Inl ImageNotString)"

definition parse_command ::
  "(string \<Rightarrow> string list option) \<Rightarrow> yaml \<Rightarrow> string \<Rightarrow> (field_error, string list) result" where
  "parse_command shlex v key =
     (case v of
        VString line \<Rightarrow>
          (case shlex line of
             None \<Rightarrow> Inl (UnbalancedQuotes key line)
           | Some words \<Rightarrow>
               and_then (map_err FieldScalar (check_each (\<lambda>word. check_text word key) words)) (\<lambda>_.
               Inr words))
      | _ \<Rightarrow> map_err FieldScalar (string_list v key))"

definition parse_user :: "yaml \<Rightarrow> (field_error, string) result" where
  "parse_user v =
     (case v of
        VString user \<Rightarrow>
          (case user of
             [] \<Rightarrow> Inl (InvalidUser user)
           | c # cs \<Rightarrow>
               (if (is_ascii_alphanumeric c \<or> c = CHR ''_'') \<and>
                   list_all (\<lambda>c. is_ascii_alphanumeric c \<or> c \<in> set ''_.:-'') cs
                then Inr user else Inl (InvalidUser user)))
      | _ \<Rightarrow> Inl UserNotString)"

definition parse_working_dir :: "yaml \<Rightarrow> (field_error, string) result" where
  "parse_working_dir v =
     (case v of
        VString dir \<Rightarrow>
          (if starts_with ''/'' dir \<and> is_ok (check_text dir ''working_dir'') then Inr dir
           else Inl (BadWorkingDir v))
      | _ \<Rightarrow> Inl (BadWorkingDir v))"

definition restart_of :: "string \<Rightarrow> restart_policy option" where
  "restart_of policy =
     (if policy = ''no'' then Some RestartNo
      else if policy = ''always'' then Some RestartAlways
      else if policy = ''unless-stopped'' then Some RestartUnlessStopped
      else if policy = ''on-failure'' then Some (RestartOnFailure None)
      else case strip_prefix ''on-failure:'' policy of
             None \<Rightarrow> None
           | Some n \<Rightarrow> (case parse_u32 n of Some k \<Rightarrow> Some (RestartOnFailure (Some k)) | None \<Rightarrow> None))"

definition parse_restart :: "yaml \<Rightarrow> (field_error, restart_policy) result" where
  "parse_restart v =
     (case (case v of VString policy \<Rightarrow> Some policy | VBool False \<Rightarrow> Some ''no'' | _ \<Rightarrow> None) of
        None \<Rightarrow> Inl (RestartUnsupported v)
      | Some policy \<Rightarrow>
          (case restart_of policy of Some r \<Rightarrow> Inr r | None \<Rightarrow> Inl (RestartUnsupported (VString policy))))"

definition parse_stop_grace :: "yaml option \<Rightarrow> (field_error, duration) result" where
  "parse_stop_grace v =
     (case v of
        None \<Rightarrow> Inr DEFAULT_STOP_GRACE
      | Some (VString text) \<Rightarrow> map_err BadGrace (parse_duration text)
      | Some _ \<Rightarrow> Inl GraceNotString)"

definition parse_stop_signal :: "yaml \<Rightarrow> (field_error, stop_signal) result" where
  "parse_stop_signal v =
     (case v of
        VString name \<Rightarrow> map_err BadSignal (stop_signal_try_from name)
      | _ \<Rightarrow> Inl (SignalNotString v))"

definition check_networks :: "yaml \<Rightarrow> (field_error, unit) result" where
  "check_networks v =
     and_then
       (case v of
          VArray items \<Rightarrow>
            traverse (\<lambda>item. case item of VString name \<Rightarrow> Inr (name, True) | _ \<Rightarrow> Inl NetworkEntryNotName) items
        | VObject entries \<Rightarrow> Inr (map (\<lambda>(name, settings). (name, plain_network settings)) entries)
        | _ \<Rightarrow> Inl ServiceNetworksShape)
       (check_each (\<lambda>(name, plain). if name \<noteq> ''default'' \<or> \<not> plain then Inl (ServiceNetwork name) else Inr ()))"

section \<open>build.rs\<close>

datatype build_error =
    BuildPath path_error
  | BuildShape
  | BuildScalar scalar_error
  | ContextNotString
  | DockerfileOutside string path
  | DockerfileNotString

definition resolve_context :: "file_system \<Rightarrow> service_context \<Rightarrow> string \<Rightarrow> (build_error, path) result" where
  "resolve_context fs ctx raw =
     map_err BuildPath (resolve_inside fs (sc_app_path ctx) (sc_compose_dir ctx) raw ''build context'')"

definition build_dockerfile ::
  "file_system \<Rightarrow> service_context \<Rightarrow> path \<Rightarrow> yaml option \<Rightarrow> (build_error, path option) result" where
  "build_dockerfile fs ctx context v =
     (case v of
        None \<Rightarrow> Inr None
      | Some (VString file) \<Rightarrow>
          and_then (map_err BuildPath
            (resolve_inside fs (sc_app_path ctx) context file ''build dockerfile'')) (\<lambda>p.
          if path_starts_with context p then Inr (Some p) else Inl (DockerfileOutside file context))
      | Some _ \<Rightarrow> Inl DockerfileNotString)"

definition parse_build :: "file_system \<Rightarrow> service_context \<Rightarrow> yaml \<Rightarrow> (build_error, build_def) result" where
  "parse_build fs ctx v =
     (case v of
        VString context \<Rightarrow>
          and_then (resolve_context fs ctx context) (\<lambda>context.
          Inr \<lparr>bd_context = context, bd_dockerfile = None, bd_args = []\<rparr>)
      | VObject fds \<Rightarrow>
          and_then (map_err BuildScalar (reject_unknown fds [''context'', ''dockerfile'', ''args''] ''build'')) (\<lambda>_.
          and_then
            (case bt_get fds ''context'' of
               Some (VString context) \<Rightarrow> resolve_context fs ctx context
             | Some _ \<Rightarrow> Inl ContextNotString
             | None \<Rightarrow> resolve_context fs ctx ''.'') (\<lambda>context.
          and_then (build_dockerfile fs ctx context (bt_get fds ''dockerfile'')) (\<lambda>dockerfile.
          and_then
            (case bt_get fds ''args'' of
               Some args \<Rightarrow> map_err BuildScalar (string_map args ''build arg'')
             | None \<Rightarrow> Inr []) (\<lambda>args.
          Inr \<lparr>bd_context = context, bd_dockerfile = dockerfile, bd_args = args\<rparr>))))
      | _ \<Rightarrow> Inl BuildShape)"

section \<open>service_env.rs\<close>

datatype service_env_error =
    EnvFileEntryNotString
  | EnvFileShape
  | EnvFilePath path_error
  | EnvFileRead file_error
  | EnvFileSyntax dotenv_error
  | InvalidEnvName string
  | EnvScalar scalar_error
  | EnvEntryNotString
  | EnvironmentShape

definition check_key :: "string \<Rightarrow> (service_env_error, unit) result" where
  "check_key key = (if is_valid_key key then Inr () else Inl (InvalidEnvName key))"

definition env_file_names :: "yaml \<Rightarrow> (service_env_error, string list) result" where
  "env_file_names v =
     (case v of
        VString name \<Rightarrow> Inr [name]
      | VArray items \<Rightarrow>
          traverse (\<lambda>item. case item of VString name \<Rightarrow> Inr name | _ \<Rightarrow> Inl EnvFileEntryNotString) items
      | _ \<Rightarrow> Inl EnvFileShape)"

definition read_env_file ::
  "file_system \<Rightarrow> service_context \<Rightarrow> string \<Rightarrow> env_map \<Rightarrow> (service_env_error, env_map) result" where
  "read_env_file fs ctx name vars =
     and_then (map_err EnvFilePath
       (resolve_inside fs (sc_app_path ctx) (sc_compose_dir ctx) name ''env_file'')) (\<lambda>p.
     and_then (map_err EnvFileRead (read_app_file fs (sc_app_path ctx) p)) (\<lambda>text.
     and_then (map_err EnvFileSyntax (parse_dotenv name text (sc_vars ctx) [])) (\<lambda>(parsed, _).
     Inr (bt_extend vars parsed))))"

definition read_env_files ::
  "file_system \<Rightarrow> service_context \<Rightarrow> yaml \<Rightarrow> (service_env_error, env_map) result" where
  "read_env_files fs ctx v =
     and_then (env_file_names v) (\<lambda>names. fold_result (read_env_file fs ctx) names [])"

definition inline_map_entry :: "string \<times> yaml \<Rightarrow> env_map \<Rightarrow> (service_env_error, env_map) result" where
  "inline_map_entry = (\<lambda>(key, raw) vars.
     and_then (check_key key) (\<lambda>_.
     if raw = VNull then Inr vars
     else and_then (map_err EnvScalar (text_value raw (field_of ''environment'' key))) (\<lambda>text.
          Inr (bt_insert key text vars))))"

definition inline_list_entry ::
  "service_context \<Rightarrow> yaml \<Rightarrow> env_map \<Rightarrow> (service_env_error, env_map) result" where
  "inline_list_entry ctx item vars =
     (case item of
        VString entry \<Rightarrow>
          (let kv = (case split_once (CHR ''='') entry of
                       Some (key, text) \<Rightarrow> (key, Some text)
                     | None \<Rightarrow> (entry, bt_get (sc_vars ctx) entry))
           in and_then (check_key (fst kv)) (\<lambda>_.
              case snd kv of
                Some text \<Rightarrow> Inr (bt_insert (fst kv) text vars)
              | None \<Rightarrow> Inr vars))
      | _ \<Rightarrow> Inl EnvEntryNotString)"

definition inline_environment :: "service_context \<Rightarrow> yaml \<Rightarrow> (service_env_error, env_map) result" where
  "inline_environment ctx v =
     (case v of
        VObject entries \<Rightarrow> fold_result inline_map_entry entries []
      | VArray items \<Rightarrow> fold_result (inline_list_entry ctx) items []
      | _ \<Rightarrow> Inl EnvironmentShape)"

definition parse_environment ::
  "file_system \<Rightarrow> service_context \<Rightarrow> mapping \<Rightarrow> (service_env_error, env_map) result" where
  "parse_environment fs ctx service =
     and_then
       (case bt_get service ''env_file'' of Some files \<Rightarrow> read_env_files fs ctx files | None \<Rightarrow> Inr []) (\<lambda>merged.
     and_then
       (case bt_get service ''environment'' of
          Some inline \<Rightarrow> and_then (inline_environment ctx inline) (\<lambda>vars. Inr (bt_extend merged vars))
        | None \<Rightarrow> Inr merged) (\<lambda>merged.
     and_then (map_err EnvScalar
       (check_each (\<lambda>(key, text). check_text text (field_of ''environment'' key)) merged)) (\<lambda>_.
     Inr merged)))"

section \<open>What the parsers guarantee\<close>

lemma parse_command_clean:
  "parse_command shlex v key = Inr words \<Longrightarrow> w \<in> set words \<Longrightarrow> \<not> has_line_break_or_nul w"
  by (cases v) (auto simp: parse_command_def result_simps split: option.splits dest: string_list_clean)

lemma parse_depends_valid:
  assumes "parse_depends_on v = Inr deps" and "d \<in> set deps"
  shows "valid_service (dep_service d)"
proof -
  obtain name c where "dependency_of name c = Inr d"
    using assms
    by (cases v) (auto simp: parse_depends_on_def and_then_Inr split: yaml.splits dest!: traverse_set)
  then show ?thesis
    by (cases "service_name_try_from name") (auto simp: dependency_of_def dest: service_name_valid)
qed

text \<open>A build stays inside the app, and its Dockerfile inside its context.\<close>

definition build_safe :: "service_context \<Rightarrow> build_def \<Rightarrow> bool" where
  "build_safe ctx b \<longleftrightarrow> inside_app (sc_app_path ctx) (bd_context b) \<and>
     (case bd_dockerfile b of None \<Rightarrow> True
      | Some p \<Rightarrow> inside_app (sc_app_path ctx) p \<and> path_starts_with (bd_context b) p)"

lemma inside_path_ok: "path_ok app_path \<Longrightarrow> inside_app app_path p \<Longrightarrow> path_ok p"
  using normalize_ok [of app_path]
  by (auto simp: inside_app_def path_ok_def list_all_iff path_strip_prefix_Some split: option.splits)

lemma resolve_context_safe:
  "context_ok ctx \<Longrightarrow> resolve_context fs ctx raw = Inr p \<Longrightarrow> inside_app (sc_app_path ctx) p"
  by (auto simp: resolve_context_def context_ok_def result_simps intro: resolve_inside_app)

lemma build_dockerfile_safe:
  "context_ok ctx \<Longrightarrow> inside_app (sc_app_path ctx) context \<Longrightarrow>
     build_dockerfile fs ctx context v = Inr (Some p) \<Longrightarrow>
     inside_app (sc_app_path ctx) p \<and> path_starts_with context p"
  by (auto simp: build_dockerfile_def context_ok_def result_simps split: option.splits yaml.splits if_splits
      intro: resolve_inside_app inside_path_ok)

lemma parse_build_safe:
  assumes "context_ok ctx" and "parse_build fs ctx v = Inr b"
  shows "build_safe ctx b"
proof (cases v)
  case (VString raw)
  then show ?thesis
    using assms by (auto simp: parse_build_def build_safe_def and_then_Inr dest: resolve_context_safe)
next
  case (VObject fds)
  then obtain cdir dockerfile args where
    c: "(case bt_get fds ''context'' of
           Some (VString context) \<Rightarrow> resolve_context fs ctx context
         | Some _ \<Rightarrow> Inl ContextNotString
         | None \<Rightarrow> resolve_context fs ctx ''.'') = Inr cdir"
    and d: "build_dockerfile fs ctx cdir (bt_get fds ''dockerfile'') = Inr dockerfile"
    and b: "b = \<lparr>bd_context = cdir, bd_dockerfile = dockerfile, bd_args = args\<rparr>"
    using assms(2) unfolding parse_build_def by (auto simp: and_then_Inr)
  have "inside_app (sc_app_path ctx) cdir"
    using c assms(1) by (auto split: option.splits yaml.splits dest: resolve_context_safe)
  then show ?thesis
    using build_dockerfile_safe [OF assms(1)] d by (auto simp: build_safe_def b split: option.splits)
qed (use assms in \<open>auto simp: parse_build_def\<close>)

definition env_safe :: "env_map \<Rightarrow> bool" where
  "env_safe vars \<longleftrightarrow> bt_ok vars \<and> (\<forall>(k, v) \<in> set vars. is_valid_key k)"

lemma env_safe_insert: "env_safe vars \<Longrightarrow> is_valid_key k \<Longrightarrow> env_safe (bt_insert k v vars)"
  using bt_insert_all [of vars "\<lambda>(k, v). is_valid_key k" k v]
  by (auto simp: env_safe_def bt_ok_insert)

lemma env_safe_extend: "env_safe vars \<Longrightarrow> env_safe new \<Longrightarrow> env_safe (bt_extend vars new)"
  using bt_extend_all [of vars "\<lambda>(k, v). is_valid_key k" new]
  by (auto simp: env_safe_def bt_ok_extend)

lemma env_safe_Nil: "env_safe []"
  by (simp add: env_safe_def bt_ok_def)

lemma check_key_Inr [result_simps]: "check_key key = Inr u \<longleftrightarrow> is_valid_key key"
  by (simp add: check_key_def)

lemma read_env_files_safe: "read_env_files fs ctx v = Inr vars \<Longrightarrow> env_safe vars"
proof -
  assume "read_env_files fs ctx v = Inr vars"
  then obtain names where run: "fold_result (read_env_file fs ctx) names [] = Inr vars"
    by (auto simp: read_env_files_def result_simps)
  show ?thesis
    using run env_safe_Nil
  proof (rule fold_result_inv)
    fix name m m'
    assume "env_safe m" and read: "read_env_file fs ctx name m = Inr m'"
    obtain body parsed ws where p: "parse_dotenv name body (sc_vars ctx) [] = Inr (parsed, ws)"
      and m': "m' = bt_extend m parsed"
      using read by (auto simp: read_env_file_def result_simps)
    have "env_safe parsed" using dotenv_result_ok [OF p] by (simp add: env_safe_def)
    then show "env_safe m'" using \<open>env_safe m\<close> m' by (simp add: env_safe_extend)
  qed
qed

lemma inline_environment_safe: "inline_environment ctx v = Inr vars \<Longrightarrow> env_safe vars"
proof (cases v)
  case (VArray items)
  moreover assume "inline_environment ctx v = Inr vars"
  ultimately have "fold_result (inline_list_entry ctx) items [] = Inr vars"
    by (simp add: inline_environment_def)
  then show ?thesis using env_safe_Nil
    by (rule fold_result_inv)
       (auto simp: inline_list_entry_def Let_def result_simps split: yaml.splits option.splits intro: env_safe_insert)
next
  case (VObject entries)
  moreover assume "inline_environment ctx v = Inr vars"
  ultimately have "fold_result inline_map_entry entries [] = Inr vars"
    by (simp add: inline_environment_def)
  then show ?thesis using env_safe_Nil
    by (rule fold_result_inv)
       (auto simp: inline_map_entry_def result_simps split: if_splits intro: env_safe_insert)
qed (simp_all add: inline_environment_def)

lemma parse_environment_safe:
  assumes "parse_environment fs ctx service = Inr vars"
  shows "env_safe vars \<and> (\<forall>(k, v) \<in> set vars. \<not> has_line_break_or_nul v)"
proof -
  obtain files where
    f: "(case bt_get service ''env_file'' of Some fl \<Rightarrow> read_env_files fs ctx fl | None \<Rightarrow> Inr []) = Inr files"
    and m: "(case bt_get service ''environment'' of
          Some inline \<Rightarrow> and_then (inline_environment ctx inline) (\<lambda>vars. Inr (bt_extend files vars))
        | None \<Rightarrow> Inr files) = Inr vars"
    and checked: "check_each (\<lambda>(key, text). check_text text (field_of ''environment'' key)) vars = Inr ()"
    using assms unfolding parse_environment_def by (auto simp: and_then_Inr map_err_Inr)
  have "env_safe files" using f by (auto split: option.splits intro: env_safe_Nil read_env_files_safe)
  then have "env_safe vars"
    using m by (auto simp: and_then_Inr split: option.splits intro: env_safe_extend inline_environment_safe)
  then show ?thesis using checked by (auto simp: check_each_Inr check_text_Inr)
qed

end
