(* ===== verification/Compose_Service.thy ===== *)
theory Compose_Service
  imports Compose_Settings
begin

text \<open>
  One compose service: \<open>ServiceDef\<close> of \<open>compose/definition.rs\<close>, the steps of
  \<open>compose/service_steps.rs\<close> in their order, and \<open>parse_service\<close> of
  \<open>compose/service.rs\<close>.  Each step takes the record being filled and returns it updated.

  What a parsed service guarantees to the engine is the predicate \<open>service_safe\<close>; it is built
  from one lemma per field.
\<close>

record service_def =
  sd_name :: service_name
  sd_image :: "string option"
  sd_build :: "build_def option"
  sd_command :: "string list option"
  sd_entrypoint :: "string list option"
  sd_environment :: env_map
  sd_ports :: "port_binding list"
  sd_mounts :: "service_mount list"
  sd_depends_on :: "dependency list"
  sd_healthcheck :: "health_check option"
  sd_restart :: restart_policy
  sd_stop_grace :: duration
  sd_stop_signal :: stop_signal
  sd_labels :: "(string, string) btree"
  sd_working_dir :: "string option"
  sd_user :: "string option"

datatype service_error =
    BadServiceName type_error
  | NotAMapping
  | BadServiceKeys scalar_error
  | BadLabels scalar_error
  | ReservedLabel string
  | BadField field_error
  | BadBuild build_error
  | NeedsImageOrBuild
  | BadHealth health_error
  | BadDepends depends_error
  | BadEnvironment service_env_error
  | BadPorts port_error
  | BadVolumes volume_error

text \<open>A parser of one optional key: absent leaves the old value.\<close>

definition optional_key ::
  "mapping \<Rightarrow> string \<Rightarrow> (yaml \<Rightarrow> ('e, 'a) result) \<Rightarrow> 'a \<Rightarrow> ('e, 'a) result" where
  "optional_key fds key parse absent =
     (case bt_get fds key of None \<Rightarrow> Inr absent | Some v \<Rightarrow> parse v)"

definition optional_some ::
  "mapping \<Rightarrow> string \<Rightarrow> (yaml \<Rightarrow> ('e, 'a) result) \<Rightarrow> 'a option \<Rightarrow> ('e, 'a option) result" where
  "optional_some fds key parse absent =
     optional_key fds key (\<lambda>v. and_then (parse v) (\<lambda>a. Inr (Some a))) absent"

type_synonym service_step = "mapping \<Rightarrow> service_def \<Rightarrow> (service_error, service_def) result"

definition RESERVED_LABELS :: "string list" where
  "RESERVED_LABELS = [LABEL_APP, LABEL_SERVICE, LABEL_COPY, LABEL_PORT, LABEL_RESTART]"

definition apply_labels :: service_step where
  "apply_labels fds s =
     and_then (optional_key fds ''labels'' (\<lambda>v. map_err BadLabels (string_map v ''label'')) (sd_labels s)) (\<lambda>labels.
     case find (\<lambda>reserved. bt_get labels reserved \<noteq> None) RESERVED_LABELS of
       Some reserved \<Rightarrow> Inl (ReservedLabel reserved)
     | None \<Rightarrow> Inr (s\<lparr>sd_labels := labels\<rparr>))"

definition apply_image_and_build :: "file_system \<Rightarrow> service_context \<Rightarrow> service_step" where
  "apply_image_and_build fs ctx fds s =
     and_then (optional_some fds ''image'' (\<lambda>v. map_err BadField (parse_image v)) (sd_image s)) (\<lambda>img.
     and_then (optional_some fds ''build'' (\<lambda>v. map_err BadBuild (parse_build fs ctx v)) (sd_build s)) (\<lambda>build.
     if img = None \<and> build = None then Inl NeedsImageOrBuild
     else Inr (s\<lparr>sd_image := img, sd_build := build\<rparr>)))"

definition apply_process :: "(string \<Rightarrow> string list option) \<Rightarrow> service_step" where
  "apply_process shlex fds s =
     and_then (optional_some fds ''command'' (\<lambda>v. map_err BadField (parse_command shlex v ''command'')) (sd_command s)) (\<lambda>command.
     and_then (optional_some fds ''entrypoint'' (\<lambda>v. map_err BadField (parse_command shlex v ''entrypoint'')) (sd_entrypoint s)) (\<lambda>entrypoint.
     and_then (optional_some fds ''working_dir'' (\<lambda>v. map_err BadField (parse_working_dir v)) (sd_working_dir s)) (\<lambda>dir.
     and_then (optional_some fds ''user'' (\<lambda>v. map_err BadField (parse_user v)) (sd_user s)) (\<lambda>user.
     Inr (s\<lparr>sd_command := command, sd_entrypoint := entrypoint, sd_working_dir := dir, sd_user := user\<rparr>)))))"

definition apply_lifecycle :: service_step where
  "apply_lifecycle fds s =
     and_then (optional_key fds ''restart'' (\<lambda>v. map_err BadField (parse_restart v)) (sd_restart s)) (\<lambda>restart.
     and_then (map_err BadField (parse_stop_grace (bt_get fds ''stop_grace_period''))) (\<lambda>grace.
     and_then (optional_key fds ''stop_signal'' (\<lambda>v. map_err BadField (parse_stop_signal v)) (sd_stop_signal s)) (\<lambda>signal.
     and_then (optional_some fds ''healthcheck'' (\<lambda>v. map_err BadHealth (parse_healthcheck v)) (sd_healthcheck s)) (\<lambda>check.
     and_then (optional_key fds ''depends_on'' (\<lambda>v. map_err BadDepends (parse_depends_on v)) (sd_depends_on s)) (\<lambda>dependencies.
     and_then (optional_key fds ''networks'' (\<lambda>v. map_err BadField (check_networks v)) ()) (\<lambda>_.
     Inr (s\<lparr>sd_restart := restart, sd_stop_grace := grace, sd_stop_signal := signal,
            sd_healthcheck := check, sd_depends_on := dependencies\<rparr>)))))))"

definition apply_environment :: "file_system \<Rightarrow> service_context \<Rightarrow> service_step" where
  "apply_environment fs ctx fds s =
     and_then (map_err BadEnvironment (parse_environment fs ctx fds)) (\<lambda>vars.
     Inr (s\<lparr>sd_environment := vars\<rparr>))"

definition apply_ports :: service_step where
  "apply_ports fds s =
     and_then (map_err BadPorts (host_ip_for (sd_labels s))) (\<lambda>host_ip.
     and_then (optional_key fds ''ports'' (\<lambda>v. map_err BadPorts (parse_ports v host_ip)) (sd_ports s)) (\<lambda>ports.
     Inr (s\<lparr>sd_ports := ports\<rparr>)))"

definition apply_volumes :: "file_system \<Rightarrow> service_context \<Rightarrow> service_step" where
  "apply_volumes fs ctx fds s =
     and_then (optional_key fds ''volumes'' (\<lambda>v. map_err BadVolumes (parse_volumes fs ctx v)) (sd_mounts s)) (\<lambda>mounts.
     Inr (s\<lparr>sd_mounts := mounts\<rparr>))"

definition STEPS :: "file_system \<Rightarrow> (string \<Rightarrow> string list option) \<Rightarrow> service_context \<Rightarrow> service_step list" where
  "STEPS fs shlex ctx =
     [apply_labels, apply_image_and_build fs ctx, apply_process shlex, apply_lifecycle,
      apply_environment fs ctx, apply_ports, apply_volumes fs ctx]"

definition new_service :: "service_name \<Rightarrow> service_def" where
  "new_service name =
     \<lparr>sd_name = name, sd_image = None, sd_build = None, sd_command = None, sd_entrypoint = None,
      sd_environment = [], sd_ports = [], sd_mounts = [], sd_depends_on = [], sd_healthcheck = None,
      sd_restart = RestartNo, sd_stop_grace = DEFAULT_STOP_GRACE, sd_stop_signal = stop_signal_default,
      sd_labels = [], sd_working_dir = None, sd_user = None\<rparr>"

definition build_service ::
  "file_system \<Rightarrow> (string \<Rightarrow> string list option) \<Rightarrow> service_context \<Rightarrow> string \<Rightarrow> yaml
     \<Rightarrow> (service_error, service_def) result" where
  "build_service fs shlex ctx name v =
     and_then (map_err BadServiceName (service_name_try_from name)) (\<lambda>name.
     case v of
       VObject fds \<Rightarrow>
         (let known = filter (\<lambda>(key, _). \<not> starts_with ''x-'' key) fds
          in and_then (map_err BadServiceKeys (reject_unknown known SERVICE_KEYS ''service'')) (\<lambda>_.
             fold_result (\<lambda>step s. step fds s) (STEPS fs shlex ctx) (new_service name)))
     | _ \<Rightarrow> Inl NotAMapping)"

text \<open>Every error names the service.\<close>

definition parse_service ::
  "file_system \<Rightarrow> (string \<Rightarrow> string list option) \<Rightarrow> service_context \<Rightarrow> string \<Rightarrow> yaml
     \<Rightarrow> (string \<times> service_error, service_def) result" where
  "parse_service fs shlex ctx name v = map_err (\<lambda>e. (name, e)) (build_service fs shlex ctx name v)"

section \<open>The steps together\<close>

lemma apply_labels_cases:
  assumes "apply_labels fds s = Inr s'"
  obtains x where "s' = s\<lparr>sd_labels := x\<rparr>"
    and "optional_key fds ''labels'' (\<lambda>v. map_err BadLabels (string_map v ''label'')) (sd_labels s) = Inr x"
    and "find (\<lambda>reserved. bt_get x reserved \<noteq> None) RESERVED_LABELS = None"
  using assms by (auto simp: apply_labels_def and_then_Inr split: option.splits)

lemma apply_image_and_build_cases:
  assumes "apply_image_and_build fs ctx fds s = Inr s'"
  obtains x y where "s' = s\<lparr>sd_image := x, sd_build := y\<rparr>" and "x \<noteq> None \<or> y \<noteq> None"
    and "optional_some fds ''image'' (\<lambda>v. map_err BadField (parse_image v)) (sd_image s) = Inr x"
    and "optional_some fds ''build'' (\<lambda>v. map_err BadBuild (parse_build fs ctx v)) (sd_build s) = Inr y"
  using assms unfolding apply_image_and_build_def and_then_Inr if_Inl_Inr by auto

lemma apply_process_cases:
  assumes "apply_process shlex fds s = Inr s'"
  obtains x y z u where "s' = s\<lparr>sd_command := x, sd_entrypoint := y, sd_working_dir := z, sd_user := u\<rparr>"
    and "optional_some fds ''command'' (\<lambda>v. map_err BadField (parse_command shlex v ''command'')) (sd_command s) = Inr x"
    and "optional_some fds ''entrypoint'' (\<lambda>v. map_err BadField (parse_command shlex v ''entrypoint'')) (sd_entrypoint s) = Inr y"
    and "optional_some fds ''user'' (\<lambda>v. map_err BadField (parse_user v)) (sd_user s) = Inr u"
  using assms unfolding apply_process_def and_then_Inr by auto

lemma apply_lifecycle_cases:
  assumes "apply_lifecycle fds s = Inr s'"
  obtains x y z u w where "s' = s\<lparr>sd_restart := x, sd_stop_grace := y, sd_stop_signal := z,
      sd_healthcheck := u, sd_depends_on := w\<rparr>"
    and "optional_some fds ''healthcheck'' (\<lambda>v. map_err BadHealth (parse_healthcheck v)) (sd_healthcheck s) = Inr u"
    and "optional_key fds ''depends_on'' (\<lambda>v. map_err BadDepends (parse_depends_on v)) (sd_depends_on s) = Inr w"
  using assms unfolding apply_lifecycle_def and_then_Inr by auto

lemma apply_environment_cases:
  assumes "apply_environment fs ctx fds s = Inr s'"
  obtains x where "s' = s\<lparr>sd_environment := x\<rparr>" and "parse_environment fs ctx fds = Inr x"
  using assms unfolding apply_environment_def and_then_Inr map_err_Inr by auto

lemma apply_ports_cases:
  assumes "apply_ports fds s = Inr s'"
  obtains ip x where "s' = s\<lparr>sd_ports := x\<rparr>" and "host_ip_for (sd_labels s) = Inr ip"
    and "optional_key fds ''ports'' (\<lambda>v. map_err BadPorts (parse_ports v ip)) (sd_ports s) = Inr x"
  using assms unfolding apply_ports_def and_then_Inr map_err_Inr by auto

lemma apply_volumes_cases:
  assumes "apply_volumes fs ctx fds s = Inr s'"
  obtains x where "s' = s\<lparr>sd_mounts := x\<rparr>"
    and "optional_key fds ''volumes'' (\<lambda>v. map_err BadVolumes (parse_volumes fs ctx v)) (sd_mounts s) = Inr x"
  using assms unfolding apply_volumes_def and_then_Inr by auto

lemmas step_cases = apply_labels_cases apply_image_and_build_cases apply_process_cases
  apply_lifecycle_cases apply_environment_cases apply_ports_cases apply_volumes_cases

text \<open>Where each field of a parsed service comes from.\<close>

lemma parse_service_fields:
  assumes "parse_service fs shlex ctx name v = Inr s"
  obtains fds ip where "v = VObject fds"
    and "service_name_try_from name = Inr (sd_name s)"
    and "optional_key fds ''labels'' (\<lambda>v. map_err BadLabels (string_map v ''label'')) [] = Inr (sd_labels s)"
    and "find (\<lambda>reserved. bt_get (sd_labels s) reserved \<noteq> None) RESERVED_LABELS = None"
    and "optional_some fds ''image'' (\<lambda>v. map_err BadField (parse_image v)) None = Inr (sd_image s)"
    and "optional_some fds ''build'' (\<lambda>v. map_err BadBuild (parse_build fs ctx v)) None = Inr (sd_build s)"
    and "sd_image s \<noteq> None \<or> sd_build s \<noteq> None"
    and "optional_some fds ''command'' (\<lambda>v. map_err BadField (parse_command shlex v ''command'')) None = Inr (sd_command s)"
    and "optional_some fds ''entrypoint'' (\<lambda>v. map_err BadField (parse_command shlex v ''entrypoint'')) None = Inr (sd_entrypoint s)"
    and "optional_some fds ''user'' (\<lambda>v. map_err BadField (parse_user v)) None = Inr (sd_user s)"
    and "optional_some fds ''healthcheck'' (\<lambda>v. map_err BadHealth (parse_healthcheck v)) None = Inr (sd_healthcheck s)"
    and "optional_key fds ''depends_on'' (\<lambda>v. map_err BadDepends (parse_depends_on v)) [] = Inr (sd_depends_on s)"
    and "parse_environment fs ctx fds = Inr (sd_environment s)"
    and "host_ip_for (sd_labels s) = Inr ip"
    and "optional_key fds ''ports'' (\<lambda>v. map_err BadPorts (parse_ports v ip)) [] = Inr (sd_ports s)"
    and "optional_key fds ''volumes'' (\<lambda>v. map_err BadVolumes (parse_volumes fs ctx v)) [] = Inr (sd_mounts s)"
proof -
  obtain fds n s1 s2 s3 s4 s5 s6 where v: "v = VObject fds" "service_name_try_from name = Inr n"
    and steps: "apply_labels fds (new_service n) = Inr s1" "apply_image_and_build fs ctx fds s1 = Inr s2"
      "apply_process shlex fds s2 = Inr s3" "apply_lifecycle fds s3 = Inr s4"
      "apply_environment fs ctx fds s4 = Inr s5" "apply_ports fds s5 = Inr s6" "apply_volumes fs ctx fds s6 = Inr s"
    using assms
    by (cases v) (auto simp: parse_service_def build_service_def STEPS_def Let_def result_simps)
  from steps show thesis
    by (elim step_cases) (rule that [of fds], use v in \<open>simp_all add: new_service_def\<close>)
qed

section \<open>What a parsed service guarantees\<close>

lemma optional_key_Inr:
  "optional_key fds key parse absent = Inr x \<Longrightarrow> (x \<noteq> absent \<longrightarrow> (\<exists>v. parse v = Inr x))"
  by (auto simp: optional_key_def split: option.splits)

lemma optional_some_Inr:
  "optional_some fds key parse None = Inr (Some x) \<Longrightarrow> \<exists>v. parse v = Inr x"
  by (auto simp: optional_some_def and_then_Inr dest!: optional_key_Inr)

lemma service_ports_safe:
  assumes "parse_service fs shlex ctx name v = Inr s" and "b \<in> set (sd_ports s)"
  shows "port_safe (if bt_get (sd_labels s) LABEL_PUBLIC = Some ''true'' then AllInterfaces else Loopback) b"
proof -
  obtain fds ip where ip: "host_ip_for (sd_labels s) = Inr ip"
    and ports: "optional_key fds ''ports'' (\<lambda>v. map_err BadPorts (parse_ports v ip)) [] = Inr (sd_ports s)"
    using assms(1) by (rule parse_service_fields)
  obtain v' where "parse_ports v' ip = Inr (sd_ports s)"
    using optional_key_Inr [OF ports] assms(2) by (auto simp: map_err_Inr)
  then have "port_safe ip b" using assms(2) by (rule parse_ports_safe)
  then show ?thesis using host_ip_for_Inr [OF ip] by simp
qed

lemma service_mounts_safe:
  assumes "parse_service fs shlex ctx name v = Inr s" and "context_ok ctx" and "m \<in> set (sd_mounts s)"
  shows "mount_safe ctx m"
proof -
  obtain fds where
    mounts: "optional_key fds ''volumes'' (\<lambda>v. map_err BadVolumes (parse_volumes fs ctx v)) [] = Inr (sd_mounts s)"
    using assms(1) by (rule parse_service_fields)
  obtain v' where "parse_volumes fs ctx v' = Inr (sd_mounts s)"
    using optional_key_Inr [OF mounts] assms(3) by (auto simp: map_err_Inr)
  then show ?thesis using assms(2,3) by (blast intro: parse_volumes_safe)
qed

lemma service_build_safe:
  assumes "parse_service fs shlex ctx name v = Inr s" and "context_ok ctx" and "sd_build s = Some b"
  shows "build_safe ctx b"
proof -
  obtain fds where
    "optional_some fds ''build'' (\<lambda>v. map_err BadBuild (parse_build fs ctx v)) None = Inr (sd_build s)"
    using assms(1) by (rule parse_service_fields)
  then show ?thesis
    using assms(2,3) by (auto simp: map_err_Inr dest!: optional_some_Inr intro: parse_build_safe)
qed

lemma service_labels_clean:
  assumes "parse_service fs shlex ctx name v = Inr s"
  shows "(\<forall>p \<in> set (sd_labels s). clean_pair p) \<and> (\<forall>l \<in> set RESERVED_LABELS. bt_get (sd_labels s) l = None)"
proof -
  obtain fds where
    labels: "optional_key fds ''labels'' (\<lambda>v. map_err BadLabels (string_map v ''label'')) [] = Inr (sd_labels s)"
    and reserved: "find (\<lambda>reserved. bt_get (sd_labels s) reserved \<noteq> None) RESERVED_LABELS = None"
    using assms(1) by (rule parse_service_fields)
  have "sd_labels s = [] \<or> (\<exists>v'. string_map v' ''label'' = Inr (sd_labels s))"
    using optional_key_Inr [OF labels] by (auto simp: map_err_Inr)
  then have "\<forall>p \<in> set (sd_labels s). clean_pair p" by (auto dest: string_map_clean)
  then show ?thesis using reserved by (simp add: find_None_iff)
qed

lemma service_words_clean:
  assumes "parse_service fs shlex ctx name v = Inr s"
    and "sd_command s = Some ws \<or> sd_entrypoint s = Some ws" and "w \<in> set ws"
  shows "\<not> has_line_break_or_nul w"
proof -
  obtain fds where
    "optional_some fds ''command'' (\<lambda>v. map_err BadField (parse_command shlex v ''command'')) None = Inr (sd_command s)"
    "optional_some fds ''entrypoint'' (\<lambda>v. map_err BadField (parse_command shlex v ''entrypoint'')) None = Inr (sd_entrypoint s)"
    using assms(1) by (rule parse_service_fields)
  then obtain v' key where "parse_command shlex v' key = Inr ws"
    using assms(2) by (auto simp: map_err_Inr dest!: optional_some_Inr)
  then show ?thesis using assms(3) by (rule parse_command_clean)
qed

lemma parse_test_exec: "parse_test v = Inr (TestExec argv) \<Longrightarrow> argv \<noteq> [] \<and> (\<forall>w \<in> set argv. \<not> has_line_break_or_nul w)"
proof -
  assume t: "parse_test v = Inr (TestExec argv)"
  obtain ws where ws: "string_list v ''healthcheck test'' = Inr ws"
    and pick: "(case ws of [] \<Rightarrow> Inl (BadHealthTest ws) | head # rest \<Rightarrow>
        (if head = ''NONE'' \<and> rest = [] then Inr TestDisabled
         else if head = ''CMD'' \<and> rest \<noteq> [] then Inr (TestExec rest)
         else if head = ''CMD-SHELL'' \<and> length rest = 1 then Inr (TestShell (hd rest))
         else Inl (BadHealthTest ws))) = Inr (TestExec argv)"
    using t unfolding parse_test_def by (cases v) (simp_all only: yaml.case and_then_Inr map_err_Inr, auto)
  obtain head where "ws = head # argv" "argv \<noteq> []"
    using pick by (cases ws) (auto split: if_splits)
  then show ?thesis using string_list_clean [OF ws] by simp
qed

lemma service_health_exec:
  assumes "parse_service fs shlex ctx name v = Inr s" and "sd_healthcheck s = Some h" and "hc_test h = TestExec argv"
  shows "argv \<noteq> [] \<and> (\<forall>w \<in> set argv. \<not> has_line_break_or_nul w)"
proof -
  obtain fds where "optional_some fds ''healthcheck'' (\<lambda>v. map_err BadHealth (parse_healthcheck v)) None = Inr (sd_healthcheck s)"
    using assms(1) by (rule parse_service_fields)
  then obtain v' where "parse_healthcheck v' = Inr h" using assms(2) by (auto simp: map_err_Inr dest!: optional_some_Inr)
  then obtain fds' disabled where "(if disabled then Inr TestDisabled
      else case bt_get fds' ''test'' of Some t \<Rightarrow> parse_test t | None \<Rightarrow> Inl HealthNeedsTest) = Inr (hc_test h)"
    unfolding parse_healthcheck_def and_then_Inr by (auto simp: and_then_Inr split: yaml.splits)
  then show ?thesis
    using assms(3) parse_test_exec by (auto split: if_splits option.splits)
qed

lemma service_image_plain:
  assumes "parse_service fs shlex ctx name v = Inr s" and "sd_image s = Some img"
  shows "\<exists>c cs. img = c # cs \<and> is_ascii_alphanumeric c \<and> list_all (\<lambda>c. is_ascii_alphanumeric c \<or> c \<in> set ''/:@._-'') cs"
proof -
  obtain fds where "optional_some fds ''image'' (\<lambda>v. map_err BadField (parse_image v)) None = Inr (sd_image s)"
    using assms(1) by (rule parse_service_fields)
  then obtain v' where "parse_image v' = Inr img" using assms(2) by (auto simp: map_err_Inr dest!: optional_some_Inr)
  then show ?thesis by (auto simp: parse_image_def split: yaml.splits list.splits if_splits)
qed

lemma service_environment_clean:
  assumes "parse_service fs shlex ctx name v = Inr s" and "(k, x) \<in> set (sd_environment s)"
  shows "is_valid_key k \<and> \<not> has_line_break_or_nul x"
proof -
  obtain fds where "parse_environment fs ctx fds = Inr (sd_environment s)"
    using assms(1) by (rule parse_service_fields)
  from parse_environment_safe [OF this] show ?thesis using assms(2) by (auto simp: env_safe_def)
qed

lemma service_name_kept:
  assumes "parse_service fs shlex ctx name v = Inr s"
  shows "service_str (sd_name s) = name \<and> valid_service (sd_name s)"
proof -
  have "service_name_try_from name = Inr (sd_name s)"
    using assms(1) by (rule parse_service_fields)
  then show ?thesis
    using service_name_valid [of name "sd_name s"]
    by (cases "sd_name s") (auto simp: service_name_try_from_def split: if_splits)
qed

lemma service_dependencies_valid:
  assumes "parse_service fs shlex ctx name v = Inr s" and "d \<in> set (sd_depends_on s)"
  shows "valid_service (dep_service d)"
proof -
  obtain fds where
    deps: "optional_key fds ''depends_on'' (\<lambda>v. map_err BadDepends (parse_depends_on v)) [] = Inr (sd_depends_on s)"
    using assms(1) by (rule parse_service_fields)
  obtain v' where "parse_depends_on v' = Inr (sd_depends_on s)"
    using optional_key_Inr [OF deps] assms(2) by (auto simp: map_err_Inr)
  then show ?thesis using assms(2) by (rule parse_depends_valid)
qed

text \<open>
  Property C21.  Every port a parsed service publishes is bound to the loopback interface, unless the
  service carries the label \<open>riku.public\<close> with the value \<open>true\<close>, and then every one is bound to
  all interfaces; no port number is 0.
\<close>

theorem service_ports_private:
  assumes "parse_service fs shlex ctx name v = Inr s" and "b \<in> set (sd_ports s)"
  shows "pb_host_ip b = (if bt_get (sd_labels s) LABEL_PUBLIC = Some ''true'' then AllInterfaces else Loopback)
    \<and> pb_container_port b \<noteq> 0 \<and> pb_host_port b \<noteq> Some 0"
  using service_ports_safe [OF assms] by (simp add: port_safe_def)

text \<open>
  Property C20.  A parsed service only mounts declared volumes, anonymous volumes and paths inside the app
  directory, on absolute targets the engine cannot split, and builds only from a context inside the
  app with its Dockerfile inside that context.
\<close>

theorem service_paths_confined:
  assumes "parse_service fs shlex ctx name v = Inr s" and "context_ok ctx"
  shows "(\<forall>m \<in> set (sd_mounts s). mount_safe ctx m)
    \<and> (case sd_build s of None \<Rightarrow> sd_image s \<noteq> None | Some b \<Rightarrow> build_safe ctx b)"
proof -
  have "sd_image s \<noteq> None \<or> sd_build s \<noteq> None" using assms(1) by (rule parse_service_fields)
  then show ?thesis
    using service_mounts_safe [OF assms] service_build_safe [OF assms] by (auto split: option.splits)
qed


section \<open>A concrete service\<close>

definition sample_context :: service_context where
  "sample_context = \<lparr>sc_app_path = [RootDir, Normal ''app''], sc_compose_dir = [RootDir, Normal ''app''],
     sc_vars = [], sc_declared_volumes = [''db'']\<rparr>"

definition sample_yaml :: yaml where
  "sample_yaml = VObject [(''image'', VString ''nginx''), (''ports'', VArray [VString ''8080:80'']),
     (''volumes'', VArray [VString ''db:/data''])]"

definition sample_service :: service_def where
  "sample_service = (new_service (ServiceName ''web''))\<lparr>sd_image := Some ''nginx'',
     sd_ports := [\<lparr>pb_host_ip = Loopback, pb_host_port = Some 8080, pb_container_port = 80, pb_protocol = Tcp\<rparr>],
     sd_mounts := [\<lparr>sm_source = SVolume (VolumeKey ''db''), sm_target = ''/data'', sm_read_only = False\<rparr>]\<rparr>"

lemma sample_name: "service_name_try_from ''web'' = Inr (ServiceName ''web'')"
  by code_simp

lemma sample_ports:
  "parse_ports (VArray [VString ''8080:80'']) Loopback =
     Inr [\<lparr>pb_host_ip = Loopback, pb_host_port = Some 8080, pb_container_port = 80, pb_protocol = Tcp\<rparr>]"
  by (simp add: parse_ports_def parse_port_entry_def port_parse_short_def rsplit_once_def split_on_def
      parse_port_def parse_u16_def parse_uint_def digits_value_def is_ascii_digit_def)

lemma sample_volumes:
  "parse_volumes fs sample_context (VArray [VString ''db:/data'']) =
     Inr [\<lparr>sm_source = SVolume (VolumeKey ''db''), sm_target = ''/data'', sm_read_only = False\<rparr>]"
  by (simp add: parse_volumes_def parse_volume_entry_def volume_parse_short_def short_parts_def split_on_def
      bind_or_named_def named_volume_def is_volume_name_def char_class_defs sample_context_def
      container_path_def has_blank_or_control_def)

lemma sample_parsed_any: "parse_service fs (\<lambda>line. Some [line]) sample_context ''web'' sample_yaml = Inr sample_service"
proof -
  have image: "parse_image (VString ''nginx'') = Inr ''nginx''"
    by (simp add: parse_image_def char_class_defs)
  have keys: "reject_unknown [(''image'', a), (''ports'', b), (''volumes'', c)] SERVICE_KEYS ''service'' = Inr ()" for a b c
    by (simp add: reject_unknown_def SERVICE_KEYS_def bt_keys_def)
  show ?thesis
    by (simp add: parse_service_def build_service_def sample_name sample_yaml_def keys STEPS_def
        apply_labels_def apply_image_and_build_def apply_process_def apply_lifecycle_def
        apply_environment_def apply_ports_def apply_volumes_def optional_key_def optional_some_def
        bt_get_def new_service_def RESERVED_LABELS_def image parse_stop_grace_def parse_environment_def
        host_ip_for_def sample_ports sample_volumes sample_service_def)
qed

lemmas sample_parsed = sample_parsed_any [of empty_disk]

lemma sample_context_ok: "context_ok sample_context"
  by (auto simp: context_ok_def sample_context_def is_absolute_def path_ok_def name_ok_def)

theorem service_ports_private_witness:
  "list_all (\<lambda>b. pb_host_ip b = Loopback \<and> pb_container_port b \<noteq> 0) (sd_ports sample_service)"
proof -
  have "bt_get (sd_labels sample_service) LABEL_PUBLIC \<noteq> Some ''true''"
    by (simp add: sample_service_def new_service_def bt_get_def)
  then show ?thesis using service_ports_private [OF sample_parsed] by (simp add: list_all_iff)
qed

theorem service_paths_confined_witness:
  "list_all (mount_safe sample_context) (sd_mounts sample_service)"
  using service_paths_confined [OF sample_parsed sample_context_ok] by (simp add: list_all_iff)


end
