(* ===== verification/Compose_Order.thy ===== *)
theory Compose_Order
  imports Compose_Service "HOL-Library.Multiset"
begin

text \<open>
  The start order of a project's services, \<open>compose/order.rs\<close>: services whose dependencies
  have all started are taken by name until none waits.

  The lemmas show that a returned order is a rearrangement of the services in which every dependency comes
  first, and that an order is returned exactly when the dependencies are known and free of
  cycles.
\<close>

datatype order_error = MissingDependency string string | DependencyCycle "string list"

abbreviation svc_name :: "service_def \<Rightarrow> string" where
  "svc_name s \<equiv> service_str (sd_name s)"

abbreviation dep_name :: "dependency \<Rightarrow> string" where
  "dep_name d \<equiv> service_str (dep_service d)"

definition check_known :: "string list \<Rightarrow> service_def \<Rightarrow> (order_error, unit) result" where
  "check_known known service =
     (case find (\<lambda>dep. dep_name dep \<notin> set known) (sd_depends_on service) of
        Some missing \<Rightarrow> Inl (MissingDependency (svc_name service) (dep_name missing))
      | None \<Rightarrow> Inr ())"

definition ready :: "string list \<Rightarrow> service_def \<Rightarrow> bool" where
  "ready started service \<longleftrightarrow> list_all (\<lambda>dep. dep_name dep \<in> set started) (sd_depends_on service)"

lemma remove_shrinks: "(name, s) \<in> set m \<Longrightarrow> length (bt_remove name m) < length m"
  unfolding bt_remove_def by (rule length_filter_less) auto

lemma find_ready:
  assumes "find (\<lambda>(_, service). ready started service) waiting = Some (name, service)"
  shows "(name, service) \<in> set waiting \<and> ready started service"
  using assms by (auto simp: find_Some_iff) (metis nth_mem)

function order_loop ::
  "(string, service_def) btree \<Rightarrow> string list \<Rightarrow> service_def list \<Rightarrow> (order_error, service_def list) result" where
  "order_loop waiting started ordered =
     (if waiting = [] then Inr ordered
      else case find (\<lambda>(_, service). ready started service) waiting of
             None \<Rightarrow> Inl (DependencyCycle (bt_keys waiting))
           | Some (name, service) \<Rightarrow>
               order_loop (bt_remove name waiting) (name # started) (ordered @ [service]))"
  by pat_completeness auto
termination
  by (relation "measure (\<lambda>(waiting, _, _). length waiting)")
     (auto dest!: find_ready intro: remove_shrinks)

declare order_loop.simps [simp del]

definition start_order :: "service_def list \<Rightarrow> (order_error, service_def list) result" where
  "start_order services =
     (let known = map svc_name services
      in and_then (check_each (check_known known) services) (\<lambda>_.
         order_loop (bt_collect (map (\<lambda>s. (svc_name s, s)) services)) [] []))"

section \<open>Soundness\<close>

text \<open>Each service's dependencies are named before it.\<close>

definition deps_first :: "service_def list \<Rightarrow> bool" where
  "deps_first ordered \<longleftrightarrow>
     (\<forall>i < length ordered. \<forall>d \<in> set (sd_depends_on (ordered ! i)).
        \<exists>j < i. svc_name (ordered ! j) = dep_name d)"

lemma deps_first_snoc:
  assumes "deps_first ordered" and "\<forall>d \<in> set (sd_depends_on s). dep_name d \<in> set (map svc_name ordered)"
  shows "deps_first (ordered @ [s])"
  unfolding deps_first_def
proof (intro allI impI ballI)
  fix i d
  assume i: "i < length (ordered @ [s])" and d: "d \<in> set (sd_depends_on ((ordered @ [s]) ! i))"
  show "\<exists>j < i. svc_name ((ordered @ [s]) ! j) = dep_name d"
  proof (cases "i < length ordered")
    case True
    then show ?thesis using assms(1) d unfolding deps_first_def by (fastforce simp: nth_append)
  next
    case False
    then have i: "i = length ordered" using i by simp
    then have "dep_name d \<in> set (map svc_name ordered)" using assms(2) d by simp
    then obtain j where "j < length ordered" "svc_name (ordered ! j) = dep_name d"
      by (auto simp: in_set_conv_nth)
    then show ?thesis using i by (auto simp: nth_append)
  qed
qed

text \<open>The loop's invariant: keys are the names, and what has started is what is ordered.\<close>

definition order_inv :: "(string, service_def) btree \<Rightarrow> string list \<Rightarrow> service_def list \<Rightarrow> bool" where
  "order_inv waiting started ordered \<longleftrightarrow>
     distinct (map fst waiting) \<and> (\<forall>(k, s) \<in> set waiting. k = svc_name s)
     \<and> set started = set (map svc_name ordered) \<and> deps_first ordered"

lemma order_inv_step:
  assumes "order_inv waiting started ordered"
    and "find (\<lambda>(_, service). ready started service) waiting = Some (name, service)"
  shows "order_inv (bt_remove name waiting) (name # started) (ordered @ [service])"
proof -
  have mem: "(name, service) \<in> set waiting" "ready started service" using find_ready [OF assms(2)] by auto
  have "distinct (map fst (bt_remove name waiting))"
    using assms(1) unfolding order_inv_def bt_remove_def by (simp add: distinct_map_filter)
  moreover have "deps_first (ordered @ [service])"
    using assms(1) mem(2) by (intro deps_first_snoc) (auto simp: order_inv_def ready_def list_all_iff)
  ultimately show ?thesis
    using assms(1) mem(1) by (auto simp: order_inv_def bt_remove_def)
qed

lemma remove_mset:
  assumes "distinct (map fst m)" "(name, s) \<in> set m"
  shows "mset (map snd m) = mset (map snd (bt_remove name m)) + {#s#}"
  using assms
proof (induction m)
  case (Cons e m)
  obtain k v where e: "e = (k, v)" by (cases e)
  show ?case
  proof (cases "k = name")
    case True
    then have "bt_remove name m = m"
      using Cons.prems(1) e by (auto simp: bt_remove_def filter_id_conv image_iff)
    then show ?thesis using True Cons.prems e by (auto simp: bt_remove_def image_iff)
  next
    case False
    then show ?thesis using Cons e by (auto simp: bt_remove_def)
  qed
qed simp

lemma order_loop_sound:
  "order_loop waiting started ordered = Inr result \<Longrightarrow> order_inv waiting started ordered \<Longrightarrow>
     deps_first result \<and> mset result = mset ordered + mset (map snd waiting)"
proof (induction waiting started ordered rule: order_loop.induct)
  case (1 waiting started ordered)
  show ?case
  proof (cases "waiting = []")
    case True
    then show ?thesis using "1.prems" by (simp add: order_loop.simps order_inv_def)
  next
    case False
    then obtain name service where found:
        "find (\<lambda>(_, service). ready started service) waiting = Some (name, service)"
      and rest: "order_loop (bt_remove name waiting) (name # started) (ordered @ [service]) = Inr result"
      using "1.prems"(1) by (subst (asm) order_loop.simps) (auto split: option.splits)
    have "mset (map snd waiting) = mset (map snd (bt_remove name waiting)) + {#service#}"
      using "1.prems"(2) find_ready [OF found] by (intro remove_mset) (auto simp: order_inv_def)
    then show ?thesis
      using "1.IH" [OF False found refl rest order_inv_step [OF "1.prems"(2) found]] by simp
  qed
qed

lemma collect_distinct_mset:
  assumes "distinct (map fst xs)"
  shows "mset (bt_collect xs) = mset xs"
proof -
  have insert: "k \<notin> fst ` set m \<Longrightarrow> mset (bt_insert k v m) = add_mset (k, v) (mset m)" for k v and m :: "('a \<times> 'b) list"
    by (induction k v m rule: bt_insert.induct) auto
  have "distinct (map fst xs) \<Longrightarrow> fst ` set xs \<inter> fst ` set m = {} \<Longrightarrow> mset (bt_extend m xs) = mset m + mset xs" for m
    unfolding bt_extend_def
  proof (induction xs arbitrary: m)
    case (Cons e xs)
    obtain k v where e: "e = (k, v)" by (cases e)
    have "fst ` set (bt_insert k v m) = insert k (fst ` set m)" using bt_insert_keys [of k v m] by simp
    then show ?case using Cons e insert [of k m v] by auto
  qed simp
  then show ?thesis using assms by (simp add: bt_collect_def)
qed

definition names_distinct :: "service_def list \<Rightarrow> bool" where
  "names_distinct services \<longleftrightarrow> distinct (map svc_name services)"

abbreviation waiting_of :: "service_def list \<Rightarrow> (string, service_def) btree" where
  "waiting_of services \<equiv> bt_collect (map (\<lambda>s. (svc_name s, s)) services)"

lemma waiting_mset: "names_distinct services \<Longrightarrow> mset (map snd (waiting_of services)) = mset services"
  using collect_distinct_mset [of "map (\<lambda>s. (svc_name s, s)) services"]
  by (simp add: names_distinct_def comp_def) (metis (no_types, lifting) mset_map snd_conv list.map_comp
      comp_def map_idI)

lemma waiting_entries: "(k, s) \<in> set (waiting_of services) \<Longrightarrow> s \<in> set services \<and> k = svc_name s"
  using bt_extend_all [of "[]" "\<lambda>(k, s). s \<in> set services \<and> k = svc_name s" "map (\<lambda>s. (svc_name s, s)) services"]
  by (auto simp: bt_collect_def)

lemma order_inv_start: "order_inv (waiting_of services) [] []"
  using bt_ok_distinct [OF bt_ok_collect] waiting_entries
  by (auto simp: order_inv_def deps_first_def)

lemma check_known_Inr [result_simps]:
  "check_known known s = Inr u \<longleftrightarrow> (\<forall>d \<in> set (sd_depends_on s). dep_name d \<in> set known)"
  by (auto simp: check_known_def find_None_iff split: option.splits) (metis find_None_iff option.distinct(1))

lemma start_order_Inr:
  "start_order services = Inr result \<longleftrightarrow>
     (\<forall>s \<in> set services. \<forall>d \<in> set (sd_depends_on s). dep_name d \<in> set (map svc_name services)) \<and>
     order_loop (waiting_of services) [] [] = Inr result"
  by (auto simp: start_order_def Let_def result_simps)

lemma start_order_sound:
  assumes "names_distinct services" and "start_order services = Inr ordered"
  shows "mset ordered = mset services \<and> deps_first ordered"
  using assms order_loop_sound [OF _ order_inv_start] waiting_mset by (auto simp: start_order_Inr)

text \<open>
  Property C29.  A start order holds exactly the given services, each once, and every dependency of a
  service stands before it.
\<close>

theorem start_order_deps_first:
  assumes "names_distinct services" and "start_order services = Inr ordered"
  shows "mset ordered = mset services \<and> deps_first ordered"
  by (rule start_order_sound [OF assms])

section \<open>Completeness\<close>

text \<open>Dependencies without cycles can be ranked.\<close>

definition ranked :: "(string \<Rightarrow> nat) \<Rightarrow> service_def list \<Rightarrow> bool" where
  "ranked rank services \<longleftrightarrow>
     (\<forall>s \<in> set services. \<forall>d \<in> set (sd_depends_on s). rank (dep_name d) < rank (svc_name s))"

lemma exists_ready:
  fixes rank :: "string \<Rightarrow> nat"
  assumes inv: "order_inv waiting started ordered" and "waiting \<noteq> []"
    and rank: "\<forall>(k, s) \<in> set waiting. \<forall>d \<in> set (sd_depends_on s). rank (dep_name d) < rank (svc_name s)"
    and known: "\<forall>(k, s) \<in> set waiting. \<forall>d \<in> set (sd_depends_on s).
      dep_name d \<in> set started \<or> dep_name d \<in> set (map fst waiting)"
  shows "find (\<lambda>(_, service). ready started service) waiting \<noteq> None"
proof -
  obtain k s where ks: "(k, s) \<in> set waiting"
    and least: "\<forall>(k', s') \<in> set waiting. rank (svc_name s) \<le> rank (svc_name s')"
    using ex_has_least_nat [of "\<lambda>e. e \<in> set waiting" "hd waiting" "\<lambda>(k, s). rank (svc_name s)"] assms(2)
    by (fastforce simp: case_prod_beta)
  have "ready started s"
    unfolding ready_def list_all_iff
  proof
    fix d
    assume d: "d \<in> set (sd_depends_on s)"
    show "dep_name d \<in> set started"
    proof (rule ccontr)
      assume "dep_name d \<notin> set started"
      then have "dep_name d \<in> set (map fst waiting)" using known ks d by blast
      then obtain s' where "(dep_name d, s') \<in> set waiting" by auto
      moreover from this have "svc_name s' = dep_name d" using inv by (auto simp: order_inv_def)
      ultimately have "rank (svc_name s) \<le> rank (dep_name d)" using least by fastforce
      then show False using rank ks d by fastforce
    qed
  qed
  then show ?thesis using ks by (auto simp: find_None_iff)
qed

lemma order_loop_complete:
  fixes rank :: "string \<Rightarrow> nat"
  shows "order_inv waiting started ordered \<Longrightarrow>
   \<forall>(k, s) \<in> set waiting. \<forall>d \<in> set (sd_depends_on s). rank (dep_name d) < rank (svc_name s) \<Longrightarrow>
   \<forall>(k, s) \<in> set waiting. \<forall>d \<in> set (sd_depends_on s).
      dep_name d \<in> set started \<or> dep_name d \<in> set (map fst waiting) \<Longrightarrow>
   \<exists>result. order_loop waiting started ordered = Inr result"
proof (induction waiting started ordered rule: order_loop.induct)
  case (1 waiting started ordered)
  show ?case
  proof (cases "waiting = []")
    case True
    then show ?thesis by (simp add: order_loop.simps)
  next
    case False
    then obtain name service where found:
        "find (\<lambda>(_, service). ready started service) waiting = Some (name, service)"
      using exists_ready [OF "1.prems"(1) False "1.prems"(2,3)] by auto
    let ?rest = "bt_remove name waiting"
    have sub: "set ?rest \<subseteq> set waiting" by (auto simp: bt_remove_def)
    have "\<forall>(k, s) \<in> set ?rest. \<forall>d \<in> set (sd_depends_on s).
        dep_name d \<in> set (name # started) \<or> dep_name d \<in> set (map fst ?rest)"
      using "1.prems"(3) sub by (fastforce simp: bt_remove_def image_iff)
    moreover have "\<forall>(k, s) \<in> set ?rest. \<forall>d \<in> set (sd_depends_on s). rank (dep_name d) < rank (svc_name s)"
      using "1.prems"(2) sub by blast
    ultimately obtain result where "order_loop ?rest (name # started) (ordered @ [service]) = Inr result"
      using "1.IH" [OF False found refl order_inv_step [OF "1.prems"(1) found]] by blast
    then show ?thesis using False found by (subst order_loop.simps) simp
  qed
qed

lemma deps_first_ranked:
  assumes "deps_first ordered" and "names_distinct ordered"
  shows "\<exists>rank. ranked rank ordered"
proof -
  let ?rank = "\<lambda>n. LEAST i. i < length ordered \<and> svc_name (ordered ! i) = n"
  have at: "?rank (svc_name (ordered ! i)) = i" if "i < length ordered" for i
    using that assms(2)
    by (intro Least_equality) (auto simp: names_distinct_def distinct_conv_nth nth_eq_iff_index_eq)
  have "ranked ?rank ordered"
    unfolding ranked_def
  proof (intro ballI)
    fix s d
    assume "s \<in> set ordered" and d: "d \<in> set (sd_depends_on s)"
    then obtain i where i: "i < length ordered" "s = ordered ! i" by (auto simp: in_set_conv_nth)
    then obtain j where j: "j < i" "svc_name (ordered ! j) = dep_name d"
      using assms(1) d unfolding deps_first_def by blast
    then have "?rank (dep_name d) = j" using at [of j] i(1) by simp
    then show "?rank (dep_name d) < ?rank (svc_name s)" using at [OF i(1)] i(2) j(1) by simp
  qed
  then show ?thesis by blast
qed

text \<open>
  Property C30.  An order is returned exactly when every dependency names a service of the project and the
  dependencies can be ranked, that is, have no cycle.
\<close>

theorem start_order_total:
  assumes "names_distinct services"
  shows "(\<exists>ordered. start_order services = Inr ordered) \<longleftrightarrow>
    (\<forall>s \<in> set services. \<forall>d \<in> set (sd_depends_on s). dep_name d \<in> set (map svc_name services))
    \<and> (\<exists>rank. ranked rank services)"
proof
  assume "\<exists>ordered. start_order services = Inr ordered"
  then obtain ordered where ordered: "start_order services = Inr ordered" by blast
  then have result: "deps_first ordered" "mset ordered = mset services"
    using order_loop_sound [OF _ order_inv_start] waiting_mset [OF assms] by (auto simp: start_order_Inr)
  then have "set ordered = set services" "names_distinct ordered"
    using assms by (auto simp: names_distinct_def dest: mset_eq_setD mset_eq_imp_distinct_iff)
      (metis distinct_map mset_eq_imp_distinct_iff mset_eq_setD)
  then have "\<exists>rank. ranked rank services" using deps_first_ranked [OF result(1)] by (auto simp: ranked_def)
  then show "(\<forall>s \<in> set services. \<forall>d \<in> set (sd_depends_on s). dep_name d \<in> set (map svc_name services))
      \<and> (\<exists>rank. ranked rank services)" using ordered by (simp add: start_order_Inr)
next
  assume asm: "(\<forall>s \<in> set services. \<forall>d \<in> set (sd_depends_on s). dep_name d \<in> set (map svc_name services))
      \<and> (\<exists>rank. ranked rank services)"
  then obtain rank where rank: "ranked rank services" by blast
  have "snd ` set (waiting_of services) = set services"
    using mset_eq_setD [OF waiting_mset [OF assms]] by simp
  moreover have "fst ` set (waiting_of services) = svc_name ` snd ` set (waiting_of services)"
    unfolding image_image using waiting_entries by (intro image_cong) auto
  ultimately have names: "set (map fst (waiting_of services)) = set (map svc_name services)" by simp
  have "\<exists>result. order_loop (waiting_of services) [] [] = Inr result"
  proof (rule order_loop_complete [OF order_inv_start, where rank = rank])
    show "\<forall>(k, s) \<in> set (waiting_of services). \<forall>d \<in> set (sd_depends_on s). rank (dep_name d) < rank (svc_name s)"
      using rank waiting_entries unfolding ranked_def by blast
    show "\<forall>(k, s) \<in> set (waiting_of services). \<forall>d \<in> set (sd_depends_on s).
        dep_name d \<in> set [] \<or> dep_name d \<in> set (map fst (waiting_of services))"
      unfolding names using asm waiting_entries by blast
  qed
  then show "\<exists>ordered. start_order services = Inr ordered" using asm by (auto simp: start_order_Inr)
qed

section \<open>A concrete project\<close>

definition sample_services :: "service_def list" where
  "sample_services =
     [(new_service (ServiceName ''app''))\<lparr>sd_depends_on :=
        [\<lparr>dep_service = ServiceName ''db'', dep_condition = Healthy\<rparr>]\<rparr>, new_service (ServiceName ''db'')]"

lemma sample_services_ordered:
  "start_order sample_services = Inr (rev sample_services)"
  by (simp add: start_order_def sample_services_def Let_def check_known_def bt_collect_def bt_extend_def
      order_loop.simps ready_def new_service_def bt_remove_def less_char_def)

lemma sample_services_distinct: "names_distinct sample_services"
  by (simp add: names_distinct_def sample_services_def new_service_def)

theorem start_order_deps_first_witness: "deps_first (rev sample_services)"
  using start_order_deps_first [OF sample_services_distinct sample_services_ordered] by blast

theorem start_order_total_witness: "\<exists>ordered. start_order sample_services = Inr ordered"
proof -
  have "ranked (\<lambda>n. if n = ''app'' then 1 else 0) sample_services"
    by (simp add: ranked_def sample_services_def new_service_def)
  moreover have "\<forall>s \<in> set sample_services. \<forall>d \<in> set (sd_depends_on s).
      dep_name d \<in> set (map svc_name sample_services)"
    by (simp add: sample_services_def new_service_def)
  ultimately show ?thesis using start_order_total [OF sample_services_distinct] by blast
qed

end
