(* ===== verification/Compose_Project.thy ===== *)
theory Compose_Project
  imports Compose_Order
begin

text \<open>
  A whole compose project: \<open>compose/raw.rs\<close> (reading and interpolating the document),
  \<open>compose/volume_decl.rs\<close>, \<open>compose/project.rs\<close> and \<open>compose/mounts.rs\<close>.

  The YAML parser (\<open>serde_saphyr\<close>) is third-party; it is the argument \<open>yaml_of\<close>.
\<close>

section \<open>raw.rs\<close>

definition MAX_INTERPOLATED_BYTES :: nat where
  "MAX_INTERPOLATED_BYTES = 4 * MAX_APP_FILE_BYTES"

record raw_project =
  rp_services :: mapping
  rp_volumes :: mapping
  rp_warnings :: warnings
  rp_vars :: env_map

datatype raw_error =
    RawFile file_error
  | RawYaml string string
  | TopLevelNotMapping
  | RawKeys key_error
  | RawEnv env_error
  | ExpandPastLimit string
  | RawInterpolation interp_error
  | SectionNotMapping string

text \<open>
  The walk over the document threads the bytes left and the warnings; keys are never
  touched.
\<close>

fun interpolate_values :: "lookup \<Rightarrow> yaml \<Rightarrow> nat \<Rightarrow> warnings \<Rightarrow> (interp_error, yaml \<times> nat \<times> warnings) result"
  and interpolate_items ::
    "lookup \<Rightarrow> yaml list \<Rightarrow> nat \<Rightarrow> warnings \<Rightarrow> (interp_error, yaml list \<times> nat \<times> warnings) result"
  and interpolate_fields ::
    "lookup \<Rightarrow> (string \<times> yaml) list \<Rightarrow> nat \<Rightarrow> warnings
       \<Rightarrow> (interp_error, (string \<times> yaml) list \<times> nat \<times> warnings) result" where
  "interpolate_values lookup (VString text) budget warnings =
     and_then (interpolate_capped text lookup budget warnings) (\<lambda>(expanded, warnings).
       Inr (VString expanded, budget - str_len expanded, warnings))"
| "interpolate_values lookup (VArray items) budget warnings =
     and_then (interpolate_items lookup items budget warnings) (\<lambda>(items, r). Inr (VArray items, r))"
| "interpolate_values lookup (VObject fds) budget warnings =
     and_then (interpolate_fields lookup fds budget warnings) (\<lambda>(fds, r). Inr (VObject fds, r))"
| "interpolate_values lookup v budget warnings = Inr (v, budget, warnings)"
| "interpolate_items lookup [] budget warnings = Inr ([], budget, warnings)"
| "interpolate_items lookup (v # vs) budget warnings =
     and_then (interpolate_values lookup v budget warnings) (\<lambda>(v, budget, warnings).
     and_then (interpolate_items lookup vs budget warnings) (\<lambda>(vs, r). Inr (v # vs, r)))"
| "interpolate_fields lookup [] budget warnings = Inr ([], budget, warnings)"
| "interpolate_fields lookup ((k, v) # fds) budget warnings =
     and_then (interpolate_values lookup v budget warnings) (\<lambda>(v, budget, warnings).
     and_then (interpolate_fields lookup fds budget warnings) (\<lambda>(fds, r). Inr ((k, v) # fds, r)))"

definition take_entries :: "mapping \<Rightarrow> string \<Rightarrow> (raw_error, mapping) result" where
  "take_entries project key =
     (case bt_get project key of
        None \<Rightarrow> Inr []
      | Some VNull \<Rightarrow> Inr []
      | Some (VObject entries) \<Rightarrow> Inr entries
      | Some _ \<Rightarrow> Inl (SectionNotMapping key))"

definition split_project :: "mapping \<Rightarrow> warnings \<Rightarrow> env_map \<Rightarrow> (raw_error, raw_project) result" where
  "split_project project warnings vars =
     and_then (take_entries project ''services'') (\<lambda>services.
     and_then (take_entries (bt_remove ''services'' project) ''volumes'') (\<lambda>volumes.
     Inr \<lparr>rp_services = services, rp_volumes = volumes, rp_warnings = warnings, rp_vars = vars\<rparr>))"

fun raw_interp_error :: "string \<Rightarrow> interp_error \<Rightarrow> raw_error" where
  "raw_interp_error origin TooLarge = ExpandPastLimit origin"
| "raw_interp_error origin e = RawInterpolation e"

definition compose_dir_of :: "path \<Rightarrow> compose_file \<Rightarrow> path" where
  "compose_dir_of app_path compose =
     (case path_parent (path_join app_path (compose_relative compose)) of Some d \<Rightarrow> d | None \<Rightarrow> app_path)"

definition read_raw ::
  "file_system \<Rightarrow> (string \<Rightarrow> (string, yaml) result) \<Rightarrow> path \<Rightarrow> compose_file \<Rightarrow> env_map
     \<Rightarrow> (raw_error, raw_project) result" where
  "read_raw fs yaml_of app_path compose app_env =
     (let compose_path = path_join app_path (compose_relative compose)
      in and_then (map_err RawFile (read_app_file fs app_path compose_path)) (\<lambda>text.
         and_then (map_err (RawYaml (compose_arg compose)) (yaml_of text)) (\<lambda>document.
         case document of
           VObject project \<Rightarrow>
             and_then (map_err RawKeys (check_keys project)) (\<lambda>_.
             and_then (map_err RawEnv
               (read_dotenv fs app_path (path_join (compose_dir_of app_path compose) [Normal ''.env''])
                  app_env [])) (\<lambda>(vars, warnings).
             let vars = bt_extend vars app_env
             in and_then (map_err (raw_interp_error (compose_arg compose))
                  (interpolate_values (bt_get vars) document MAX_INTERPOLATED_BYTES warnings)) (\<lambda>(document, _, warnings).
                case document of
                  VObject project \<Rightarrow> split_project project warnings vars
                | _ \<Rightarrow> Inl TopLevelNotMapping)))
         | _ \<Rightarrow> Inl TopLevelNotMapping)))"

section \<open>volume_decl.rs\<close>

datatype volume_decl = Managed

datatype decl_error =
    VolumeDot string
  | VolumeUnsafe string
  | VolumeShape string
  | VolumeNamed string string
  | VolumeSetting string string

definition check_setting :: "string \<Rightarrow> string \<times> yaml \<Rightarrow> (decl_error, unit) result" where
  "check_setting key = (\<lambda>(field, v).
     if field = ''driver'' \<and> v = VString ''local'' then Inr ()
     else if field \<in> {''name'', ''external'', ''driver_opts''} then Inl (VolumeNamed key field)
     else Inl (VolumeSetting key field))"

definition check_settings :: "string \<Rightarrow> yaml \<Rightarrow> (decl_error, unit) result" where
  "check_settings key settings =
     (case settings of
        VNull \<Rightarrow> Inr ()
      | VObject fds \<Rightarrow> check_each (check_setting key) fds
      | _ \<Rightarrow> Inl (VolumeShape key))"

definition parse_volume_decl ::
  "string \<times> yaml \<Rightarrow> (string, volume_decl) btree \<Rightarrow> (decl_error, (string, volume_decl) btree) result" where
  "parse_volume_decl = (\<lambda>(key, settings) volumes.
     if CHR ''.'' \<in> set key then Inl (VolumeDot key)
     else if \<not> is_engine_safe key then Inl (VolumeUnsafe key)
     else and_then (check_settings key settings) (\<lambda>_. Inr (bt_insert key Managed volumes)))"

definition parse_volume_decls :: "mapping \<Rightarrow> (decl_error, (string, volume_decl) btree) result" where
  "parse_volume_decls declared = fold_result parse_volume_decl declared []"

section \<open>project.rs\<close>

record compose_project =
  cp_services :: "service_def list"
  cp_warnings :: warnings
  cp_volumes :: "(string, volume_decl) btree"

datatype project_error =
    ProjectRaw raw_error
  | ProjectVolumes decl_error
  | ProjectService "string \<times> service_error"
  | ProjectOrder order_error

definition read_project ::
  "file_system \<Rightarrow> (string \<Rightarrow> string list option) \<Rightarrow> (string \<Rightarrow> (string, yaml) result) \<Rightarrow> path \<Rightarrow> compose_file
     \<Rightarrow> env_map \<Rightarrow> (project_error, compose_project) result" where
  "read_project fs shlex yaml_of app_path compose app_env =
     and_then (map_err ProjectRaw (read_raw fs yaml_of app_path compose app_env)) (\<lambda>raw.
     and_then (map_err ProjectVolumes (parse_volume_decls (rp_volumes raw))) (\<lambda>volumes.
     let ctx = \<lparr>sc_app_path = app_path, sc_compose_dir = compose_dir_of app_path compose,
                sc_vars = rp_vars raw, sc_declared_volumes = bt_keys volumes\<rparr>
     in and_then (map_err ProjectService
          (traverse (\<lambda>(name, v). parse_service fs shlex ctx name v) (rp_services raw))) (\<lambda>services.
        and_then (map_err ProjectOrder (start_order services)) (\<lambda>services.
        Inr \<lparr>cp_services = services, cp_warnings = rp_warnings raw, cp_volumes = volumes\<rparr>))))"

definition single_image_project :: "path \<Rightarrow> path \<Rightarrow> compose_project" where
  "single_image_project app_path dockerfile =
     \<lparr>cp_services = [(new_service (ServiceName ''app''))\<lparr>
        sd_build := Some \<lparr>bd_context = app_path, bd_dockerfile = Some dockerfile, bd_args = []\<rparr>,
        sd_restart := RestartUnlessStopped\<rparr>],
      cp_warnings = [], cp_volumes = []\<rparr>"

section \<open>mounts.rs\<close>

datatype mount_source = MVolume string | MBind path | MAnonymous

record mount =
  mt_source :: mount_source
  mt_target :: string
  mt_read_only :: bool

datatype mount_error = MountApp type_error | MountUndeclared service_name volume_key string

definition engine_mount ::
  "compose_project \<Rightarrow> string \<Rightarrow> service_def \<Rightarrow> service_mount \<Rightarrow> (mount_error, mount) result" where
  "engine_mount project app service m =
     and_then
       (case sm_source m of
          SVolume key \<Rightarrow>
            (if bt_get (cp_volumes project) (volume_key_str key) \<noteq> None
             then Inr (MVolume (app @ ''.'' @ volume_key_str key))
             else Inl (MountUndeclared (sd_name service) key app))
        | SBind p \<Rightarrow> Inr (MBind p)
        | SAnonymous \<Rightarrow> Inr MAnonymous) (\<lambda>source.
     Inr \<lparr>mt_source = source, mt_target = sm_target m, mt_read_only = sm_read_only m\<rparr>)"

definition engine_mounts ::
  "compose_project \<Rightarrow> string \<Rightarrow> service_def \<Rightarrow> (mount_error, mount list) result" where
  "engine_mounts project app service =
     and_then (map_err MountApp (check_app_name app)) (\<lambda>_.
     traverse (engine_mount project app service) (sd_mounts service))"

section \<open>Interpolation keeps to its budget\<close>

fun yaml_bytes :: "yaml \<Rightarrow> nat" where
  "yaml_bytes (VString t) = str_len t"
| "yaml_bytes (VArray items) = sum_list (map yaml_bytes items)"
| "yaml_bytes (VObject fds) = sum_list (map (\<lambda>(k, v). yaml_bytes v) fds)"
| "yaml_bytes _ = 0"

text \<open>The document with its text blanked out: keys, order and other scalars.\<close>

fun skeleton :: "yaml \<Rightarrow> yaml" where
  "skeleton (VString t) = VString []"
| "skeleton (VArray items) = VArray (map skeleton items)"
| "skeleton (VObject fds) = VObject (map (\<lambda>(k, v). (k, skeleton v)) fds)"
| "skeleton v = v"

lemma interpolate_values_budget:
  "interpolate_values lookup v b ws = Inr (v', b', ws') \<Longrightarrow> yaml_bytes v' + b' = b \<and> skeleton v' = skeleton v"
  "interpolate_items lookup vs b ws = Inr (vs', b', ws') \<Longrightarrow>
     sum_list (map yaml_bytes vs') + b' = b \<and> map skeleton vs' = map skeleton vs"
  "interpolate_fields lookup fds b ws = Inr (fds', b', ws') \<Longrightarrow>
     sum_list (map (\<lambda>(k, v). yaml_bytes v) fds') + b' = b \<and>
     map (\<lambda>(k, v). (k, skeleton v)) fds' = map (\<lambda>(k, v). (k, skeleton v)) fds"
proof (induction lookup v b ws and lookup vs b ws and lookup fds b ws
    arbitrary: v' b' ws' and vs' b' ws' and fds' b' ws'
    rule: interpolate_values_interpolate_items_interpolate_fields.induct)
  case (1 lookup t b ws)
  then show ?case by (auto simp: and_then_Inr dest: interpolate_capped_bound)
qed (fastforce simp: and_then_Inr)+

text \<open>
  Interpolating a document takes the bytes of every expanded string from the budget, so
  all strings together stay within it, and changes neither keys nor shape nor other scalars.
\<close>

lemma interpolate_values_bounded:
  assumes "interpolate_values lookup v budget ws = Inr (v', left, ws')"
  shows "yaml_bytes v' + left = budget \<and> skeleton v' = skeleton v"
  using assms by (rule interpolate_values_budget)

section \<open>Volume names never cross apps\<close>

definition volume_text :: "string \<times> string \<Rightarrow> string" where
  "volume_text v = fst v @ ''.'' @ snd v"

definition volume_ok :: "string \<times> string \<Rightarrow> bool" where
  "volume_ok v \<longleftrightarrow> CHR ''.'' \<notin> set (snd v)"

interpretation volume_codec: name_codec volume_ok volume_text "rsplit_once (CHR ''.'')"
  by unfold_locales (auto simp: volume_ok_def volume_text_def)

lemma parse_volume_decls_keys:
  assumes "parse_volume_decls declared = Inr volumes"
  shows "\<forall>(k, d) \<in> set volumes. CHR ''.'' \<notin> set k \<and> is_engine_safe k"
  using assms unfolding parse_volume_decls_def
proof (rule fold_result_inv)
  fix e m m'
  assume "\<forall>(k, d) \<in> set m. CHR ''.'' \<notin> set k \<and> is_engine_safe k" "parse_volume_decl e m = Inr m'"
  then show "\<forall>(k, d) \<in> set m'. CHR ''.'' \<notin> set k \<and> is_engine_safe k"
    by (cases e)
       (auto simp: parse_volume_decl_def and_then_Inr split: if_splits dest!: subsetD [OF bt_insert_entries])
qed simp

lemma engine_mounts_volume:
  assumes "engine_mounts project app service = Inr ms" "m \<in> set ms" "mt_source m = MVolume n"
  shows "\<exists>key. n = volume_text (app, key) \<and> key \<in> set (bt_keys (cp_volumes project))"
proof -
  obtain sm where "engine_mount project app service sm = Inr m"
    using assms by (auto simp: engine_mounts_def and_then_Inr dest!: traverse_set)
  then show ?thesis
    using assms(3)
    by (auto simp: engine_mount_def and_then_Inr volume_text_def bt_keys_get
        split: service_mount_source.splits if_splits)
qed

lemma read_project_cases:
  assumes "read_project fs shlex yaml_of app_path compose app_env = Inr p"
  obtains raw services where "read_raw fs yaml_of app_path compose app_env = Inr raw"
    and "parse_volume_decls (rp_volumes raw) = Inr (cp_volumes p)"
    and "traverse (\<lambda>(name, v). parse_service fs shlex
        \<lparr>sc_app_path = app_path, sc_compose_dir = compose_dir_of app_path compose,
         sc_vars = rp_vars raw, sc_declared_volumes = bt_keys (cp_volumes p)\<rparr> name v) (rp_services raw)
      = Inr services"
    and "start_order services = Inr (cp_services p)"
  using assms unfolding read_project_def Let_def and_then_Inr map_err_Inr by auto

lemma project_volume_keys:
  assumes "read_project fs shlex yaml_of app_path compose app_env = Inr p" and "k \<in> set (bt_keys (cp_volumes p))"
  shows "CHR ''.'' \<notin> set k"
proof -
  obtain raw :: raw_project where "parse_volume_decls (rp_volumes raw) = Inr (cp_volumes p)"
    using assms(1) by (rule read_project_cases) blast
  from parse_volume_decls_keys [OF this] show ?thesis using assms(2) by (auto simp: bt_keys_def)
qed

text \<open>
  Property C31.  Two apps never share an engine volume: whatever their compose files declare, a volume
  mounted by a service of one app has the name of a volume of another only when the app is the same.
\<close>

theorem engine_volumes_separate:
  assumes "read_project fs1 shlex1 yaml_of1 path1 compose1 env1 = Inr p1"
    and "read_project fs2 shlex2 yaml_of2 path2 compose2 env2 = Inr p2"
    and "engine_mounts p1 app1 s1 = Inr ms1" and "engine_mounts p2 app2 s2 = Inr ms2"
    and "m1 \<in> set ms1" and "m2 \<in> set ms2"
    and "mt_source m1 = MVolume n" and "mt_source m2 = MVolume n"
  shows "app1 = app2"
proof -
  obtain k1 k2 where n: "n = volume_text (app1, k1)" "n = volume_text (app2, k2)"
    and k: "k1 \<in> set (bt_keys (cp_volumes p1))" "k2 \<in> set (bt_keys (cp_volumes p2))"
    using engine_mounts_volume [OF assms(3,5,7)] engine_mounts_volume [OF assms(4,6,8)] by blast
  have "(app1, k1) = (app2, k2)"
    using n project_volume_keys [OF assms(1) k(1)] project_volume_keys [OF assms(2) k(2)]
    by (intro volume_codec.render_inj) (simp_all add: volume_ok_def)
  then show ?thesis by simp
qed

section \<open>A concrete project\<close>

definition sample_disk :: file_system where
  "sample_disk = empty_disk\<lparr>fs_canonicalize := Inr, fs_len := (\<lambda>p. Inr 0), fs_read := (\<lambda>p. Inr [])\<rparr>"

definition sample_document :: yaml where
  "sample_document = VObject [(''services'', VObject [(''web'', sample_yaml)]), (''volumes'', VObject [(''db'', VNull)])]"

definition sample_project :: compose_project where
  "sample_project = \<lparr>cp_services = [sample_service], cp_warnings = [], cp_volumes = [(''db'', Managed)]\<rparr>"

lemma sample_raw:
  "read_raw sample_disk (\<lambda>t. Inr sample_document) [RootDir, Normal ''app''] (ComposeFile ''compose.yaml'') [] =
     Inr \<lparr>rp_services = [(''web'', sample_yaml)], rp_volumes = [(''db'', VNull)], rp_warnings = [], rp_vars = []\<rparr>"
proof -
  have path: "path_join [RootDir, Normal ''app''] (compose_relative (ComposeFile ''compose.yaml'')) =
      [RootDir, Normal ''app'', Normal ''compose.yaml'']"
    by (simp add: compose_relative_def components_def split_on_def part_component_def path_join_def is_absolute_def)
  have read: "read_app_file sample_disk [RootDir, Normal ''app''] [RootDir, Normal ''app'', Normal ''compose.yaml''] = Inr []"
    by (simp add: read_app_file_def ensure_path_within_def sample_disk_def path_starts_with_def)
  have keys: "check_keys [(''services'', VObject [(''web'', sample_yaml)]), (''volumes'', VObject [(''db'', VNull)])] = Inr ()"
    by (simp add: check_keys_def TOP_LEVEL_KEYS_def bt_keys_def bt_get_def check_services_def sample_yaml_def SERVICE_KEYS_def)
  have env: "read_dotenv sample_disk a p [] [] = Inr ([], [])" for a p
    by (simp add: read_dotenv_def sample_disk_def empty_disk_def)
  have plain: "interpolate_capped t l b ws = Inr (t, ws)" if "str_len t \<le> b" "CHR ''$'' \<notin> set t" for t l b ws
    using that by (simp add: interpolate_capped_def interpolate_loop.simps push_capped_def)
  show ?thesis
    by (simp add: read_raw_def Let_def path read sample_document_def keys [unfolded sample_yaml_def] env sample_yaml_def plain
        MAX_INTERPOLATED_BYTES_def MAX_APP_FILE_BYTES_def split_project_def take_entries_def bt_get_def
        bt_remove_def bt_extend_def)
qed

lemma sample_project_read:
  "read_project sample_disk (\<lambda>line. Some [line]) (\<lambda>t. Inr sample_document) [RootDir, Normal ''app'']
     (ComposeFile ''compose.yaml'') [] = Inr sample_project"
proof -
  have dir: "compose_dir_of [RootDir, Normal ''app''] (ComposeFile ''compose.yaml'') = [RootDir, Normal ''app'']"
    by (simp add: compose_dir_of_def compose_relative_def components_def split_on_def part_component_def
        path_join_def is_absolute_def path_parent_def)
  have ctx: "\<lparr>sc_app_path = [RootDir, Normal ''app''], sc_compose_dir = [RootDir, Normal ''app''], sc_vars = [],
      sc_declared_volumes = [''db'']\<rparr> = sample_context" by (simp add: sample_context_def)
  have disk: "parse_service sample_disk (\<lambda>line. Some [line]) sample_context ''web'' sample_yaml = Inr sample_service"
    using sample_parsed_any [of sample_disk] .
  have vols: "parse_volume_decls [(''db'', VNull)] = Inr [(''db'', Managed)]"
    by (simp add: parse_volume_decls_def parse_volume_decl_def check_settings_def engine_char_def char_class_defs)
  show ?thesis
    by (simp add: read_project_def sample_raw vols dir bt_keys_def ctx disk start_order_def check_known_def
        bt_collect_def bt_extend_def order_loop.simps ready_def bt_remove_def sample_service_def new_service_def
        sample_project_def)
qed

theorem engine_volumes_separate_witness:
  "volume_text (''shop'', ''db'') \<noteq> volume_text (''blog'', ''db'')"
proof
  assume same: "volume_text (''shop'', ''db'') = volume_text (''blog'', ''db'')"
  have mounts: "engine_mounts sample_project app sample_service
      = Inr [\<lparr>mt_source = MVolume (volume_text (app, ''db'')), mt_target = ''/data'', mt_read_only = False\<rparr>]"
    if "check_app_name app = Inr ()" for app
    using that
    by (simp add: engine_mounts_def engine_mount_def sample_project_def sample_service_def bt_get_def volume_text_def)
  have apps: "check_app_name ''shop'' = Inr ()" "check_app_name ''blog'' = Inr ()" by code_simp+
  have "''shop'' = ''blog''"
    by (rule engine_volumes_separate [OF sample_project_read sample_project_read mounts mounts list.set_intros(1)
          list.set_intros(1)]) (simp_all add: apps same)
  then show False by simp
qed

end
