(* ===== verification/Compose_Rules.thy ===== *)
theory Compose_Rules
  imports Compose_Project
begin

text \<open>
  The rules a project satisfies before it is deployed, \<open>compose/rules.rs\<close>: which port is
  routed, which service may run as several copies and how a service is replaced.
\<close>

record routed_port =
  rt_service :: service_name
  rt_container_port :: u16
  rt_protocol :: protocol
  rt_host_port :: "u16 option"

datatype replace_order_kind = Overlap | StopFirst

datatype rule_error =
    SeveralLabelled "string list"
  | LabelNotPort string string
  | LabelNotPublished string u16
  | SeveralPorts "(string \<times> u16) list"
  | CopiesZero string
  | NotInComposeFile string
  | WritableStorage string service_mount
  | PortNotRouted string u16 u16 protocol

definition routed_port_new :: "service_def \<Rightarrow> port_binding \<Rightarrow> routed_port" where
  "routed_port_new service binding =
     \<lparr>rt_service = sd_name service, rt_container_port = pb_container_port binding,
      rt_protocol = pb_protocol binding, rt_host_port = pb_host_port binding\<rparr>"

definition routed_port_is :: "routed_port \<Rightarrow> service_name \<Rightarrow> port_binding \<Rightarrow> bool" where
  "routed_port_is r service binding \<longleftrightarrow>
     rt_service r = service \<and> rt_container_port r = pb_container_port binding
     \<and> rt_protocol r = pb_protocol binding \<and> rt_host_port r = pb_host_port binding"

definition published :: "port_binding \<Rightarrow> u16" where
  "published binding = (case pb_host_port binding of Some p \<Rightarrow> p | None \<Rightarrow> pb_container_port binding)"

definition tcp_ports :: "service_def \<Rightarrow> port_binding list" where
  "tcp_ports service = filter (\<lambda>b. pb_protocol b = Tcp) (sd_ports service)"

text \<open>Called for a service that carries the label; indexing the map would panic otherwise.\<close>

definition route_from_label :: "service_def \<Rightarrow> (rule_error, routed_port) result" where
  "route_from_label service =
     (let v = the (bt_get (sd_labels service) LABEL_HTTP)
      in case parse_u16 v of
           None \<Rightarrow> Inl (LabelNotPort (svc_name service) v)
         | Some port \<Rightarrow>
             (case find (\<lambda>b. pb_host_port b = Some port) (tcp_ports service) of
                Some binding \<Rightarrow> Inr (routed_port_new service binding)
              | None \<Rightarrow> Inl (LabelNotPublished (svc_name service) port)))"

definition route_without_label :: "compose_project \<Rightarrow> (rule_error, routed_port option) result" where
  "route_without_label project =
     (case concat (map (\<lambda>s. map (Pair s) (tcp_ports s)) (cp_services project)) of
        [] \<Rightarrow> Inr None
      | [(service, binding)] \<Rightarrow> Inr (Some (routed_port_new service binding))
      | several \<Rightarrow> Inl (SeveralPorts (map (\<lambda>(s, b). (svc_name s, published b)) several)))"

definition routed_http :: "compose_project \<Rightarrow> (rule_error, routed_port option) result" where
  "routed_http project =
     (case filter (\<lambda>s. bt_get (sd_labels s) LABEL_HTTP \<noteq> None) (cp_services project) of
        [] \<Rightarrow> route_without_label project
      | [service] \<Rightarrow> and_then (route_from_label service) (\<lambda>r. Inr (Some r))
      | several \<Rightarrow> Inl (SeveralLabelled (map svc_name several)))"

definition shares_container_port :: "service_def \<Rightarrow> port_binding \<Rightarrow> bool" where
  "shares_container_port def binding \<longleftrightarrow>
     1 < length (filter (\<lambda>other. pb_container_port other = pb_container_port binding) (sd_ports def))"

definition is_routed ::
  "service_name \<Rightarrow> service_def \<Rightarrow> routed_port option \<Rightarrow> port_binding \<Rightarrow> bool" where
  "is_routed service def routed binding \<longleftrightarrow>
     pb_protocol binding = Tcp \<and> \<not> shares_container_port def binding
     \<and> (case routed of None \<Rightarrow> False | Some r \<Rightarrow> routed_port_is r service binding)"

definition check_scale :: "compose_project \<Rightarrow> service_name \<Rightarrow> u32 \<Rightarrow> (rule_error, unit) result" where
  "check_scale project service copies =
     (if copies = 0 then Inl (CopiesZero (service_str service))
      else case find (\<lambda>s. sd_name s = service) (cp_services project) of
             None \<Rightarrow> Inl (NotInComposeFile (service_str service))
           | Some def \<Rightarrow>
               (if copies = 1 then Inr ()
                else case find sm_is_writable (sd_mounts def) of
                       Some m \<Rightarrow> Inl (WritableStorage (service_str service) m)
                     | None \<Rightarrow>
                         and_then (routed_http project) (\<lambda>routed.
                         check_each (\<lambda>binding.
                           if \<not> is_routed service def routed binding
                           then Inl (PortNotRouted (service_str service) (published binding)
                                  (pb_container_port binding) (pb_protocol binding))
                           else Inr ()) (sd_ports def))))"

definition replace_order :: "compose_project \<Rightarrow> service_name \<Rightarrow> replace_order_kind" where
  "replace_order project service =
     (let routed = (case routed_http project of
                      Inr (Some r) \<Rightarrow> rt_service r = service | _ \<Rightarrow> False);
          stateless = (case find (\<lambda>s. sd_name s = service) (cp_services project) of
                         Some s \<Rightarrow> \<not> list_ex sm_is_writable (sd_mounts s) | None \<Rightarrow> False)
      in if routed \<and> stateless then Overlap else StopFirst)"

section \<open>Routing\<close>

text \<open>The services that decide routing, and what a decision means.\<close>

definition labelled :: "compose_project \<Rightarrow> service_def list" where
  "labelled project = filter (\<lambda>s. bt_get (sd_labels s) LABEL_HTTP \<noteq> None) (cp_services project)"

definition all_tcp :: "compose_project \<Rightarrow> (service_def \<times> port_binding) list" where
  "all_tcp project = concat (map (\<lambda>s. map (Pair s) (tcp_ports s)) (cp_services project))"

lemma all_tcp_in: "(s, b) \<in> set (all_tcp project) \<Longrightarrow> s \<in> set (cp_services project) \<and> b \<in> set (tcp_ports s)"
  by (auto simp: all_tcp_def)

lemma route_from_label_Inr:
  assumes "route_from_label s = Inr r" and "bt_get (sd_labels s) LABEL_HTTP = Some v"
  shows "\<exists>b \<in> set (tcp_ports s). r = routed_port_new s b \<and> pb_host_port b \<noteq> None \<and> pb_host_port b = parse_u16 v"
  using assms
  by (auto simp: route_from_label_def Let_def find_Some_iff split: option.splits)

lemma route_without_label_Inr:
  "route_without_label project = Inr (Some r) \<Longrightarrow>
     \<exists>s b. all_tcp project = [(s, b)] \<and> r = routed_port_new s b"
  by (auto simp: route_without_label_def all_tcp_def split: list.splits)

text \<open>
  The routed port of a project is a TCP binding of one of its services.  It is the binding of
  the only service labelled \<open>riku.http\<close> whose host port is the label's value, or, when no service is
  labelled, the only TCP binding of the project; in every other case nothing is routed.
\<close>

lemma routed_http_sound:
  assumes "routed_http project = Inr (Some r)"
  shows "\<exists>s \<in> set (cp_services project). \<exists>b \<in> set (sd_ports s).
    r = routed_port_new s b \<and> pb_protocol b = Tcp \<and>
    (labelled project = [s] \<and> pb_host_port b \<noteq> None \<and>
       pb_host_port b = parse_u16 (the (bt_get (sd_labels s) LABEL_HTTP))
     \<or> labelled project = [] \<and> all_tcp project = [(s, b)])"
proof (cases "labelled project")
  case Nil
  then have "route_without_label project = Inr (Some r)"
    using assms by (simp add: routed_http_def labelled_def)
  then obtain s b where sb: "all_tcp project = [(s, b)]" "r = routed_port_new s b"
    using route_without_label_Inr by blast
  then show ?thesis using all_tcp_in [of s b project] Nil by (auto simp: tcp_ports_def)
next
  case (Cons s rest)
  then have rest: "rest = []" and route: "route_from_label s = Inr r"
    using assms by (auto simp: routed_http_def labelled_def and_then_Inr split: list.splits)
  have "s \<in> set (labelled project)" using Cons by simp
  then obtain v where v: "bt_get (sd_labels s) LABEL_HTTP = Some v" and s: "s \<in> set (cp_services project)"
    by (auto simp: labelled_def)
  then show ?thesis
    using route_from_label_Inr [OF route v] Cons rest
    by (intro bexI [OF _ s]) (auto simp: tcp_ports_def)
qed

section \<open>Scaling and replacing\<close>

lemma check_scale_Inr:
  assumes "check_scale project service copies = Inr ()" and "1 < copies"
  shows "\<exists>def routed. find (\<lambda>s. sd_name s = service) (cp_services project) = Some def
    \<and> \<not> list_ex sm_is_writable (sd_mounts def) \<and> routed_http project = Inr routed
    \<and> (\<forall>b \<in> set (sd_ports def). is_routed service def routed b)"
proof -
  have "copies \<noteq> 0" "copies \<noteq> 1" using assms(2) by auto
  then show ?thesis
    using assms(1)
    by (auto simp: check_scale_def and_then_Inr check_each_Inr find_None_iff list_ex_iff
        split: option.splits if_splits)
qed

text \<open>
  A service that passes the check for more than one copy is in the project, mounts nothing
  writable and publishes at most the routed port; if it publishes a port, a deploy replaces it with
  overlap.
\<close>

lemma check_scale_safe:
  assumes "check_scale project service copies = Inr ()" and "1 < copies"
  shows "\<exists>def \<in> set (cp_services project). sd_name def = service
    \<and> \<not> list_ex sm_is_writable (sd_mounts def) \<and> length (sd_ports def) \<le> 1
    \<and> (sd_ports def \<noteq> [] \<longrightarrow> replace_order project service = Overlap)"
proof -
  obtain def routed where found: "find (\<lambda>s. sd_name s = service) (cp_services project) = Some def"
    and storage: "\<not> list_ex sm_is_writable (sd_mounts def)"
    and routed: "routed_http project = Inr routed"
    and ports: "\<forall>b \<in> set (sd_ports def). is_routed service def routed b"
    using check_scale_Inr [OF assms] by blast
  have def: "def \<in> set (cp_services project)" "sd_name def = service"
    using found by (auto simp: find_Some_iff)
  have single: "length (sd_ports def) \<le> 1"
  proof (rule ccontr)
    assume "\<not> length (sd_ports def) \<le> 1"
    then obtain b c rest where bs: "sd_ports def = b # c # rest"
      by (cases "sd_ports def" rule: remdups_adj.cases) auto
    then have "is_routed service def routed b" "is_routed service def routed c" using ports by auto
    then have "pb_container_port b = pb_container_port c" "\<not> shares_container_port def b"
      by (auto simp: is_routed_def routed_port_is_def split: option.splits)
    then show False using bs by (simp add: shares_container_port_def)
  qed
  have "replace_order project service = Overlap" if ports_given: "sd_ports def \<noteq> []"
  proof -
    obtain b where "b \<in> set (sd_ports def)" using ports_given by (cases "sd_ports def") auto
    then obtain r where "routed = Some r" "rt_service r = service"
      using ports by (auto simp: is_routed_def routed_port_is_def split: option.splits)
    then show ?thesis using routed found storage by (simp add: replace_order_def)
  qed
  then show ?thesis using def storage single by blast
qed

section \<open>A concrete project\<close>

definition stateless_project :: compose_project where
  "stateless_project = sample_project\<lparr>cp_services := [sample_service\<lparr>sd_mounts := []\<rparr>]\<rparr>"

definition stateless_route :: routed_port where
  "stateless_route = \<lparr>rt_service = ServiceName ''web'', rt_container_port = 80, rt_protocol = Tcp,
     rt_host_port = Some 8080\<rparr>"

lemma stateless_routed: "routed_http stateless_project = Inr (Some stateless_route)"
  by (simp add: routed_http_def route_without_label_def stateless_project_def sample_project_def
      sample_service_def new_service_def bt_get_def tcp_ports_def routed_port_new_def stateless_route_def)

end
