(* ===== verification/Engine_Spec.thy ===== *)
theory Engine_Spec
  imports Compose_Rules
begin

text \<open>
  What one container is started with, and how it reaches the engine's command line:
  \<open>engine/run_spec.rs\<close>, \<open>engine/spec_check.rs\<close>, \<open>engine/run_args.rs\<close>, \<open>engine/env_file.rs\<close>,
  \<open>engine/ids.rs\<close> and \<open>run_limit\<close> and the stop limit of \<open>engine/control.rs\<close> of \<open>riku-container\<close>.

  The quoting of an exec form health check is the third-party \<open>shlex::try_join\<close>, a parameter here.
  Arguments are the strings of the argv; a \<open>Path\<close> argument is its text.
\<close>

section \<open>run_spec.rs\<close>

datatype pull_policy = PullMissing | PullNever

record run_spec =
  rn_name :: container_name
  rn_image :: string
  rn_pull :: pull_policy
  rn_network :: network_name
  rn_alias :: service_name
  rn_labels :: "(string, string) btree"
  rn_env :: "(string, string) btree"
  rn_ports :: "port_binding list"
  rn_mounts :: "mount list"
  rn_entrypoint :: "string list option"
  rn_command :: "string list option"
  rn_working_dir :: "string option"
  rn_user :: "string option"
  rn_stop_signal :: stop_signal
  rn_stop_grace :: duration
  rn_healthcheck :: "health_check option"

section \<open>ids.rs\<close>

definition ID_MIN_LEN :: nat where "ID_MIN_LEN = 12"
definition ID_MAX_LEN :: nat where "ID_MAX_LEN = 64"

datatype container_id = ContainerId (id_str: string)

datatype spec_error =
    BadPositional string string
  | NotAbsolute string string
  | BadVolumeName string
  | TargetComma string
  | BadLabelKey string
  | EmptyHealthCommand
  | UnquotableHealthCommand
  | BadContainerId string
  | BadEnvName string
  | BadEnvValue string

definition container_id_try_from :: "string \<Rightarrow> (spec_error, container_id) result" where
  "container_id_try_from raw =
     (let hex = list_all (\<lambda>c. is_ascii_digit c \<or> c \<in> set ''abcdef'') raw
      in if \<not> (ID_MIN_LEN \<le> str_len raw \<and> str_len raw \<le> ID_MAX_LEN) \<or> \<not> hex
         then Inl (BadContainerId raw) else Inr (ContainerId raw))"

section \<open>spec_check.rs\<close>

definition check_positional :: "string \<Rightarrow> string \<Rightarrow> (spec_error, unit) result" where
  "check_positional what v =
     (let bad = v = [] \<or> starts_with ''-'' v \<or> list_ex (\<lambda>c. is_whitespace c \<or> is_control c) v
      in if bad then Inl (BadPositional what v) else Inr ())"

text \<open>The caller hands over the text of the path and whether the path is absolute.\<close>

definition check_absolute :: "string \<Rightarrow> bool \<Rightarrow> string \<Rightarrow> (spec_error, unit) result" where
  "check_absolute what absolute txt =
     (let bad_char = (\<lambda>c. c = CHR '':'' \<or> is_whitespace c \<or> is_control c)
      in if \<not> absolute \<or> list_ex bad_char txt then Inl (NotAbsolute what txt) else Inr ())"

definition check_volume_name :: "string \<Rightarrow> (spec_error, unit) result" where
  "check_volume_name name =
     (let first_ok = (case name of [] \<Rightarrow> False | c # _ \<Rightarrow> is_ascii_alphanumeric c)
      in if \<not> first_ok \<or> \<not> list_all (\<lambda>c. is_ascii_alphanumeric c \<or> c \<in> set ''_.-'') (tl name)
         then Inl (BadVolumeName name) else Inr ())"

definition check_mount :: "mount \<Rightarrow> (spec_error, unit) result" where
  "check_mount m =
     and_then (check_absolute ''mount target'' (starts_with ''/'' (mt_target m)) (mt_target m)) (\<lambda>_.
     if CHR '','' \<in> set (mt_target m) then Inl (TargetComma (mt_target m))
     else case mt_source m of
            MVolume name \<Rightarrow> check_volume_name name
          | MBind p \<Rightarrow> check_absolute ''bind mount source'' (is_absolute p) (path_text p)
          | MAnonymous \<Rightarrow> Inr ())"

definition exec_command_line ::
  "(string list \<Rightarrow> string option) \<Rightarrow> string list \<Rightarrow> (spec_error, string) result" where
  "exec_command_line try_join argv =
     (if argv = [] then Inl EmptyHealthCommand
      else case try_join argv of Some line \<Rightarrow> Inr line | None \<Rightarrow> Inl UnquotableHealthCommand)"

definition check_spec :: "(string list \<Rightarrow> string option) \<Rightarrow> run_spec \<Rightarrow> (spec_error, unit) result" where
  "check_spec try_join spec =
     and_then (check_positional ''image'' (rn_image spec)) (\<lambda>_.
     case find (\<lambda>k. k = [] \<or> CHR ''='' \<in> set k) (bt_keys (rn_labels spec)) of
       Some key \<Rightarrow> Inl (BadLabelKey key)
     | None \<Rightarrow>
         and_then (check_each check_mount (rn_mounts spec)) (\<lambda>_.
         case map_option hc_test (rn_healthcheck spec) of
           Some (TestExec argv) \<Rightarrow> and_then (exec_command_line try_join argv) (\<lambda>_. Inr ())
         | _ \<Rightarrow> Inr ()))"

section \<open>run_args.rs\<close>

text \<open>The sum is a \<open>u64\<close>; release builds wrap.\<close>

definition whole_seconds_up :: "duration \<Rightarrow> nat" where
  "whole_seconds_up d =
     (if d mod NANOS_PER_SEC = 0 then d div NANOS_PER_SEC
      else (d div NANOS_PER_SEC + 1) mod 2 ^ 64)"

definition pair :: "string \<Rightarrow> string \<Rightarrow> string list" where
  "pair flag v = [flag, v]"

definition port_flag :: "port_binding \<Rightarrow> string" where
  "port_flag port =
     (let host_ip = (case pb_host_ip port of Loopback \<Rightarrow> ''127.0.0.1:'' | AllInterfaces \<Rightarrow> []);
          host_port = (case pb_host_port port of Some p \<Rightarrow> show_u16 p | None \<Rightarrow> []);
          protocol = (case pb_protocol port of Tcp \<Rightarrow> ''tcp'' | Udp \<Rightarrow> ''udp'')
      in host_ip @ host_port @ '':'' @ show_u16 (pb_container_port port) @ ''/'' @ protocol)"

definition push_mount :: "mount \<Rightarrow> string list" where
  "push_mount m =
     (if mt_source m = MAnonymous \<and> mt_read_only m
      then pair ''--mount'' (''type=volume,dst='' @ mt_target m @ '',readonly'')
      else
        let source = (case mt_source m of
                        MVolume name \<Rightarrow> name @ '':''
                      | MBind p \<Rightarrow> path_text p @ '':''
                      | MAnonymous \<Rightarrow> [])
        in pair ''-v'' (source @ mt_target m @ (if mt_read_only m then '':ro'' else [])))"

definition seconds :: "duration \<Rightarrow> string" where
  "seconds d = show_nat (whole_seconds_up d) @ ''s''"

definition optional_pair :: "string \<Rightarrow> string option \<Rightarrow> string list" where
  "optional_pair flag v = (case v of None \<Rightarrow> [] | Some v \<Rightarrow> pair flag v)"

definition health_flags ::
  "(string list \<Rightarrow> string option) \<Rightarrow> health_check \<Rightarrow> (spec_error, string list) result" where
  "health_flags try_join health =
     and_then
       (case hc_test health of
          TestShell line \<Rightarrow> Inr (pair ''--health-cmd'' line)
        | TestExec argv \<Rightarrow>
            and_then (exec_command_line try_join argv) (\<lambda>line. Inr (pair ''--health-cmd'' line))
        | TestDisabled \<Rightarrow> Inr [''--no-healthcheck'']) (\<lambda>test.
     Inr (test
       @ optional_pair ''--health-interval'' (map_option seconds (hc_interval health))
       @ optional_pair ''--health-timeout'' (map_option seconds (hc_timeout health))
       @ optional_pair ''--health-retries'' (map_option show_u32 (hc_retries health))
       @ optional_pair ''--health-start-period'' (map_option seconds (hc_start_period health))))"

definition run_args ::
  "(string list \<Rightarrow> string option) \<Rightarrow> run_spec \<Rightarrow> string \<Rightarrow> (spec_error, string list) result" where
  "run_args try_join spec env_file =
     and_then
       (case rn_healthcheck spec of None \<Rightarrow> Inr [] | Some health \<Rightarrow> health_flags try_join health) (\<lambda>health.
     let entrypoint = (case rn_entrypoint spec of Some words \<Rightarrow> words | None \<Rightarrow> [])
     in Inr ([''run'', ''-d'']
       @ pair ''--name'' (container_str (rn_name spec))
       @ pair ''--restart'' ''no''
       @ (if rn_pull spec = PullNever then [''--pull=never''] else [])
       @ pair ''--network'' (network_str (rn_network spec))
       @ pair ''--network-alias'' (service_str (rn_alias spec))
       @ concat (map (\<lambda>(key, v). pair ''--label'' (key @ ''='' @ v)) (rn_labels spec))
       @ pair ''--env-file'' env_file
       @ concat (map (\<lambda>port. pair ''-p'' (port_flag port)) (rn_ports spec))
       @ concat (map push_mount (rn_mounts spec))
       @ optional_pair ''--workdir'' (rn_working_dir spec)
       @ optional_pair ''--user'' (rn_user spec)
       @ pair ''--stop-signal'' (signal_str (rn_stop_signal spec))
       @ pair ''--stop-timeout'' (show_nat (whole_seconds_up (rn_stop_grace spec)))
       @ health
       @ (case rn_entrypoint spec of
            None \<Rightarrow> []
          | Some words \<Rightarrow> pair ''--entrypoint'' (case words of [] \<Rightarrow> [] | program # _ \<Rightarrow> program))
       @ [rn_image spec]
       @ drop 1 entrypoint
       @ (case rn_command spec of None \<Rightarrow> [] | Some words \<Rightarrow> words)))"

section \<open>env\_file.rs\<close>

definition is_valid_env_name :: "string \<Rightarrow> bool" where
  "is_valid_env_name key \<longleftrightarrow>
     key \<noteq> [] \<and> \<not> list_ex (\<lambda>c. c = CHR ''='' \<or> is_whitespace c \<or> is_control c) key"

definition check_entry :: "string \<times> string \<Rightarrow> (spec_error, unit) result" where
  "check_entry = (\<lambda>(key, v).
     if \<not> is_valid_env_name key \<or> starts_with ''#'' key then Inl (BadEnvName key)
     else if has_line_break_or_nul v then Inl (BadEnvValue key)
     else Inr ())"

text \<open>The text written to the new file.\<close>

definition write_env_file :: "(string, string) btree \<Rightarrow> (spec_error, string) result" where
  "write_env_file env =
     and_then (check_each check_entry env) (\<lambda>_.
     Inr (concat (map (\<lambda>(key, v). key @ ''='' @ v @ [CHR 0x0A]) env)))"

section \<open>Time limits of control.rs\<close>

record engine_settings =
  es_call_timeout :: duration
  es_pull_timeout :: duration
  es_build_timeout :: duration
  es_stop_extra :: duration

definition run_limit :: "engine_settings \<Rightarrow> pull_policy \<Rightarrow> duration" where
  "run_limit settings pull =
     (case pull of PullMissing \<Rightarrow> es_pull_timeout settings | PullNever \<Rightarrow> es_call_timeout settings)"

text \<open>The addition of durations panics on overflow, in every build: no value.\<close>

definition stop_limit :: "engine_settings \<Rightarrow> duration \<Rightarrow> duration option" where
  "stop_limit settings grace = checked_duration_add (from_secs (whole_seconds_up grace)) (es_stop_extra settings)"

section \<open>How the engine's command line reads the arguments\<close>

text \<open>
  The reader of \<open>engine run\<close>: words are switches or flags with one value up to the first word that is
  neither, which is the image; the words after it are the container's command.
\<close>

datatype cli_flag = Switch (flag_name: string) | Valued (flag_name: string) string

definition SWITCHES :: "string list" where
  "SWITCHES = [''-d'', ''--pull=never'', ''--no-healthcheck'']"

definition HEALTH_FLAGS :: "string list" where
  "HEALTH_FLAGS = [''--health-cmd'', ''--health-interval'', ''--health-timeout'', ''--health-retries'',
     ''--health-start-period'']"

definition VALUE_FLAGS :: "string list" where
  "VALUE_FLAGS = [''--name'', ''--restart'', ''--network'', ''--network-alias'', ''--label'', ''--env-file'',
     ''-p'', ''-v'', ''--mount'', ''--workdir'', ''--user'', ''--stop-signal'', ''--stop-timeout'',
     ''--entrypoint''] @ HEALTH_FLAGS"

fun read_flags :: "string list \<Rightarrow> cli_flag list \<times> string list" where
  "read_flags [] = ([], [])"
| "read_flags [t] = (if t \<in> set SWITCHES then ([Switch t], []) else ([], [t]))"
| "read_flags (t # v # ts) =
     (if t \<in> set SWITCHES then apfst ((#) (Switch t)) (read_flags (v # ts))
      else if t \<in> set VALUE_FLAGS then apfst ((#) (Valued t v)) (read_flags ts)
      else ([], t # v # ts))"

definition read_run :: "string list \<Rightarrow> (cli_flag list \<times> string \<times> string list) option" where
  "read_run args =
     (if args = [] \<or> hd args \<noteq> ''run'' then None
      else case read_flags (tl args) of
             (flags, img # words) \<Rightarrow> Some (flags, img, words)
           | (flags, []) \<Rightarrow> None)"

fun flag_words :: "cli_flag \<Rightarrow> string list" where
  "flag_words (Switch f) = [f]"
| "flag_words (Valued f v) = [f, v]"

fun known_flag :: "cli_flag \<Rightarrow> bool" where
  "known_flag (Switch f) = (f \<in> set SWITCHES)"
| "known_flag (Valued f v) = (f \<in> set VALUE_FLAGS)"

definition named :: "string list \<Rightarrow> cli_flag list \<Rightarrow> cli_flag list" where
  "named names flags = filter (\<lambda>x. flag_name x \<in> set names) flags"

definition mount_flag :: "mount \<Rightarrow> cli_flag" where
  "mount_flag m = (case push_mount m of [f, v] \<Rightarrow> Valued f v | _ \<Rightarrow> Switch [])"

definition label_flag :: "string \<times> string \<Rightarrow> cli_flag" where
  "label_flag = (\<lambda>(k, v). Valued ''--label'' (k @ ''='' @ v))"

lemma flag_sets_disjoint: "f \<in> set VALUE_FLAGS \<Longrightarrow> f \<notin> set SWITCHES"
  by (auto simp: VALUE_FLAGS_def HEALTH_FLAGS_def SWITCHES_def)

lemma flags_start_with_dash: "f \<in> set VALUE_FLAGS \<or> f \<in> set SWITCHES \<Longrightarrow> starts_with ''-'' f"
  by (auto simp: VALUE_FLAGS_def HEALTH_FLAGS_def SWITCHES_def)

lemma read_flags_words:
  assumes "list_all known_flag fs" and "\<not> starts_with ''-'' img"
  shows "read_flags (concat (map flag_words fs) @ img # words) = (fs, img # words)"
  using assms(1)
proof (induction fs)
  case Nil
  then show ?case using assms(2) flags_start_with_dash [of img] by (cases words) auto
next
  case (Cons x fs)
  then show ?case
  proof (cases x)
    case (Switch f)
    obtain w ws where rest: "concat (map flag_words fs) @ img # words = w # ws"
      by (cases "concat (map flag_words fs) @ img # words") auto
    then show ?thesis using Switch Cons by (simp add: rest)
  next
    case (Valued f v)
    then show ?thesis using Cons flag_sets_disjoint by simp
  qed
qed

lemma named_simps [simp]:
  "named names [] = []"
  "named names (x # xs) = (if flag_name x \<in> set names then x # named names xs else named names xs)"
  "named names (xs @ ys) = named names xs @ named names ys"
  by (simp_all add: named_def)

lemma named_none: "(\<And>x. x \<in> set xs \<Longrightarrow> flag_name x \<notin> set names) \<Longrightarrow> named names xs = []"
  by (auto simp: named_def filter_empty_conv)

lemma named_all: "(\<And>x. x \<in> set xs \<Longrightarrow> flag_name x \<in> set names) \<Longrightarrow> named names xs = xs"
  by (auto simp: named_def filter_id_conv)

lemma push_mount_flag: "push_mount m = flag_words (mount_flag m) \<and> known_flag (mount_flag m)
    \<and> flag_name (mount_flag m) \<in> {''-v'', ''--mount''}"
  by (auto simp: mount_flag_def push_mount_def pair_def Let_def VALUE_FLAGS_def)

lemma mount_flag_named: "flag_name (mount_flag m) = ''-v'' \<or> flag_name (mount_flag m) = ''--mount''"
  using push_mount_flag by auto

lemma push_mounts_flags: "concat (map push_mount ms) = concat (map flag_words (map mount_flag ms))"
  by (induction ms) (auto simp: push_mount_flag)

text \<open>Which flags an optional value and a health check turn into.\<close>

lemma optional_pair_flags: "optional_pair f v = concat (map flag_words (case v of None \<Rightarrow> [] | Some v \<Rightarrow> [Valued f v]))"
  by (simp add: optional_pair_def pair_def split: option.splits)

lemma health_flags_known:
  assumes "health_flags try_join h = Inr ws"
  obtains fs where "ws = concat (map flag_words fs)" "list_all known_flag fs"
    "\<forall>x \<in> set fs. flag_name x \<in> set (''--no-healthcheck'' # HEALTH_FLAGS)"
proof -
  obtain t where t: "t = Switch ''--no-healthcheck'' \<or> (\<exists>line. t = Valued ''--health-cmd'' line)"
    and ws: "ws = flag_words t @ optional_pair ''--health-interval'' (map_option seconds (hc_interval h))
       @ optional_pair ''--health-timeout'' (map_option seconds (hc_timeout h))
       @ optional_pair ''--health-retries'' (map_option show_u32 (hc_retries h))
       @ optional_pair ''--health-start-period'' (map_option seconds (hc_start_period h))"
    using assms by (cases "hc_test h") (auto simp: health_flags_def pair_def and_then_Inr intro: that)
  let ?opt = "\<lambda>f v. case v of None \<Rightarrow> [] | Some v \<Rightarrow> [Valued f v]"
  let ?fs = "t # ?opt ''--health-interval'' (map_option seconds (hc_interval h))
       @ ?opt ''--health-timeout'' (map_option seconds (hc_timeout h))
       @ ?opt ''--health-retries'' (map_option show_u32 (hc_retries h))
       @ ?opt ''--health-start-period'' (map_option seconds (hc_start_period h))"
  show thesis
  proof (rule that [of ?fs])
    show "ws = concat (map flag_words ?fs)" by (simp add: ws optional_pair_flags)
    show "list_all known_flag ?fs"
      using t by (auto simp: VALUE_FLAGS_def HEALTH_FLAGS_def SWITCHES_def split: option.splits)
    show "\<forall>x \<in> set ?fs. flag_name x \<in> set (''--no-healthcheck'' # HEALTH_FLAGS)"
      using t by (auto simp: HEALTH_FLAGS_def split: option.splits)
  qed
qed

definition optional_flag :: "string \<Rightarrow> string option \<Rightarrow> cli_flag list" where
  "optional_flag f v = (case v of None \<Rightarrow> [] | Some v \<Rightarrow> [Valued f v])"

text \<open>The flags of a spec, with those of its health check as \<open>health\<close>.\<close>

definition spec_flags :: "run_spec \<Rightarrow> string \<Rightarrow> cli_flag list \<Rightarrow> cli_flag list" where
  "spec_flags spec env_file health =
     [Switch ''-d'', Valued ''--name'' (container_str (rn_name spec)), Valued ''--restart'' ''no'']
     @ (if rn_pull spec = PullNever then [Switch ''--pull=never''] else [])
     @ [Valued ''--network'' (network_str (rn_network spec)), Valued ''--network-alias'' (service_str (rn_alias spec))]
     @ map label_flag (rn_labels spec)
     @ [Valued ''--env-file'' env_file]
     @ map (\<lambda>p. Valued ''-p'' (port_flag p)) (rn_ports spec)
     @ map mount_flag (rn_mounts spec)
     @ optional_flag ''--workdir'' (rn_working_dir spec)
     @ optional_flag ''--user'' (rn_user spec)
     @ [Valued ''--stop-signal'' (signal_str (rn_stop_signal spec)),
        Valued ''--stop-timeout'' (show_nat (whole_seconds_up (rn_stop_grace spec)))]
     @ health
     @ optional_flag ''--entrypoint'' (map_option (\<lambda>words. case words of [] \<Rightarrow> [] | program # _ \<Rightarrow> program) (rn_entrypoint spec))"

definition spec_words :: "run_spec \<Rightarrow> string list" where
  "spec_words spec =
     (case rn_entrypoint spec of None \<Rightarrow> [] | Some words \<Rightarrow> drop 1 words)
     @ (case rn_command spec of None \<Rightarrow> [] | Some words \<Rightarrow> words)"

lemma concat_label_words:
  "concat (map (\<lambda>(k, v). pair ''--label'' (k @ ''='' @ v)) ls) = concat (map flag_words (map label_flag ls))"
  by (induction ls) (auto simp: pair_def label_flag_def)

lemma concat_flag_words:
  "concat (map (\<lambda>p. pair ''-p'' (port_flag p)) ps) = concat (map flag_words (map (\<lambda>p. Valued ''-p'' (port_flag p)) ps))"
  "optional_pair f v = concat (map flag_words (optional_flag f v))"
  by (auto simp: pair_def optional_pair_def optional_flag_def comp_def split: option.splits)

lemma run_args_flags:
  assumes "run_args try_join spec env_file = Inr args"
  obtains health where
    "args = ''run'' # concat (map flag_words (spec_flags spec env_file health)) @ rn_image spec # spec_words spec"
    "list_all known_flag health" "\<forall>x \<in> set health. flag_name x \<in> set (''--no-healthcheck'' # HEALTH_FLAGS)"
proof -
  obtain ws where h: "(case rn_healthcheck spec of None \<Rightarrow> Inr [] | Some health \<Rightarrow> health_flags try_join health) = Inr ws"
    and args: "run_args try_join spec env_file = Inr args"
    using assms by (auto simp: run_args_def and_then_Inr)
  obtain fs where fs: "ws = concat (map flag_words fs)" "list_all known_flag fs"
    "\<forall>x \<in> set fs. flag_name x \<in> set (''--no-healthcheck'' # HEALTH_FLAGS)"
  proof (cases "rn_healthcheck spec")
    case None
    then show thesis using h by (intro that [of "[]"]) auto
  next
    case (Some c)
    then show thesis using h by (auto elim!: health_flags_known intro: that)
  qed
  have entry: "(case rn_entrypoint spec of None \<Rightarrow> []
      | Some words \<Rightarrow> pair ''--entrypoint'' (case words of [] \<Rightarrow> [] | program # _ \<Rightarrow> program))
    = concat (map flag_words (optional_flag ''--entrypoint''
        (map_option (\<lambda>words. case words of [] \<Rightarrow> [] | program # _ \<Rightarrow> program) (rn_entrypoint spec))))"
    by (simp add: optional_flag_def pair_def split: option.splits)
  have words: "drop 1 (case rn_entrypoint spec of Some words \<Rightarrow> words | None \<Rightarrow> [])
      @ (case rn_command spec of None \<Rightarrow> [] | Some words \<Rightarrow> words) = spec_words spec"
    by (simp add: spec_words_def split: option.splits)
  have "args = ''run'' # concat (map flag_words (spec_flags spec env_file fs)) @ rn_image spec # spec_words spec"
    using args h unfolding run_args_def Let_def entry words [symmetric] concat_label_words concat_flag_words push_mounts_flags
    by (auto simp: fs(1) spec_flags_def pair_def)
  then show thesis using fs(2,3) by (rule that)
qed

lemma spec_flags_known: "list_all known_flag health \<Longrightarrow> list_all known_flag (spec_flags spec env_file health)"
  using push_mount_flag
  by (auto simp: spec_flags_def list_all_iff optional_flag_def label_flag_def VALUE_FLAGS_def SWITCHES_def split: option.splits)

lemma spec_flags_named:
  assumes "\<forall>x \<in> set health. flag_name x \<in> set (''--no-healthcheck'' # HEALTH_FLAGS)"
  shows "named [''-p''] (spec_flags spec env_file health) = map (\<lambda>p. Valued ''-p'' (port_flag p)) (rn_ports spec)"
    and "named [''--label''] (spec_flags spec env_file health) = map label_flag (rn_labels spec)"
    and "named [''-v'', ''--mount''] (spec_flags spec env_file health) = map mount_flag (rn_mounts spec)"
    and "named [''--network'', ''--restart'', ''--name''] (spec_flags spec env_file health)
      = [Valued ''--name'' (container_str (rn_name spec)), Valued ''--restart'' ''no'',
         Valued ''--network'' (network_str (rn_network spec))]"
proof -
  let ?labels = "map label_flag (rn_labels spec)"
  let ?ports = "map (\<lambda>p. Valued ''-p'' (port_flag p)) (rn_ports spec)"
  let ?mounts = "map mount_flag (rn_mounts spec)"
  have h: "named ns health = []" if "set ns \<inter> set (''--no-healthcheck'' # HEALTH_FLAGS) = {}" for ns
    using that assms by (intro named_none) blast
  have l: "named ns ?labels = (if ''--label'' \<in> set ns then ?labels else [])" for ns
    by (auto simp: label_flag_def intro!: named_all named_none)
  have p: "named ns ?ports = (if ''-p'' \<in> set ns then ?ports else [])" for ns
    by (auto intro!: named_all named_none)
  have m: "named ns ?mounts = (if set ns \<inter> {''-v'', ''--mount''} = {} then [] else ?mounts)"
    if "set ns \<inter> {''-v'', ''--mount''} = {} \<or> {''-v'', ''--mount''} \<subseteq> set ns" for ns
    using that mount_flag_named by (auto intro!: named_all named_none) metis+
  have o: "named ns (optional_flag f v) = (if f \<in> set ns then optional_flag f v else [])" for ns f v
    by (auto simp: optional_flag_def split: option.splits)
  show "named [''-p''] (spec_flags spec env_file health) = ?ports"
    by (simp add: spec_flags_def h l p m o HEALTH_FLAGS_def)
  show "named [''--label''] (spec_flags spec env_file health) = ?labels"
    by (simp add: spec_flags_def h l p m o HEALTH_FLAGS_def)
  show "named [''-v'', ''--mount''] (spec_flags spec env_file health) = ?mounts"
    by (simp add: spec_flags_def h l p m o HEALTH_FLAGS_def)
  show "named [''--network'', ''--restart'', ''--name''] (spec_flags spec env_file health)
      = [Valued ''--name'' (container_str (rn_name spec)), Valued ''--restart'' ''no'',
         Valued ''--network'' (network_str (rn_network spec))]"
    by (simp add: spec_flags_def h l p m o HEALTH_FLAGS_def)
qed


definition sample_spec :: run_spec where
  "sample_spec = \<lparr>
     rn_name = ContainerName ''shop.web.1'', rn_image = ''nginx:1'', rn_pull = PullMissing,
     rn_network = NetworkName ''riku-shop'', rn_alias = ServiceName ''web'',
     rn_labels = [(''riku.app'', ''shop'')], rn_env = [(''A'', ''1'')],
     rn_ports = [\<lparr>pb_host_ip = Loopback, pb_host_port = Some 8080, pb_container_port = 80, pb_protocol = Tcp\<rparr>],
     rn_mounts = [], rn_entrypoint = Some [''sh'', ''-c''], rn_command = Some [''--privileged''],
     rn_working_dir = None, rn_user = None, rn_stop_signal = stop_signal_default,
     rn_stop_grace = DEFAULT_STOP_GRACE, rn_healthcheck = None\<rparr>"


section \<open>Values with separators in them\<close>

text \<open>
  The reader of a \<open>-v\<close> value: up to three parts between colons.  One part is an anonymous volume; the third of three
  is the access mode.
\<close>

definition read_volume_flag :: "string \<Rightarrow> (string option \<times> string \<times> bool) option" where
  "read_volume_flag v =
     (case split_on (CHR '':'') v of
        [target] \<Rightarrow> Some (None, target, False)
      | [source, target] \<Rightarrow> Some (Some source, target, False)
      | [source, target, mode] \<Rightarrow> Some (Some source, target, mode = ''ro'')
      | _ \<Rightarrow> None)"

fun source_text :: "mount_source \<Rightarrow> string option" where
  "source_text (MVolume name) = Some name"
| "source_text (MBind p) = Some (path_text p)"
| "source_text MAnonymous = None"

lemma check_volume_name_ok: "check_volume_name name = Inr u \<longleftrightarrow> is_engine_safe name"
  by (cases name) (auto simp: check_volume_name_def engine_char_def Let_def list_all_iff)

lemma check_absolute_ok:
  "check_absolute what absolute txt = Inr u \<longleftrightarrow>
     absolute \<and> CHR '':'' \<notin> set txt \<and> \<not> has_blank_or_control txt"
  by (auto simp: check_absolute_def Let_def list_ex_iff has_blank_or_control_def)

lemma check_mount_ok:
  "check_mount m = Inr u \<longleftrightarrow> target_safe (mt_target m) \<and>
     (case mt_source m of
        MVolume name \<Rightarrow> is_engine_safe name
      | MBind p \<Rightarrow> is_absolute p \<and> CHR '':'' \<notin> set (path_text p) \<and> \<not> has_blank_or_control (path_text p)
      | MAnonymous \<Rightarrow> True)"
  by (auto simp: check_mount_def and_then_Inr check_absolute_ok check_volume_name_ok target_safe_def
      split: mount_source.splits if_splits)

lemma engine_safe_no_colon: "is_engine_safe name \<Longrightarrow> CHR '':'' \<notin> set name"
  using engine_char_ascii [of "CHR '':''"] by (auto dest!: engine_safe_chars simp: list_all_iff)

lemma split_on_none: "c \<notin> set s \<Longrightarrow> split_on c s = [s]"
  by (auto simp: split_on_def list_all_iff intro!: split_by_none)

lemma split_on_append: "c \<notin> set a \<Longrightarrow> split_on c (a @ c # s) = a # split_on c s"
  unfolding split_on_def by (rule split_by_append) (auto simp: list_all_iff)

text \<open>
  A checked mount reaches the engine as itself: unless it is a read only anonymous volume, the value after \<open>-v\<close>
  splits at its colons into its own source, target and access mode.
\<close>

lemma mount_flag_read_back:
  assumes "check_mount m = Inr ()" and "\<not> (mt_source m = MAnonymous \<and> mt_read_only m)"
  shows "\<exists>v. push_mount m = [''-v'', v]
    \<and> read_volume_flag v = Some (source_text (mt_source m), mt_target m, mt_read_only m)"
proof -
  have target: "CHR '':'' \<notin> set (mt_target m)" using assms(1) by (simp add: check_mount_ok target_safe_def)
  have source: "CHR '':'' \<notin> set x" if "source_text (mt_source m) = Some x" for x
    using assms(1) that engine_safe_no_colon by (cases "mt_source m") (auto simp: check_mount_ok)
  show ?thesis
  proof (cases "source_text (mt_source m)")
    case None
    then have "mt_source m = MAnonymous" by (cases "mt_source m") auto
    then show ?thesis
      using assms(2) target None by (simp add: push_mount_def pair_def read_volume_flag_def split_on_none)
  next
    case (Some x)
    then have "push_mount m = [''-v'', x @ '':'' @ mt_target m @ (if mt_read_only m then '':ro'' else [])]"
      by (cases "mt_source m") (auto simp: push_mount_def pair_def)
    then show ?thesis
      using source [OF Some] target Some
      by (simp add: read_volume_flag_def split_on_append split_on_none)
  qed
qed

text \<open>The reader of an env file: one \<open>KEY=value\<close> per line, lines that start with \<open>#\<close> are comments.\<close>

definition read_env_text :: "string \<Rightarrow> (string \<times> string) list" where
  "read_env_text content =
     List.map_filter (split_once (CHR ''='')) (filter (\<lambda>l. \<not> starts_with ''#'' l) (split_on (CHR 0x0A) content))"

lemma check_entry_ok:
  "check_entry (k, v) = Inr u \<longleftrightarrow> is_valid_env_name k \<and> \<not> starts_with ''#'' k \<and> \<not> has_line_break_or_nul v"
  by (simp add: check_entry_def)

lemma valid_env_name_chars: "is_valid_env_name k \<Longrightarrow> CHR ''='' \<notin> set k \<and> CHR 0x0A \<notin> set k \<and> k \<noteq> []"
proof -
  assume k: "is_valid_env_name k"
  have "is_whitespace (CHR 0x0A)" by (simp add: is_whitespace_def)
  then show ?thesis using k unfolding is_valid_env_name_def list_ex_iff by blast
qed

text \<open>
  Property C33.  The env file holds exactly the environment: an engine that reads it line by line gets the same names and values
  back in the same order, so no value can start a new variable.
\<close>

theorem env_file_read_back:
  assumes "write_env_file env = Inr content"
  shows "read_env_text content = env"
proof -
  have ok: "\<forall>kv \<in> set env. check_entry kv = Inr ()"
    and content: "content = concat (map (\<lambda>(k, v). k @ ''='' @ v @ [CHR 0x0A]) env)"
    using assms by (auto simp: write_env_file_def and_then_Inr check_each_Inr)
  have "read_env_text (concat (map (\<lambda>(k, v). k @ ''='' @ v @ [CHR 0x0A]) env)) = env" using ok
  proof (induction env)
    case Nil
    then show ?case by (simp add: read_env_text_def split_on_def List.map_filter_def)
  next
    case (Cons kv env)
    obtain k v where kv: "kv = (k, v)" by (cases kv)
    let ?rest = "concat (map (\<lambda>(k, v). k @ ''='' @ v @ [CHR 0x0A]) env)"
    have k: "is_valid_env_name k" "\<not> starts_with ''#'' k" "\<not> has_line_break_or_nul v"
      using Cons.prems by (auto simp: kv check_entry_ok)
    note chars = valid_env_name_chars [OF k(1)]
    have "CHR 0x0A \<notin> set (k @ ''='' @ v)" using chars k(3) by (auto simp: has_line_break_or_nul_def list_ex_iff)
    then have "split_on (CHR 0x0A) ((k @ ''='' @ v) @ CHR 0x0A # ?rest) = (k @ ''='' @ v) # split_on (CHR 0x0A) ?rest"
      by (rule split_on_append)
    moreover have "\<not> starts_with ''#'' (k @ ''='' @ v)" using chars k(2) by (cases k) auto
    ultimately show ?case
      using Cons chars by (simp add: kv read_env_text_def List.map_filter_def)
  qed
  then show ?thesis by (simp add: content)
qed

theorem env_file_read_back_witness:
  "read_env_text (''A=1'' @ [CHR 0x0A] @ ''B=x=y'' @ [CHR 0x0A]) = [(''A'', ''1''), (''B'', ''x=y'')]"
  by (rule env_file_read_back)
     (simp add: write_env_file_def check_entry_def is_valid_env_name_def has_line_break_or_nul_def char_class_defs)

section \<open>Whole seconds\<close>

text \<open>
  A duration below the last representable second is rounded up: the engine gets the least whole number of seconds that is not
  shorter, so a positive duration never becomes zero.
\<close>

lemma whole_seconds_up_ceiling:
  assumes "d \<le> from_secs (2 ^ 64 - 1)"
  shows "d \<le> from_secs (whole_seconds_up d) \<and> from_secs (whole_seconds_up d) < d + NANOS_PER_SEC"
proof (cases "d mod NANOS_PER_SEC = 0")
  case True
  then show ?thesis by (auto simp: whole_seconds_up_def from_secs_def NANOS_PER_SEC_def)
next
  case False
  have "d div NANOS_PER_SEC < 2 ^ 64 - 1"
  proof (rule ccontr)
    assume "\<not> d div NANOS_PER_SEC < 2 ^ 64 - 1"
    then have "from_secs (2 ^ 64 - 1) \<le> d div NANOS_PER_SEC * NANOS_PER_SEC" by (simp add: from_secs_def)
    moreover have "d div NANOS_PER_SEC * NANOS_PER_SEC < d"
      using False div_mult_mod_eq [of d NANOS_PER_SEC] by linarith
    ultimately show False using assms by linarith
  qed
  then have up: "whole_seconds_up d = d div NANOS_PER_SEC + 1" using False by (simp add: whole_seconds_up_def)
  have "d mod NANOS_PER_SEC < NANOS_PER_SEC" by (simp add: NANOS_PER_SEC_def)
  then show ?thesis
    unfolding up from_secs_def add_mult_distrib
    using False div_mult_mod_eq [of d NANOS_PER_SEC] by linarith
qed

text \<open>
  At the last second of the range the rounding wraps: the compose parser accepts a grace period of 2 to the 64 minus 1
  seconds and a microsecond, and the whole seconds handed to the engine are zero, an immediate kill.
\<close>

lemma huge_grace_wraps:
  "parse_duration ''18446744073709551615s1us'' = Inr (from_secs (2 ^ 64 - 1) + 1000)
   \<and> whole_seconds_up (from_secs (2 ^ 64 - 1) + 1000) = 0"
proof -
  have round1: "duration_round ''18446744073709551615s1us'' = Some (from_secs (2 ^ 64 - 1), ''1us'')"
    by (simp add: duration_round_def parse_u64_def parse_uint_def digits_value_def duration_part_def char_class_defs Let_def)
  have round2: "duration_round ''1us'' = Some (1000, [])"
    by (simp add: duration_round_def parse_u64_def parse_uint_def digits_value_def duration_part_def char_class_defs Let_def)
  have "parse_duration_loop ''18446744073709551615s1us'' 0 = Some (from_secs (2 ^ 64 - 1) + 1000)"
    by (subst parse_duration_loop.simps, simp only: round1 option.case prod.case)
       (simp add: checked_duration_add_def DURATION_LIMIT_def from_secs_def NANOS_PER_SEC_def parse_duration_loop.simps round2)
  moreover have "whole_seconds_up (from_secs (2 ^ 64 - 1) + 1000) = 0"
    by (simp add: whole_seconds_up_def from_secs_def NANOS_PER_SEC_def)
  ultimately show ?thesis by (simp add: parse_duration_def)
qed

end
