(* ===== verification/Engine_Calls.thy ===== *)
theory Engine_Calls
  imports Engine_Spec
begin

text \<open>
  The calls of the engine driver of \<open>riku-container/src/engine/\<close>: capturing output (\<open>output.rs\<close>), listing and
  inspecting containers (\<open>inspect.rs\<close>, \<open>inspect_parse.rs\<close>, \<open>snapshot.rs\<close>), looking a name up (\<open>lookup.rs\<close>), networks
  (\<open>resources.rs\<close>) and starting, stopping and removing a container (\<open>control.rs\<close>).

  What is not riku's own code is a field of the record \<open>engine\<close> over a state \<open>'w\<close> of the world: one run of the engine
  program within a time limit (\<open>bounded.rs\<close> spawns it), the \<open>serde_json\<close> decoding of \<open>inspect\<close> output, the creation and
  removal of a temporary file, and \<open>shlex::try_join\<close>.  Captured output is text, decoded already.
\<close>

section \<open>The engine handle\<close>

record captured =
  cd_success :: bool
  cd_stdout :: string
  cd_stderr :: string
  cd_truncated :: bool

record raw_state =
  rw_status :: string
  rw_exit_code :: "int option"
  rw_health :: "string option option"

record raw_container =
  rc_id :: string
  rc_name :: string
  rc_image :: string
  rc_labels :: "(string, string) btree option"
  rc_state :: raw_state
  rc_image_id :: string

record 'w engine =
  en_capture :: "string list \<Rightarrow> duration \<Rightarrow> 'w \<Rightarrow> (string, captured) result \<times> 'w"
  en_settings :: engine_settings
  en_inspect_json :: "string \<Rightarrow> (string, raw_container list) result"
  en_temp_file :: "path \<Rightarrow> string \<Rightarrow> 'w \<Rightarrow> (string, string) result \<times> 'w"
  en_drop_file :: "string \<Rightarrow> 'w \<Rightarrow> 'w"
  en_try_join :: "string list \<Rightarrow> string option"

datatype engine_error =
    CaptureFailed string
  | EngineFailed string string
  | OutputIncomplete string
  | CannotList engine_error
  | CannotLookUp string string engine_error
  | CannotInspectAll engine_error
  | InspectShape string
  | Unreadable string engine_error
  | NoExitCode
  | BadLabel string type_error
  | BadCopyLabel string
  | OneAtATime engine_error
  | ListingFailedToo engine_error engine_error
  | EngineType type_error
  | EngineSpec spec_error
  | CannotRun string engine_error
  | CannotStart string engine_error
  | EnvFileIo string
  | DurationOverflow
  | EngineName string string
  | SeveralImages string
  | BadStats
  | CannotReadStats engine_error

type_synonym ('w, 'a) engine_call = "'w \<Rightarrow> (engine_error, 'a) result \<times> 'w"

definition calling :: "('w, 'a) engine_call \<Rightarrow> ('a \<Rightarrow> ('w, 'b) engine_call) \<Rightarrow> ('w, 'b) engine_call" where
  "calling m f w = (case m w of (Inl e, w') \<Rightarrow> (Inl e, w') | (Inr a, w') \<Rightarrow> f a w')"

definition failing :: "(engine_error \<Rightarrow> engine_error) \<Rightarrow> ('w, 'a) engine_call \<Rightarrow> ('w, 'a) engine_call" where
  "failing err m w = apfst (map_err err) (m w)"

definition giving :: "(engine_error, 'a) result \<Rightarrow> ('w, 'a) engine_call" where
  "giving r w = (r, w)"

section \<open>output.rs\<close>

definition run_capture ::
  "'w engine \<Rightarrow> string list \<Rightarrow> duration \<Rightarrow> ('w, captured \<times> string) engine_call" where
  "run_capture engine args limit w =
     (let command = (case args of a # _ \<Rightarrow> a | [] \<Rightarrow> [])
      in case en_capture engine args limit w of
           (Inl e, w') \<Rightarrow> (Inl (CaptureFailed e), w')
         | (Inr out, w') \<Rightarrow>
             (if \<not> cd_success out then (Inl (EngineFailed command (trim (cd_stderr out))), w')
              else (Inr (out, command), w')))"

definition run_within :: "'w engine \<Rightarrow> string list \<Rightarrow> duration \<Rightarrow> ('w, unit) engine_call" where
  "run_within engine args limit = calling (run_capture engine args limit) (\<lambda>_. giving (Inr ()))"

definition run_quiet :: "'w engine \<Rightarrow> string list \<Rightarrow> ('w, unit) engine_call" where
  "run_quiet engine args = run_within engine args (es_call_timeout (en_settings engine))"

definition output_within :: "'w engine \<Rightarrow> string list \<Rightarrow> duration \<Rightarrow> ('w, string) engine_call" where
  "output_within engine args limit =
     calling (run_capture engine args limit) (\<lambda>(out, command).
     giving (if cd_truncated out then Inl (OutputIncomplete command) else Inr (cd_stdout out)))"

definition engine_output :: "'w engine \<Rightarrow> string list \<Rightarrow> ('w, string) engine_call" where
  "engine_output engine args = output_within engine args (es_call_timeout (en_settings engine))"

section \<open>inspect.rs and inspect\_parse.rs\<close>

datatype container_state =
    Running | Starting | StateUnhealthy | Restarting | Exited int | Created | OtherState string

record container_info =
  ci_id :: container_id
  ci_name :: string
  ci_app :: "string option"
  ci_service :: "service_name option"
  ci_copy :: "copy_index option"
  ci_image :: string
  ci_image_id :: string
  ci_host_port :: "u16 option"
  ci_restart :: "string option"
  ci_state :: container_state

definition container_state_of :: "raw_state \<Rightarrow> (engine_error, container_state) result" where
  "container_state_of s =
     (if rw_status s = ''running'' then
        (case (case rw_health s of Some h \<Rightarrow> h | None \<Rightarrow> None) of
           Some h \<Rightarrow>
             (if h = ''unhealthy'' then Inr StateUnhealthy
              else if h = ''starting'' then Inr Starting else Inr Running)
         | None \<Rightarrow> Inr Running)
      else if rw_status s = ''restarting'' then Inr Restarting
      else if rw_status s = ''created'' then Inr Created
      else if rw_status s = ''exited'' then
        (case rw_exit_code s of
           Some code \<Rightarrow> (if - (2 ^ 31) \<le> code \<and> code < 2 ^ 31 then Inr (Exited code) else Inl NoExitCode)
         | None \<Rightarrow> Inl NoExitCode)
      else Inr (OtherState (rw_status s)))"

definition app_label :: "(string, string) btree \<Rightarrow> (engine_error, string option) result" where
  "app_label labels =
     (case bt_get labels LABEL_APP of
        None \<Rightarrow> Inr None
      | Some raw \<Rightarrow>
          (case check_app_name raw of Inr _ \<Rightarrow> Inr (Some raw) | Inl e \<Rightarrow> Inl (BadLabel LABEL_APP e)))"

definition service_label :: "(string, string) btree \<Rightarrow> (engine_error, service_name option) result" where
  "service_label labels =
     (case bt_get labels LABEL_SERVICE of
        None \<Rightarrow> Inr None
      | Some raw \<Rightarrow>
          (case service_name_try_from raw of Inr s \<Rightarrow> Inr (Some s) | Inl e \<Rightarrow> Inl (BadLabel LABEL_SERVICE e)))"

definition copy_label :: "(string, string) btree \<Rightarrow> (engine_error, copy_index option) result" where
  "copy_label labels =
     (case bt_get labels LABEL_COPY of
        None \<Rightarrow> Inr None
      | Some raw \<Rightarrow>
          (case Option.bind (parse_u32 raw) copy_index_new of
             Some copy \<Rightarrow> Inr (Some copy) | None \<Rightarrow> Inl (BadCopyLabel raw)))"

definition port_label :: "(string, string) btree \<Rightarrow> u16 option" where
  "port_label labels =
     Option.bind (bt_get labels LABEL_PORT) (\<lambda>raw.
       case parse_u16 raw of Some port \<Rightarrow> (if port \<noteq> 0 then Some port else None) | None \<Rightarrow> None)"

datatype bad_labels = FailRead | SkipContainer

datatype unreadable = UnreadableLabels engine_error | UnreadableOther engine_error

record riku_labels =
  rl_app :: "string option"
  rl_service :: "service_name option"
  rl_copy :: "copy_index option"

definition riku_labels_of :: "(string, string) btree \<Rightarrow> (engine_error, riku_labels) result" where
  "riku_labels_of labels =
     and_then (app_label labels) (\<lambda>app.
     and_then (service_label labels) (\<lambda>service.
     and_then (copy_label labels) (\<lambda>copy.
     Inr \<lparr>rl_app = app, rl_service = service, rl_copy = copy\<rparr>)))"

definition into_info :: "raw_container \<Rightarrow> (unreadable, container_info) result" where
  "into_info raw =
     (let name = dropWhile (\<lambda>c. c = CHR ''/'') (rc_name raw)
      in and_then (map_err (\<lambda>e. UnreadableOther (Unreadable name (EngineSpec e))) (container_id_try_from (rc_id raw))) (\<lambda>id.
         and_then (map_err (\<lambda>e. UnreadableOther (Unreadable name e)) (container_state_of (rc_state raw))) (\<lambda>state.
         let labels = (case rc_labels raw of Some l \<Rightarrow> l | None \<Rightarrow> [])
         in and_then (map_err (\<lambda>e. UnreadableLabels (Unreadable name e)) (riku_labels_of labels)) (\<lambda>riku.
            Inr \<lparr>ci_id = id, ci_name = name, ci_app = rl_app riku, ci_service = rl_service riku,
                 ci_copy = rl_copy riku, ci_image = rc_image raw, ci_image_id = rc_image_id raw,
                 ci_host_port = port_label labels, ci_restart = bt_get labels LABEL_RESTART, ci_state = state\<rparr>))))"

fun read_infos :: "bad_labels \<Rightarrow> raw_container list \<Rightarrow> (engine_error, container_info list) result" where
  "read_infos bad [] = Inr []"
| "read_infos bad (raw # raws) =
     (case (into_info raw, bad) of
        (Inr info, _) \<Rightarrow> and_then (read_infos bad raws) (\<lambda>infos. Inr (info # infos))
      | (Inl (UnreadableLabels e), SkipContainer) \<Rightarrow> read_infos bad raws
      | (Inl (UnreadableLabels e), FailRead) \<Rightarrow> Inl e
      | (Inl (UnreadableOther e), _) \<Rightarrow> Inl e)"

definition parse_inspect ::
  "(string \<Rightarrow> (string, raw_container list) result) \<Rightarrow> string \<Rightarrow> bad_labels
     \<Rightarrow> (engine_error, container_info list) result" where
  "parse_inspect decode json bad = and_then (map_err InspectShape (decode json)) (read_infos bad)"

definition parse_ids :: "string \<Rightarrow> (engine_error, container_id list) result" where
  "parse_ids out =
     map_err EngineSpec
       (traverse container_id_try_from (filter (\<lambda>line. line \<noteq> []) (map trim (lines out))))"

definition list_with_filter :: "'w engine \<Rightarrow> string option \<Rightarrow> ('w, container_id list) engine_call" where
  "list_with_filter engine flt =
     calling (failing CannotList (engine_output engine
       ([''ps'', ''-a'', ''-q'', ''--no-trunc''] @ (case flt of Some f \<Rightarrow> [''--filter'', f] | None \<Rightarrow> []))))
       (\<lambda>out. giving (parse_ids out))"

definition list_all_containers :: "'w engine \<Rightarrow> ('w, container_id list) engine_call" where
  "list_all_containers engine = list_with_filter engine None"

definition engine_list :: "'w engine \<Rightarrow> string \<Rightarrow> ('w, container_id list) engine_call" where
  "engine_list engine app =
     calling (giving (map_err EngineType (check_app_name app))) (\<lambda>_.
     list_with_filter engine (Some (''label='' @ LABEL_APP @ ''='' @ app)))"

section \<open>snapshot.rs\<close>

text \<open>The result is the error to report, if any, and the listing kept for the next call.\<close>

definition error_unless_gone ::
  "'w engine \<Rightarrow> container_id list option \<Rightarrow> container_id \<Rightarrow> engine_error
     \<Rightarrow> 'w \<Rightarrow> (engine_error option \<times> container_id list option) \<times> 'w" where
  "error_unless_gone engine listed cid err w =
     (case (case listed of Some known \<Rightarrow> (Inr known, w) | None \<Rightarrow> list_all_containers engine w) of
        (Inl list_err, w') \<Rightarrow> ((Some (ListingFailedToo err list_err), None), w')
      | (Inr known, w') \<Rightarrow>
          (if list_ex (\<lambda>present. starts_with (id_str cid) (id_str present)) known
           then ((Some err, Some known), w') else ((None, Some known), w')))"

fun fetch_each ::
  "'w engine \<Rightarrow> (container_id list \<Rightarrow> ('w, string) engine_call) \<Rightarrow> (string \<Rightarrow> (engine_error, 'a list) result)
     \<Rightarrow> container_id list \<Rightarrow> 'a list \<Rightarrow> container_id list option \<Rightarrow> ('w, 'a list) engine_call" where
  "fetch_each engine ask parse [] found listed w = (Inr found, w)"
| "fetch_each engine ask parse (cid # ids) found listed w =
     (case ask [cid] w of
        (Inr out, w1) \<Rightarrow>
          (case parse out of
             Inl e \<Rightarrow> (Inl (OneAtATime e), w1)
           | Inr items \<Rightarrow> fetch_each engine ask parse ids (found @ items) listed w1)
      | (Inl err, w1) \<Rightarrow>
          (case error_unless_gone engine listed cid err w1 of
             ((Some e, _), w2) \<Rightarrow> (Inl e, w2)
           | ((None, listed'), w2) \<Rightarrow> fetch_each engine ask parse ids found listed' w2))"

definition fetch_present ::
  "'w engine \<Rightarrow> container_id list \<Rightarrow> (container_id list \<Rightarrow> ('w, string) engine_call)
     \<Rightarrow> (string \<Rightarrow> (engine_error, 'a list) result) \<Rightarrow> ('w, 'a list) engine_call" where
  "fetch_present engine ids ask parse w =
     (if ids = [] then (Inr [], w)
      else case ask ids w of
             (Inr out, w1) \<Rightarrow> (parse out, w1)
           | (Inl _, w1) \<Rightarrow> fetch_each engine ask parse ids [] None w1)"

definition inspect_with ::
  "'w engine \<Rightarrow> container_id list \<Rightarrow> bad_labels \<Rightarrow> ('w, container_info list) engine_call" where
  "inspect_with engine ids bad =
     failing CannotInspectAll
       (fetch_present engine ids
         (\<lambda>ids. engine_output engine ([''inspect'', ''--type'', ''container''] @ map id_str ids))
         (\<lambda>json. parse_inspect (en_inspect_json engine) json bad))"

definition inspect :: "'w engine \<Rightarrow> container_id list \<Rightarrow> ('w, container_info list) engine_call" where
  "inspect engine ids = inspect_with engine ids SkipContainer"

definition inspect_strict :: "'w engine \<Rightarrow> container_id list \<Rightarrow> ('w, container_info list) engine_call" where
  "inspect_strict engine ids = inspect_with engine ids FailRead"

section \<open>lookup.rs and resources.rs\<close>

definition exact_name_filter :: "container_name \<Rightarrow> string" where
  "exact_name_filter name =
     ''name=^'' @ concat (map (\<lambda>c. if c = CHR ''.'' then [CHR 0x5C, CHR ''.''] else [c]) (container_str name)) @ ''$''"

definition named_container :: "'w engine \<Rightarrow> container_name \<Rightarrow> ('w, container_info option) engine_call" where
  "named_container engine name =
     calling (list_with_filter engine (Some (exact_name_filter name))) (\<lambda>ids.
     calling (inspect_strict engine ids) (\<lambda>infos.
     giving (Inr (find (\<lambda>info. ci_name info = container_str name) infos))))"

definition owner_of :: "'w engine \<Rightarrow> container_name \<Rightarrow> ('w, string option) engine_call" where
  "owner_of engine name =
     calling (named_container engine name) (\<lambda>info.
     giving (Inr (map_option (\<lambda>i. case ci_app i of Some app \<Rightarrow> app | None \<Rightarrow> []) info)))"

definition lists_name :: "string \<Rightarrow> string \<Rightarrow> bool" where
  "lists_name listing name = list_ex (\<lambda>line. trim line = name) (lines listing)"

definition has_listed :: "'w engine \<Rightarrow> string \<Rightarrow> string \<Rightarrow> ('w, bool) engine_call" where
  "has_listed engine kind name =
     calling (failing (CannotLookUp kind name)
       (engine_output engine [kind, ''ls'', ''--filter'', ''name='' @ name, ''--format'', ''{{.Name}}''])) (\<lambda>listing.
     giving (Inr (lists_name listing name)))"

definition ensure_network :: "'w engine \<Rightarrow> network_name \<Rightarrow> ('w, unit) engine_call" where
  "ensure_network engine name =
     calling (has_listed engine ''network'' (network_str name)) (\<lambda>listed.
     if listed then giving (Inr ()) else run_quiet engine [''network'', ''create'', network_str name])"

definition volume_exists :: "'w engine \<Rightarrow> string \<Rightarrow> ('w, bool) engine_call" where
  "volume_exists engine name = has_listed engine ''volume'' name"

definition remove_network :: "'w engine \<Rightarrow> string \<Rightarrow> ('w, unit) engine_call" where
  "remove_network engine name =
     calling (giving (map_err EngineType (check_engine_name ''network name'' name))) (\<lambda>_.
     calling (has_listed engine ''network'' name) (\<lambda>listed.
     if listed then run_quiet engine [''network'', ''rm'', name] else giving (Inr ())))"

section \<open>control.rs\<close>

text \<open>The env file lives from its creation to the end of the call, on every path.\<close>

definition engine_run :: "'w engine \<Rightarrow> run_spec \<Rightarrow> path \<Rightarrow> ('w, container_id) engine_call" where
  "engine_run engine spec scratch w =
     (let cannot_run = CannotRun (container_str (rn_name spec)) \<circ> EngineSpec
      in case check_spec (en_try_join engine) spec of
           Inl e \<Rightarrow> (Inl (cannot_run e), w)
         | Inr _ \<Rightarrow>
             (case write_env_file (rn_env spec) of
                Inl e \<Rightarrow> (Inl (cannot_run e), w)
              | Inr content \<Rightarrow>
                  (case en_temp_file engine scratch content w of
                     (Inl e, w1) \<Rightarrow> (Inl (CannotRun (container_str (rn_name spec)) (EnvFileIo e)), w1)
                   | (Inr env_file, w1) \<Rightarrow>
                       apsnd (en_drop_file engine env_file)
                         (case run_args (en_try_join engine) spec env_file of
                            Inl e \<Rightarrow> (Inl (cannot_run e), w1)
                          | Inr args \<Rightarrow>
                              calling (failing (CannotStart (container_str (rn_name spec)))
                                (output_within engine args (run_limit (en_settings engine) (rn_pull spec)))) (\<lambda>out.
                              giving (map_err EngineSpec (container_id_try_from (trim out)))) w1))))"

definition engine_stop :: "'w engine \<Rightarrow> container_id \<Rightarrow> duration \<Rightarrow> ('w, unit) engine_call" where
  "engine_stop engine cid grace =
     (case stop_limit (en_settings engine) grace of
        None \<Rightarrow> giving (Inl DurationOverflow)
      | Some limit \<Rightarrow>
          run_within engine [''stop'', ''-t'', show_nat (whole_seconds_up grace), id_str cid] limit)"

definition engine_kill :: "'w engine \<Rightarrow> container_id \<Rightarrow> stop_signal \<Rightarrow> ('w, unit) engine_call" where
  "engine_kill engine cid signal = run_quiet engine [''kill'', ''--signal'', signal_str signal, id_str cid]"

definition engine_remove :: "'w engine \<Rightarrow> container_id \<Rightarrow> ('w, unit) engine_call" where
  "engine_remove engine cid = run_quiet engine [''rm'', id_str cid]"

section \<open>What a reading of the engine guarantees\<close>

lemma calling_Inr:
  "calling m f w = (Inr b, w') \<longleftrightarrow> (\<exists>a w1. m w = (Inr a, w1) \<and> f a w1 = (Inr b, w'))"
  by (auto simp: calling_def split: prod.splits sum.splits)

lemma giving_Inr: "giving r w = (Inr a, w') \<longleftrightarrow> r = Inr a \<and> w' = w"
  by (auto simp: giving_def)

lemma failing_Inr: "failing err m w = (Inr a, w') \<longleftrightarrow> m w = (Inr a, w')"
  by (cases "m w") (auto simp: failing_def map_err_Inr)

lemmas engine_call_simps = calling_Inr giving_Inr failing_Inr

definition info_safe :: "container_info \<Rightarrow> bool" where
  "info_safe info \<longleftrightarrow>
     ID_MIN_LEN \<le> length (id_str (ci_id info)) \<and> list_all (\<lambda>c. is_ascii_digit c \<or> c \<in> set ''abcdef'') (id_str (ci_id info))
     \<and> (\<forall>app. ci_app info = Some app \<longrightarrow> safe_app_name app \<and> is_engine_safe app)
     \<and> (\<forall>s. ci_service info = Some s \<longrightarrow> valid_service s)
     \<and> (\<forall>c. ci_copy info = Some c \<longrightarrow> copy_get c \<noteq> 0)
     \<and> ci_host_port info \<noteq> Some 0"

lemma hex_ascii: "is_ascii_digit c \<or> c \<in> set ''abcdef'' \<Longrightarrow> code_point c < 128 \<and> c \<noteq> CHR ''-''"
  by (auto simp: is_ascii_digit_def)

lemma hex_length: "list_all (\<lambda>c. is_ascii_digit c \<or> c \<in> set ''abcdef'') s \<Longrightarrow> str_len s = length s"
proof (induction s)
  case (Cons c s)
  then show ?case using hex_ascii [of c] by simp
qed simp

lemma container_id_ok:
  "container_id_try_from raw = Inr i \<Longrightarrow>
     ID_MIN_LEN \<le> length (id_str i) \<and> list_all (\<lambda>c. is_ascii_digit c \<or> c \<in> set ''abcdef'') (id_str i)"
  using hex_length [of raw] by (auto simp: container_id_try_from_def Let_def split: if_splits)

lemma app_label_ok: "app_label labels = Inr app \<Longrightarrow> app = Some a \<Longrightarrow> safe_app_name a \<and> is_engine_safe a"
  by (auto simp: app_label_def check_app_name_ok split: option.splits sum.splits)

lemma service_label_ok: "service_label labels = Inr svc \<Longrightarrow> svc = Some s \<Longrightarrow> valid_service s"
  by (auto simp: service_label_def split: option.splits sum.splits dest: service_name_valid)

lemma copy_label_ok: "copy_label labels = Inr copy \<Longrightarrow> copy = Some c \<Longrightarrow> copy_get c \<noteq> 0"
  by (auto simp: copy_label_def copy_index_new_def bind_eq_Some_conv split: option.splits if_splits)

lemma port_label_ok: "port_label labels \<noteq> Some 0"
  by (auto simp: port_label_def bind_eq_Some_conv split: option.splits if_splits)

lemma into_info_safe: "into_info raw = Inr info \<Longrightarrow> info_safe info"
  unfolding into_info_def Let_def and_then_Inr map_err_Inr riku_labels_of_def info_safe_def
  using container_id_ok app_label_ok service_label_ok copy_label_ok port_label_ok
  by (elim exE conjE) fastforce

lemma read_infos_from: "read_infos bad raws = Inr infos \<Longrightarrow> info \<in> set infos \<Longrightarrow> \<exists>raw \<in> set raws. into_info raw = Inr info"
  by (induction raws arbitrary: infos)
     (auto simp: and_then_Inr split: sum.splits unreadable.splits bad_labels.splits)

lemma fetch_each_from:
  "fetch_each engine ask parse ids found listed w = (Inr all, w') \<Longrightarrow> x \<in> set all \<Longrightarrow>
     x \<in> set found \<or> (\<exists>out items. parse out = Inr items \<and> x \<in> set items)"
  by (induction engine ask parse ids found listed w rule: fetch_each.induct)
     (fastforce split: prod.splits sum.splits option.splits)+

lemma fetch_present_from:
  "fetch_present engine ids ask parse w = (Inr all, w') \<Longrightarrow> x \<in> set all \<Longrightarrow>
     \<exists>out items. parse out = Inr items \<and> x \<in> set items"
  by (auto simp: fetch_present_def split: if_splits prod.splits sum.splits dest!: fetch_each_from)

text \<open>
  Whatever the engine prints, a container that \<open>inspect\<close> reports has an id that cannot be read as a flag, an app label
  that is safe as a path part, a valid service name, a copy number from 1 and no port 0.
\<close>

lemma inspected_containers_safe:
  assumes "inspect engine ids w = (Inr infos, w')" and "info \<in> set infos"
  shows "info_safe info \<and> \<not> starts_with ''-'' (id_str (ci_id info))"
proof -
  obtain out items where "parse_inspect (en_inspect_json engine) out SkipContainer = Inr items" "info \<in> set items"
    using assms by (auto simp: inspect_def inspect_with_def failing_Inr dest: fetch_present_from)
  then obtain raw where "into_info raw = Inr info"
    by (auto simp: parse_inspect_def and_then_Inr dest: read_infos_from)
  then have safe: "info_safe info" by (rule into_info_safe)
  then show ?thesis
    by (cases "id_str (ci_id info)") (auto simp: info_safe_def is_ascii_digit_def)
qed

text \<open>How a container may be missing from the result of a reading.\<close>

definition gone_from_listing :: "'w engine \<Rightarrow> container_id \<Rightarrow> bool" where
  "gone_from_listing engine i \<longleftrightarrow>
     (\<exists>w known w'. list_all_containers engine w = (Inr known, w')
        \<and> (\<forall>present \<in> set known. \<not> starts_with (id_str i) (id_str present)))"

definition read_alone ::
  "(container_id list \<Rightarrow> ('w, string) engine_call) \<Rightarrow> (string \<Rightarrow> (engine_error, 'a list) result)
     \<Rightarrow> container_id \<Rightarrow> 'a list \<Rightarrow> bool" where
  "read_alone ask parse i found \<longleftrightarrow>
     (\<exists>w out w' items. ask [i] w = (Inr out, w') \<and> parse out = Inr items \<and> set items \<subseteq> set found)"

definition listing_seen :: "'w engine \<Rightarrow> container_id list option \<Rightarrow> bool" where
  "listing_seen engine listed \<longleftrightarrow>
     (\<forall>known. listed = Some known \<longrightarrow> (\<exists>w w'. list_all_containers engine w = (Inr known, w')))"

lemma error_unless_gone_None:
  assumes "error_unless_gone engine listed i err w = ((None, listed'), w')" and "listing_seen engine listed"
  shows "gone_from_listing engine i \<and> listing_seen engine listed'"
proof -
  obtain known w1 where known: "\<exists>w w'. list_all_containers engine w = (Inr known, w')"
    and out: "\<not> list_ex (\<lambda>present. starts_with (id_str i) (id_str present)) known" "listed' = Some known"
    using assms
    by (cases listed)
       (auto simp: error_unless_gone_def listing_seen_def split: prod.splits sum.splits if_splits)
  then show ?thesis by (auto simp: gone_from_listing_def listing_seen_def list_ex_iff)
qed

lemma fetch_each_grows:
  "fetch_each engine ask parse ids found listed w = (Inr all, w') \<Longrightarrow> set found \<subseteq> set all"
  by (induction engine ask parse ids found listed w rule: fetch_each.induct)
     (fastforce split: prod.splits sum.splits option.splits)+

lemma fetch_each_complete:
  "fetch_each engine ask parse ids found listed w = (Inr all, w') \<Longrightarrow> listing_seen engine listed \<Longrightarrow>
     i \<in> set ids \<Longrightarrow> read_alone ask parse i all \<or> gone_from_listing engine i"
proof (induction ids arbitrary: found listed w)
  case (Cons cid ids)
  obtain r w1 where ask: "ask [cid] w = (r, w1)" by (cases "ask [cid] w")
  show ?case
  proof (cases r)
    case (Inl err)
    obtain listed' w2 where gone: "error_unless_gone engine listed cid err w1 = ((None, listed'), w2)"
      and rest: "fetch_each engine ask parse ids found listed' w2 = (Inr all, w')"
      using Cons.prems(1) by (auto simp: ask Inl split: prod.splits option.splits)
    note seen = error_unless_gone_None [OF gone Cons.prems(2)]
    show ?thesis
      using Cons.IH [OF rest] seen Cons.prems(3) by auto
  next
    case (Inr out)
    obtain items where items: "parse out = Inr items"
      and rest: "fetch_each engine ask parse ids (found @ items) listed w1 = (Inr all, w')"
      using Cons.prems(1) by (auto simp: ask Inr split: sum.splits)
    have "read_alone ask parse cid all"
      using fetch_each_grows [OF rest] ask items Inr by (auto simp: read_alone_def)
    then show ?thesis
      using Cons.IH [OF rest] Cons.prems(2,3) by auto
  qed
qed simp


section \<open>A concrete engine\<close>

text \<open>An engine with one running container: every call prints its id and succeeds.\<close>

definition sample_id :: string where
  "sample_id = ''0123456789ab''"

definition sample_raw_container :: raw_container where
  "sample_raw_container = \<lparr>rc_id = sample_id, rc_name = ''/shop.web.1'', rc_image = ''nginx:1'',
     rc_labels = Some [(''riku.app'', ''shop''), (''riku.copy'', ''1''), (''riku.port'', ''8080''), (''riku.service'', ''web'')],
     rc_state = \<lparr>rw_status = ''running'', rw_exit_code = None, rw_health = None\<rparr>, rc_image_id = ''sha256:1''\<rparr>"

definition sample_engine :: "unit engine" where
  "sample_engine = \<lparr>
     en_capture = (\<lambda>args limit w. (Inr \<lparr>cd_success = True, cd_stdout = sample_id, cd_stderr = [], cd_truncated = False\<rparr>, w)),
     en_settings = \<lparr>es_call_timeout = from_secs 60, es_pull_timeout = from_secs 600, es_build_timeout = from_secs 1800,
       es_stop_extra = from_secs 30\<rparr>,
     en_inspect_json = (\<lambda>json. Inr [sample_raw_container]),
     en_temp_file = (\<lambda>dir content w. (Inr ''/scratch/env-1'', w)),
     en_drop_file = (\<lambda>f w. w),
     en_try_join = (\<lambda>words. None)\<rparr>"

definition sample_info :: container_info where
  "sample_info = \<lparr>ci_id = ContainerId sample_id, ci_name = ''shop.web.1'', ci_app = Some ''shop'',
     ci_service = Some (ServiceName ''web''), ci_copy = Some (CopyIndex 1), ci_image = ''nginx:1'',
     ci_image_id = ''sha256:1'', ci_host_port = Some 8080, ci_restart = None, ci_state = Running\<rparr>"

lemma sample_output: "engine_output sample_engine args w = (Inr sample_id, w)"
  by (simp add: engine_output_def output_within_def run_capture_def calling_def giving_def sample_engine_def Let_def)

lemma sample_id_ok: "container_id_try_from sample_id = Inr (ContainerId sample_id)"
  by (simp add: container_id_try_from_def sample_id_def ID_MIN_LEN_def ID_MAX_LEN_def char_class_defs)

lemma sample_parse_ids: "parse_ids sample_id = Inr [ContainerId sample_id]"
proof -
  have "filter (\<lambda>line. line \<noteq> []) (map trim (lines sample_id)) = [sample_id]"
    by (simp add: sample_id_def lines_def split_on_def trim_def trim_start_def trim_end_def char_class_defs Let_def)
  then show ?thesis by (simp add: parse_ids_def sample_id_ok map_err_def and_then_def)
qed

lemma sample_app_ok: "check_app_name ''shop'' = Inr ()"
  by code_simp

lemma sample_into_info: "into_info sample_raw_container = Inr sample_info"
proof -
  have labels: "riku_labels_of [(''riku.app'', ''shop''), (''riku.copy'', ''1''), (''riku.port'', ''8080''), (''riku.service'', ''web'')]
      = Inr \<lparr>rl_app = Some ''shop'', rl_service = Some (ServiceName ''web''), rl_copy = Some (CopyIndex 1)\<rparr>"
    by (simp add: riku_labels_of_def app_label_def service_label_def copy_label_def bt_get_def LABEL_APP_def
        LABEL_SERVICE_def LABEL_COPY_def sample_app_ok sample_name parse_u32_def parse_uint_def digits_value_def
        char_class_defs copy_index_new_def and_then_def)
  have port: "port_label [(''riku.app'', ''shop''), (''riku.copy'', ''1''), (''riku.port'', ''8080''), (''riku.service'', ''web'')] = Some 8080"
    by (simp add: port_label_def bt_get_def LABEL_PORT_def parse_u16_def parse_uint_def digits_value_def char_class_defs)
  show ?thesis
    using sample_id_ok
    by (simp add: into_info_def sample_raw_container_def Let_def labels port container_state_of_def and_then_def map_err_def
        sample_info_def bt_get_def LABEL_RESTART_def)
qed

lemma sample_inspect: "inspect sample_engine [ContainerId sample_id] () = (Inr [sample_info], ())"
proof -
  have "parse_inspect (en_inspect_json sample_engine) out SkipContainer = Inr [sample_info]" for out
    by (simp add: parse_inspect_def sample_engine_def sample_into_info and_then_def map_err_def)
  then show ?thesis
    by (simp add: inspect_def inspect_with_def failing_def fetch_present_def sample_output map_err_def)
qed


end
