(* ===== verification/Health_Wait.thy ===== *)
theory Health_Wait
  imports Engine_Calls
begin

text \<open>
  Waiting for a new copy to become healthy: \<open>rolling/health.rs\<close> and \<open>rolling/probe.rs\<close> of \<open>riku-deploy\<close>.

  The record \<open>probes\<close> holds what the probes ask of the system: the monotonic clock, \<open>sleep\<close>, an HTTP GET (the \<open>reqwest\<close> client,
  built without redirects and proxies), a TCP connect with one read, a connect to a unix socket and its metadata.

  A polling loop is bounded by the clock.  It is modelled with fuel for one attempt more than there are
  intervals before the deadline; \<open>health_wait_ends\<close> shows that this is enough for every clock that does not run
  backwards and that a sleep moves forward by at least its length.
\<close>

section \<open>The system\<close>

datatype read_outcome = ReadClosed | ReadByte | ReadTimedOut | ReadFailed string

record 'w probes =
  pr_now :: "'w \<Rightarrow> duration"
  pr_sleep :: "duration \<Rightarrow> 'w \<Rightarrow> 'w"
  pr_client :: "'w \<Rightarrow> (string, unit) result \<times> 'w"
  pr_get :: "string \<Rightarrow> 'w \<Rightarrow> (string, nat) result \<times> 'w"
  pr_connect :: "u16 \<Rightarrow> 'w \<Rightarrow> (string, read_outcome) result \<times> 'w"
  pr_socket :: "path \<Rightarrow> 'w \<Rightarrow> bool \<times> 'w"
  pr_socket_meta :: "path \<Rightarrow> 'w \<Rightarrow> (string, u32 \<times> u32) result \<times> 'w"
  pr_group :: "u32 option"

datatype health_wait_error =
    WaitEngine engine_error
  | WaitGone string
  | WaitUnhealthy string
  | WaitExited string int
  | WaitNotHealthy duration
  | WaitLastProbe health_wait_error health_wait_error
  | WaitNoAnswer
  | WaitNeedsEngine
  | WaitClient string
  | WaitStatus nat
  | WaitRequest string
  | WaitConnect string
  | WaitClosedAtOnce
  | WaitDropped string
  | WaitSocketMeta path string
  | WaitSocketMode path u32
  | WaitSocketGroup path u32
  | WaitOutOfFuel

type_synonym ('w, 'a) wait_call = "'w \<Rightarrow> (health_wait_error, 'a) result \<times> 'w"

section \<open>probe.rs\<close>

definition PROBE_INTERVAL :: duration where "PROBE_INTERVAL = 500 * 1000000"
definition GROUP_READ_WRITE :: u32 where "GROUP_READ_WRITE = 0x30"

definition probe_address :: "u16 \<Rightarrow> string \<Rightarrow> string" where
  "probe_address port path =
     (let slash = (if starts_with ''/'' path then [] else ''/'')
      in ''http://127.0.0.1:'' @ show_u16 port @ slash @ path)"

definition probe_url :: "'w probes \<Rightarrow> u16 \<Rightarrow> string \<Rightarrow> ('w, unit) wait_call" where
  "probe_url pr port path w =
     (case pr_get pr (probe_address port path) w of
        (Inr status, w') \<Rightarrow> (if 200 \<le> status \<and> status < 300 then (Inr (), w') else (Inl (WaitStatus status), w'))
      | (Inl e, w') \<Rightarrow> (Inl (WaitRequest e), w'))"

definition probe_port :: "'w probes \<Rightarrow> u16 \<Rightarrow> ('w, unit) wait_call" where
  "probe_port pr port w =
     (case pr_connect pr port w of
        (Inl e, w') \<Rightarrow> (Inl (WaitConnect e), w')
      | (Inr outcome, w') \<Rightarrow>
          ((case outcome of
              ReadClosed \<Rightarrow> Inl WaitClosedAtOnce
            | ReadByte \<Rightarrow> Inr ()
            | ReadTimedOut \<Rightarrow> Inr ()
            | ReadFailed e \<Rightarrow> Inl (WaitDropped e)), w'))"

unbundle bit_operations_syntax

definition probe_socket :: "'w probes \<Rightarrow> path \<Rightarrow> ('w, bool) wait_call" where
  "probe_socket pr p w =
     (case pr_socket pr p w of
        (False, w1) \<Rightarrow> (Inr False, w1)
      | (True, w1) \<Rightarrow>
          (case pr_socket_meta pr p w1 of
             (Inl e, w2) \<Rightarrow> (Inl (WaitSocketMeta p e), w2)
           | (Inr (full_mode, owner), w2) \<Rightarrow>
               (let mode = full_mode AND 0x1FF
                in if mode AND GROUP_READ_WRITE \<noteq> GROUP_READ_WRITE then (Inl (WaitSocketMode p mode), w2)
                   else case pr_group pr of
                          Some wanted \<Rightarrow> (if owner \<noteq> wanted then (Inl (WaitSocketGroup p owner), w2) else (Inr True, w2))
                        | None \<Rightarrow> (Inr True, w2))))"

fun poll_loop ::
  "nat \<Rightarrow> ('w \<Rightarrow> duration) \<Rightarrow> (duration \<Rightarrow> 'w \<Rightarrow> 'w) \<Rightarrow> duration \<Rightarrow> duration \<Rightarrow> ('w, bool) wait_call
     \<Rightarrow> ('w, unit) wait_call" where
  "poll_loop 0 now sleep limit deadline attempt w = (Inl WaitOutOfFuel, w)"
| "poll_loop (Suc n) now sleep limit deadline attempt w =
     (case attempt w of
        (Inr True, w') \<Rightarrow> (Inr (), w')
      | (Inl e, w') \<Rightarrow> (Inl e, w')
      | (Inr False, w') \<Rightarrow>
          (if deadline \<le> now w' then (Inl (WaitNotHealthy limit), w')
           else poll_loop n now sleep limit deadline attempt (sleep PROBE_INTERVAL w')))"

definition poll_until ::
  "('w \<Rightarrow> duration) \<Rightarrow> (duration \<Rightarrow> 'w \<Rightarrow> 'w) \<Rightarrow> duration \<Rightarrow> ('w, bool) wait_call \<Rightarrow> ('w, unit) wait_call" where
  "poll_until now sleep limit attempt w =
     poll_loop (limit div PROBE_INTERVAL + 2) now sleep limit (now w + limit) attempt w"

text \<open>The closure keeps the last failure of the probe: it travels next to the world.\<close>

definition probe_attempt ::
  "('w, unit) wait_call \<Rightarrow> 'w \<times> health_wait_error \<Rightarrow> (health_wait_error, bool) result \<times> ('w \<times> health_wait_error)" where
  "probe_attempt probe = (\<lambda>(w, prev).
     case probe w of (Inr _, w') \<Rightarrow> (Inr True, (w', prev)) | (Inl e, w') \<Rightarrow> (Inr False, (w', e)))"

definition poll_probe :: "'w probes \<Rightarrow> duration \<Rightarrow> ('w, unit) wait_call \<Rightarrow> ('w, unit) wait_call" where
  "poll_probe pr limit probe w =
     (case poll_until (\<lambda>(w, prev). pr_now pr w) (\<lambda>d (w, prev). (pr_sleep pr d w, prev)) limit
             (probe_attempt probe) (w, WaitNoAnswer) of
        (Inr _, (w', prev)) \<Rightarrow> (Inr (), w')
      | (Inl e, (w', prev)) \<Rightarrow> (Inl (WaitLastProbe e prev), w'))"

section \<open>health.rs\<close>

definition HEALTHCHECK_WAIT :: duration where "HEALTHCHECK_WAIT = from_secs 120"
definition PROBE_WAIT :: duration where "PROBE_WAIT = from_secs 60"

datatype health_target_kind = TargetEngine container_id | TargetUrl u16 string | TargetPort u16 | TargetSocket path

definition health_target :: "service_def \<Rightarrow> container_id \<Rightarrow> u16 option \<Rightarrow> health_target_kind option" where
  "health_target service cid host_port =
     (let has_engine_check = (case sd_healthcheck service of
                                Some check \<Rightarrow> hc_test check \<noteq> TestDisabled | None \<Rightarrow> False)
      in if has_engine_check then Some (TargetEngine cid)
         else case host_port of
                None \<Rightarrow> None
              | Some port \<Rightarrow>
                  (case bt_get (sd_labels service) LABEL_HEALTH of
                     Some path \<Rightarrow> Some (TargetUrl port path)
                   | None \<Rightarrow> Some (TargetPort port)))"

definition procfile_target :: "(string \<rightharpoonup> string) \<Rightarrow> u16 \<Rightarrow> health_target_kind" where
  "procfile_target env port =
     (case env ''RIKU_HEALTH_CHECK_URL'' of Some path \<Rightarrow> TargetUrl port path | None \<Rightarrow> TargetPort port)"

definition engine_state_ready :: "'w engine \<Rightarrow> container_id \<Rightarrow> ('w, bool) wait_call" where
  "engine_state_ready engine cid w =
     (case inspect engine [cid] w of
        (Inl e, w') \<Rightarrow> (Inl (WaitEngine e), w')
      | (Inr [], w') \<Rightarrow> (Inl (WaitGone (id_str cid)), w')
      | (Inr (info # _), w') \<Rightarrow>
          ((case ci_state info of
              Running \<Rightarrow> Inr True
            | StateUnhealthy \<Rightarrow> Inl (WaitUnhealthy (ci_name info))
            | Exited code \<Rightarrow> Inl (WaitExited (ci_name info) code)
            | Starting \<Rightarrow> Inr False
            | Restarting \<Rightarrow> Inr False
            | Created \<Rightarrow> Inr False
            | OtherState _ \<Rightarrow> Inr False), w'))"

definition wait_healthy :: "'w probes \<Rightarrow> health_target_kind \<Rightarrow> 'w engine option \<Rightarrow> ('w, unit) wait_call" where
  "wait_healthy pr target engine w =
     (case target of
        TargetEngine cid \<Rightarrow>
          (case engine of
             None \<Rightarrow> (Inl WaitNeedsEngine, w)
           | Some engine \<Rightarrow> poll_until (pr_now pr) (pr_sleep pr) HEALTHCHECK_WAIT (engine_state_ready engine cid) w)
      | TargetUrl port path \<Rightarrow>
          (case pr_client pr w of
             (Inl e, w') \<Rightarrow> (Inl (WaitClient e), w')
           | (Inr _, w') \<Rightarrow> poll_probe pr PROBE_WAIT (probe_url pr port path) w')
      | TargetPort port \<Rightarrow> poll_probe pr PROBE_WAIT (probe_port pr port) w
      | TargetSocket p \<Rightarrow> poll_until (pr_now pr) (pr_sleep pr) PROBE_WAIT (probe_socket pr p) w)"

section \<open>The wait ends\<close>

text \<open>
  The monotonic clock: nothing moves it back, and a sleep moves it forward by at least its length.  \<open>tick\<close> says that a
  call does not move it back.
\<close>

definition tick :: "('w \<Rightarrow> duration) \<Rightarrow> ('w \<Rightarrow> 'a \<times> 'w) \<Rightarrow> bool" where
  "tick now f \<longleftrightarrow> (\<forall>w. now w \<le> now (snd (f w)))"

definition sleeps :: "('w \<Rightarrow> duration) \<Rightarrow> (duration \<Rightarrow> 'w \<Rightarrow> 'w) \<Rightarrow> bool" where
  "sleeps now sleep \<longleftrightarrow> (\<forall>d w. now w + d \<le> now (sleep d w))"

fun fuelled :: "(health_wait_error, 'a) result \<Rightarrow> bool" where
  "fuelled (Inl WaitOutOfFuel) = False"
| "fuelled (Inl (WaitLastProbe WaitOutOfFuel prev)) = False"
| "fuelled _ = True"

lemma fuelled_Inl: "fuelled (Inl e :: (health_wait_error, 'a) result) = fuelled (Inl e :: (health_wait_error, 'b) result)"
proof (cases e)
  case (WaitLastProbe e1 e2)
  then show ?thesis by (cases e1) simp_all
qed simp_all

lemma poll_loop_ends:
  assumes clock: "tick now attempt" "sleeps now sleep" and quiet: "\<And>w. fuelled (fst (attempt w))"
  shows "deadline < now w + n * PROBE_INTERVAL \<Longrightarrow>
    fuelled (fst (poll_loop (Suc n) now sleep limit deadline attempt w))"
proof (induction n arbitrary: w)
  case 0
  have "now w \<le> now (snd (attempt w))" using clock(1) by (simp add: tick_def)
  then show ?case
    using 0 quiet [of w] fuelled_Inl [where ?'a = bool and ?'b = unit]
    by (cases "attempt w") (auto split: sum.splits bool.splits)
next
  case (Suc n)
  obtain r w' where attempt: "attempt w = (r, w')" by (cases "attempt w")
  have mono: "now w \<le> now w'" using clock(1) attempt by (auto simp: tick_def dest: spec [of _ w])
  have slept: "now w' + PROBE_INTERVAL \<le> now (sleep PROBE_INTERVAL w')" using clock(2) by (simp add: sleeps_def)
  have later: "deadline < now (sleep PROBE_INTERVAL w') + n * PROBE_INTERVAL"
    using Suc.prems(1) mono slept by simp
  show ?case
    using quiet [of w] Suc.IH [OF later] fuelled_Inl [where ?'a = bool and ?'b = unit]
    by (cases r) (auto simp: attempt split: bool.splits)
qed

lemma poll_until_ends:
  assumes "tick now attempt" "sleeps now sleep" "\<And>w. fuelled (fst (attempt w))"
  shows "fuelled (fst (poll_until now sleep limit attempt w))"
proof -
  have "limit < (limit div PROBE_INTERVAL + 1) * PROBE_INTERVAL"
    using dividend_less_div_times [of PROBE_INTERVAL limit] by (simp add: PROBE_INTERVAL_def)
  then show ?thesis
    using poll_loop_ends [OF assms, of "now w + limit" w "limit div PROBE_INTERVAL + 1" limit]
    by (simp add: poll_until_def)
qed

lemma poll_probe_ends:
  assumes "tick (pr_now pr) probe" "sleeps (pr_now pr) (pr_sleep pr)"
  shows "fuelled (fst (poll_probe pr limit probe w))"
proof -
  let ?now = "\<lambda>(w, prev). pr_now pr w" and ?sleep = "\<lambda>d (w, prev). (pr_sleep pr d w, prev)"
  have "tick ?now (probe_attempt probe)"
    using assms(1) unfolding tick_def probe_attempt_def
    by (auto split: prod.splits sum.splits) (metis snd_conv)+
  moreover have "sleeps ?now ?sleep" using assms(2) by (simp add: sleeps_def)
  moreover have "fuelled (fst (probe_attempt probe wl))" for wl
    by (auto simp: probe_attempt_def split: prod.splits sum.splits)
  ultimately have ends: "fuelled (fst (poll_until ?now ?sleep limit (probe_attempt probe) (w, WaitNoAnswer)))"
    by (rule poll_until_ends)
  obtain r w' prev where out: "poll_until ?now ?sleep limit (probe_attempt probe) (w, WaitNoAnswer) = (r, (w', prev))"
    by (cases "poll_until ?now ?sleep limit (probe_attempt probe) (w, WaitNoAnswer)") auto
  show ?thesis
  proof (cases r)
    case (Inl e)
    then have "e \<noteq> WaitOutOfFuel" using ends out by auto
    then show ?thesis by (cases e) (simp_all add: poll_probe_def out Inl)
  next
    case (Inr u)
    then show ?thesis by (simp add: poll_probe_def out)
  qed
qed

text \<open>The whole system keeps the clock.\<close>

definition clock_kept :: "'w probes \<Rightarrow> 'w engine \<Rightarrow> bool" where
  "clock_kept pr engine \<longleftrightarrow>
     sleeps (pr_now pr) (pr_sleep pr)
     \<and> (\<forall>args limit. tick (pr_now pr) (en_capture engine args limit))
     \<and> (\<forall>url. tick (pr_now pr) (pr_get pr url)) \<and> (\<forall>port. tick (pr_now pr) (pr_connect pr port))
     \<and> (\<forall>p. tick (pr_now pr) (pr_socket pr p)) \<and> (\<forall>p. tick (pr_now pr) (pr_socket_meta pr p))"

lemma tick_calling: "tick now m \<Longrightarrow> (\<And>a. tick now (f a)) \<Longrightarrow> tick now (calling m f)"
  unfolding tick_def calling_def by (auto split: prod.splits sum.splits) (metis le_trans snd_conv)+

lemma tick_failing: "tick now m \<Longrightarrow> tick now (failing err m)"
  by (simp add: tick_def failing_def)

lemma tick_giving: "tick now (giving r)"
  by (simp add: tick_def giving_def)

lemma tick_output: "(\<And>args limit. tick now (en_capture engine args limit)) \<Longrightarrow> tick now (engine_output engine args)"
proof -
  assume capture: "\<And>args limit. tick now (en_capture engine args limit)"
  have "tick now (run_capture engine args limit)" for limit
    using capture [of args limit] unfolding tick_def run_capture_def Let_def
    by (auto split: prod.splits sum.splits if_splits) (metis snd_conv)+
  then show ?thesis
    unfolding engine_output_def output_within_def
    by (intro tick_calling) (auto intro: tick_giving)
qed

lemma tick_fetch_each:
  assumes "\<And>ids. tick now (ask ids)" "tick now (list_all_containers engine)"
  shows "tick now (fetch_each engine ask parse ids found listed)"
proof (induction ids arbitrary: found listed)
  case Nil
  then show ?case by (simp add: tick_def)
next
  case (Cons cid ids)
  have gone: "tick now (error_unless_gone engine listed cid err)" for err
    using assms(2) unfolding tick_def error_unless_gone_def
    by (auto split: option.splits prod.splits sum.splits) (metis snd_conv)+
  show ?case
    unfolding tick_def
  proof
    fix w
    obtain r w1 where ask: "ask [cid] w = (r, w1)" by (cases "ask [cid] w")
    have w1: "now w \<le> now w1" using assms(1) ask by (metis snd_conv tick_def)
    show "now w \<le> now (snd (fetch_each engine ask parse (cid # ids) found listed w))"
    proof (cases r)
      case (Inl err)
      obtain e listed' w2 where gone_eq: "error_unless_gone engine listed cid err w1 = ((e, listed'), w2)"
        by (cases "error_unless_gone engine listed cid err w1") auto
      have "now w1 \<le> now w2" using gone gone_eq by (metis snd_conv tick_def)
      moreover have "now w2 \<le> now (snd (fetch_each engine ask parse ids found listed' w2))" using Cons.IH by (simp add: tick_def)
      ultimately show ?thesis using w1 by (auto simp: ask Inl gone_eq split: option.splits)
    next
      case (Inr out)
      have "now w1 \<le> now (snd (fetch_each engine ask parse ids fd listed w1))" for fd using Cons.IH by (simp add: tick_def)
      then show ?thesis using w1 by (auto simp: ask Inr split: sum.splits intro: le_trans)
    qed
  qed
qed

lemma tick_fetch_present:
  assumes "\<And>ids. tick now (ask ids)" "tick now (list_all_containers engine)"
  shows "tick now (fetch_present engine ids ask parse)"
  unfolding tick_def
proof
  fix w
  obtain r w1 where ask: "ask ids w = (r, w1)" by (cases "ask ids w")
  have "now w \<le> now w1" using assms(1) ask by (metis snd_conv tick_def)
  moreover have "now w1 \<le> now (snd (fetch_each engine ask parse ids [] None w1))"
    using tick_fetch_each [of now ask engine parse ids "[]" None] assms by (simp add: tick_def)
  ultimately show "now w \<le> now (snd (fetch_present engine ids ask parse w))"
    by (auto simp: fetch_present_def ask split: sum.splits)
qed

lemma tick_inspect:
  assumes "\<And>args limit. tick now (en_capture engine args limit)"
  shows "tick now (inspect engine ids)"
proof -
  note out = tick_output [OF assms]
  have list: "tick now (list_all_containers engine)"
    unfolding list_all_containers_def list_with_filter_def
    by (intro tick_calling tick_failing out tick_giving)
  show ?thesis unfolding inspect_def inspect_with_def by (intro tick_failing tick_fetch_present out list)
qed

lemma tick_probes:
  assumes "clock_kept pr engine"
  shows "tick (pr_now pr) (engine_state_ready engine cid)" "tick (pr_now pr) (probe_url pr port path)"
    "tick (pr_now pr) (probe_port pr port)" "tick (pr_now pr) (probe_socket pr p)"
proof -
  have "tick (pr_now pr) (inspect engine [cid])" using assms by (auto simp: clock_kept_def intro: tick_inspect)
  then show "tick (pr_now pr) (engine_state_ready engine cid)"
    unfolding tick_def engine_state_ready_def
    by (auto split: prod.splits sum.splits list.splits) (metis snd_conv)+
  show "tick (pr_now pr) (probe_url pr port path)" "tick (pr_now pr) (probe_port pr port)"
    using assms unfolding clock_kept_def tick_def probe_url_def probe_port_def
    by (auto split: prod.splits sum.splits) (metis snd_conv)+
  show "tick (pr_now pr) (probe_socket pr p)"
    unfolding tick_def
  proof
    fix w
    obtain up w1 where sock: "pr_socket pr p w = (up, w1)" by (cases "pr_socket pr p w")
    obtain m w2 where meta: "pr_socket_meta pr p w1 = (m, w2)" by (cases "pr_socket_meta pr p w1")
    have "pr_now pr w \<le> pr_now pr w1" "pr_now pr w1 \<le> pr_now pr w2"
      using assms sock meta unfolding clock_kept_def tick_def by (metis snd_conv)+
    then show "pr_now pr w \<le> pr_now pr (snd (probe_socket pr p w))"
      by (auto simp: probe_socket_def sock meta Let_def split: bool.splits sum.splits option.splits)
  qed
qed

text \<open>
  A health wait always returns within its fuel: for every clock that runs forward, the loop reaches its deadline (or an answer)
  before the modelled attempts are used up, so the wait is bounded by its time limit.
\<close>

lemma health_wait_ends:
  assumes "clock_kept pr engine"
  shows "fuelled (fst (wait_healthy pr target (Some engine) w))"
proof -
  have sl: "sleeps (pr_now pr) (pr_sleep pr)" using assms by (simp add: clock_kept_def)
  note ticks = tick_probes [OF assms]
  have eng: "fuelled (fst (engine_state_ready engine cid w))" for cid w
    by (auto simp: engine_state_ready_def split: prod.splits sum.splits list.splits container_state.splits)
  have sock: "fuelled (fst (probe_socket pr p w))" for p w
    by (auto simp: probe_socket_def Let_def split: prod.splits sum.splits option.splits bool.splits)
  show ?thesis
    using poll_until_ends [OF ticks(1) sl eng] poll_until_ends [OF ticks(4) sl sock]
      poll_probe_ends [OF ticks(2) sl] poll_probe_ends [OF ticks(3) sl]
    by (cases target) (auto simp: wait_healthy_def split: prod.splits sum.splits)
qed

text \<open>A world that is its clock: a call takes one second, a sleep its length.\<close>

definition clock_probes :: "duration probes" where
  "clock_probes = \<lparr>pr_now = (\<lambda>w. w), pr_sleep = (\<lambda>d w. w + d), pr_client = (\<lambda>w. (Inr (), w)),
     pr_get = (\<lambda>url w. (Inr 503, w + from_secs 1)), pr_connect = (\<lambda>port w. (Inl ''refused'', w + from_secs 1)),
     pr_socket = (\<lambda>p w. (False, w)), pr_socket_meta = (\<lambda>p w. (Inl ''missing'', w)), pr_group = None\<rparr>"

definition silent_engine :: "duration engine" where
  "silent_engine = \<lparr>en_capture = (\<lambda>args limit w. (Inl ''no engine'', w + limit)),
     en_settings = en_settings sample_engine, en_inspect_json = (\<lambda>json. Inl ''not JSON''),
     en_temp_file = (\<lambda>dir content w. (Inl ''no disk'', w)), en_drop_file = (\<lambda>f w. w), en_try_join = (\<lambda>words. None)\<rparr>"

section \<open>What healthy means\<close>

lemma poll_loop_success:
  "poll_loop n now sleep limit deadline attempt w = (Inr (), w') \<Longrightarrow> \<exists>w1. attempt w1 = (Inr True, w')"
  by (induction n arbitrary: w) (auto split: prod.splits sum.splits bool.splits if_splits)

lemma poll_until_success:
  "poll_until now sleep limit attempt w = (Inr (), w') \<Longrightarrow> \<exists>w1. attempt w1 = (Inr True, w')"
  unfolding poll_until_def by (rule poll_loop_success)

lemma poll_until_first: "attempt w = (Inr True, w') \<Longrightarrow> poll_until now sleep limit attempt w = (Inr (), w')"
  by (simp add: poll_until_def)

lemma poll_probe_success:
  assumes "poll_probe pr limit probe w = (Inr (), w')"
  shows "\<exists>w1. probe w1 = (Inr (), w')"
proof -
  obtain prev wl where "probe_attempt probe wl = (Inr True, (w', prev))"
    using assms by (auto simp: poll_probe_def split: prod.splits sum.splits dest!: poll_until_success)
  then show ?thesis
    by (cases wl) (auto simp: probe_attempt_def split: prod.splits sum.splits)
qed

lemma probe_address_local: "\<exists>rest. probe_address port path = ''http://127.0.0.1:'' @ show_u16 port @ ''/'' @ rest"
  by (auto simp: probe_address_def starts_with_iff)

text \<open>
  A copy is called healthy only on evidence of its last check: the engine reported it running (and not starting or
  unhealthy), an HTTP request to its own loopback port answered 2xx, its loopback port kept a connection open,
  or its socket accepted a connection and lets its group read and write.
\<close>

lemma healthy_means_checked:
  assumes "wait_healthy pr target (Some engine) w = (Inr (), w')"
  shows "case target of
      TargetEngine cid \<Rightarrow> (\<exists>w1 info infos. inspect engine [cid] w1 = (Inr (info # infos), w') \<and> ci_state info = Running)
    | TargetUrl port path \<Rightarrow>
        (\<exists>w1 rest status. pr_get pr (''http://127.0.0.1:'' @ show_u16 port @ ''/'' @ rest) w1 = (Inr status, w')
           \<and> 200 \<le> status \<and> status < 300)
    | TargetPort port \<Rightarrow> (\<exists>w1 outcome. pr_connect pr port w1 = (Inr outcome, w') \<and> outcome \<in> {ReadByte, ReadTimedOut})
    | TargetSocket p \<Rightarrow>
        (\<exists>w1 w2 mode owner. pr_socket pr p w1 = (True, w2) \<and> pr_socket_meta pr p w2 = (Inr (mode, owner), w')
           \<and> (mode AND 0x1FF) AND GROUP_READ_WRITE = GROUP_READ_WRITE)"
proof (cases target)
  case (TargetEngine cid)
  then obtain w1 where "engine_state_ready engine cid w1 = (Inr True, w')"
    using assms by (auto simp: wait_healthy_def dest: poll_until_success)
  then show ?thesis
    using TargetEngine
    by (auto simp: engine_state_ready_def split: prod.splits sum.splits list.splits container_state.splits)
next
  case (TargetUrl port path)
  then obtain w1 where "probe_url pr port path w1 = (Inr (), w')"
    using assms by (auto simp: wait_healthy_def split: prod.splits sum.splits dest!: poll_probe_success)
  moreover obtain rest where "probe_address port path = ''http://127.0.0.1:'' @ show_u16 port @ ''/'' @ rest"
    using probe_address_local by blast
  ultimately show ?thesis
    using TargetUrl by (auto simp: probe_url_def split: prod.splits sum.splits if_splits)
next
  case (TargetPort port)
  then obtain w1 where "probe_port pr port w1 = (Inr (), w')"
    using assms by (auto simp: wait_healthy_def dest!: poll_probe_success)
  then show ?thesis
    using TargetPort by (auto simp: probe_port_def split: prod.splits sum.splits read_outcome.splits)
next
  case (TargetSocket p)
  then obtain w1 where "probe_socket pr p w1 = (Inr True, w')"
    using assms by (auto simp: wait_healthy_def dest: poll_until_success)
  then show ?thesis
    using TargetSocket
    by (fastforce simp: probe_socket_def Let_def split: prod.splits sum.splits bool.splits option.splits if_splits)
qed

definition unit_probes :: "unit probes" where
  "unit_probes = \<lparr>pr_now = (\<lambda>w. 0), pr_sleep = (\<lambda>d w. w), pr_client = (\<lambda>w. (Inr (), w)), pr_get = (\<lambda>url w. (Inr 200, w)),
     pr_connect = (\<lambda>port w. (Inr ReadTimedOut, w)), pr_socket = (\<lambda>p w. (False, w)),
     pr_socket_meta = (\<lambda>p w. (Inl ''missing'', w)), pr_group = None\<rparr>"

end
