(* ===== verification/Rolling.thy ===== *)
theory Rolling
  imports Engine_Calls
begin

text \<open>
  Rolling replacement of the copies of a service: \<open>riku-deploy/src/rolling/scale.rs\<close> and
  \<open>riku-deploy/src/rolling/replace.rs\<close>, with \<open>riku-util/src/backend.rs\<close>.

  The traits \<open>CopyRuntime\<close> and \<open>RouteSink\<close> are records of functions over a state \<open>'w\<close>
  of the world with errors \<open>'e\<close>, so that every implementation is covered.  A call takes the world and returns its
  result with the world after it.

  Copy numbers are \<open>u32\<close>; the search for a free one counts from 1 and stops before it has
  looked at more numbers than there are copies, so it never wraps.
\<close>

section \<open>Copies, runtimes and routes\<close>

text \<open>\<open>IpAddr\<close>: the four octets of an IPv4 address, or the eight segments of an IPv6 address.\<close>

datatype ip_addr = V4 "8 word" "8 word" "8 word" "8 word" | V6 "u16 list"

definition LoopbackV4 :: ip_addr where
  "LoopbackV4 = V4 127 0 0 1"

datatype backend = BackendTcp ip_addr u16 | BackendUnix path

definition backend_loopback :: "u16 \<Rightarrow> backend" where
  "backend_loopback port = BackendTcp LoopbackV4 port"

datatype copy_handle = HandleContainer container_id | HandleProcess string

record live_copy =
  lc_copy :: copy_index
  lc_backend :: "backend option"
  lc_handle :: copy_handle

type_synonym ('e, 'w, 'a) call = "'w \<Rightarrow> ('e, 'a) result \<times> 'w"

record ('e, 'w) copy_runtime =
  cr_live :: "('e, 'w, live_copy list) call"
  cr_start :: "copy_index \<Rightarrow> ('e, 'w, live_copy) call"
  cr_wait_healthy :: "live_copy \<Rightarrow> ('e, 'w, unit) call"
  cr_stop :: "live_copy \<Rightarrow> ('e, 'w, unit) call"
  cr_discard :: "live_copy \<Rightarrow> 'w \<Rightarrow> 'w"

record ('e, 'w) route_sink =
  rs_publish :: "backend list \<Rightarrow> ('e, 'w, unit) call"
  rs_check :: "('e, 'w, unit) call"

definition no_routes :: "('e, 'w) route_sink" where
  "no_routes = \<lparr>rs_publish = (\<lambda>backends w. (Inr (), w)), rs_check = (\<lambda>w. (Inr (), w))\<rparr>"

datatype 'e roll_error =
    ZeroCopies
  | RouterRefused 'e
  | ListFailed 'e
  | StartFailed copy_index 'e
  | Unhealthy copy_index 'e
  | NotConfirmed copy_index 'e
  | DrainFailed copy_index 'e
  | StopFailed copy_index 'e
  | ReplacementFailed copy_index nat "'e roll_error"

type_synonym ('e, 'w, 'a) rolling = "'w \<Rightarrow> ('e roll_error, 'a) result \<times> 'w"

text \<open>\<open>match f() { Ok(a) => ..., Err(e) => return Err(context(e)) }\<close>\<close>

definition lift_call :: "('e \<Rightarrow> 'e roll_error) \<Rightarrow> ('e, 'w, 'a) call \<Rightarrow> ('e, 'w, 'a) rolling" where
  "lift_call err f w = apfst (map_err err) (f w)"

definition bind :: "('e, 'w, 'a) rolling \<Rightarrow> ('a \<Rightarrow> ('e, 'w, 'b) rolling) \<Rightarrow> ('e, 'w, 'b) rolling" where
  "bind m f w = (case m w of (Inl e, w') \<Rightarrow> (Inl e, w') | (Inr a, w') \<Rightarrow> f a w')"

section \<open>scale.rs\<close>

definition backends_of :: "live_copy list \<Rightarrow> backend list" where
  "backends_of copies = List.map_filter lc_backend copies"

definition copy_numbers :: "live_copy list \<Rightarrow> nat list" where
  "copy_numbers copies = map (\<lambda>c. unat (copy_get (lc_copy c))) copies"

function free_from :: "nat list \<Rightarrow> nat \<Rightarrow> nat" where
  "free_from used n = (if n \<in> set used then free_from used (n + 1) else n)"
  by pat_completeness auto
termination
proof (relation "measure (\<lambda>(used, n). card {m \<in> set used. n \<le> m})")
  fix used :: "nat list" and n
  assume n: "n \<in> set used"
  have sub: "{m \<in> set used. n + 1 \<le> m} \<subseteq> {m \<in> set used. n \<le> m}"
    by (intro Collect_mono) linarith
  have "n \<in> {m \<in> set used. n \<le> m}" "n \<notin> {m \<in> set used. n + 1 \<le> m}" using n by simp_all
  with sub have "{m \<in> set used. n + 1 \<le> m} \<subset> {m \<in> set used. n \<le> m}" by blast
  then have "card {m \<in> set used. n + 1 \<le> m} < card {m \<in> set used. n \<le> m}"
    by (intro psubset_card_mono) auto
  then show "((used, n + 1), used, n) \<in> measure (\<lambda>(used, n). card {m \<in> set used. n \<le> m})" by simp
qed simp

declare free_from.simps [simp del]

definition lowest_free :: "live_copy list \<Rightarrow> copy_index" where
  "lowest_free copies = CopyIndex (of_nat (free_from (copy_numbers copies) 1))"

definition start_healthy :: "('e, 'w) copy_runtime \<Rightarrow> live_copy list \<Rightarrow> ('e, 'w, live_copy) rolling" where
  "start_healthy runtime copies =
     (let index = lowest_free copies
      in bind (lift_call (StartFailed index) (cr_start runtime index)) (\<lambda>fresh w.
         case cr_wait_healthy runtime fresh w of
           (Inr _, w) \<Rightarrow> (Inr fresh, w)
         | (Inl e, w) \<Rightarrow> (Inl (Unhealthy index e), cr_discard runtime fresh w)))"

definition publish_live :: "('e, 'w) route_sink \<Rightarrow> live_copy list \<Rightarrow> ('e, 'w, unit) call" where
  "publish_live routes copies w =
     (let backends = backends_of copies
      in if backends = [] then (Inr (), w) else rs_publish routes backends w)"

definition publish_added ::
  "('e, 'w) route_sink \<Rightarrow> live_copy list \<Rightarrow> copy_index \<Rightarrow> ('e, 'w, unit) rolling" where
  "publish_added routes copies fresh = lift_call (NotConfirmed fresh) (publish_live routes copies)"

definition add_copy ::
  "('e, 'w) copy_runtime \<Rightarrow> ('e, 'w) route_sink \<Rightarrow> live_copy list \<Rightarrow> ('e, 'w, live_copy list) rolling" where
  "add_copy runtime routes copies =
     bind (start_healthy runtime copies) (\<lambda>fresh.
     bind (publish_added routes (copies @ [fresh]) (lc_copy fresh)) (\<lambda>_ w.
     (Inr (copies @ [fresh]), w)))"

definition drain_copy ::
  "('e, 'w) copy_runtime \<Rightarrow> ('e, 'w) route_sink \<Rightarrow> live_copy list \<Rightarrow> live_copy \<Rightarrow> ('e, 'w, live_copy list) rolling" where
  "drain_copy runtime routes copies old =
     (let copies = filter (\<lambda>c. lc_copy c \<noteq> lc_copy old) copies
      in bind (lift_call (DrainFailed (lc_copy old)) (publish_live routes copies)) (\<lambda>_.
         bind (lift_call (StopFailed (lc_copy old)) (cr_stop runtime old)) (\<lambda>_ w.
         (Inr copies, w))))"

lemma add_copy_grows: "add_copy runtime routes copies w = (Inr copies', w') \<Longrightarrow> length copies' = Suc (length copies)"
  by (auto simp: add_copy_def bind_def split: prod.splits sum.splits)

function add_until ::
  "('e, 'w) copy_runtime \<Rightarrow> ('e, 'w) route_sink \<Rightarrow> nat \<Rightarrow> live_copy list \<Rightarrow> ('e, 'w, live_copy list) rolling" where
  "add_until runtime routes want copies w =
     (if length copies < want
      then (case add_copy runtime routes copies w of
              (Inl e, w') \<Rightarrow> (Inl e, w')
            | (Inr copies', w') \<Rightarrow> add_until runtime routes want copies' w')
      else (Inr copies, w))"
  by pat_completeness auto
termination
  by (relation "measure (\<lambda>(runtime, routes, want, copies, w). want - length copies)")
     (auto dest!: add_copy_grows [OF sym])

declare add_until.simps [simp del]

text \<open>The loops over the copies to drain.\<close>

fun drain_all ::
  "('e, 'w) copy_runtime \<Rightarrow> ('e, 'w) route_sink \<Rightarrow> live_copy list \<Rightarrow> live_copy list \<Rightarrow> ('e, 'w, live_copy list) rolling" where
  "drain_all runtime routes copies [] w = (Inr copies, w)"
| "drain_all runtime routes copies (old # rest) w =
     bind (drain_copy runtime routes copies old) (\<lambda>copies. drain_all runtime routes copies rest) w"

definition sort_copies :: "live_copy list \<Rightarrow> live_copy list" where
  "sort_copies = sort_key (\<lambda>c. unat (copy_get (lc_copy c)))"

text \<open>\<open>sort_by_key(Reverse(..))\<close> is stable, like the sort by the negated key.\<close>

definition sort_copies_desc :: "live_copy list \<Rightarrow> live_copy list" where
  "sort_copies_desc = sort_key (\<lambda>c. - uint (copy_get (lc_copy c)))"

text \<open>The body of \<open>scale_to\<close> with the copies it ends with.\<close>

definition scale_copies ::
  "('e, 'w) copy_runtime \<Rightarrow> ('e, 'w) route_sink \<Rightarrow> u32 \<Rightarrow> ('e, 'w, live_copy list) rolling" where
  "scale_copies runtime routes want =
     (if want = 0 then (\<lambda>w. (Inl ZeroCopies, w))
      else
        bind (lift_call RouterRefused (rs_check routes)) (\<lambda>_.
        bind (lift_call ListFailed (cr_live runtime)) (\<lambda>copies.
        bind (add_until runtime routes (unat want) copies) (\<lambda>copies.
        let copies = sort_copies_desc copies;
            surplus = length copies - unat want
        in drain_all runtime routes copies (take surplus copies)))))"

definition scale_to :: "('e, 'w) copy_runtime \<Rightarrow> ('e, 'w) route_sink \<Rightarrow> u32 \<Rightarrow> ('e, 'w, unit) rolling" where
  "scale_to runtime routes want = bind (scale_copies runtime routes want) (\<lambda>_ w. (Inr (), w))"

section \<open>replace.rs\<close>

definition replace_one ::
  "('e, 'w) copy_runtime \<Rightarrow> ('e, 'w) route_sink \<Rightarrow> replace_order_kind \<Rightarrow> live_copy list \<Rightarrow> live_copy
     \<Rightarrow> ('e, 'w, live_copy list) rolling" where
  "replace_one runtime routes order copies old =
     (case order of
        Overlap \<Rightarrow> bind (add_copy runtime routes copies) (\<lambda>copies. drain_copy runtime routes copies old)
      | StopFirst \<Rightarrow>
          bind (drain_copy runtime routes copies old) (\<lambda>copies w.
          case start_healthy runtime copies w of
            (Inl e, w) \<Rightarrow> (Inl (ReplacementFailed (lc_copy old) (length copies) e), w)
          | (Inr fresh, w) \<Rightarrow>
              bind (publish_added routes (copies @ [fresh]) (lc_copy fresh)) (\<lambda>_ w.
              (Inr (copies @ [fresh]), w)) w))"

fun replace_each ::
  "('e, 'w) copy_runtime \<Rightarrow> ('e, 'w) route_sink \<Rightarrow> replace_order_kind \<Rightarrow> live_copy list \<Rightarrow> live_copy list
     \<Rightarrow> ('e, 'w, live_copy list) rolling" where
  "replace_each runtime routes order copies [] w = (Inr copies, w)"
| "replace_each runtime routes order copies (old # rest) w =
     bind (replace_one runtime routes order copies old)
       (\<lambda>copies. replace_each runtime routes order copies rest) w"

text \<open>The body of \<open>replace_all\<close> with the copies it ends with.\<close>

definition replace_copies ::
  "('e, 'w) copy_runtime \<Rightarrow> ('e, 'w) route_sink \<Rightarrow> replace_order_kind \<Rightarrow> u32 \<Rightarrow> ('e, 'w, live_copy list) rolling" where
  "replace_copies runtime routes order want =
     (if want = 0 then (\<lambda>w. (Inl ZeroCopies, w))
      else
        bind (lift_call RouterRefused (rs_check routes)) (\<lambda>_.
        bind (lift_call ListFailed (cr_live runtime)) (\<lambda>live.
        let old = sort_copies live;
            keep = min (unat want) (length old)
        in bind (drain_all runtime routes old (rev (drop keep old))) (\<lambda>copies.
           bind (replace_each runtime routes order copies (take keep old)) (\<lambda>copies.
           add_until runtime routes (unat want) copies)))))"

definition replace_all ::
  "('e, 'w) copy_runtime \<Rightarrow> ('e, 'w) route_sink \<Rightarrow> replace_order_kind \<Rightarrow> u32 \<Rightarrow> ('e, 'w, unit) rolling" where
  "replace_all runtime routes order want =
     bind (replace_copies runtime routes order want) (\<lambda>_ w. (Inr (), w))"

end
