(* ===== verification/Rolling_Safety.thy ===== *)
theory Rolling_Safety
  imports Rolling
begin

text \<open>
  What a rollout promises, as an abstract machine over the calls it makes, and the proof that the
  algorithms of \<open>Rolling\<close> keep to it for every runtime that starts the copy it is asked for.

  A logged runtime and a logged sink record their calls.  The machine \<open>run\<close> replays such a record on
  the copies that are ready for traffic, the backends the router last confirmed and the copy being
  started, and stops at the first call that breaks a rule:
  \<^item> a copy is started only while fewer than \<open>hi\<close> are ready, under a number no ready copy has;
  \<^item> a published list is not empty and holds only backends of ready copies;
  \<^item> a copy is stopped only when more than \<open>lo\<close> are ready, and after the router confirmed exactly the
    backends of the others (or when the others have none);
  \<^item> only a copy that did not become healthy is discarded.
\<close>

section \<open>Recorded calls\<close>

datatype event =
    Started live_copy
  | BecameHealthy live_copy
  | NotHealthy live_copy
  | Discarded live_copy
  | Published "backend list" bool
  | Stopped live_copy bool

type_synonym 'w logged = "'w \<times> event list"

definition log_call :: "('e, 'w, 'a) call \<Rightarrow> (('e, 'a) result \<Rightarrow> event list) \<Rightarrow> ('e, 'w logged, 'a) call" where
  "log_call f ev wt = (case f (fst wt) of (r, w') \<Rightarrow> (r, (w', snd wt @ ev r)))"

definition log_runtime :: "('e, 'w) copy_runtime \<Rightarrow> ('e, 'w logged) copy_runtime" where
  "log_runtime rt = \<lparr>
     cr_live = log_call (cr_live rt) (\<lambda>_. []),
     cr_start = (\<lambda>i. log_call (cr_start rt i) (\<lambda>r. case r of Inr c \<Rightarrow> [Started c] | Inl _ \<Rightarrow> [])),
     cr_wait_healthy = (\<lambda>c. log_call (cr_wait_healthy rt c)
       (\<lambda>r. if is_ok r then [BecameHealthy c] else [NotHealthy c])),
     cr_stop = (\<lambda>c. log_call (cr_stop rt c) (\<lambda>r. [Stopped c (is_ok r)])),
     cr_discard = (\<lambda>c wt. (cr_discard rt c (fst wt), snd wt @ [Discarded c]))\<rparr>"

definition log_routes :: "('e, 'w) route_sink \<Rightarrow> ('e, 'w logged) route_sink" where
  "log_routes rs = \<lparr>
     rs_publish = (\<lambda>bs. log_call (rs_publish rs bs) (\<lambda>r. [Published bs (is_ok r)])),
     rs_check = log_call (rs_check rs) (\<lambda>_. [])\<rparr>"

section \<open>The abstract machine\<close>

record fleet =
  fl_ready :: "live_copy list"
  fl_routed :: "backend list option"
  fl_pending :: "live_copy option"

definition others :: "live_copy \<Rightarrow> live_copy list \<Rightarrow> live_copy list" where
  "others c copies = filter (\<lambda>d. lc_copy d \<noteq> lc_copy c) copies"

definition same_backends :: "backend list option \<Rightarrow> live_copy list \<Rightarrow> bool" where
  "same_backends routed copies =
     (case routed of None \<Rightarrow> False | Some bs \<Rightarrow> mset bs = mset (backends_of copies))"

fun allowed :: "nat \<Rightarrow> nat \<Rightarrow> fleet \<Rightarrow> event \<Rightarrow> bool" where
  "allowed lo hi s (Started c) \<longleftrightarrow>
     fl_pending s = None \<and> length (fl_ready s) < hi \<and> lc_copy c \<notin> lc_copy ` set (fl_ready s)"
| "allowed lo hi s (BecameHealthy c) \<longleftrightarrow> fl_pending s = Some c"
| "allowed lo hi s (NotHealthy c) \<longleftrightarrow> fl_pending s = Some c"
| "allowed lo hi s (Discarded c) \<longleftrightarrow> fl_pending s = Some c"
| "allowed lo hi s (Published bs ok) \<longleftrightarrow>
     fl_pending s = None \<and> bs \<noteq> [] \<and> set bs \<subseteq> set (backends_of (fl_ready s))"
| "allowed lo hi s (Stopped c ok) \<longleftrightarrow>
     fl_pending s = None \<and> c \<in> set (fl_ready s) \<and> lo \<le> length (others c (fl_ready s))
     \<and> (backends_of (others c (fl_ready s)) = [] \<or> same_backends (fl_routed s) (others c (fl_ready s)))"

fun after :: "fleet \<Rightarrow> event \<Rightarrow> fleet" where
  "after s (Started c) = s\<lparr>fl_pending := Some c\<rparr>"
| "after s (BecameHealthy c) = s\<lparr>fl_ready := fl_ready s @ [c], fl_pending := None\<rparr>"
| "after s (NotHealthy c) = s"
| "after s (Discarded c) = s\<lparr>fl_pending := None\<rparr>"
| "after s (Published bs ok) = s\<lparr>fl_routed := (if ok then Some bs else None)\<rparr>"
| "after s (Stopped c ok) = s\<lparr>fl_ready := others c (fl_ready s)\<rparr>"

fun run :: "nat \<Rightarrow> nat \<Rightarrow> fleet \<Rightarrow> event list \<Rightarrow> fleet option" where
  "run lo hi s [] = Some s"
| "run lo hi s (e # es) = (if allowed lo hi s e then run lo hi (after s e) es else None)"

definition fleet_of :: "live_copy list \<Rightarrow> fleet" where
  "fleet_of live = \<lparr>fl_ready = live, fl_routed = None, fl_pending = None\<rparr>"

lemma run_append: "run lo hi s (t @ u) = (case run lo hi s t of None \<Rightarrow> None | Some s' \<Rightarrow> run lo hi s' u)"
  by (induction t arbitrary: s) auto

section \<open>Facts on copies\<close>

lemma backends_of_simps [simp]:
  "backends_of [] = []"
  "backends_of (xs @ ys) = backends_of xs @ backends_of ys"
  "backends_of [c] = (case lc_backend c of None \<Rightarrow> [] | Some b \<Rightarrow> [b])"
  by (simp_all add: backends_of_def List.map_filter_def split: option.splits)

lemma backends_of_mset:
  "mset xs = mset ys \<Longrightarrow> mset (backends_of xs) = mset (backends_of ys)"
  by (simp add: backends_of_def List.map_filter_def)

lemma backends_of_empty: "mset xs = mset ys \<Longrightarrow> backends_of xs = [] \<longleftrightarrow> backends_of ys = []"
  by (metis backends_of_mset mset_zero_iff)

lemma backends_of_others: "set (backends_of (others c xs)) \<subseteq> set (backends_of xs)"
  by (auto simp: backends_of_def List.map_filter_def others_def)

lemma others_mset: "mset xs = mset ys \<Longrightarrow> mset (others c xs) = mset (others c ys)"
  by (simp add: others_def)

lemma others_distinct: "distinct (map lc_copy xs) \<Longrightarrow> distinct (map lc_copy (others c xs))"
  by (simp add: others_def distinct_map_filter)

lemma others_length:
  assumes "distinct (map lc_copy xs)" and "c \<in> set xs"
  shows "Suc (length (others c xs)) = length xs"
proof -
  have "filter (\<lambda>d. lc_copy d = lc_copy c) xs = [c]"
    using assms
  proof (induction xs)
    case (Cons x xs)
    then show ?case
      by (cases "x = c") (auto simp: filter_empty_conv image_iff)
  qed simp
  then show ?thesis
    using sum_length_filter_compl [of "\<lambda>d. lc_copy d = lc_copy c" xs] by (simp add: others_def)
qed

lemma free_from_free: "free_from used n \<notin> set used \<and> n \<le> free_from used n \<and> {n..<free_from used n} \<subseteq> set used"
proof (induction used n rule: free_from.induct)
  case (1 used n)
  show ?case
  proof (cases "n \<in> set used")
    case True
    have "{n..<free_from used (n + 1)} \<subseteq> insert n {n + 1..<free_from used (n + 1)}" by auto
    then show ?thesis using 1 [OF True] True by (subst (1 2 3) free_from.simps) auto
  next
    case False
    then show ?thesis by (subst (1 2 3) free_from.simps) simp
  qed
qed

lemma free_from_bound: "free_from used 1 \<le> Suc (length used)"
proof -
  have "card {1..<free_from used 1} \<le> card (set used)"
    using free_from_free [of used 1] by (intro card_mono) auto
  then show ?thesis using card_length [of used] by simp
qed

lemma lowest_free_fresh:
  assumes "Suc (length copies) < 2 ^ 32"
  shows "lowest_free copies \<notin> lc_copy ` set copies"
proof
  assume "lowest_free copies \<in> lc_copy ` set copies"
  then obtain c where c: "c \<in> set copies" "lc_copy c = lowest_free copies" by auto
  let ?n = "free_from (copy_numbers copies) 1"
  have "?n \<le> Suc (length copies)" using free_from_bound [of "copy_numbers copies"] by (simp add: copy_numbers_def)
  then have "?n < 2 ^ 32" using assms by linarith
  then have "unat (copy_get (lc_copy c)) = ?n"
    by (simp add: c(2) lowest_free_def unat_of_nat)
  then have "?n \<in> set (copy_numbers copies)" using c(1) by (force simp: copy_numbers_def)
  then show False using free_from_free by blast
qed

section \<open>Keeping to the machine\<close>

text \<open>
  \<open>tracks\<close> relates the algorithm's list of copies to the replayed record: the machine is idle and its ready
  copies are the listed ones; each of them was listed at the start (and is still in \<open>R\<close>) or became
  healthy since.
\<close>

definition tracks :: "nat \<Rightarrow> nat \<Rightarrow> fleet \<Rightarrow> live_copy set \<Rightarrow> live_copy list \<Rightarrow> event list \<Rightarrow> bool" where
  "tracks lo hi s0 R copies t \<longleftrightarrow>
     (\<exists>s. run lo hi s0 t = Some s \<and> fl_pending s = None \<and> mset (fl_ready s) = mset copies)
     \<and> distinct (map lc_copy copies) \<and> (\<forall>c \<in> set copies. c \<in> R \<or> BecameHealthy c \<in> set t)"

text \<open>
  What a step of the algorithm achieves from record \<open>t\<close>: the record only grows, it is accepted
  whatever the outcome, and \<open>Q\<close> holds of a successful result.
\<close>

definition achieves ::
  "nat \<Rightarrow> nat \<Rightarrow> fleet \<Rightarrow> event list \<Rightarrow> ('e roll_error, 'a) result \<times> 'w logged \<Rightarrow> ('a \<Rightarrow> event list \<Rightarrow> bool) \<Rightarrow> bool" where
  "achieves lo hi s0 t out Q \<longleftrightarrow>
     (\<exists>u. snd (snd out) = t @ u) \<and> run lo hi s0 (snd (snd out)) \<noteq> None
     \<and> (\<forall>a. fst out = Inr a \<longrightarrow> Q a (snd (snd out)))"

lemma achieves_bind:
  assumes "achieves lo hi s0 t (m (w, t)) Q"
    and "\<And>a w' u. Q a (t @ u) \<Longrightarrow> achieves lo hi s0 (t @ u) (f a (w', t @ u)) R"
  shows "achieves lo hi s0 t (bind m f (w, t)) R"
proof -
  obtain r w' t' where out: "m (w, t) = (r, (w', t'))" by (cases "m (w, t)") auto
  obtain u where u: "t' = t @ u" using assms(1) by (auto simp: achieves_def out)
  show ?thesis
  proof (cases r)
    case (Inl e)
    then show ?thesis using assms(1) by (auto simp: achieves_def bind_def out)
  next
    case (Inr a)
    then have "Q a (t @ u)" using assms(1) by (simp add: achieves_def out u)
    from assms(2) [OF this, of w'] show ?thesis
      by (auto simp: achieves_def bind_def out Inr u)
  qed
qed

lemma achieves_weaken:
  assumes "achieves lo hi s0 t out Q" and "\<And>a u. Q a (t @ u) \<Longrightarrow> R a (t @ u)"
  shows "achieves lo hi s0 t out R"
  using assms by (fastforce simp: achieves_def)

lemma achieves_return: "run lo hi s0 t \<noteq> None \<Longrightarrow> Q a t \<Longrightarrow> achieves lo hi s0 t (Inr a, (w, t)) Q"
  by (simp add: achieves_def)

lemma tracks_accepted: "tracks lo hi s0 R copies t \<Longrightarrow> run lo hi s0 t \<noteq> None"
  by (auto simp: tracks_def)

lemma tracks_length: "tracks lo hi s0 R copies t \<Longrightarrow> run lo hi s0 t = Some s \<Longrightarrow> length (fl_ready s) = length copies"
  by (auto simp: tracks_def dest: mset_eq_length)

lemma publish_achieves:
  assumes "run lo hi s0 t = Some s" "fl_pending s = None" "set (backends_of copies) \<subseteq> set (backends_of (fl_ready s))"
  shows "achieves lo hi s0 t (lift_call err (publish_live (log_routes rs) copies) (w, t))
    (\<lambda>_ t'. \<exists>s'. run lo hi s0 t' = Some s' \<and> fl_pending s' = None \<and> fl_ready s' = fl_ready s
       \<and> (\<forall>x. x \<in> set t \<longrightarrow> x \<in> set t')
       \<and> (backends_of copies = [] \<or> fl_routed s' = Some (backends_of copies)))"
  using assms
  by (cases "rs_publish rs (backends_of copies) w")
     (auto simp: achieves_def lift_call_def publish_live_def log_routes_def log_call_def run_append Let_def
       is_ok_iff map_err_Inr split: sum.splits)

text \<open>Replacing one of \<open>n\<close> copies needs room above for an overlap, or below when the old copy goes first.\<close>

definition roll_room :: "nat \<Rightarrow> nat \<Rightarrow> replace_order_kind \<Rightarrow> nat \<Rightarrow> bool" where
  "roll_room lo hi order n \<longleftrightarrow> Suc n < 2 ^ 32 \<and>
     (case order of Overlap \<Rightarrow> lo \<le> n \<and> n < hi | StopFirst \<Rightarrow> lo < n \<and> n \<le> hi)"

text \<open>
  The bounds a whole rollout keeps: the surplus goes first, down to the copies that have a successor; each of
  those is replaced, and the missing ones are added last.
\<close>

definition roll_floor :: "replace_order_kind \<Rightarrow> nat \<Rightarrow> nat \<Rightarrow> nat" where
  "roll_floor order want live = (case order of Overlap \<Rightarrow> min want live | StopFirst \<Rightarrow> min want live - 1)"

definition roll_ceiling :: "replace_order_kind \<Rightarrow> nat \<Rightarrow> nat \<Rightarrow> nat" where
  "roll_ceiling order want live = (case order of Overlap \<Rightarrow> max want (Suc (min want live)) | StopFirst \<Rightarrow> want)"

lemma roll_floor_le: "roll_floor order want live \<le> min want live"
  by (cases order) (simp_all add: roll_floor_def del: min.bounded_iff)

lemma roll_ceiling_ge: "want \<le> roll_ceiling order want live"
  by (cases order) (simp_all add: roll_ceiling_def)

lemma roll_room_keep:
  assumes "0 < want" "Suc live < 2 ^ 32"
  shows "min want live = 0 \<or> roll_room (roll_floor order want live) (roll_ceiling order want live) order (min want live)"
proof -
  have "Suc (min want live) < 2 ^ 32" using assms(2) min.cobounded2 [of want live] by linarith
  then show ?thesis
    by (cases order; cases "min want live") (simp_all add: roll_floor_def roll_ceiling_def roll_room_def)
qed

lemma filter_dropped_suffix:
  assumes "distinct (map f xs)"
  shows "filter (\<lambda>x. f x \<notin> f ` set (take n xs)) xs = drop n xs"
proof -
  have "distinct (map f (take n xs) @ map f (drop n xs))" using assms by (simp flip: map_append)
  then have "filter (\<lambda>x. f x \<notin> f ` set (take n xs)) (take n xs @ drop n xs) = drop n xs"
    by (subst filter_append) (auto simp: filter_id_conv filter_empty_conv)
  then show ?thesis by simp
qed

lemma sort_copies_desc_split:
  assumes "c \<in> set (take n (sort_copies_desc copies))" "k \<in> set (drop n (sort_copies_desc copies))"
  shows "copy_get (lc_copy k) \<le> copy_get (lc_copy c)"
proof -
  let ?f = "\<lambda>c. - uint (copy_get (lc_copy c))"
  let ?cs = "sort_copies_desc copies"
  have "sorted (map ?f ?cs)" by (simp add: sort_copies_desc_def)
  then have "sorted (map ?f (take n ?cs) @ map ?f (drop n ?cs))" by (simp flip: map_append)
  then have "?f c \<le> ?f k" using assms by (auto simp: sorted_append)
  then show ?thesis by (simp add: word_le_def)
qed

lemma tracks_mset: "tracks lo hi s0 R copies t \<Longrightarrow> mset copies' = mset copies \<Longrightarrow> tracks lo hi s0 R copies' t"
  unfolding tracks_def by (metis mset_eq_imp_distinct_iff mset_eq_setD mset_map)

lemma filter_kept_prefix:
  assumes "distinct (map f xs)"
  shows "set (take n xs) \<subseteq> set (filter (\<lambda>x. f x \<notin> f ` set (rev (drop n xs))) xs)"
proof -
  have "distinct (map f (take n xs) @ map f (drop n xs))" using assms by (simp flip: map_append)
  then show ?thesis by (fastforce dest: in_set_takeD)
qed

lemma tracks_start: "distinct (map lc_copy live) \<Longrightarrow> mset copies = mset live \<Longrightarrow>
    tracks lo hi (fleet_of live) (set live) copies []"
  by (auto simp: tracks_def fleet_of_def dest: mset_eq_setD) (metis mset_map mset_eq_imp_distinct_iff)

locale copy_runtime_law =
  fixes runtime :: "('e, 'w) copy_runtime"
    and routes :: "('e, 'w) route_sink"
  assumes start_index: "cr_start runtime i w = (Inr c, w') \<Longrightarrow> lc_copy c = i"
begin

lemma start_healthy_achieves:
  assumes t: "tracks lo hi s0 R copies t" and room: "length copies < hi" "Suc (length copies) < 2 ^ 32"
  shows "achieves lo hi s0 t (start_healthy (log_runtime runtime) copies (w, t))
    (\<lambda>fresh t'. tracks lo hi s0 R (copies @ [fresh]) t')"
proof -
  let ?i = "lowest_free copies"
  obtain s where s: "run lo hi s0 t = Some s" "fl_pending s = None" "mset (fl_ready s) = mset copies"
    and d: "distinct (map lc_copy copies)"
    and origin: "\<forall>c \<in> set copies. c \<in> R \<or> BecameHealthy c \<in> set t"
    using t by (auto simp: tracks_def)
  have ready: "set (fl_ready s) = set copies" "length (fl_ready s) = length copies"
    using s(3) by (auto dest: mset_eq_setD mset_eq_length)
  obtain r w1 where start: "cr_start runtime ?i w = (r, w1)" by (cases "cr_start runtime ?i w")
  show ?thesis
  proof (cases r)
    case (Inl e)
    then show ?thesis
      using s(1) start
      by (simp add: achieves_def start_healthy_def Let_def bind_def lift_call_def log_runtime_def log_call_def)
  next
    case (Inr fresh)
    have i: "lc_copy fresh = ?i" using start_index start Inr by blast
    then have new: "lc_copy fresh \<notin> lc_copy ` set copies" using lowest_free_fresh [OF room(2)] by simp
    obtain h w2 where wait: "cr_wait_healthy runtime fresh w1 = (h, w2)"
      by (cases "cr_wait_healthy runtime fresh w1")
    have started: "allowed lo hi s (Started fresh)" using s(2) room(1) new ready by simp
    show ?thesis
    proof (cases h)
      case (Inl e)
      then show ?thesis
        using s(1) start wait Inr started
        by (simp add: achieves_def start_healthy_def Let_def bind_def lift_call_def log_runtime_def log_call_def
            run_append)
    next
      case (Inr u)
      let ?s = "s\<lparr>fl_pending := None, fl_ready := fl_ready s @ [fresh]\<rparr>"
      have "tracks lo hi s0 R (copies @ [fresh]) (t @ [Started fresh, BecameHealthy fresh])"
        using s started d new origin by (auto simp: tracks_def run_append)
      then show ?thesis
        using s(1) start wait \<open>r = Inr fresh\<close> Inr started
        by (simp add: achieves_def start_healthy_def Let_def bind_def lift_call_def log_runtime_def log_call_def
            run_append)
    qed
  qed
qed

lemma publish_added_achieves:
  assumes "tracks lo hi s0 R copies t"
  shows "achieves lo hi s0 t (bind (publish_added (log_routes routes) copies i) (\<lambda>_ w. (Inr copies, w)) (w, t))
    (\<lambda>copies' t'. copies' = copies \<and> tracks lo hi s0 R copies t')"
proof -
  obtain s where s: "run lo hi s0 t = Some s" "fl_pending s = None" "mset (fl_ready s) = mset copies"
    using assms by (auto simp: tracks_def)
  have sub: "set (backends_of copies) \<subseteq> set (backends_of (fl_ready s))"
    using backends_of_mset [OF s(3)] by (metis mset_eq_setD order_refl)
  show ?thesis
    unfolding publish_added_def
    by (rule achieves_bind, rule publish_achieves [OF s(1,2) sub])
       (use assms s(3) in \<open>auto simp: tracks_def intro!: achieves_return\<close>)
qed

lemma add_copy_achieves:
  assumes "tracks lo hi s0 R copies t" "length copies < hi" "Suc (length copies) < 2 ^ 32"
  shows "achieves lo hi s0 t (add_copy (log_runtime runtime) (log_routes routes) copies (w, t))
    (\<lambda>copies' t'. tracks lo hi s0 R copies' t' \<and> (\<exists>fresh. copies' = copies @ [fresh]))"
  unfolding add_copy_def
  by (rule achieves_bind, rule start_healthy_achieves [OF assms],
      rule achieves_weaken [OF publish_added_achieves]) auto

lemma drain_copy_achieves:
  assumes t: "tracks lo hi s0 R copies t" and old: "old \<in> set copies" and low: "lo < length copies"
  shows "achieves lo hi s0 t (drain_copy (log_runtime runtime) (log_routes routes) copies old (w, t))
    (\<lambda>copies' t'. copies' = others old copies \<and> tracks lo hi s0 (R - {old}) copies' t'
       \<and> Stopped old True \<in> set t')"
proof -
  obtain s where s: "run lo hi s0 t = Some s" "fl_pending s = None" "mset (fl_ready s) = mset copies"
    and d: "distinct (map lc_copy copies)"
    and origin: "\<forall>c \<in> set copies. c \<in> R \<or> BecameHealthy c \<in> set t"
    using t by (auto simp: tracks_def)
  let ?rest = "others old copies"
  have m: "mset (others old (fl_ready s)) = mset ?rest" using s(3) by (rule others_mset)
  have len: "lo \<le> length (others old (fl_ready s))"
    using others_length [OF d old] low m by (simp add: mset_eq_length [OF m])
  have sub: "set (backends_of ?rest) \<subseteq> set (backends_of (fl_ready s))"
    using backends_of_others [of old copies] backends_of_mset [OF s(3)] by (metis mset_eq_setD)
  have stop: "achieves lo hi s0 (t @ u)
      (bind (lift_call err (cr_stop (log_runtime runtime) old)) (\<lambda>_ w. (Inr ?rest, w)) (w', t @ u))
      (\<lambda>copies' t'. copies' = ?rest \<and> tracks lo hi s0 (R - {old}) copies' t' \<and> Stopped old True \<in> set t')"
    if pub: "\<exists>s'. run lo hi s0 (t @ u) = Some s' \<and> fl_pending s' = None \<and> fl_ready s' = fl_ready s
        \<and> (\<forall>x. x \<in> set t \<longrightarrow> x \<in> set (t @ u)) \<and> (backends_of ?rest = [] \<or> fl_routed s' = Some (backends_of ?rest))"
    for w' u err
  proof -
    obtain s' where s': "run lo hi s0 (t @ u) = Some s'" "fl_pending s' = None" "fl_ready s' = fl_ready s"
      "backends_of ?rest = [] \<or> fl_routed s' = Some (backends_of ?rest)" using pub by blast
    have ok: "allowed lo hi s' (Stopped old b)" for b
      using s' len old s(3) backends_of_mset [OF m] backends_of_empty [OF m] mset_eq_setD [OF s(3)]
      by (auto simp: same_backends_def)
    have keep: "\<forall>c \<in> set ?rest. c \<in> R - {old} \<or> BecameHealthy c \<in> set t"
      using origin by (fastforce simp: others_def)
    have "tracks lo hi s0 (R - {old}) ?rest (t @ u @ [Stopped old True])"
      unfolding tracks_def
      using s'(1,2,3) ok [of True] m others_distinct [OF d] keep by (auto simp: run_append simp flip: append_assoc)
    then show ?thesis
      using s'(1) ok
      by (cases "cr_stop runtime old w'")
         (auto simp: achieves_def bind_def lift_call_def log_runtime_def log_call_def run_append is_ok_def
           simp flip: append_assoc split: sum.splits)
  qed
  show ?thesis
    unfolding drain_copy_def Let_def others_def [symmetric]
    by (rule achieves_bind, rule publish_achieves [OF s(1,2) sub]) (rule stop)
qed

lemma drain_all_achieves:
  "tracks lo hi s0 R copies t \<Longrightarrow> set olds \<subseteq> set copies \<Longrightarrow> distinct (map lc_copy olds) \<Longrightarrow>
   lo + length olds \<le> length copies \<Longrightarrow>
   achieves lo hi s0 t (drain_all (log_runtime runtime) (log_routes routes) copies olds (w, t))
     (\<lambda>copies' t'. tracks lo hi s0 (R - set olds) copies' t' \<and> length copies' + length olds = length copies
        \<and> copies' = filter (\<lambda>c. lc_copy c \<notin> lc_copy ` set olds) copies
        \<and> (\<forall>c \<in> set olds. Stopped c True \<in> set t'))"
proof (induction olds arbitrary: R copies t w)
  case Nil
  then show ?case by (auto intro!: achieves_return dest: tracks_accepted)
next
  case (Cons old olds)
  have old: "old \<in> set copies" and low: "lo < length copies" using Cons.prems by auto
  have d: "distinct (map lc_copy copies)" using Cons.prems(1) by (simp add: tracks_def)
  have len: "Suc (length (others old copies)) = length copies" using others_length [OF d old] .
  have sub: "set olds \<subseteq> set (others old copies)"
  proof
    fix c assume "c \<in> set olds"
    then have "lc_copy c \<noteq> lc_copy old" using Cons.prems(3) by (auto simp: image_iff)
    then show "c \<in> set (others old copies)" using Cons.prems(2) \<open>c \<in> set olds\<close> by (auto simp: others_def)
  qed
  have R: "R - {old} - set olds = R - set (old # olds)" by auto
  show ?case
    unfolding drain_all.simps
  proof (rule achieves_bind, rule drain_copy_achieves [OF Cons.prems(1) old low])
    fix copies1 w1 u
    assume step: "copies1 = others old copies \<and> tracks lo hi s0 (R - {old}) copies1 (t @ u) \<and> Stopped old True \<in> set (t @ u)"
    then have ih: "achieves lo hi s0 (t @ u) (drain_all (log_runtime runtime) (log_routes routes) copies1 olds (w1, t @ u))
        (\<lambda>copies' t'. tracks lo hi s0 (R - {old} - set olds) copies' t' \<and> length copies' + length olds = length copies1
           \<and> copies' = filter (\<lambda>c. lc_copy c \<notin> lc_copy ` set olds) copies1
           \<and> (\<forall>c \<in> set olds. Stopped c True \<in> set t'))"
      using Cons.prems(3,4) sub len by (intro Cons.IH) auto
    show "achieves lo hi s0 (t @ u) (drain_all (log_runtime runtime) (log_routes routes) copies1 olds (w1, t @ u))
        (\<lambda>copies' t'. tracks lo hi s0 (R - set (old # olds)) copies' t' \<and> length copies' + length (old # olds) = length copies
           \<and> copies' = filter (\<lambda>c. lc_copy c \<notin> lc_copy ` set (old # olds)) copies
           \<and> (\<forall>c \<in> set (old # olds). Stopped c True \<in> set t'))"
    proof (rule achieves_weaken [OF ih])
      fix a v
      assume q: "tracks lo hi s0 (R - {old} - set olds) a ((t @ u) @ v) \<and> length a + length olds = length copies1
        \<and> a = filter (\<lambda>c. lc_copy c \<notin> lc_copy ` set olds) copies1 \<and> (\<forall>c \<in> set olds. Stopped c True \<in> set ((t @ u) @ v))"
      have "a = filter (\<lambda>c. lc_copy c \<notin> lc_copy ` set (old # olds)) copies"
        using q step by (simp add: others_def conj_commute)
      then show "tracks lo hi s0 (R - set (old # olds)) a ((t @ u) @ v) \<and> length a + length (old # olds) = length copies
        \<and> a = filter (\<lambda>c. lc_copy c \<notin> lc_copy ` set (old # olds)) copies
        \<and> (\<forall>c \<in> set (old # olds). Stopped c True \<in> set ((t @ u) @ v))"
        using q step len unfolding R by (elim conjE, intro conjI) auto
    qed
  qed
qed

lemma start_first_achieves:
  assumes "tracks lo hi s0 R copies t" "length copies < hi" "Suc (length copies) < 2 ^ 32"
  shows "achieves lo hi s0 t
    (case start_healthy (log_runtime runtime) copies (w, t) of
       (Inl e, w') \<Rightarrow> (Inl (err e), w')
     | (Inr fresh, w') \<Rightarrow>
         bind (publish_added (log_routes routes) (copies @ [fresh]) (lc_copy fresh)) (\<lambda>_ w. (Inr (copies @ [fresh]), w)) w')
    (\<lambda>copies' t'. tracks lo hi s0 R copies' t' \<and> (\<exists>fresh. copies' = copies @ [fresh]))"
proof -
  have eq: "(case start_healthy (log_runtime runtime) copies (w, t) of
       (Inl e, w') \<Rightarrow> (Inl (err e), w')
     | (Inr fresh, w') \<Rightarrow>
         bind (publish_added (log_routes routes) (copies @ [fresh]) (lc_copy fresh)) (\<lambda>_ w. (Inr (copies @ [fresh]), w)) w')
    = bind (\<lambda>w. apfst (map_err err) (start_healthy (log_runtime runtime) copies w)) (\<lambda>fresh.
        bind (publish_added (log_routes routes) (copies @ [fresh]) (lc_copy fresh)) (\<lambda>_ w. (Inr (copies @ [fresh]), w))) (w, t)"
    by (cases "start_healthy (log_runtime runtime) copies (w, t)") (auto simp: bind_def split: sum.splits)
  have start: "achieves lo hi s0 t (apfst (map_err err) (start_healthy (log_runtime runtime) copies (w, t)))
      (\<lambda>fresh t'. tracks lo hi s0 R (copies @ [fresh]) t')"
    using start_healthy_achieves [OF assms, of w] by (auto simp: achieves_def map_err_Inr)
  show ?thesis
    unfolding eq
    by (rule achieves_bind, rule start, rule achieves_weaken [OF publish_added_achieves]) auto
qed

lemma replace_one_achieves:
  assumes t: "tracks lo hi s0 R copies t" and old: "old \<in> set copies" and room: "roll_room lo hi order (length copies)"
  shows "achieves lo hi s0 t (replace_one (log_runtime runtime) (log_routes routes) order copies old (w, t))
    (\<lambda>copies' t'. tracks lo hi s0 (R - {old}) copies' t' \<and> length copies' = length copies
       \<and> set (others old copies) \<subseteq> set copies' \<and> Stopped old True \<in> set t')"
proof -
  have d: "distinct (map lc_copy copies)" using t by (simp add: tracks_def)
  have len: "Suc (length (others old copies)) = length copies" using others_length [OF d old] .
  show ?thesis
  proof (cases order)
    case Overlap
    then have b: "lo \<le> length copies" "length copies < hi" "Suc (length copies) < 2 ^ 32"
      using room by (auto simp: roll_room_def)
    show ?thesis
      unfolding replace_one_def Overlap replace_order_kind.case
    proof (rule achieves_bind, rule add_copy_achieves [OF t b(2,3)])
      fix copies1 w1 u
      assume step: "tracks lo hi s0 R copies1 (t @ u) \<and> (\<exists>fresh. copies1 = copies @ [fresh])"
      then have in1: "old \<in> set copies1" "lo < length copies1" "distinct (map lc_copy copies1)"
        using old b(1) by (auto simp: tracks_def)
      then have "Suc (length (others old copies1)) = length copies1" by (intro others_length)
      then show "achieves lo hi s0 (t @ u) (drain_copy (log_runtime runtime) (log_routes routes) copies1 old (w1, t @ u))
          (\<lambda>copies' t'. tracks lo hi s0 (R - {old}) copies' t' \<and> length copies' = length copies
             \<and> set (others old copies) \<subseteq> set copies' \<and> Stopped old True \<in> set t')"
        using step by (intro achieves_weaken [OF drain_copy_achieves [of lo hi s0 R copies1 "t @ u" old w1]])
          (auto simp: in1 others_def)
    qed
  next
    case StopFirst
    then have b: "lo < length copies" "length copies \<le> hi" "Suc (length copies) < 2 ^ 32"
      using room by (auto simp: roll_room_def)
    show ?thesis
      unfolding replace_one_def StopFirst replace_order_kind.case
    proof (rule achieves_bind, rule drain_copy_achieves [OF t old b(1)])
      fix copies1 w1 u
      assume step: "copies1 = others old copies \<and> tracks lo hi s0 (R - {old}) copies1 (t @ u) \<and> Stopped old True \<in> set (t @ u)"
      then have b1: "tracks lo hi s0 (R - {old}) copies1 (t @ u)" "length copies1 < hi" "Suc (length copies1) < 2 ^ 32"
        using b len by auto
      show "achieves lo hi s0 (t @ u)
          (case start_healthy (log_runtime runtime) copies1 (w1, t @ u) of
             (Inl e, w') \<Rightarrow> (Inl (ReplacementFailed (lc_copy old) (length copies1) e), w')
           | (Inr fresh, w') \<Rightarrow>
               bind (publish_added (log_routes routes) (copies1 @ [fresh]) (lc_copy fresh)) (\<lambda>_ w. (Inr (copies1 @ [fresh]), w)) w')
          (\<lambda>copies' t'. tracks lo hi s0 (R - {old}) copies' t' \<and> length copies' = length copies
             \<and> set (others old copies) \<subseteq> set copies' \<and> Stopped old True \<in> set t')"
        by (rule achieves_weaken [OF start_first_achieves [OF b1]]) (use step len in auto)
    qed
  qed
qed

lemma replace_each_achieves:
  "tracks lo hi s0 R copies t \<Longrightarrow> set olds \<subseteq> set copies \<Longrightarrow> distinct (map lc_copy olds) \<Longrightarrow>
   olds = [] \<or> roll_room lo hi order (length copies) \<Longrightarrow>
   achieves lo hi s0 t (replace_each (log_runtime runtime) (log_routes routes) order copies olds (w, t))
     (\<lambda>copies' t'. tracks lo hi s0 (R - set olds) copies' t' \<and> length copies' = length copies
        \<and> (\<forall>c \<in> set olds. Stopped c True \<in> set t'))"
proof (induction olds arbitrary: R copies t w)
  case Nil
  then show ?case by (auto intro!: achieves_return dest: tracks_accepted)
next
  case (Cons old olds)
  have old: "old \<in> set copies" and room: "roll_room lo hi order (length copies)" using Cons.prems by auto
  have sub: "set olds \<subseteq> set (others old copies)"
  proof
    fix c assume "c \<in> set olds"
    then have "lc_copy c \<noteq> lc_copy old" using Cons.prems(3) by (auto simp: image_iff)
    then show "c \<in> set (others old copies)" using Cons.prems(2) \<open>c \<in> set olds\<close> by (auto simp: others_def)
  qed
  have R: "R - {old} - set olds = R - set (old # olds)" by auto
  show ?case
    unfolding replace_each.simps
  proof (rule achieves_bind, rule replace_one_achieves [OF Cons.prems(1) old room])
    fix copies1 w1 u
    assume step: "tracks lo hi s0 (R - {old}) copies1 (t @ u) \<and> length copies1 = length copies
      \<and> set (others old copies) \<subseteq> set copies1 \<and> Stopped old True \<in> set (t @ u)"
    then have ih: "achieves lo hi s0 (t @ u) (replace_each (log_runtime runtime) (log_routes routes) order copies1 olds (w1, t @ u))
        (\<lambda>copies' t'. tracks lo hi s0 (R - {old} - set olds) copies' t' \<and> length copies' = length copies1
           \<and> (\<forall>c \<in> set olds. Stopped c True \<in> set t'))"
      using Cons.prems(3) sub room by (intro Cons.IH) auto
    show "achieves lo hi s0 (t @ u) (replace_each (log_runtime runtime) (log_routes routes) order copies1 olds (w1, t @ u))
        (\<lambda>copies' t'. tracks lo hi s0 (R - set (old # olds)) copies' t' \<and> length copies' = length copies
           \<and> (\<forall>c \<in> set (old # olds). Stopped c True \<in> set t'))"
      by (rule achieves_weaken [OF ih]) (use step in \<open>auto simp: R\<close>)
  qed
qed

lemma add_until_achieves:
  assumes "tracks lo hi s0 R copies t" "want \<le> hi" "want < 2 ^ 32"
  shows "achieves lo hi s0 t (add_until (log_runtime runtime) (log_routes routes) want copies (w, t))
    (\<lambda>copies' t'. tracks lo hi s0 R copies' t' \<and> length copies' = max want (length copies) \<and> set copies \<subseteq> set copies'
      \<and> (want \<le> length copies \<longrightarrow> copies' = copies))"
  using assms(1)
proof (induction "want - length copies" arbitrary: copies t w)
  case 0
  then show ?case
    by (subst add_until.simps) (auto intro!: achieves_return dest: tracks_accepted)
next
  case (Suc n)
  then have b: "length copies < want" "length copies < hi" "Suc (length copies) < 2 ^ 32"
    using assms(2,3) by auto
  have eq: "add_until (log_runtime runtime) (log_routes routes) want copies (w, t)
      = bind (add_copy (log_runtime runtime) (log_routes routes) copies)
          (add_until (log_runtime runtime) (log_routes routes) want) (w, t)"
    using b(1) by (subst add_until.simps) (simp add: bind_def)
  show ?case
    unfolding eq
  proof (rule achieves_bind, rule add_copy_achieves [OF Suc.prems b(2,3)])
    fix copies1 w1 u
    assume step: "tracks lo hi s0 R copies1 (t @ u) \<and> (\<exists>fresh. copies1 = copies @ [fresh])"
    then have m: "n = want - length copies1" and one: "tracks lo hi s0 R copies1 (t @ u)" using Suc.hyps(2) by auto
    show "achieves lo hi s0 (t @ u) (add_until (log_runtime runtime) (log_routes routes) want copies1 (w1, t @ u))
        (\<lambda>copies' t'. tracks lo hi s0 R copies' t' \<and> length copies' = max want (length copies) \<and> set copies \<subseteq> set copies'
      \<and> (want \<le> length copies \<longrightarrow> copies' = copies))"
      by (rule achieves_weaken [OF Suc.hyps(1) [OF m one]]) (use step b(1) in auto)
  qed
qed

lemma check_and_list:
  assumes live: "cr_live runtime (snd (rs_check routes w)) = (Inr live, w1)"
    and body: "\<And>w'. achieves lo hi s0 [] (body live (w', [])) Q"
  shows "achieves lo hi s0 []
    (bind (lift_call RouterRefused (rs_check (log_routes routes))) (\<lambda>_.
     bind (lift_call ListFailed (cr_live (log_runtime runtime))) body) (w, [])) Q"
proof (cases "rs_check routes w")
  case (Pair r w2)
  then show ?thesis
    using live body [of w1]
    by (cases r) (auto simp: achieves_def bind_def lift_call_def log_routes_def log_runtime_def log_call_def)
qed

lemma replace_copies_achieves:
  assumes live: "cr_live runtime (snd (rs_check routes w)) = (Inr live, w1)"
    and d: "distinct (map lc_copy live)" and small: "Suc (length live) < 2 ^ 32"
  shows "achieves (roll_floor order (unat want) (length live)) (roll_ceiling order (unat want) (length live))
    (fleet_of live) [] (replace_copies (log_runtime runtime) (log_routes routes) order want (w, []))
    (\<lambda>copies t. length copies = unat want \<and> (\<forall>c \<in> set live. Stopped c True \<in> set t)
       \<and> tracks (roll_floor order (unat want) (length live)) (roll_ceiling order (unat want) (length live))
           (fleet_of live) {} copies t)"
    (is "achieves ?lo ?hi ?s0 [] _ ?Q")
proof (cases "want = 0")
  case True
  then show ?thesis by (simp add: achieves_def replace_copies_def)
next
  case False
  then have pos: "0 < unat want" by (simp add: unat_gt_0)
  let ?old = "sort_copies live"
  let ?keep = "min (unat want) (length ?old)"
  have m: "mset ?old = mset live" and len: "length ?old = length live" by (simp_all add: sort_copies_def)
  have set_old: "set ?old = set live" by (simp add: sort_copies_def)
  have dold: "distinct (map lc_copy ?old)" using d m by (metis mset_map mset_eq_imp_distinct_iff)
  have bounds: "?lo \<le> ?keep" "?keep = 0 \<or> roll_room ?lo ?hi order ?keep" "unat want \<le> ?hi"
    using roll_floor_le roll_room_keep [OF pos small] roll_ceiling_ge by (simp_all add: len)
  have want: "unat want < 2 ^ 32" using unsigned_less [of want, where ?'a = nat] by simp
  show ?thesis
    unfolding replace_copies_def if_not_P [OF False]
  proof (rule check_and_list [OF live])
    fix w'
    show "achieves ?lo ?hi ?s0 []
        ((let old = sort_copies live; keep = min (unat want) (length old)
          in bind (drain_all (log_runtime runtime) (log_routes routes) old (rev (drop keep old))) (\<lambda>copies.
             bind (replace_each (log_runtime runtime) (log_routes routes) order copies (take keep old))
               (add_until (log_runtime runtime) (log_routes routes) (unat want)))) (w', []))
        ?Q"
      unfolding Let_def
    proof (rule achieves_bind, rule drain_all_achieves [where R = "set live"])
      fix copies1 w2 t1
      assume drained: "tracks ?lo ?hi ?s0 (set live - set (rev (drop ?keep ?old))) copies1 ([] @ t1)
        \<and> length copies1 + length (rev (drop ?keep ?old)) = length ?old
        \<and> copies1 = filter (\<lambda>c. lc_copy c \<notin> lc_copy ` set (rev (drop ?keep ?old))) ?old
        \<and> (\<forall>c \<in> set (rev (drop ?keep ?old)). Stopped c True \<in> set ([] @ t1))"
      then have t1: "tracks ?lo ?hi ?s0 (set live - set (rev (drop ?keep ?old))) copies1 ([] @ t1)"
        and len1: "length copies1 = ?keep" by auto
      have sub: "set (take ?keep ?old) \<subseteq> set copies1"
        using drained dold set_take_subset [of ?keep ?old]
        by (metis filter_kept_prefix)
      show "achieves ?lo ?hi ?s0 ([] @ t1)
          (bind (replace_each (log_runtime runtime) (log_routes routes) order copies1 (take ?keep ?old))
             (add_until (log_runtime runtime) (log_routes routes) (unat want)) (w2, [] @ t1)) ?Q"
      proof (rule achieves_bind, rule replace_each_achieves [OF t1 sub])
        fix copies2 w3 t2
        assume replaced: "tracks ?lo ?hi ?s0 (set live - set (rev (drop ?keep ?old)) - set (take ?keep ?old)) copies2 (([] @ t1) @ t2)
          \<and> length copies2 = length copies1 \<and> (\<forall>c \<in> set (take ?keep ?old). Stopped c True \<in> set (([] @ t1) @ t2))"
        have none: "set live - set (rev (drop ?keep ?old)) - set (take ?keep ?old) = {}"
          using set_old by (metis Diff_eq_empty_iff Diff_subset_conv Un_commute append_take_drop_id order_refl set_append set_rev)
        have t2: "tracks ?lo ?hi ?s0 {} copies2 (([] @ t1) @ t2)" using replaced unfolding none by blast
        have gone: "\<forall>c \<in> set live. Stopped c True \<in> set (([] @ t1) @ t2)"
          using drained replaced set_old by (metis Un_iff append_take_drop_id set_append set_rev)
        show "achieves ?lo ?hi ?s0 (([] @ t1) @ t2)
            (add_until (log_runtime runtime) (log_routes routes) (unat want) copies2 (w3, ([] @ t1) @ t2)) ?Q"
          by (rule achieves_weaken [OF add_until_achieves [OF t2 bounds(3) want]])
             (use gone replaced len1 in auto)
      next
        show "distinct (map lc_copy (take ?keep ?old))" using dold by (simp flip: take_map)
        show "take ?keep ?old = [] \<or> roll_room ?lo ?hi order (length copies1)" using bounds(2) unfolding len1 by auto
      qed
    next
      show "tracks ?lo ?hi ?s0 (set live) ?old []" by (rule tracks_start [OF d m])
      show "set (rev (drop ?keep ?old)) \<subseteq> set ?old" by (auto dest: in_set_dropD)
      show "distinct (map lc_copy (rev (drop ?keep ?old)))" using dold by (simp add: rev_map [symmetric] flip: drop_map)
      show "?lo + length (rev (drop ?keep ?old)) \<le> length ?old"
        using bounds(1) min.cobounded2 [of "unat want" "length ?old"] by (simp del: min.bounded_iff min.cobounded2)
    qed
  qed
qed

lemma scale_copies_achieves:
  assumes live: "cr_live runtime (snd (rs_check routes w)) = (Inr live, w1)"
    and d: "distinct (map lc_copy live)" and pos: "want \<noteq> 0"
  shows "achieves (unat want) (unat want) (fleet_of live) []
    (scale_copies (log_runtime runtime) (log_routes routes) want (w, []))
    (\<lambda>copies t. length copies = unat want
       \<and> (if unat want < length live then set copies \<subseteq> set live
            \<and> (\<forall>c \<in> set live - set copies. Stopped c True \<in> set t \<and> (\<forall>k \<in> set copies. copy_get (lc_copy k) \<le> copy_get (lc_copy c)))
          else set live \<subseteq> set copies)
       \<and> tracks (unat want) (unat want) (fleet_of live) (set live) copies t)"
    (is "achieves ?n ?n ?s0 [] _ ?Q")
  unfolding scale_copies_def if_not_P [OF pos]
proof (rule check_and_list [OF live])
  fix w'
  have want: "unat want < 2 ^ 32" using unsigned_less [of want, where ?'a = nat] by simp
  show "achieves ?n ?n ?s0 []
      (bind (add_until (log_runtime runtime) (log_routes routes) (unat want) live) (\<lambda>copies.
         let copies = sort_copies_desc copies; surplus = length copies - unat want
         in drain_all (log_runtime runtime) (log_routes routes) copies (take surplus copies)) (w', [])) ?Q"
    unfolding Let_def
  proof (rule achieves_bind, rule add_until_achieves [OF tracks_start [OF d refl] order_refl want])
    fix copies w2 t1
    assume added: "tracks ?n ?n ?s0 (set live) copies ([] @ t1) \<and> length copies = max (unat want) (length live)
      \<and> set live \<subseteq> set copies \<and> (unat want \<le> length live \<longrightarrow> copies = live)"
    let ?cs = "sort_copies_desc copies"
    let ?over = "take (length ?cs - unat want) ?cs"
    show "achieves ?n ?n ?s0 ([] @ t1) (drain_all (log_runtime runtime) (log_routes routes) ?cs ?over (w2, [] @ t1)) ?Q"
    proof (rule achieves_weaken, rule drain_all_achieves [where R = "set live"])
      have m: "mset ?cs = mset copies" by (simp add: sort_copies_desc_def)
      show t: "tracks ?n ?n ?s0 (set live) ?cs ([] @ t1)" using added m by (metis tracks_mset)
      show "set ?over \<subseteq> set ?cs" by (rule set_take_subset)
      show "distinct (map lc_copy ?over)" using t by (simp add: tracks_def flip: take_map)
      show "?n + length ?over \<le> length ?cs" using added m by (simp add: sort_copies_desc_def)
      fix left u
      assume "tracks ?n ?n ?s0 (set live - set ?over) left (([] @ t1) @ u) \<and> length left + length ?over = length ?cs
        \<and> left = filter (\<lambda>c. lc_copy c \<notin> lc_copy ` set ?over) ?cs \<and> (\<forall>c \<in> set ?over. Stopped c True \<in> set (([] @ t1) @ u))"
      then have drained: "tracks ?n ?n ?s0 (set live - set ?over) left (([] @ t1) @ u)" "length left + length ?over = length ?cs"
        "left = filter (\<lambda>c. lc_copy c \<notin> lc_copy ` set ?over) ?cs" "\<forall>c \<in> set ?over. Stopped c True \<in> set (([] @ t1) @ u)"
        by auto
      have "distinct (map lc_copy ?cs)" using t by (simp add: tracks_def)
      then have left: "left = drop (length ?cs - unat want) ?cs" using drained(3) by (simp only: filter_dropped_suffix)
      have cs: "set ?cs = set copies" "length ?cs = length copies" by (simp_all add: sort_copies_desc_def)
      have parts: "set ?cs = set ?over \<union> set left" unfolding left by (metis append_take_drop_id set_append)
      show "?Q left (([] @ t1) @ u)"
      proof (intro conjI)
        show "length left = unat want" using drained(2) added cs(2) by simp
        show "tracks ?n ?n ?s0 (set live) left (([] @ t1) @ u)" using drained(1) by (auto simp: tracks_def)
        show "if unat want < length live then set left \<subseteq> set live
            \<and> (\<forall>c \<in> set live - set left. Stopped c True \<in> set (([] @ t1) @ u) \<and> (\<forall>k \<in> set left. copy_get (lc_copy k) \<le> copy_get (lc_copy c)))
          else set live \<subseteq> set left"
        proof (cases "unat want < length live")
          case True
          then have live_is: "set live = set ?over \<union> set left" using added parts cs(1) by simp
          moreover have "\<forall>c \<in> set ?over. \<forall>k \<in> set left. copy_get (lc_copy k) \<le> copy_get (lc_copy c)"
            unfolding left using sort_copies_desc_split by blast
          ultimately show ?thesis unfolding if_P [OF True] using drained(4) by blast
        next
          case False
          then have none: "?over = []" using added cs(2) by simp
          have "set left = set copies" using parts unfolding none cs(1) by simp
          then show ?thesis unfolding if_not_P [OF False] using added by blast
        qed
      qed
    qed
  qed
qed

end

end
