(* ===== verification/Container_Copies.thy ===== *)
theory Container_Copies
  imports Health_Wait Rolling_Safety
begin

text \<open>
  From a compose service to its running copies: \<open>containers/spec.rs\<close>, \<open>containers/start.rs\<close>, \<open>containers/runtime.rs\<close>,
  \<open>containers/routes.rs\<close>, \<open>containers/rollout.rs\<close>, the accessors of \<open>containers/context.rs\<close> and \<open>build_tag\<close> of
  \<open>containers/images.rs\<close> in \<open>riku-deploy\<close>.

  A loaded app is the record \<open>container_app\<close>.  Its fields over the world stand for code outside this theory: the
  engine program, the probes, the disk, the allocation of a free port, the router, and the SHA-256 digest that names
  built images.
\<close>

section \<open>Errors and the loaded app\<close>

datatype copy_error =
    CopyType type_error
  | CopyMount mount_error
  | CopyRule rule_error
  | CopyEngine engine_error
  | CopyWait health_wait_error
  | NeitherImageNorBuild string
  | NoAppLabel string
  | NameHeld string string string
  | BindRefused string path_error
  | CannotPrepareNetwork string engine_error
  | NoFreePort string
  | IsProcess string
  | ExitedWithCode int
  | CopyGone string
  | RouterFailed string
  | NoSuchService string string
  | DependencyMissing string string
  | DependencyUnhealthy string string health_wait_error
  | ServiceFailed string "copy_error roll_error"

type_synonym ('w, 'a) copy_call = "('w \<Rightarrow> (copy_error, 'a) result \<times> 'w)"

record 'w container_app =
  ca_app :: app_name
  ca_engine :: "'w engine"
  ca_probes :: "'w probes"
  ca_disk :: "'w \<Rightarrow> file_system"
  ca_project :: compose_project
  ca_app_path :: path
  ca_scratch :: path
  ca_env :: "(string, string) btree"
  ca_routed :: "routed_port option"
  ca_free_port :: "'w \<Rightarrow> (string, u16) result \<times> 'w"
  ca_apply :: "backend list \<Rightarrow> 'w \<Rightarrow> (string, unit) result \<times> 'w"
  ca_check :: "'w \<Rightarrow> (string, unit) result \<times> 'w"
  ca_sha256 :: "string \<Rightarrow> string"

text \<open>A call that fails with another module's error.\<close>

definition from_call :: "('e \<Rightarrow> copy_error) \<Rightarrow> ('w \<Rightarrow> ('e, 'a) result \<times> 'w) \<Rightarrow> ('w, 'a) copy_call" where
  "from_call err m w = apfst (map_err err) (m w)"

definition and_call :: "('w, 'a) copy_call \<Rightarrow> ('a \<Rightarrow> ('w, 'b) copy_call) \<Rightarrow> ('w, 'b) copy_call" where
  "and_call m f w = (case m w of (Inl e, w') \<Rightarrow> (Inl e, w') | (Inr a, w') \<Rightarrow> f a w')"

definition pure_call :: "(copy_error, 'a) result \<Rightarrow> ('w, 'a) copy_call" where
  "pure_call r w = (r, w)"

definition LABEL_COMPOSE_PROJECT :: string where
  "LABEL_COMPOSE_PROJECT = ''com.docker.compose.project''"

section \<open>images.rs and spec.rs\<close>

definition build_tag :: "(string \<Rightarrow> string) \<Rightarrow> app_name \<Rightarrow> service_name \<Rightarrow> string" where
  "build_tag sha256 app service =
     (let digest = sha256 (app_str app @ [CHR 0x00] @ service_str service)
      in ''localhost/riku-'' @ take 16 digest)"

definition RIKU_ENV_PREFIX :: string where "RIKU_ENV_PREFIX = ''RIKU_''"

fun restart_label :: "restart_policy \<Rightarrow> string" where
  "restart_label RestartNo = ''no''"
| "restart_label RestartAlways = ''always''"
| "restart_label RestartUnlessStopped = ''unless-stopped''"
| "restart_label (RestartOnFailure None) = ''on-failure''"
| "restart_label (RestartOnFailure (Some n)) = ''on-failure:'' @ show_u32 n"

definition spec_is_routed :: "routed_port \<Rightarrow> service_def \<Rightarrow> port_binding \<Rightarrow> bool" where
  "spec_is_routed routed service binding \<longleftrightarrow>
     rt_service routed = sd_name service \<and> rt_container_port routed = pb_container_port binding
     \<and> rt_protocol routed = pb_protocol binding \<and> rt_host_port routed = pb_host_port binding"

fun update_first :: "('a \<Rightarrow> bool) \<Rightarrow> ('a \<Rightarrow> 'a) \<Rightarrow> 'a list \<Rightarrow> 'a list" where
  "update_first P f [] = []"
| "update_first P f (x # xs) = (if P x then f x # xs else x # update_first P f xs)"

definition bindings_for_copy :: "service_def \<Rightarrow> routed_port option \<Rightarrow> u16 option \<Rightarrow> port_binding list" where
  "bindings_for_copy service routed host_port =
     (case (routed, host_port) of
        (Some routed, Some host_port) \<Rightarrow>
          update_first (spec_is_routed routed service) (\<lambda>b. b\<lparr>pb_host_port := Some host_port\<rparr>) (sd_ports service)
      | _ \<Rightarrow> sd_ports service)"

definition copy_labels ::
  "app_name \<Rightarrow> service_def \<Rightarrow> copy_index \<Rightarrow> u16 option \<Rightarrow> (string, string) btree" where
  "copy_labels app service copy shown =
     (let labels = bt_remove LABEL_PORT (bt_remove LABEL_COMPOSE_PROJECT (sd_labels service));
          labels = bt_insert LABEL_APP (app_str app) labels;
          labels = bt_insert LABEL_SERVICE (service_str (sd_name service)) labels;
          labels = bt_insert LABEL_COPY (show_u32 (copy_get copy)) labels;
          labels = bt_insert LABEL_RESTART (restart_label (sd_restart service)) labels
      in case shown of Some port \<Rightarrow> bt_insert LABEL_PORT (show_u16 port) labels | None \<Rightarrow> labels)"

definition copy_env :: "(string, string) btree \<Rightarrow> service_def \<Rightarrow> (string, string) btree" where
  "copy_env app_env service =
     bt_extend (bt_collect (filter (\<lambda>(name, v). \<not> starts_with RIKU_ENV_PREFIX name) app_env)) (sd_environment service)"

definition copy_spec ::
  "(string \<Rightarrow> string) \<Rightarrow> app_name \<Rightarrow> compose_project \<Rightarrow> service_def \<Rightarrow> copy_index \<Rightarrow> u16 option
     \<Rightarrow> (string, string) btree \<Rightarrow> (copy_error, run_spec) result" where
  "copy_spec sha256 app project service copy host_port env =
     and_then (map_err CopyType (container_name_new (app_str app) (sd_name service) copy)) (\<lambda>name.
     and_then
       (case (sd_build service, sd_image service) of
          (Some _, _) \<Rightarrow> Inr (build_tag sha256 app (sd_name service), PullNever)
        | (None, Some img) \<Rightarrow> Inr (img, PullMissing)
        | (None, None) \<Rightarrow> Inl (NeitherImageNorBuild (svc_name service))) (\<lambda>(img, pull).
     and_then (map_err CopyMount (engine_mounts project (app_str app) service)) (\<lambda>mounts.
     and_then (map_err CopyRule (routed_http project)) (\<lambda>routed.
     let ports = bindings_for_copy service routed host_port;
         shown = (case routed of Some r \<Rightarrow> (if rt_service r = sd_name service then host_port else None) | None \<Rightarrow> None)
     in Inr \<lparr>rn_name = name, rn_image = img, rn_pull = pull, rn_network = network_name_for_app (app_str app),
             rn_alias = sd_name service, rn_labels = copy_labels app service copy shown,
             rn_env = copy_env env service, rn_ports = ports, rn_mounts = mounts,
             rn_entrypoint = sd_entrypoint service, rn_command = sd_command service,
             rn_working_dir = sd_working_dir service, rn_user = sd_user service,
             rn_stop_signal = sd_stop_signal service, rn_stop_grace = sd_stop_grace service,
             rn_healthcheck = sd_healthcheck service\<rparr>))))"

section \<open>start.rs\<close>

definition check_name_is_free :: "'w engine \<Rightarrow> run_spec \<Rightarrow> ('w, unit) copy_call" where
  "check_name_is_free engine spec =
     (case bt_get (rn_labels spec) LABEL_APP of
        None \<Rightarrow> pure_call (Inl (NoAppLabel (container_str (rn_name spec))))
      | Some app \<Rightarrow>
          and_call (from_call CopyEngine (owner_of engine (rn_name spec))) (\<lambda>owner.
          pure_call
            (case owner of
               Some holder \<Rightarrow>
                 (if holder \<noteq> app then Inl (NameHeld (container_str (rn_name spec)) holder app) else Inr ())
             | None \<Rightarrow> Inr ())))"

definition check_bind_sources :: "file_system \<Rightarrow> run_spec \<Rightarrow> path \<Rightarrow> (copy_error, unit) result" where
  "check_bind_sources fs spec app_path =
     check_each (\<lambda>m.
       case mt_source m of
         MBind source \<Rightarrow> map_err (BindRefused (container_str (rn_name spec))) (check_bind_source fs app_path source)
       | _ \<Rightarrow> Inr ()) (rn_mounts spec)"

definition start_copy ::
  "'w engine \<Rightarrow> ('w \<Rightarrow> file_system) \<Rightarrow> run_spec \<Rightarrow> path \<Rightarrow> path \<Rightarrow> ('w, container_id) copy_call" where
  "start_copy engine disk spec app_path scratch =
     and_call (check_name_is_free engine spec) (\<lambda>_.
     and_call (\<lambda>w. (check_bind_sources (disk w) spec app_path, w)) (\<lambda>_.
     and_call (from_call (CannotPrepareNetwork (network_str (rn_network spec))) (ensure_network engine (rn_network spec))) (\<lambda>_.
     from_call CopyEngine (engine_run engine spec scratch))))"

section \<open>runtime.rs\<close>

definition container_of :: "live_copy \<Rightarrow> (copy_error, container_id) result" where
  "container_of copy =
     (case lc_handle copy of HandleContainer cid \<Rightarrow> Inr cid | HandleProcess name \<Rightarrow> Inl (IsProcess name))"

definition host_port :: "live_copy \<Rightarrow> u16 option" where
  "host_port copy = (case lc_backend copy of Some (BackendTcp _ port) \<Rightarrow> Some port | _ \<Rightarrow> None)"

definition app_is_routed :: "'w container_app \<Rightarrow> service_name \<Rightarrow> bool" where
  "app_is_routed ctx service = (case ca_routed ctx of Some r \<Rightarrow> rt_service r = service | None \<Rightarrow> False)"

definition runtime_live_copy :: "bool \<Rightarrow> container_info \<Rightarrow> live_copy option" where
  "runtime_live_copy routed info =
     (case ci_copy info of
        None \<Rightarrow> None
      | Some copy \<Rightarrow>
          Some \<lparr>lc_copy = copy,
            lc_backend = (case (routed, ci_state info, ci_host_port info) of
                            (True, Running, Some port) \<Rightarrow> Some (backend_loopback port) | _ \<Rightarrow> None),
            lc_handle = HandleContainer (ci_id info)\<rparr>)"

definition check_not_exited :: "'w engine \<Rightarrow> container_id \<Rightarrow> ('w, unit) copy_call" where
  "check_not_exited engine cid =
     and_call (from_call CopyEngine (inspect engine [cid])) (\<lambda>infos.
     pure_call
       (case infos of
          [] \<Rightarrow> Inl (CopyGone (id_str cid))
        | info # _ \<Rightarrow> (case ci_state info of Exited code \<Rightarrow> Inl (ExitedWithCode code) | _ \<Rightarrow> Inr ())))"

definition stop_and_remove :: "'w engine \<Rightarrow> duration \<Rightarrow> container_id \<Rightarrow> ('w, unit) copy_call" where
  "stop_and_remove engine grace cid =
     and_call (from_call CopyEngine (engine_stop engine cid grace)) (\<lambda>_.
     from_call CopyEngine (engine_remove engine cid))"

definition runtime_live :: "'w container_app \<Rightarrow> service_def \<Rightarrow> ('w, live_copy list) copy_call" where
  "runtime_live ctx service =
     and_call (from_call CopyEngine (engine_list (ca_engine ctx) (app_str (ca_app ctx)))) (\<lambda>ids.
     and_call (from_call CopyEngine (inspect (ca_engine ctx) ids)) (\<lambda>infos.
     pure_call (Inr (List.map_filter (runtime_live_copy (app_is_routed ctx (sd_name service)))
       (filter (\<lambda>info. ci_service info = Some (sd_name service)) infos)))))"

definition runtime_start :: "'w container_app \<Rightarrow> service_def \<Rightarrow> copy_index \<Rightarrow> ('w, live_copy) copy_call" where
  "runtime_start ctx service copy =
     and_call
       (if app_is_routed ctx (sd_name service)
        then and_call (from_call NoFreePort (ca_free_port ctx)) (\<lambda>port. pure_call (Inr (Some port)))
        else pure_call (Inr None)) (\<lambda>port.
     and_call (pure_call
       (copy_spec (ca_sha256 ctx) (ca_app ctx) (ca_project ctx) service copy port (ca_env ctx))) (\<lambda>spec.
     and_call (start_copy (ca_engine ctx) (ca_disk ctx) spec (ca_app_path ctx) (ca_scratch ctx)) (\<lambda>cid.
     pure_call (Inr \<lparr>lc_copy = copy, lc_backend = map_option backend_loopback port, lc_handle = HandleContainer cid\<rparr>))))"

definition runtime_wait_healthy :: "'w container_app \<Rightarrow> service_def \<Rightarrow> live_copy \<Rightarrow> ('w, unit) copy_call" where
  "runtime_wait_healthy ctx service copy =
     and_call (pure_call (container_of copy)) (\<lambda>cid.
     case health_target service cid (host_port copy) of
       Some target \<Rightarrow> from_call CopyWait (wait_healthy (ca_probes ctx) target (Some (ca_engine ctx)))
     | None \<Rightarrow> check_not_exited (ca_engine ctx) cid)"

definition runtime_stop :: "'w container_app \<Rightarrow> service_def \<Rightarrow> live_copy \<Rightarrow> ('w, unit) copy_call" where
  "runtime_stop ctx service copy =
     and_call (pure_call (container_of copy)) (stop_and_remove (ca_engine ctx) (sd_stop_grace service))"

text \<open>A failure to remove an unhealthy copy is only logged.\<close>

definition runtime_discard :: "'w container_app \<Rightarrow> service_def \<Rightarrow> live_copy \<Rightarrow> 'w \<Rightarrow> 'w" where
  "runtime_discard ctx service copy w = snd (runtime_stop ctx service copy w)"

definition container_runtime :: "'w container_app \<Rightarrow> service_def \<Rightarrow> (copy_error, 'w) copy_runtime" where
  "container_runtime ctx service = \<lparr>
     cr_live = runtime_live ctx service,
     cr_start = runtime_start ctx service,
     cr_wait_healthy = runtime_wait_healthy ctx service,
     cr_stop = runtime_stop ctx service,
     cr_discard = runtime_discard ctx service\<rparr>"

section \<open>routes.rs and rollout.rs\<close>

definition service_routes :: "'w container_app \<Rightarrow> service_name \<Rightarrow> (copy_error, 'w) route_sink" where
  "service_routes ctx service =
     (if app_is_routed ctx service
      then \<lparr>rs_publish = (\<lambda>backends. from_call RouterFailed (ca_apply ctx backends)),
            rs_check = from_call RouterFailed (ca_check ctx)\<rparr>
      else no_routes)"

definition app_service :: "'w container_app \<Rightarrow> service_name \<Rightarrow> (copy_error, service_def) result" where
  "app_service ctx name =
     (case find (\<lambda>s. sd_name s = name) (cp_services (ca_project ctx)) of
        Some service \<Rightarrow> Inr service
      | None \<Rightarrow> Inl (NoSuchService (app_str (ca_app ctx)) (service_str name)))"

definition container_ids :: "'w container_app \<Rightarrow> service_def \<Rightarrow> ('w, container_id list) copy_call" where
  "container_ids ctx service =
     and_call (runtime_live ctx service) (\<lambda>copies.
     pure_call (Inr (List.map_filter (\<lambda>copy. case lc_handle copy of
       HandleContainer cid \<Rightarrow> Some cid | HandleProcess _ \<Rightarrow> None) copies)))"

fun wait_for_ids :: "'w container_app \<Rightarrow> string \<Rightarrow> string \<Rightarrow> container_id list \<Rightarrow> ('w, unit) copy_call" where
  "wait_for_ids ctx service dep [] w = (Inr (), w)"
| "wait_for_ids ctx service dep (cid # ids) w =
     and_call (from_call (DependencyUnhealthy service dep)
       (wait_healthy (ca_probes ctx) (TargetEngine cid) (Some (ca_engine ctx)))) (\<lambda>_.
     wait_for_ids ctx service dep ids) w"

fun wait_for_each :: "'w container_app \<Rightarrow> service_def \<Rightarrow> dependency list \<Rightarrow> ('w, unit) copy_call" where
  "wait_for_each ctx service [] w = (Inr (), w)"
| "wait_for_each ctx service (dep # deps) w =
     and_call (pure_call (app_service ctx (dep_service dep))) (\<lambda>def.
     and_call (container_ids ctx def) (\<lambda>ids.
     and_call
       (if ids = [] then pure_call (Inl (DependencyMissing (svc_name service) (service_str (dep_service dep))))
        else wait_for_ids ctx (svc_name service) (service_str (dep_service dep)) ids) (\<lambda>_.
     wait_for_each ctx service deps))) w"

definition wait_for_dependencies :: "'w container_app \<Rightarrow> service_def \<Rightarrow> ('w, unit) copy_call" where
  "wait_for_dependencies ctx service =
     wait_for_each ctx service (filter (\<lambda>dep. dep_condition dep = Healthy) (sd_depends_on service))"

definition roll_service :: "'w container_app \<Rightarrow> service_def \<Rightarrow> u32 \<Rightarrow> ('w, unit) copy_call" where
  "roll_service ctx service want w =
     apfst (map_err (ServiceFailed (svc_name service)))
       (replace_all (container_runtime ctx service) (service_routes ctx (sd_name service))
         (replace_order (ca_project ctx) (sd_name service)) want w)"

definition wanted :: "(string, u32) btree \<Rightarrow> service_name \<Rightarrow> u32" where
  "wanted counts service = (case bt_get counts (service_str service) of Some n \<Rightarrow> n | None \<Rightarrow> 1)"

fun roll_out :: "'w container_app \<Rightarrow> (string, u32) btree \<Rightarrow> service_def list \<Rightarrow> ('w, unit) copy_call" where
  "roll_out ctx counts [] w = (Inr (), w)"
| "roll_out ctx counts (service # services) w =
     and_call (wait_for_dependencies ctx service) (\<lambda>_.
     and_call (roll_service ctx service (wanted counts (sd_name service))) (\<lambda>_.
     roll_out ctx counts services)) w"

end
