(* ===== verification/Restart_Tally.thy ===== *)
theory Restart_Tally
  imports Container_Copies
begin

text \<open>
  When a dead container copy is restarted: \<open>riku-supervisor/src/containers/restart_policy.rs\<close> and
  \<open>riku-supervisor/src/containers/tally.rs\<close>.

  The supervisor reads the policy from the label a copy was started with and keeps, for each container name, how often it
  was restarted and when.  An \<open>Instant\<close> is a number of nanoseconds of a monotonic clock; the counter is a \<open>u32\<close>.  The
  \<open>HashMap\<close> of entries is an ordered map: no result depends on the order of its entries.
\<close>

section \<open>restart\_policy.rs\<close>

datatype restart_policy_label = LabelNo | LabelAlways | LabelUnlessStopped | LabelOnFailure "u32 option"

definition MAX_EXPONENT :: u32 where
  "MAX_EXPONENT = 6"

definition MAX_BACKOFF_SECS :: "64 word" where
  "MAX_BACKOFF_SECS = 60"

definition parse_on_failure :: "string \<Rightarrow> restart_policy_label option" where
  "parse_on_failure raw =
     (case strip_prefix ''on-failure:'' raw of
        None \<Rightarrow> None
      | Some remainder \<Rightarrow>
          (case parse_u32 remainder of Some limit \<Rightarrow> Some (LabelOnFailure (Some limit)) | None \<Rightarrow> None))"

definition restart_label_try_from :: "string \<Rightarrow> restart_policy_label option" where
  "restart_label_try_from raw =
     (if raw = ''no'' then Some LabelNo
      else if raw = ''always'' then Some LabelAlways
      else if raw = ''unless-stopped'' then Some LabelUnlessStopped
      else if raw = ''on-failure'' then Some (LabelOnFailure None)
      else if starts_with ''on-failure:'' raw then parse_on_failure raw
      else None)"

fun should_restart :: "restart_policy_label \<Rightarrow> int \<Rightarrow> u32 \<Rightarrow> bool" where
  "should_restart LabelNo exit_code restarts = False"
| "should_restart LabelAlways exit_code restarts = True"
| "should_restart LabelUnlessStopped exit_code restarts = True"
| "should_restart (LabelOnFailure limit) exit_code restarts =
     (if exit_code = 0 then False
      else case limit of Some most \<Rightarrow> restarts < most | None \<Rightarrow> True)"

definition restart_delay :: "u32 \<Rightarrow> duration" where
  "restart_delay restarts =
     (let exponent = min restarts MAX_EXPONENT;
          power = push_bit (unat exponent) (1 :: 64 word);
          seconds = min power MAX_BACKOFF_SECS
      in from_secs (unat seconds))"

section \<open>tally.rs\<close>

type_synonym instant = nat

definition checked_duration_since :: "instant \<Rightarrow> instant \<Rightarrow> duration option" where
  "checked_duration_since now earlier = (if earlier \<le> now then Some (now - earlier) else None)"

record tally =
  ta_id :: container_id
  ta_count :: u32
  ta_last_restart :: "instant option"
  ta_expects_successor :: bool

type_synonym restart_tally = "(string, tally) btree"

definition tally_new :: restart_tally where
  "tally_new = []"

definition tally_observe :: "restart_tally \<Rightarrow> string \<Rightarrow> container_id \<Rightarrow> restart_tally" where
  "tally_observe entries name cid =
     (case bt_get entries name of
        None \<Rightarrow>
          bt_insert name \<lparr>ta_id = cid, ta_count = 0, ta_last_restart = None, ta_expects_successor = False\<rparr> entries
      | Some entry \<Rightarrow>
          (if ta_id entry = cid then entries
           else
             let entry = (if \<not> ta_expects_successor entry then entry\<lparr>ta_count := 0, ta_last_restart := None\<rparr> else entry)
             in bt_insert name (entry\<lparr>ta_id := cid, ta_expects_successor := False\<rparr>) entries))"

definition tally_count :: "restart_tally \<Rightarrow> string \<Rightarrow> u32" where
  "tally_count entries name = (case bt_get entries name of Some entry \<Rightarrow> ta_count entry | None \<Rightarrow> 0)"

definition tally_due :: "restart_tally \<Rightarrow> string \<Rightarrow> instant \<Rightarrow> bool" where
  "tally_due entries name now =
     (case bt_get entries name of
        None \<Rightarrow> True
      | Some entry \<Rightarrow>
          (case ta_last_restart entry of
             None \<Rightarrow> True
           | Some previous \<Rightarrow>
               (case checked_duration_since now previous of
                  Some elapsed \<Rightarrow> restart_delay (ta_count entry) \<le> elapsed
                | None \<Rightarrow> False)))"

text \<open>The counter of a release build wraps.\<close>

definition record_restart :: "restart_tally \<Rightarrow> string \<Rightarrow> instant \<Rightarrow> restart_tally" where
  "record_restart entries name now =
     (case bt_get entries name of
        Some entry \<Rightarrow>
          bt_insert name
            (entry\<lparr>ta_count := ta_count entry + 1, ta_last_restart := Some now, ta_expects_successor := True\<rparr>) entries
      | None \<Rightarrow> entries)"

definition forget_missing :: "restart_tally \<Rightarrow> string set \<Rightarrow> restart_tally" where
  "forget_missing entries live_names =
     filter (\<lambda>(name, entry). ta_expects_successor entry \<or> name \<in> live_names) entries"

section \<open>Facts on policies and delays\<close>

fun policy_label :: "restart_policy \<Rightarrow> restart_policy_label" where
  "policy_label RestartNo = LabelNo"
| "policy_label RestartAlways = LabelAlways"
| "policy_label RestartUnlessStopped = LabelUnlessStopped"
| "policy_label (RestartOnFailure limit) = LabelOnFailure limit"

lemma restart_label_read_back: "restart_label_try_from (restart_label p) = Some (policy_label p)"
proof (cases p)
  case (RestartOnFailure limit)
  then show ?thesis
    by (cases limit) (simp_all add: restart_label_try_from_def parse_on_failure_def strip_prefix_def)
qed (simp_all add: restart_label_try_from_def)

lemma capped_power: "k \<le> 6 \<Longrightarrow> unat (min (push_bit k (1 :: 64 word)) MAX_BACKOFF_SECS) = min 60 (2 ^ k)"
proof -
  assume "k \<le> 6"
  then have "k \<in> {0, 1, 2, 3, 4, 5, 6}" by auto
  then show ?thesis by (auto simp: MAX_BACKOFF_SECS_def min_def word_le_nat_alt push_bit_eq_mult)
qed

lemma restart_delay_secs: "restart_delay n = from_secs (min 60 (2 ^ min (unat n) 6))"
proof -
  have "unat (min n MAX_EXPONENT) = min (unat n) 6"
    by (simp add: MAX_EXPONENT_def min_def word_le_nat_alt)
  then show ?thesis unfolding restart_delay_def Let_def by (simp only: capped_power min.cobounded2)
qed

lemma restart_delay_bounds: "from_secs 1 \<le> restart_delay n \<and> restart_delay n \<le> from_secs 60"
proof -
  have "1 \<le> min 60 ((2::nat) ^ min (unat n) 6)" by simp
  then show ?thesis unfolding restart_delay_secs from_secs_def by simp
qed

lemma restart_delay_mono:
  assumes "m \<le> n"
  shows "restart_delay m \<le> restart_delay n"
proof -
  have "min (unat m) 6 \<le> min (unat n) 6" using assms by (simp add: word_le_nat_alt)
  then have "(2::nat) ^ min (unat m) 6 \<le> 2 ^ min (unat n) 6" by (rule power_increasing) simp
  then have "min 60 ((2::nat) ^ min (unat m) 6) \<le> min 60 (2 ^ min (unat n) 6)" by (rule min.mono [OF order_refl])
  then show ?thesis unfolding restart_delay_secs from_secs_def by (rule mult_le_mono1)
qed

section \<open>Facts on the tally\<close>

lemma count_new [simp]: "tally_count tally_new name = 0"
  by (simp add: tally_count_def tally_new_def bt_get_def)

lemma count_observe_other [simp]: "name \<noteq> seen \<Longrightarrow> tally_count (tally_observe t seen i) name = tally_count t name"
  by (auto simp: tally_observe_def tally_count_def bt_get_insert Let_def split: option.splits)

lemma count_observe_same: "tally_count (tally_observe t name i) name \<in> {0, tally_count t name}"
  by (auto simp: tally_observe_def tally_count_def bt_get_insert Let_def split: option.splits)

lemma count_observe_le: "tally_count (tally_observe t seen i) name \<le> tally_count t name"
  using count_observe_same [of t name i] by (cases "name = seen") auto

lemma count_record_other [simp]: "name \<noteq> done_name \<Longrightarrow> tally_count (record_restart t done_name now) name = tally_count t name"
  by (auto simp: record_restart_def tally_count_def bt_get_insert split: option.splits)

lemma count_record_same: "tally_count (record_restart t name now) name \<in> {0, tally_count t name + 1}"
  by (auto simp: record_restart_def tally_count_def bt_get_insert split: option.splits)

lemma bt_get_filter:
  assumes "bt_ok m"
  shows "bt_get (filter P m) k = (case bt_get m k of None \<Rightarrow> None | Some v \<Rightarrow> if P (k, v) then Some v else None)"
proof -
  have d: "distinct (map fst m)" by (rule bt_ok_distinct [OF assms])
  show ?thesis
  proof (cases "bt_get m k")
    case None
    then have "k \<notin> fst ` set (filter P m)" by (auto simp: bt_get_def map_of_eq_None_iff)
    then have "bt_get (filter P m) k = None" unfolding bt_get_def map_of_eq_None_iff .
    then show ?thesis using None by simp
  next
    case (Some v)
    then have only: "(k, v') \<in> set m \<longleftrightarrow> v' = v" for v'
      unfolding bt_get_eq_Some [OF assms, symmetric] Some by auto
    show ?thesis
    proof (cases "P (k, v)")
      case True
      then have "(k, v) \<in> set (filter P m)" using only by simp
      then have "map_of (filter P m) k = Some v" by (rule map_of_is_SomeI [OF distinct_map_filter [OF d]])
      then show ?thesis using Some True by (simp add: bt_get_def)
    next
      case False
      then have "k \<notin> fst ` set (filter P m)" using only by auto
      then have "bt_get (filter P m) k = None" unfolding bt_get_def map_of_eq_None_iff .
      then show ?thesis using Some False by simp
    qed
  qed
qed

lemma bt_ok_filter: "bt_ok m \<Longrightarrow> bt_ok (filter P m)"
  unfolding bt_ok_def by (induction m) auto

lemma count_forget_le: "bt_ok t \<Longrightarrow> tally_count (forget_missing t names) name \<le> tally_count t name"
  by (auto simp: forget_missing_def tally_count_def bt_get_filter split: option.splits)

lemma tally_ok_new: "bt_ok tally_new"
  by (simp add: tally_new_def bt_ok_def)

lemma tally_ok_observe: "bt_ok t \<Longrightarrow> bt_ok (tally_observe t name i)"
  by (auto simp: tally_observe_def Let_def bt_ok_insert split: option.splits)

lemma tally_ok_record: "bt_ok t \<Longrightarrow> bt_ok (record_restart t name now)"
  by (auto simp: record_restart_def bt_ok_insert split: option.splits)

lemma tally_ok_forget: "bt_ok t \<Longrightarrow> bt_ok (forget_missing t names)"
  by (simp add: forget_missing_def bt_ok_filter)

text \<open>A copy that was restarted is not due again before the delay of its count has passed.\<close>

lemma due_after_record:
  assumes "bt_get t name \<noteq> None"
  shows "tally_due (record_restart t name now) name later
    \<longleftrightarrow> now \<le> later \<and> restart_delay (tally_count t name + 1) \<le> later - now"
  using assms
  by (auto simp: tally_due_def record_restart_def bt_get_insert checked_duration_since_def tally_count_def split: option.splits)

end
