(* ===== verification/Engine_Streams.thy ===== *)
theory Engine_Streams
  imports Engine_Calls
begin

text \<open>
  What the supervisor reads from the engine while containers run: events, resource statistics and logs
  (\<open>riku-container/src/engine/events.rs\<close>, \<open>stats.rs\<close> and \<open>logs.rs\<close>).

  Not riku's own code, and so parameters: \<open>serde_json\<close>, the arithmetic of \<open>f64\<close> (a record of operations on an abstract
  type \<open>'f\<close>) and one run of the engine program with a byte cap per stream.  Captured output is text, decoded already; the
  error values keep what the code puts into its messages.
\<close>

section \<open>JSON values\<close>

datatype json =
    JNull
  | JBool bool
  | JNumber string
  | JString string
  | JArray "json list"
  | JObject "(string, json) btree"

text \<open>\<open>value[key]\<close> gives null for a missing key and for a value that is not an object.\<close>

fun json_index :: "json \<Rightarrow> string \<Rightarrow> json" where
  "json_index (JObject m) key = (case bt_get m key of Some v \<Rightarrow> v | None \<Rightarrow> JNull)"
| "json_index _ key = JNull"

fun json_str :: "json \<Rightarrow> string option" where
  "json_str (JString s) = Some s"
| "json_str _ = None"

fun find_map :: "('a \<Rightarrow> 'b option) \<Rightarrow> 'a list \<Rightarrow> 'b option" where
  "find_map f [] = None"
| "find_map f (x # xs) = (case f x of Some y \<Rightarrow> Some y | None \<Rightarrow> find_map f xs)"

section \<open>events.rs\<close>

definition EVENT_NAMES :: "string list" where
  "EVENT_NAMES = [''start'', ''die'', ''health_status'', ''destroy'']"

definition has_events :: "'w engine \<Rightarrow> 'w \<Rightarrow> bool \<times> 'w" where
  "has_events engine w =
     (case en_capture engine [''events'', ''--help''] (es_call_timeout (en_settings engine)) w of
        (Inr out, w') \<Rightarrow> (cd_success out, w')
      | (Inl _, w') \<Rightarrow> (False, w'))"

definition events_command :: "string list" where
  "events_command =
     [''events'', ''--format'', ''{{json .}}'', ''--filter'', ''type=container'', ''--filter'', ''label='' @ LABEL_APP]
     @ concat (map (\<lambda>event. [''--filter'', ''event='' @ event]) EVENT_NAMES)"

definition list_riku :: "'w engine \<Rightarrow> ('w, container_id list) engine_call" where
  "list_riku engine = list_with_filter engine (Some (''label='' @ LABEL_APP))"

definition event_container :: "(string \<Rightarrow> json option) \<Rightarrow> string \<Rightarrow> container_id option" where
  "event_container from_str line =
     (case from_str line of
        None \<Rightarrow> None
      | Some doc \<Rightarrow>
          (case find_map json_str [json_index (json_index doc ''Actor'') ''ID'', json_index doc ''ID'', json_index doc ''id''] of
             None \<Rightarrow> None
           | Some raw \<Rightarrow> (case container_id_try_from raw of Inr cid \<Rightarrow> Some cid | Inl _ \<Rightarrow> None)))"

section \<open>stats.rs\<close>

record 'f floats =
  fl_parse :: "string \<Rightarrow> 'f option"
  fl_finite :: "'f \<Rightarrow> bool"
  fl_at_least_zero :: "'f \<Rightarrow> bool"
  fl_literal :: "nat \<Rightarrow> 'f"
  fl_mult :: "'f \<Rightarrow> 'f \<Rightarrow> 'f"
  fl_round_u64 :: "'f \<Rightarrow> 64 word"

record 'f container_stats =
  st_id :: string
  st_cpu_percent :: 'f
  st_memory_bytes :: "64 word"

datatype stats_error =
    StatsNoField "string list"
  | NotPercentage string
  | NotMemory string
  | UnknownUnit string string
  | UnusableEntry stats_error
  | StatsFor string stats_error
  | StatsNotJson

definition MEMORY_UNITS :: "(string \<times> nat) list" where
  "MEMORY_UNITS = [(''B'', 1), (''kB'', 1000), (''KiB'', 1024), (''MB'', 1000000), (''MiB'', 1048576),
     (''GB'', 1000000000), (''GiB'', 1073741824)]"

definition stats_text_field :: "json \<Rightarrow> string list \<Rightarrow> (stats_error, string) result" where
  "stats_text_field entry keys =
     (case find_map (\<lambda>key. json_str (json_index entry key)) keys of
        Some t \<Rightarrow> Inr t | None \<Rightarrow> Inl (StatsNoField keys))"

definition trim_end_matches :: "(char \<Rightarrow> bool) \<Rightarrow> string \<Rightarrow> string" where
  "trim_end_matches P s = rev (dropWhile P (rev s))"

definition parse_cpu :: "'f floats \<Rightarrow> string \<Rightarrow> (stats_error, 'f) result" where
  "parse_cpu fl raw =
     (case fl_parse fl (trim_end_matches (\<lambda>c. c = CHR ''%'') (trim raw)) of
        Some v \<Rightarrow> (if fl_finite fl v \<and> fl_at_least_zero fl v then Inr v else Inl (NotPercentage raw))
      | None \<Rightarrow> Inl (NotPercentage raw))"

text \<open>\<open>split_once\<close> on a text of several characters.\<close>

fun before_text :: "string \<Rightarrow> string \<Rightarrow> string" where
  "before_text sep [] = []"
| "before_text sep (c # s) = (if starts_with sep (c # s) then [] else c # before_text sep s)"

definition parse_memory :: "'f floats \<Rightarrow> string \<Rightarrow> (stats_error, 64 word) result" where
  "parse_memory fl usage =
     (let used = trim (before_text '' / '' usage);
          number = takeWhile (\<lambda>c. is_ascii_digit c \<or> c = CHR ''.'') used;
          unit = dropWhile (\<lambda>c. is_ascii_digit c \<or> c = CHR ''.'') used
      in case fl_parse fl number of
           Some v \<Rightarrow>
             (if \<not> fl_finite fl v then Inl (NotMemory usage)
              else case find (\<lambda>(name, _). name = unit) MEMORY_UNITS of
                     Some (_, factor) \<Rightarrow> Inr (fl_round_u64 fl (fl_mult fl v (fl_literal fl factor)))
                   | None \<Rightarrow> Inl (UnknownUnit usage unit))
         | None \<Rightarrow> Inl (NotMemory usage))"

definition parse_entry :: "'f floats \<Rightarrow> json \<Rightarrow> (stats_error, 'f container_stats) result" where
  "parse_entry fl entry =
     and_then (map_err UnusableEntry (stats_text_field entry [''Container'', ''ID'', ''id''])) (\<lambda>cid.
     let cpu = and_then (stats_text_field entry [''CPUPerc'', ''cpu_percent'']) (parse_cpu fl);
         memory = and_then (stats_text_field entry [''MemUsage'', ''mem_usage'']) (parse_memory fl)
     in case (cpu, memory) of
          (Inr cpu_percent, Inr memory_bytes) \<Rightarrow>
            Inr \<lparr>st_id = cid, st_cpu_percent = cpu_percent, st_memory_bytes = memory_bytes\<rparr>
        | (Inl e, _) \<Rightarrow> Inl (StatsFor cid e)
        | (_, Inl e) \<Rightarrow> Inl (StatsFor cid e))"

definition json_line :: "(string \<Rightarrow> json option) \<Rightarrow> string \<Rightarrow> (stats_error, json) result" where
  "json_line from_str line = (case from_str line of Some entry \<Rightarrow> Inr entry | None \<Rightarrow> Inl StatsNotJson)"

definition parse_entries :: "(string \<Rightarrow> json option) \<Rightarrow> string \<Rightarrow> (stats_error, json list) result" where
  "parse_entries from_str out =
     (let trimmed = trim out
      in if starts_with ''['' trimmed
         then (case from_str trimmed of Some (JArray entries) \<Rightarrow> Inr entries | _ \<Rightarrow> Inl StatsNotJson)
         else traverse (json_line from_str) (filter (\<lambda>line. trim line \<noteq> []) (lines trimmed)))"

definition parse_stats :: "'f floats \<Rightarrow> (string \<Rightarrow> json option) \<Rightarrow> string \<Rightarrow> (stats_error, 'f container_stats list) result" where
  "parse_stats fl from_str out = and_then (parse_entries from_str out) (traverse (parse_entry fl))"

text \<open>Which field of the output was unreadable is not kept: the supervisor only logs it.\<close>

definition engine_stats ::
  "'f floats \<Rightarrow> (string \<Rightarrow> json option) \<Rightarrow> 'w engine \<Rightarrow> container_id list \<Rightarrow> ('w, 'f container_stats list) engine_call" where
  "engine_stats fl from_str engine ids =
     failing CannotReadStats
       (fetch_present engine ids
         (\<lambda>ids. engine_output engine ([''stats'', ''--no-stream'', ''--format'', ''json''] @ map id_str ids))
         (\<lambda>out. map_err (\<lambda>_. BadStats) (parse_stats fl from_str out)))"

section \<open>logs.rs\<close>

datatype log_range = LogAll | LogSince string | LogNewest

record timestamped_logs =
  tl_stdout :: string
  tl_stderr :: string
  tl_stdout_capped :: bool
  tl_stderr_capped :: bool

record capped_output =
  cp_success :: bool
  cp_status :: string
  cp_stdout :: string
  cp_stderr :: string
  cp_stdout_capped :: bool
  cp_stderr_capped :: bool
  cp_truncated :: bool

datatype logs_error =
    LogsCapture string
  | ContainerGone string "string option"
  | LogsFailed string "string option"
  | LogsIncomplete

definition DETAIL_CHARS :: nat where
  "DETAIL_CHARS = 200"

definition is_timestamped :: "string \<Rightarrow> bool" where
  "is_timestamped line \<longleftrightarrow>
     11 \<le> length line
     \<and> list_all (\<lambda>i. if i = 4 \<or> i = 7 then line ! i = CHR ''-''
                     else if i = 10 then line ! i = CHR ''T'' else is_ascii_digit (line ! i)) [0..<11]"

definition failure_summary :: "string option \<Rightarrow> string option" where
  "failure_summary engine_line = map_option (take DETAIL_CHARS) engine_line"

definition logs_failure :: "string \<Rightarrow> string \<Rightarrow> logs_error" where
  "logs_failure status stderr =
     (let engine_line = find (\<lambda>line. line \<noteq> [] \<and> \<not> is_timestamped line) (map trim (rev (lines stderr)));
          summary = failure_summary engine_line;
          gone = (case engine_line of
                    Some line \<Rightarrow> contains_text ''no such container'' (to_ascii_lowercase line) | None \<Rightarrow> False)
      in if gone then ContainerGone status summary else LogsFailed status summary)"

definition stream_text :: "string \<Rightarrow> bool \<Rightarrow> string" where
  "stream_text bytes capped =
     (if capped then rev (dropWhile (\<lambda>c. c \<noteq> CHR 0x0A) (rev bytes)) else bytes)"

fun range_args :: "log_range \<Rightarrow> string list" where
  "range_args LogAll = []"
| "range_args (LogSince at) = [''--since'', at]"
| "range_args LogNewest = [''--tail'', ''1'']"

type_synonym 'w capped_capture = "string list \<Rightarrow> duration \<Rightarrow> nat \<Rightarrow> 'w \<Rightarrow> (string, capped_output) result \<times> 'w"

definition read_logs ::
  "'w capped_capture \<Rightarrow> 'w engine \<Rightarrow> container_id \<Rightarrow> log_range \<Rightarrow> nat \<Rightarrow> 'w
     \<Rightarrow> (logs_error, timestamped_logs) result \<times> 'w" where
  "read_logs capture_capped engine cid part cap w =
     (case capture_capped ([''logs'', ''--timestamps''] @ range_args part @ [id_str cid])
             (es_call_timeout (en_settings engine)) cap w of
        (Inl e, w') \<Rightarrow> (Inl (LogsCapture e), w')
      | (Inr out, w') \<Rightarrow>
          (let capped = cp_stdout_capped out \<or> cp_stderr_capped out
           in if \<not> cp_success out \<and> \<not> capped then (Inl (logs_failure (cp_status out) (cp_stderr out)), w')
              else if cp_truncated out then (Inl LogsIncomplete, w')
              else (Inr \<lparr>tl_stdout = stream_text (cp_stdout out) (cp_stdout_capped out),
                         tl_stderr = stream_text (cp_stderr out) (cp_stderr_capped out),
                         tl_stdout_capped = cp_stdout_capped out, tl_stderr_capped = cp_stderr_capped out\<rparr>, w')))"

section \<open>What is taken from the engine\<close>

lemma lines_Cons:
  assumes "NEWLINE \<notin> set l"
  shows "lines (l @ NEWLINE # rest) = strip_cr l # lines rest"
proof -
  have split: "split_on NEWLINE (l @ NEWLINE # rest) = l # split_on NEWLINE rest" using assms by (rule split_on_append)
  have "split_on NEWLINE rest \<noteq> []" unfolding split_on_def by (cases rest) (auto split: list.splits)
  then show ?thesis by (simp add: lines_def split Let_def)
qed

text \<open>Only a validated id is ever taken from an event.\<close>

lemma event_container_safe:
  "event_container from_str line = Some cid \<Longrightarrow>
     ID_MIN_LEN \<le> length (id_str cid) \<and> list_all (\<lambda>c. is_ascii_digit c \<or> c \<in> set ''abcdef'') (id_str cid)"
  by (auto simp: event_container_def split: option.splits sum.splits dest: container_id_ok)

text \<open>A capped stream keeps complete lines only.\<close>

lemma stream_text_prefix: "\<exists>rest. bytes = stream_text bytes capped @ rest"
proof (cases capped)
  case True
  have "bytes = rev (takeWhile (\<lambda>c. c \<noteq> CHR 0x0A) (rev bytes) @ dropWhile (\<lambda>c. c \<noteq> CHR 0x0A) (rev bytes))"
    by (simp only: takeWhile_dropWhile_id rev_rev_ident)
  then show ?thesis unfolding rev_append using True by (auto simp: stream_text_def)
qed (simp add: stream_text_def)

lemma stream_text_complete:
  assumes "stream_text bytes True \<noteq> []"
  shows "last (stream_text bytes True) = CHR 0x0A"
proof -
  have "dropWhile (\<lambda>c. c \<noteq> CHR 0x0A) (rev bytes) \<noteq> []" using assms by (simp add: stream_text_def)
  then show ?thesis using hd_dropWhile [of "\<lambda>c. c \<noteq> CHR 0x0A" "rev bytes"] by (simp add: stream_text_def last_rev)
qed

text \<open>The message of a failed \<open>logs\<close> call never repeats what the container wrote: its lines start with a timestamp.\<close>

lemma logs_failure_hides_output:
  assumes "logs_failure status stderr = ContainerGone status' (Some d) \<or> logs_failure status stderr = LogsFailed status' (Some d)"
  shows "\<exists>line \<in> set (lines stderr). \<not> is_timestamped (trim line) \<and> d = take DETAIL_CHARS (trim line)"
proof -
  obtain line where line: "find (\<lambda>line. line \<noteq> [] \<and> \<not> is_timestamped line) (map trim (rev (lines stderr))) = Some line"
    and d: "d = take DETAIL_CHARS line"
    using assms by (auto simp: logs_failure_def Let_def failure_summary_def split: if_splits option.splits)
  then obtain i where i: "i < length (map trim (rev (lines stderr)))" "map trim (rev (lines stderr)) ! i = line" "\<not> is_timestamped line"
    by (auto simp: find_Some_iff)
  then have "line \<in> set (map trim (rev (lines stderr)))" using nth_mem by blast
  then show ?thesis using d i(3) by auto
qed

end
