(* ===== verification/Container_Watch.thy ===== *)
theory Container_Watch
  imports Restart_Tally Engine_Streams
begin

text \<open>
  The supervisor's watch over containers: \<open>riku-supervisor/src/containers/\<close> (\<open>listing.rs\<close>, \<open>feed.rs\<close>, \<open>restarts.rs\<close>,
  \<open>candidates.rs\<close>, \<open>watch.rs\<close> and \<open>mod.rs\<close>).

  The record \<open>container_watch\<close> is the struct \<open>ContainerWatch\<close>.  Its channels are queues: \<open>ev_ids\<close> holds the ids the event
  reader has sent, \<open>rt_reports\<close> the reports of finished restarts, and \<open>rt_threads\<close> the restarts whose thread still runs; the
  maps handed to the log thread are listed in \<open>cw_log_updates\<close>.  The engine, JSON, floating point numbers and the spawning
  of processes and threads are the record \<open>watch_env\<close> over a state \<open>'w\<close> of the world.

  A \<open>HashMap\<close> is an ordered map, so its entries are visited in key order, which is one of the orders the code may see.
\<close>

section \<open>State\<close>

instantiation container_id :: linorder
begin

definition less_eq_container_id :: "container_id \<Rightarrow> container_id \<Rightarrow> bool" where
  "less_eq_container_id i j \<longleftrightarrow> id_str i \<le> id_str j"

definition less_container_id :: "container_id \<Rightarrow> container_id \<Rightarrow> bool" where
  "less_container_id i j \<longleftrightarrow> id_str i < id_str j"

instance
  by standard (auto simp: less_eq_container_id_def less_container_id_def intro: container_id.expand)

end

type_synonym known = "(container_id, container_info) btree"

record event_stream =
  ev_ids :: "container_id list"
  ev_ended :: bool

datatype feed = FeedEvents event_stream | Polling

datatype restart_outcome = Restarted | Busy | Gone

record restart_report =
  rp_name :: string
  rp_id :: container_id
  rp_outcome :: "(string, restart_outcome) result"

record restart_request =
  rq_name :: string
  rq_id :: container_id
  rq_app :: string
  rq_service :: string
  rq_copy :: u32

record restarts =
  rt_reports :: "restart_report list"
  rt_threads :: "restart_request list"
  rt_in_flight :: "(string, container_id) btree"

record 'f container_watch =
  cw_feed :: feed
  cw_known :: known
  cw_samples :: "(string, 'f container_stats) btree"
  cw_tally :: restart_tally
  cw_restarts :: restarts
  cw_adopted :: bool
  cw_last_listing :: "instant option"
  cw_log_updates :: "known list"

record ('w, 'f) watch_env =
  we_engine :: "'w engine"
  we_floats :: "'f floats"
  we_from_str :: "string \<Rightarrow> json option"
  we_open_events :: "string list \<Rightarrow> 'w \<Rightarrow> (string, unit) result \<times> 'w"
  we_spawn :: "restart_request \<Rightarrow> 'w \<Rightarrow> (string, unit) result \<times> 'w"

definition CONTAINER_STATS_INTERVAL :: duration where
  "CONTAINER_STATS_INTERVAL = from_secs 30"

definition restarts_new :: restarts where
  "restarts_new = \<lparr>rt_reports = [], rt_threads = [], rt_in_flight = []\<rparr>"

definition watch_new :: "'f container_watch" where
  "watch_new = \<lparr>cw_feed = Polling, cw_known = [], cw_samples = [], cw_tally = tally_new, cw_restarts = restarts_new,
     cw_adopted = False, cw_last_listing = None, cw_log_updates = []\<rparr>"

definition request_listing :: "'f container_watch \<Rightarrow> 'f container_watch" where
  "request_listing watch = watch\<lparr>cw_last_listing := None\<rparr>"

section \<open>listing.rs and feed.rs\<close>

definition state_is_running :: "container_state \<Rightarrow> bool" where
  "state_is_running state \<longleftrightarrow> state = Running \<or> state = Starting \<or> state = StateUnhealthy"

definition running_ids :: "known \<Rightarrow> container_id list" where
  "running_ids known = map ci_id (filter (\<lambda>info. state_is_running (ci_state info)) (map snd known))"

definition remember :: "known \<Rightarrow> container_info \<Rightarrow> known" where
  "remember known info =
     bt_insert (ci_id info) info (filter (\<lambda>(i, other). ci_name other \<noteq> ci_name info \<or> i = ci_id info) known)"

fun remember_all :: "known \<Rightarrow> container_info list \<Rightarrow> known" where
  "remember_all known [] = known"
| "remember_all known (info # infos) = remember_all (remember known info) infos"

definition merge_inspected :: "known \<Rightarrow> container_id list \<Rightarrow> container_info list \<Rightarrow> known" where
  "merge_inspected known asked infos =
     (let present = map ci_id infos
      in remember_all (fold (\<lambda>i known. if i \<notin> set present then bt_remove i known else known) asked known) infos)"

definition take_listing :: "('w, 'f) watch_env \<Rightarrow> known \<Rightarrow> 'w \<Rightarrow> (bool \<times> known) \<times> 'w" where
  "take_listing env known w =
     (case list_riku (we_engine env) w of
        (Inl e, w1) \<Rightarrow> ((False, known), w1)
      | (Inr ids, w1) \<Rightarrow>
          (case inspect (we_engine env) ids w1 of
             (Inl e, w2) \<Rightarrow> ((False, known), w2)
           | (Inr infos, w2) \<Rightarrow> ((True, remember_all [] infos), w2)))"

definition sample_stats ::
  "('w, 'f) watch_env \<Rightarrow> known \<Rightarrow> (string, 'f container_stats) btree \<Rightarrow> 'w \<Rightarrow> (string, 'f container_stats) btree \<times> 'w" where
  "sample_stats env known samples w =
     (let running = running_ids known
      in if running = [] then ([], w)
         else case engine_stats (we_floats env) (we_from_str env) (we_engine env) running w of
                (Inr fresh, w') \<Rightarrow> (bt_collect (map (\<lambda>s. (st_id s, s)) fresh), w')
              | (Inl e, w') \<Rightarrow> (samples, w'))"

definition stream_new :: event_stream where
  "stream_new = \<lparr>ev_ids = [], ev_ended = False\<rparr>"

text \<open>The reader thread: one line of the event child, and its end.\<close>

definition stream_line :: "(string \<Rightarrow> json option) \<Rightarrow> event_stream \<Rightarrow> string \<Rightarrow> event_stream" where
  "stream_line from_str stream line =
     (case event_container from_str line of
        Some cid \<Rightarrow> (if ev_ended stream then stream else stream\<lparr>ev_ids := ev_ids stream @ [cid]\<rparr>)
      | None \<Rightarrow> stream)"

definition stream_drain :: "event_stream \<Rightarrow> container_id list \<times> bool \<times> event_stream" where
  "stream_drain stream = (ev_ids stream, ev_ended stream, stream\<lparr>ev_ids := []\<rparr>)"

definition drain_events :: "('w, 'f) watch_env \<Rightarrow> feed \<Rightarrow> known \<Rightarrow> 'w \<Rightarrow> (bool \<times> feed \<times> known) \<times> 'w" where
  "drain_events env feed known w =
     (case feed of
        Polling \<Rightarrow> ((False, feed, known), w)
      | FeedEvents stream \<Rightarrow>
          (case stream_drain stream of
             (drained, closed, stream') \<Rightarrow>
               let feed' = (if closed then Polling else FeedEvents stream');
                   ids = remdups drained
               in if ids = [] then ((False, feed', known), w)
                  else case inspect (we_engine env) ids w of
                         (Inr infos, w') \<Rightarrow> ((True, feed', merge_inspected known ids infos), w')
                       | (Inl e, w') \<Rightarrow> ((False, feed', known), w')))"

section \<open>restarts.rs\<close>

definition is_in_flight :: "restarts \<Rightarrow> string \<Rightarrow> bool" where
  "is_in_flight restarts name \<longleftrightarrow> bt_get (rt_in_flight restarts) name \<noteq> None"

definition replaced :: "restarts \<Rightarrow> string \<Rightarrow> container_id \<Rightarrow> bool" where
  "replaced restarts name cid \<longleftrightarrow>
     (case bt_get (rt_in_flight restarts) name of Some dead \<Rightarrow> dead \<noteq> cid | None \<Rightarrow> False)"

definition restart_names :: "restarts \<Rightarrow> string list" where
  "restart_names restarts = bt_keys (rt_in_flight restarts)"

definition collect :: "restarts \<Rightarrow> restart_report list \<times> restarts" where
  "collect restarts =
     (rt_reports restarts,
      restarts\<lparr>rt_reports := [],
        rt_in_flight := fold (\<lambda>report. bt_remove (rp_name report)) (rt_reports restarts) (rt_in_flight restarts)\<rparr>)"

datatype dispatch_error = NoAppLabel | NoServiceLabel | NoCopyLabel | SpawnFailed string

definition dispatch ::
  "('w, 'f) watch_env \<Rightarrow> restarts \<Rightarrow> container_info \<Rightarrow> 'w \<Rightarrow> ((dispatch_error, unit) result \<times> restarts) \<times> 'w" where
  "dispatch env restarts info w =
     (case ci_app info of
        None \<Rightarrow> ((Inl NoAppLabel, restarts), w)
      | Some app \<Rightarrow>
          (case ci_service info of
             None \<Rightarrow> ((Inl NoServiceLabel, restarts), w)
           | Some service \<Rightarrow>
               (case ci_copy info of
                  None \<Rightarrow> ((Inl NoCopyLabel, restarts), w)
                | Some copy \<Rightarrow>
                    let request = \<lparr>rq_name = ci_name info, rq_id = ci_id info, rq_app = app,
                          rq_service = service_str service, rq_copy = copy_get copy\<rparr>;
                        restarts = restarts\<lparr>rt_in_flight := bt_insert (ci_name info) (ci_id info) (rt_in_flight restarts)\<rparr>
                    in case we_spawn env request w of
                         (Inr _, w') \<Rightarrow> ((Inr (), restarts\<lparr>rt_threads := rt_threads restarts @ [request]\<rparr>), w')
                       | (Inl e, w') \<Rightarrow>
                           ((Inl (SpawnFailed e),
                             restarts\<lparr>rt_in_flight := bt_remove (ci_name info) (rt_in_flight restarts)\<rparr>), w'))))"

text \<open>The end of a restart thread: \<open>restart_copy\<close> returned and its report is sent.\<close>

definition thread_done :: "restarts \<Rightarrow> nat \<Rightarrow> (string, restart_outcome) result \<Rightarrow> restarts" where
  "thread_done restarts i outcome =
     (let request = rt_threads restarts ! i
      in restarts\<lparr>rt_threads := take i (rt_threads restarts) @ drop (Suc i) (rt_threads restarts),
           rt_reports := rt_reports restarts
             @ [\<lparr>rp_name = rq_name request, rp_id = rq_id request, rp_outcome = outcome\<rparr>]\<rparr>)"

section \<open>candidates.rs\<close>

definition info_policy :: "container_info \<Rightarrow> restart_policy_label" where
  "info_policy info =
     (case ci_restart info of
        Some raw \<Rightarrow> (case restart_label_try_from raw of Some policy \<Rightarrow> policy | None \<Rightarrow> LabelNo)
      | None \<Rightarrow> LabelNo)"

definition exit_code :: "container_info \<Rightarrow> int option" where
  "exit_code info =
     (case (ci_state info, ci_app info, ci_service info, ci_copy info) of
        (Exited code, Some _, Some _, Some _) \<Rightarrow> Some code
      | _ \<Rightarrow> None)"

fun apply_report :: "instant \<Rightarrow> restart_report \<Rightarrow> restart_tally \<times> known \<Rightarrow> restart_tally \<times> known" where
  "apply_report now report (tally, known) =
     (case rp_outcome report of
        Inr Busy \<Rightarrow> (tally, known)
      | Inr Gone \<Rightarrow> (tally, bt_remove (rp_id report) known)
      | Inr Restarted \<Rightarrow> (record_restart tally (rp_name report) now, bt_remove (rp_id report) known)
      | Inl e \<Rightarrow> (record_restart tally (rp_name report) now, bt_remove (rp_id report) known))"

definition collect_reports ::
  "restarts \<Rightarrow> restart_tally \<Rightarrow> known \<Rightarrow> instant \<Rightarrow> restarts \<times> restart_tally \<times> known" where
  "collect_reports restarts tally known now =
     (case collect restarts of (reports, restarts') \<Rightarrow> (restarts', fold (apply_report now) reports (tally, known)))"

definition restartable :: "restart_tally \<Rightarrow> restarts \<Rightarrow> instant \<Rightarrow> container_info \<Rightarrow> bool" where
  "restartable tally restarts now info \<longleftrightarrow>
     \<not> is_in_flight restarts (ci_name info)
     \<and> (case exit_code info of
          Some code \<Rightarrow> should_restart (info_policy info) code (tally_count tally (ci_name info))
        | None \<Rightarrow> False)
     \<and> tally_due tally (ci_name info) now"

definition find_candidates :: "known \<Rightarrow> restart_tally \<Rightarrow> restarts \<Rightarrow> instant \<Rightarrow> container_id list" where
  "find_candidates known tally restarts now =
     map ci_id (filter (restartable tally restarts now) (map snd known))"

fun dispatch_each :: "('w, 'f) watch_env \<Rightarrow> restarts \<Rightarrow> known \<Rightarrow> container_id list \<Rightarrow> 'w \<Rightarrow> restarts \<times> 'w" where
  "dispatch_each env restarts known [] w = (restarts, w)"
| "dispatch_each env restarts known (i # ids) w =
     (case bt_get known i of
        None \<Rightarrow> dispatch_each env restarts known ids w
      | Some info \<Rightarrow>
          (case exit_code info of
             None \<Rightarrow> dispatch_each env restarts known ids w
           | Some code \<Rightarrow>
               (case dispatch env restarts info w of
                  ((_, restarts'), w') \<Rightarrow> dispatch_each env restarts' known ids w')))"

definition dispatch_restarts ::
  "('w, 'f) watch_env \<Rightarrow> restarts \<Rightarrow> known \<Rightarrow> container_id list \<Rightarrow> 'w \<Rightarrow> (restarts \<times> known) \<times> 'w" where
  "dispatch_restarts env restarts known candidates w =
     (if candidates = [] then ((restarts, known), w)
      else case inspect (we_engine env) candidates w of
             (Inl e, w1) \<Rightarrow> ((restarts, known), w1)
           | (Inr infos, w1) \<Rightarrow>
               (let known' = merge_inspected known candidates infos
                in case dispatch_each env restarts known' candidates w1 of
                     (restarts', w2) \<Rightarrow> ((restarts', known'), w2)))"

section \<open>watch.rs\<close>

definition open_feed :: "('w, 'f) watch_env \<Rightarrow> known \<Rightarrow> 'w \<Rightarrow> feed \<times> 'w" where
  "open_feed env known w =
     (if known = [] then (Polling, w)
      else case has_events (we_engine env) w of
             (False, w1) \<Rightarrow> (Polling, w1)
           | (True, w1) \<Rightarrow>
               (case we_open_events env events_command w1 of
                  (Inr _, w2) \<Rightarrow> (FeedEvents stream_new, w2)
                | (Inl e, w2) \<Rightarrow> (Polling, w2)))"

definition listing_due :: "instant option \<Rightarrow> instant \<Rightarrow> bool" where
  "listing_due previous now =
     (case previous of Some t \<Rightarrow> CONTAINER_STATS_INTERVAL \<le> now - t | None \<Rightarrow> True)"

definition has_copy_labels :: "container_info \<Rightarrow> bool" where
  "has_copy_labels info \<longleftrightarrow> ci_app info \<noteq> None \<and> ci_service info \<noteq> None \<and> ci_copy info \<noteq> None"

fun observe_each :: "restarts \<Rightarrow> container_info list \<Rightarrow> restart_tally \<Rightarrow> restart_tally" where
  "observe_each restarts [] tally = tally"
| "observe_each restarts (info # infos) tally =
     observe_each restarts infos
       (if has_copy_labels info \<and> \<not> is_in_flight restarts (ci_name info)
        then tally_observe tally (ci_name info) (ci_id info) else tally)"

definition observe_copies :: "restart_tally \<Rightarrow> known \<Rightarrow> restarts \<Rightarrow> restart_tally" where
  "observe_copies tally known restarts =
     (let infos = map snd known;
          names = set (map ci_name (filter has_copy_labels infos)) \<union> set (restart_names restarts)
      in forget_missing (observe_each restarts infos tally) names)"

definition match_feed_to_containers :: "('w, 'f) watch_env \<Rightarrow> 'f container_watch \<Rightarrow> 'w \<Rightarrow> 'f container_watch \<times> 'w" where
  "match_feed_to_containers env watch w =
     (case (cw_feed watch, cw_known watch = []) of
        (Polling, False) \<Rightarrow>
          (case open_feed env (cw_known watch) w of (feed, w') \<Rightarrow> (watch\<lparr>cw_feed := feed\<rparr>, w'))
      | (FeedEvents _, True) \<Rightarrow> (watch\<lparr>cw_feed := Polling\<rparr>, w)
      | _ \<Rightarrow> (watch, w))"

definition logs_update :: "'f container_watch \<Rightarrow> 'f container_watch" where
  "logs_update watch = watch\<lparr>cw_log_updates := cw_log_updates watch @ [cw_known watch]\<rparr>"

definition listing_with_stats :: "('w, 'f) watch_env \<Rightarrow> 'f container_watch \<Rightarrow> 'w \<Rightarrow> (bool \<times> 'f container_watch) \<times> 'w" where
  "listing_with_stats env watch w =
     (case take_listing env (cw_known watch) w of
        ((False, known), w1) \<Rightarrow> ((False, watch\<lparr>cw_known := known\<rparr>), w1)
      | ((True, known), w1) \<Rightarrow>
          (case sample_stats env known (cw_samples watch) w1 of
             (samples, w2) \<Rightarrow> ((True, watch\<lparr>cw_known := known, cw_samples := samples\<rparr>), w2)))"

definition adopt :: "('w, 'f) watch_env \<Rightarrow> 'f container_watch \<Rightarrow> instant \<Rightarrow> 'w \<Rightarrow> 'f container_watch \<times> 'w" where
  "adopt env watch now w =
     (case listing_with_stats env watch w of
        ((listed, watch1), w1) \<Rightarrow>
          (case match_feed_to_containers env (if listed then watch1\<lparr>cw_last_listing := Some now\<rparr> else watch1) w1 of
             (watch2, w2) \<Rightarrow> ((logs_update watch2)\<lparr>cw_adopted := True\<rparr>, w2)))"

definition refresh :: "('w, 'f) watch_env \<Rightarrow> 'f container_watch \<Rightarrow> instant \<Rightarrow> 'w \<Rightarrow> 'f container_watch \<times> 'w" where
  "refresh env watch now w =
     (case drain_events env (cw_feed watch) (cw_known watch) w of
        ((_, feed, known), w1) \<Rightarrow>
          (let watch1 = watch\<lparr>cw_feed := feed, cw_known := known\<rparr>
           in if listing_due (cw_last_listing watch1) now
              then (case listing_with_stats env watch1 w1 of
                      ((_, watch2), w2) \<Rightarrow>
                        (case match_feed_to_containers env watch2 w2 of
                           (watch3, w3) \<Rightarrow> (logs_update (watch3\<lparr>cw_last_listing := Some now\<rparr>), w3)))
              else (logs_update watch1, w1)))"

definition reconcile :: "('w, 'f) watch_env \<Rightarrow> 'f container_watch \<Rightarrow> instant \<Rightarrow> 'w \<Rightarrow> 'f container_watch \<times> 'w" where
  "reconcile env watch now w =
     (case collect_reports (cw_restarts watch) (cw_tally watch) (cw_known watch) now of
        (restarts, tally, known) \<Rightarrow>
          (let watch1 = watch\<lparr>cw_restarts := restarts, cw_tally := tally, cw_known := known\<rparr>
           in case (if cw_adopted watch1 then refresh env watch1 now w else adopt env watch1 now w) of
                (watch2, w2) \<Rightarrow>
                  (let watch3 = watch2\<lparr>cw_tally := observe_copies (cw_tally watch2) (cw_known watch2) (cw_restarts watch2)\<rparr>;
                       candidates = find_candidates (cw_known watch3) (cw_tally watch3) (cw_restarts watch3) now
                   in case dispatch_restarts env (cw_restarts watch3) (cw_known watch3) candidates w2 of
                        ((restarts', known'), w3) \<Rightarrow> (watch3\<lparr>cw_restarts := restarts', cw_known := known'\<rparr>, w3))))"

definition apply_events :: "('w, 'f) watch_env \<Rightarrow> 'f container_watch \<Rightarrow> 'w \<Rightarrow> (bool \<times> 'f container_watch) \<times> 'w" where
  "apply_events env watch w =
     (if \<not> cw_adopted watch then ((False, watch), w)
      else case drain_events env (cw_feed watch) (cw_known watch) w of
             ((changed, feed, known), w') \<Rightarrow> ((changed, watch\<lparr>cw_feed := feed, cw_known := known\<rparr>), w'))"

section \<open>Interleavings\<close>

text \<open>
  What can happen to a watch: a tick of the supervisor, the events between ticks, a request for a listing, and what the
  other threads and the host do meanwhile.
\<close>

inductive watch_step :: "('w, 'f) watch_env \<Rightarrow> 'f container_watch \<times> 'w \<Rightarrow> 'f container_watch \<times> 'w \<Rightarrow> bool"
  for env where
  step_tick: "watch_step env (watch, w) (reconcile env watch now w)"
| step_events: "watch_step env (watch, w) (snd (fst (apply_events env watch w)), snd (apply_events env watch w))"
| step_request: "watch_step env (watch, w) (request_listing watch, w)"
| step_thread: "i < length (rt_threads (cw_restarts watch)) \<Longrightarrow>
    watch_step env (watch, w) (watch\<lparr>cw_restarts := thread_done (cw_restarts watch) i outcome\<rparr>, w)"
| step_line: "cw_feed watch = FeedEvents stream \<Longrightarrow>
    watch_step env (watch, w) (watch\<lparr>cw_feed := FeedEvents (stream_line (we_from_str env) stream line)\<rparr>, w)"
| step_end: "cw_feed watch = FeedEvents stream \<Longrightarrow>
    watch_step env (watch, w) (watch\<lparr>cw_feed := FeedEvents (stream\<lparr>ev_ended := True\<rparr>)\<rparr>, w)"
| step_world: "watch_step env (watch, w) (watch, w')"

inductive_cases watch_stepE: "watch_step env (watch, w) s"

definition watch_start :: "'f container_watch \<times> 'w \<Rightarrow> bool" where
  "watch_start s \<longleftrightarrow> fst s = watch_new"

end
