(* ===== verification/Watch_Safety.thy ===== *)
theory Watch_Safety
  imports Container_Watch
begin

text \<open>
  What the container watch guarantees in every interleaving of its ticks with the engine's events and with the restart
  threads: the view of containers and the table of running restarts are consistent, a container never has two restarts at
  once, the limit of an \<open>on-failure\<close> policy is kept, and a tick restarts exactly the dead copies whose policy and delay
  allow it.
\<close>

section \<open>The view of containers\<close>

definition known_ok :: "(container_info \<Rightarrow> bool) \<Rightarrow> known \<Rightarrow> bool" where
  "known_ok P known \<longleftrightarrow>
     bt_ok known \<and> (\<forall>(i, info) \<in> set known. ci_id info = i \<and> P info)
     \<and> (\<forall>(i, info) \<in> set known. \<forall>(j, other) \<in> set known. ci_name info = ci_name other \<longrightarrow> i = j)"

lemma known_okI:
  assumes "bt_ok known" and "\<And>i info. (i, info) \<in> set known \<Longrightarrow> ci_id info = i \<and> P info"
    and "\<And>i info j other. (i, info) \<in> set known \<Longrightarrow> (j, other) \<in> set known \<Longrightarrow> ci_name info = ci_name other \<Longrightarrow> i = j"
  shows "known_ok P known"
  using assms unfolding known_ok_def by fast

lemma known_okD:
  assumes "known_ok P known"
  shows "bt_ok known" and "(i, info) \<in> set known \<Longrightarrow> ci_id info = i \<and> P info"
    and "(i, info) \<in> set known \<Longrightarrow> (j, other) \<in> set known \<Longrightarrow> ci_name info = ci_name other \<Longrightarrow> i = j"
  using assms unfolding known_ok_def by fast+

lemma known_ok_empty: "known_ok P []"
  by (simp add: known_ok_def bt_ok_def)

lemma known_ok_filter:
  assumes "known_ok P known"
  shows "known_ok P (filter Q known)"
proof (rule known_okI)
  show "bt_ok (filter Q known)" by (rule bt_ok_filter [OF known_okD(1) [OF assms]])
qed (use known_okD [OF assms] in auto)

lemma known_ok_remove: "known_ok P known \<Longrightarrow> known_ok P (bt_remove i known)"
  unfolding bt_remove_def by (rule known_ok_filter)

lemma known_ok_remember:
  assumes "known_ok P known" and "P info"
  shows "known_ok P (remember known info)"
proof (rule known_okI)
  let ?rest = "filter (\<lambda>(i, other). ci_name other \<noteq> ci_name info \<or> i = ci_id info) known"
  have rest: "bt_ok ?rest" by (rule bt_ok_filter [OF known_okD(1) [OF assms(1)]])
  show ok: "bt_ok (remember known info)" unfolding remember_def by (rule bt_ok_insert [OF rest])
  have mem: "(i, x) \<in> set (remember known info) \<longleftrightarrow>
      (if i = ci_id info then x = info else (i, x) \<in> set known \<and> ci_name x \<noteq> ci_name info)" for i x
    unfolding bt_get_eq_Some [OF ok, symmetric] unfolding remember_def bt_get_insert
    using bt_get_eq_Some [OF rest, of i x] by auto
  show "ci_id x = i \<and> P x" if "(i, x) \<in> set (remember known info)" for i x
    using that assms(2) known_okD(2) [OF assms(1)] by (auto simp: mem split: if_splits)
  show "i = j" if "(i, x) \<in> set (remember known info)" "(j, y) \<in> set (remember known info)" "ci_name x = ci_name y" for i x j y
    using that known_okD(3) [OF assms(1)] by (auto simp: mem split: if_splits)
qed

lemma known_ok_remember_all:
  "known_ok P known \<Longrightarrow> \<forall>info \<in> set infos. P info \<Longrightarrow> known_ok P (remember_all known infos)"
  by (induction infos arbitrary: known) (simp_all add: known_ok_remember)

lemma known_ok_fold_remove:
  "known_ok P known \<Longrightarrow> known_ok P (fold (\<lambda>i known. if i \<notin> set present then bt_remove i known else known) asked known)"
  by (induction asked arbitrary: known) (simp_all add: known_ok_remove)

lemma known_ok_merge:
  "known_ok P known \<Longrightarrow> \<forall>info \<in> set infos. P info \<Longrightarrow> known_ok P (merge_inspected known asked infos)"
  unfolding merge_inspected_def Let_def by (intro known_ok_remember_all known_ok_fold_remove)

text \<open>What every reading of the engine satisfies.\<close>

definition readings_satisfy :: "('w, 'f) watch_env \<Rightarrow> (container_info \<Rightarrow> bool) \<Rightarrow> bool" where
  "readings_satisfy env P \<longleftrightarrow>
     (\<forall>ids w infos w'. inspect (we_engine env) ids w = (Inr infos, w') \<longrightarrow> (\<forall>info \<in> set infos. P info))"

lemma readingsD: "readings_satisfy env P \<Longrightarrow> inspect (we_engine env) ids w = (Inr infos, w') \<Longrightarrow> \<forall>info \<in> set infos. P info"
  unfolding readings_satisfy_def by blast

lemma known_ok_listing:
  assumes "readings_satisfy env P" and "known_ok P known"
  shows "known_ok P (snd (fst (take_listing env known w)))"
  using assms(2) readingsD [OF assms(1)]
  by (auto simp: take_listing_def intro!: known_ok_remember_all known_ok_empty split: prod.splits sum.splits)

lemma known_ok_events:
  assumes "readings_satisfy env P" and "known_ok P known"
  shows "known_ok P (snd (snd (fst (drain_events env feed known w))))"
  using assms(2) readingsD [OF assms(1)]
  by (auto simp: drain_events_def Let_def intro!: known_ok_merge split: feed.splits prod.splits sum.splits)

section \<open>The table of restarts\<close>

definition unfinished :: "restarts \<Rightarrow> string list" where
  "unfinished r = map rq_name (rt_threads r) @ map rp_name (rt_reports r)"

definition restarts_ok :: "restarts \<Rightarrow> bool" where
  "restarts_ok r \<longleftrightarrow>
     bt_ok (rt_in_flight r) \<and> distinct (unfinished r) \<and> set (unfinished r) = {n. is_in_flight r n}"

lemma restarts_ok_new: "restarts_ok restarts_new"
  by (simp add: restarts_ok_def restarts_new_def unfinished_def is_in_flight_def bt_ok_def bt_get_def)

lemma bt_get_fold_remove: "bt_get (fold (\<lambda>x. bt_remove (key x)) xs m) k = (if k \<in> key ` set xs then None else bt_get m k)"
  by (induction xs arbitrary: m) (auto simp: bt_get_remove)

lemma bt_ok_fold_remove: "bt_ok m \<Longrightarrow> bt_ok (fold (\<lambda>x. bt_remove (key x)) xs m)"
  by (induction xs arbitrary: m) (simp_all add: bt_ok_remove)

lemma collect_flight:
  assumes "collect r = (reports, r')"
  shows "is_in_flight r' n \<longleftrightarrow> is_in_flight r n \<and> n \<notin> rp_name ` set reports"
  using assms by (auto simp: collect_def is_in_flight_def bt_get_fold_remove split: if_splits)

lemma restarts_ok_collect:
  assumes "restarts_ok r" and "collect r = (reports, r')"
  shows "restarts_ok r'"
proof -
  have r': "rt_threads r' = rt_threads r" "rt_reports r' = []" "reports = rt_reports r" "bt_ok (rt_in_flight r')"
    using assms by (auto simp: collect_def restarts_ok_def bt_ok_fold_remove)
  have "set (unfinished r') = {n. is_in_flight r' n}"
    using assms(1) by (auto simp: restarts_ok_def unfinished_def r' collect_flight [OF assms(2)])
  then show ?thesis using assms(1) r' by (simp add: restarts_ok_def unfinished_def)
qed

text \<open>A dispatch changes nothing visible, or starts one thread for the name of the container.\<close>

lemma dispatch_cases:
  assumes "dispatch env r info w = ((res, r'), w')" and "restarts_ok r" and "\<not> is_in_flight r (ci_name info)"
  obtains (nothing) "unfinished r' = unfinished r" "bt_ok (rt_in_flight r')" "\<And>n. is_in_flight r' n \<longleftrightarrow> is_in_flight r n" "is_ok res = False"
  | (started) req where "rq_name req = ci_name info" "rq_id req = ci_id info" "rt_threads r' = rt_threads r @ [req]"
      "rt_reports r' = rt_reports r" "rt_in_flight r' = bt_insert (ci_name info) (ci_id info) (rt_in_flight r)"
proof (cases "ci_app info = None \<or> ci_service info = None \<or> ci_copy info = None")
  case True
  then have "r' = r" "is_ok res = False" using assms(1) by (auto simp: dispatch_def split: option.splits)
  moreover have "bt_ok (rt_in_flight r)" using assms(2) by (simp add: restarts_ok_def)
  ultimately show ?thesis by - (rule nothing, simp_all)
next
  case False
  then obtain app service copy where labels: "ci_app info = Some app" "ci_service info = Some service" "ci_copy info = Some copy" by auto
  let ?req = "\<lparr>rq_name = ci_name info, rq_id = ci_id info, rq_app = app, rq_service = service_str service, rq_copy = copy_get copy\<rparr>"
  obtain sp w1 where sp: "we_spawn env ?req w = (sp, w1)" by (cases "we_spawn env ?req w")
  show ?thesis
  proof (cases sp)
    case (Inl e)
    then have r': "r' = r\<lparr>rt_in_flight := bt_remove (ci_name info) (bt_insert (ci_name info) (ci_id info) (rt_in_flight r))\<rparr>" "is_ok res = False"
      using assms(1) labels sp by (auto simp: dispatch_def Let_def)
    then have "is_in_flight r' n \<longleftrightarrow> is_in_flight r n" for n
      using assms(3) by (simp add: is_in_flight_def bt_get_insert bt_get_remove)
    moreover have "unfinished r' = unfinished r" by (simp add: r' unfinished_def)
    moreover have "bt_ok (rt_in_flight r')" using assms(2) by (simp add: r' restarts_ok_def bt_ok_insert bt_ok_remove)
    ultimately show ?thesis using r'(2) by - (rule nothing)
  next
    case (Inr u)
    then show ?thesis using started [of ?req] assms(1) labels sp by (auto simp: dispatch_def Let_def)
  qed
qed

lemma in_flight_insert: "rt_in_flight r' = bt_insert n i (rt_in_flight r) \<Longrightarrow> is_in_flight r' m \<longleftrightarrow> m = n \<or> is_in_flight r m"
  by (simp add: is_in_flight_def bt_get_insert)

lemma restarts_ok_dispatch:
  assumes "restarts_ok r" and "\<not> is_in_flight r (ci_name info)" and "dispatch env r info w = ((res, r'), w')"
  shows "restarts_ok r'" and "is_in_flight r' n \<Longrightarrow> is_in_flight r n \<or> n = ci_name info"
proof -
  have fresh: "ci_name info \<notin> set (unfinished r)" using assms(1,2) by (auto simp: restarts_ok_def)
  have "restarts_ok r' \<and> (is_in_flight r' n \<longrightarrow> is_in_flight r n \<or> n = ci_name info)"
    using assms(3,1,2)
  proof (cases rule: dispatch_cases)
    case nothing
    then show ?thesis using assms(1) by (simp add: restarts_ok_def)
  next
    case (started req)
    have names: "mset (unfinished r') = add_mset (ci_name info) (mset (unfinished r))"
      by (simp add: unfinished_def started)
    then have "distinct (unfinished r')" "set (unfinished r') = insert (ci_name info) (set (unfinished r))"
      using fresh assms(1) by (metis distinct.simps(2) mset.simps(2) mset_eq_imp_distinct_iff restarts_ok_def,
          metis set_mset_add_mset_insert set_mset_mset)
    then show ?thesis
      using assms(1) started(5) in_flight_insert [OF started(5)] by (auto simp: restarts_ok_def bt_ok_insert)
  qed
  then show "restarts_ok r'" and "is_in_flight r' n \<Longrightarrow> is_in_flight r n \<or> n = ci_name info" by auto
qed

lemma restarts_ok_dispatch_each:
  "restarts_ok r \<Longrightarrow> \<forall>i \<in> set ids. \<not> is_in_flight r (name_of i) \<Longrightarrow> distinct (map name_of ids) \<Longrightarrow>
     known_ok P known \<Longrightarrow> (\<And>info. P info \<Longrightarrow> ci_name info = name_of (ci_id info)) \<Longrightarrow>
     dispatch_each env r known ids w = (r', w') \<Longrightarrow>
     restarts_ok r' \<and> (\<forall>n. is_in_flight r' n \<longrightarrow> is_in_flight r n \<or> n \<in> name_of ` set ids)"
proof (induction ids arbitrary: r w)
  case (Cons i ids)
  show ?case
  proof (cases "Option.bind (bt_get known i) exit_code")
    case None
    then have "dispatch_each env r known ids w = (r', w')"
      using Cons.prems(6) by (auto split: option.splits)
    then show ?thesis using Cons.IH [OF Cons.prems(1)] Cons.prems(2-5) by auto
  next
    case (Some code)
    then obtain info where info: "bt_get known i = Some info" "exit_code info = Some code"
      by (auto simp: bind_eq_Some_conv)
    obtain res r1 w1 where d: "dispatch env r info w = ((res, r1), w1)" by (metis prod.exhaust)
    have rest: "dispatch_each env r1 known ids w1 = (r', w')" using Cons.prems(6) info d by simp
    have nm: "ci_name info = name_of i"
      using known_okD(2) [OF Cons.prems(4) bt_get_Some_in [OF info(1)]] Cons.prems(5) by auto
    have fresh: "\<not> is_in_flight r (ci_name info)" using Cons.prems(2) nm by simp
    note step = restarts_ok_dispatch [OF Cons.prems(1) fresh d]
    have "\<not> is_in_flight r1 (name_of j)" if j: "j \<in> set ids" for j
    proof
      assume "is_in_flight r1 (name_of j)"
      then have "is_in_flight r (name_of j) \<or> name_of j = name_of i" using step(2) nm by simp
      then show False using Cons.prems(2,3) j by (auto simp: image_iff)
    qed
    then have "restarts_ok r' \<and> (\<forall>n. is_in_flight r' n \<longrightarrow> is_in_flight r1 n \<or> n \<in> name_of ` set ids)"
      using Cons.IH [OF step(1) _ _ Cons.prems(4,5) rest] Cons.prems(3) by simp
    then show ?thesis using step(2) nm by auto
  qed
qed simp

section \<open>Ticks\<close>

definition watch_ok :: "(container_info \<Rightarrow> bool) \<Rightarrow> 'f container_watch \<Rightarrow> bool" where
  "watch_ok P watch \<longleftrightarrow> known_ok P (cw_known watch) \<and> restarts_ok (cw_restarts watch) \<and> bt_ok (cw_tally watch)"

text \<open>Updating the view leaves restarts and tally alone.\<close>

definition same_ledger :: "'f container_watch \<Rightarrow> 'f container_watch \<Rightarrow> bool" where
  "same_ledger a b \<longleftrightarrow> cw_restarts a = cw_restarts b \<and> cw_tally a = cw_tally b"

lemma match_feed_keeps: "same_ledger (fst (match_feed_to_containers env watch w)) watch
    \<and> cw_known (fst (match_feed_to_containers env watch w)) = cw_known watch"
  by (auto simp: match_feed_to_containers_def same_ledger_def split: feed.splits prod.splits bool.splits)

lemma listing_with_stats_keeps:
  assumes "readings_satisfy env P" and "known_ok P (cw_known watch)"
  shows "same_ledger (snd (fst (listing_with_stats env watch w))) watch
    \<and> known_ok P (cw_known (snd (fst (listing_with_stats env watch w))))"
  using known_ok_listing [OF assms, of w]
  by (auto simp: listing_with_stats_def same_ledger_def split: prod.splits bool.splits)

lemma adopt_keeps:
  assumes "readings_satisfy env P" and "known_ok P (cw_known watch)"
  shows "same_ledger (fst (adopt env watch now w)) watch \<and> known_ok P (cw_known (fst (adopt env watch now w)))"
proof -
  obtain listed watch1 w1 where l: "listing_with_stats env watch w = ((listed, watch1), w1)" by (metis prod.exhaust)
  let ?w = "if listed then watch1\<lparr>cw_last_listing := Some now\<rparr> else watch1"
  have "fst (adopt env watch now w) = (logs_update (fst (match_feed_to_containers env ?w w1)))\<lparr>cw_adopted := True\<rparr>"
    by (simp add: adopt_def l split: prod.splits)
  then show ?thesis
    using listing_with_stats_keeps [OF assms, of w] match_feed_keeps [of env ?w w1] l
    by (auto simp: logs_update_def same_ledger_def split: if_splits)
qed

lemma refresh_keeps:
  assumes "readings_satisfy env P" and "known_ok P (cw_known watch)"
  shows "same_ledger (fst (refresh env watch now w)) watch \<and> known_ok P (cw_known (fst (refresh env watch now w)))"
proof -
  obtain changed feed known w1 where e: "drain_events env (cw_feed watch) (cw_known watch) w = ((changed, feed, known), w1)"
    by (metis prod.exhaust)
  let ?w1 = "watch\<lparr>cw_feed := feed, cw_known := known\<rparr>"
  have k: "known_ok P (cw_known ?w1)" using known_ok_events [OF assms, of "cw_feed watch" w] e by simp
  obtain listed watch2 w2 where l: "listing_with_stats env ?w1 w1 = ((listed, watch2), w2)" by (metis prod.exhaust)
  have "fst (refresh env watch now w) =
      (if listing_due (cw_last_listing watch) now
       then logs_update ((fst (match_feed_to_containers env watch2 w2))\<lparr>cw_last_listing := Some now\<rparr>) else logs_update ?w1)"
    by (simp add: refresh_def e l split: prod.splits)
  then show ?thesis
    using listing_with_stats_keeps [OF assms(1) k, of w1] match_feed_keeps [of env watch2 w2] l k
    by (auto simp: logs_update_def same_ledger_def)
qed

lemma fold_reports_known:
  "known_ok P known \<Longrightarrow> fold (apply_report now) reports (t, known) = (t', known') \<Longrightarrow> known_ok P known'"
proof (induction reports arbitrary: t known)
  case (Cons report reports)
  obtain t1 known1 where a: "apply_report now report (t, known) = (t1, known1)" by (metis prod.exhaust)
  have "known_ok P known1"
    using a Cons.prems(1) by (auto intro: known_ok_remove split: sum.splits restart_outcome.splits)
  then show ?case using Cons.IH [of known1 t1] Cons.prems(2) a by simp
qed simp

text \<open>A tick in stages: collect the reports, update the view, observe the copies, dispatch the candidates.\<close>

lemma reconcile_stages:
  assumes "reconcile env watch now w = (watch', w')" and "watch_ok P watch" and "readings_satisfy env P"
  obtains reports r t known seen w2 where "collect (cw_restarts watch) = (reports, r)"
    and "fold (apply_report now) reports (cw_tally watch, cw_known watch) = (t, known)"
    and "known_ok P seen" and "cw_tally watch' = observe_copies t seen r"
    and "dispatch_restarts env r seen (find_candidates seen (cw_tally watch') r now) w2 = ((cw_restarts watch', cw_known watch'), w')"
proof -
  obtain reports r where c: "collect (cw_restarts watch) = (reports, r)" by (metis prod.exhaust)
  obtain t known where f: "fold (apply_report now) reports (cw_tally watch, cw_known watch) = (t, known)" by (metis prod.exhaust)
  let ?w1 = "watch\<lparr>cw_restarts := r, cw_tally := t, cw_known := known\<rparr>"
  have "known_ok P known"
    using fold_reports_known [OF _ f] assms(2) by (simp add: watch_ok_def)
  then have k: "known_ok P (cw_known ?w1)" by simp
  obtain watch2 w2 where s: "(if cw_adopted ?w1 then refresh env ?w1 now w else adopt env ?w1 now w) = (watch2, w2)" by (metis prod.exhaust)
  have keep: "same_ledger watch2 ?w1" "known_ok P (cw_known watch2)"
    using refresh_keeps [OF assms(3) k, of now w] adopt_keeps [OF assms(3) k, of now w] s by (auto split: if_splits)
  let ?t = "observe_copies (cw_tally watch2) (cw_known watch2) (cw_restarts watch2)"
  obtain r' known' w3 where d: "dispatch_restarts env (cw_restarts watch2) (cw_known watch2)
      (find_candidates (cw_known watch2) ?t (cw_restarts watch2) now) w2 = ((r', known'), w3)" by (metis prod.exhaust)
  have "watch' = watch2\<lparr>cw_tally := ?t, cw_restarts := r', cw_known := known'\<rparr>" "w' = w3"
    using assms(1) s d by (simp_all add: reconcile_def collect_reports_def c f Let_def del: if_split)
  then show thesis
    using that [OF c f keep(2)] keep(1) d by (simp add: same_ledger_def)
qed

section \<open>Candidates\<close>

lemma candidates_from:
  assumes "known_ok P known" and "i \<in> set (find_candidates known t r now)"
  obtains info where "bt_get known i = Some info" and "ci_id info = i" and "P info" and "restartable t r now info"
proof -
  obtain j info where "(j, info) \<in> set known" "restartable t r now info" "i = ci_id info"
    using assms(2) by (auto simp: find_candidates_def)
  moreover have "ci_id info = j" "P info" using known_okD(2) [OF assms(1)] calculation(1) by auto
  ultimately show thesis
    using that [of info] bt_get_eq_Some [OF known_okD(1) [OF assms(1)]] by blast
qed

lemma candidates_known:
  assumes "known_ok P known" and "bt_get known i = Some info" and "restartable t r now info"
  shows "i \<in> set (find_candidates known t r now)"
proof -
  have "(i, info) \<in> set known" using assms(2) by (rule bt_get_Some_in)
  moreover have "ci_id info = i" using known_okD(2) [OF assms(1) calculation] by simp
  ultimately show ?thesis using assms(3) by (force simp: find_candidates_def)
qed

lemma candidates_distinct:
  assumes "known_ok P known" and "\<And>info. P info \<Longrightarrow> ci_name info = name_of (ci_id info)"
  shows "distinct (map name_of (find_candidates known t r now))"
proof -
  let ?c = "filter (\<lambda>e. restartable t r now (snd e)) known"
  have ids: "find_candidates known t r now = map fst ?c"
    using known_okD(2) [OF assms(1)] by (auto simp: find_candidates_def filter_map comp_def intro!: map_cong)
  have "distinct (map fst ?c)" using known_okD(1) [OF assms(1)] by (intro distinct_map_filter bt_ok_distinct)
  moreover have "inj_on name_of (fst ` set ?c)"
  proof (rule inj_onI)
    fix i j assume "i \<in> fst ` set ?c" "j \<in> fst ` set ?c" "name_of i = name_of j"
    then obtain info other where e: "(i, info) \<in> set known" "(j, other) \<in> set known" by auto
    then have "ci_name info = name_of i" "ci_name other = name_of j"
      using known_okD(2) [OF assms(1)] assms(2) by auto
    then show "i = j" using known_okD(3) [OF assms(1) e] \<open>name_of i = name_of j\<close> by simp
  qed
  ultimately show ?thesis unfolding ids distinct_map [of name_of] by simp
qed

lemma dispatch_restarts_ok:
  assumes "dispatch_restarts env r known (find_candidates known t r now) w = ((r', known'), w')"
    and "known_ok P known" and "readings_satisfy env P" and "restarts_ok r"
    and "\<And>info. P info \<Longrightarrow> ci_name info = name_of (ci_id info)"
  shows "restarts_ok r'" and "known_ok P known'"
    and "is_in_flight r' n \<Longrightarrow> is_in_flight r n \<or> n \<in> name_of ` set (find_candidates known t r now)"
proof -
  let ?c = "find_candidates known t r now"
  have fresh: "\<forall>i \<in> set ?c. \<not> is_in_flight r (name_of i)"
    using candidates_from [OF assms(2)] assms(5) by (metis restartable_def)
  have "restarts_ok r' \<and> known_ok P known' \<and> (\<forall>n. is_in_flight r' n \<longrightarrow> is_in_flight r n \<or> n \<in> name_of ` set ?c)"
  proof (cases "?c = []")
    case True
    then show ?thesis using assms(1,2,4) by (simp add: dispatch_restarts_def)
  next
    case False
    obtain res w1 where ins: "inspect (we_engine env) ?c w = (res, w1)" by (metis prod.exhaust)
    show ?thesis
    proof (cases res)
      case (Inl e)
      then show ?thesis using assms(1,2,4) False ins by (simp add: dispatch_restarts_def)
    next
      case (Inr infos)
      have k: "known_ok P (merge_inspected known ?c infos)"
        using readingsD [OF assms(3)] ins Inr assms(2) by (intro known_ok_merge) auto
      have known': "known' = merge_inspected known ?c infos" and d: "dispatch_each env r known' ?c w1 = (r', w')"
        using assms(1) False ins Inr by (auto simp: dispatch_restarts_def Let_def split: prod.splits)
      have "restarts_ok r' \<and> (\<forall>n. is_in_flight r' n \<longrightarrow> is_in_flight r n \<or> n \<in> name_of ` set ?c)"
      proof (rule restarts_ok_dispatch_each [OF assms(4) fresh _ _ _ d])
        show "distinct (map name_of ?c)" using assms(2,5) by (rule candidates_distinct)
        show "known_ok P known'" using k known' by simp
      qed (rule assms(5))
      then show ?thesis using k known' by simp
    qed
  qed
  then show "restarts_ok r'" and "known_ok P known'" and "is_in_flight r' n \<Longrightarrow> is_in_flight r n \<or> n \<in> name_of ` set ?c" by auto
qed

section \<open>Counting restarts\<close>

definition read_policy :: "string option \<Rightarrow> restart_policy_label" where
  "read_policy label =
     (case label of None \<Rightarrow> LabelNo | Some raw \<Rightarrow> (case restart_label_try_from raw of Some p \<Rightarrow> p | None \<Rightarrow> LabelNo))"

lemma info_policy_read: "info_policy info = read_policy (ci_restart info)"
  by (simp add: info_policy_def read_policy_def split: option.splits)

definition within_limits :: "(string \<Rightarrow> string option) \<Rightarrow> restart_tally \<Rightarrow> restarts \<Rightarrow> bool" where
  "within_limits label_of t r \<longleftrightarrow>
     (\<forall>n most. read_policy (label_of n) = LabelOnFailure (Some most) \<longrightarrow>
        tally_count t n \<le> most \<and> (is_in_flight r n \<longrightarrow> tally_count t n < most))"

lemma fold_reports_tally:
  "bt_ok t \<Longrightarrow> fold (apply_report now) reports (t, known) = (t', known') \<Longrightarrow> distinct (map rp_name reports) \<Longrightarrow>
     bt_ok t' \<and> (if n \<in> rp_name ` set reports then tally_count t' n \<in> {0, tally_count t n, tally_count t n + 1}
                 else tally_count t' n = tally_count t n)"
proof (induction reports arbitrary: t known)
  case (Cons report reports)
  obtain t1 known1 where a: "apply_report now report (t, known) = (t1, known1)" by (metis prod.exhaust)
  then have t1: "t1 = t \<or> t1 = record_restart t (rp_name report) now"
    by (auto split: sum.splits restart_outcome.splits)
  have "bt_ok t1" using t1 tally_ok_record [OF Cons.prems(1)] Cons.prems(1) by auto
  then have ih: "bt_ok t' \<and> (if n \<in> rp_name ` set reports then tally_count t' n \<in> {0, tally_count t1 n, tally_count t1 n + 1}
      else tally_count t' n = tally_count t1 n)"
    using Cons.IH [of t1 known1] Cons.prems(2,3) a by (simp del: insert_iff)
  show ?case
  proof (cases "n = rp_name report")
    case True
    then have "n \<notin> rp_name ` set reports" using Cons.prems(3) by simp
    then show ?thesis using ih t1 True count_record_same [of t n now] by auto
  next
    case False
    then have "tally_count t1 n = tally_count t n" using t1 by auto
    then show ?thesis using ih False by auto
  qed
qed simp

lemma observe_each_le: "tally_count (observe_each r infos t) n \<le> tally_count t n"
proof (induction r infos t rule: observe_each.induct)
  case (2 r info infos t)
  then show ?case using count_observe_le [of t "ci_name info" "ci_id info" n] by (auto intro: order_trans)
qed simp

lemma observe_each_ok: "bt_ok t \<Longrightarrow> bt_ok (observe_each r infos t)"
  by (induction r infos t rule: observe_each.induct) (simp_all add: tally_ok_observe)

lemma observe_copies_ok: "bt_ok t \<Longrightarrow> bt_ok (observe_copies t known r)"
  by (simp add: observe_copies_def Let_def tally_ok_forget observe_each_ok)

lemma observe_copies_le: "bt_ok t \<Longrightarrow> tally_count (observe_copies t known r) n \<le> tally_count t n"
  unfolding observe_copies_def Let_def
  by (rule order_trans [OF count_forget_le observe_each_le]) (rule observe_each_ok)

lemma collected_limits:
  assumes "within_limits label_of t r" and "restarts_ok r" and "bt_ok t" and "collect r = (reports, r')"
    and "fold (apply_report now) reports (t, known) = (t', known')"
  shows "within_limits label_of t' r'"
  unfolding within_limits_def
proof (intro allI impI)
  fix n most assume p: "read_policy (label_of n) = LabelOnFailure (Some most)"
  have before: "tally_count t n \<le> most" "is_in_flight r n \<Longrightarrow> tally_count t n < most"
    using assms(1) p by (auto simp: within_limits_def)
  have reports: "reports = rt_reports r" using assms(4) by (simp add: collect_def)
  then have "distinct (map rp_name reports)" using assms(2) by (simp add: restarts_ok_def unfinished_def)
  note counts = fold_reports_tally [OF assms(3,5) this, of n, THEN conjunct2]
  show "tally_count t' n \<le> most \<and> (is_in_flight r' n \<longrightarrow> tally_count t' n < most)"
  proof (cases "n \<in> rp_name ` set reports")
    case True
    then have "is_in_flight r n" using assms(2) reports by (auto simp: restarts_ok_def unfinished_def)
    moreover have "\<not> is_in_flight r' n" using collect_flight [OF assms(4)] True by simp
    ultimately show ?thesis using counts True before inc_le [of "tally_count t n" most] by auto
  next
    case False
    then show ?thesis using counts before collect_flight [OF assms(4)] by simp
  qed
qed

section \<open>Every interleaving\<close>

text \<open>A container keeps its name, and the copies of a name keep the restart policy they were started with.\<close>

definition same_name :: "(container_id \<Rightarrow> string) \<Rightarrow> container_info \<Rightarrow> bool" where
  "same_name name_of info \<longleftrightarrow> ci_name info = name_of (ci_id info)"

definition same_policy :: "(container_id \<Rightarrow> string) \<Rightarrow> (string \<Rightarrow> string option) \<Rightarrow> container_info \<Rightarrow> bool" where
  "same_policy name_of label_of info \<longleftrightarrow> same_name name_of info \<and> ci_restart info = label_of (ci_name info)"

lemma reconcile_ok:
  assumes "watch_ok P watch" and "readings_satisfy env P" and "\<And>info. P info \<Longrightarrow> same_name name_of info"
  shows "watch_ok P (fst (reconcile env watch now w))"
proof -
  obtain watch' w' where r: "reconcile env watch now w = (watch', w')" by (metis prod.exhaust)
  have named: "ci_name info = name_of (ci_id info)" if "P info" for info using assms(3) [OF that] by (simp add: same_name_def)
  from r assms(1,2) show ?thesis
  proof (rule reconcile_stages)
    fix reports rs t known seen w2
    assume c: "collect (cw_restarts watch) = (reports, rs)"
      and f: "fold (apply_report now) reports (cw_tally watch, cw_known watch) = (t, known)"
      and seen: "known_ok P seen" and t': "cw_tally watch' = observe_copies t seen rs"
      and d: "dispatch_restarts env rs seen (find_candidates seen (cw_tally watch') rs now) w2 = ((cw_restarts watch', cw_known watch'), w')"
    have rs: "restarts_ok rs" using restarts_ok_collect [OF _ c] assms(1) by (simp add: watch_ok_def)
    have "distinct (map rp_name reports)"
      using assms(1) c by (auto simp: watch_ok_def restarts_ok_def unfinished_def collect_def)
    then have "bt_ok t" using fold_reports_tally [OF _ f] assms(1) by (auto simp: watch_ok_def)
    then have "bt_ok (cw_tally watch')" by (simp add: t' observe_copies_ok)
    then show ?thesis using dispatch_restarts_ok(1,2) [OF d seen assms(2) rs named] r by (simp add: watch_ok_def)
  qed
qed

lemma reconcile_limits:
  assumes "watch_ok (same_policy name_of label_of) watch" and "readings_satisfy env (same_policy name_of label_of)"
    and "within_limits label_of (cw_tally watch) (cw_restarts watch)" and "reconcile env watch now w = (watch', w')"
  shows "within_limits label_of (cw_tally watch') (cw_restarts watch')"
  using assms(4,1,2)
proof (rule reconcile_stages)
  fix reports rs t known seen w2
  assume c: "collect (cw_restarts watch) = (reports, rs)"
    and f: "fold (apply_report now) reports (cw_tally watch, cw_known watch) = (t, known)"
    and seen: "known_ok (same_policy name_of label_of) seen" and t': "cw_tally watch' = observe_copies t seen rs"
    and d: "dispatch_restarts env rs seen (find_candidates seen (cw_tally watch') rs now) w2 = ((cw_restarts watch', cw_known watch'), w')"
  have ok: "restarts_ok (cw_restarts watch)" "bt_ok (cw_tally watch)" using assms(1) by (simp_all add: watch_ok_def)
  have rs: "restarts_ok rs" by (rule restarts_ok_collect [OF ok(1) c])
  have "distinct (map rp_name reports)" using ok(1) c by (auto simp: restarts_ok_def unfinished_def collect_def)
  then have t: "bt_ok t" using fold_reports_tally [OF ok(2) f] by auto
  have limits: "within_limits label_of t rs" by (rule collected_limits [OF assms(3) ok c f])
  have named: "ci_name info = name_of (ci_id info)" if "same_policy name_of label_of info" for info
    using that by (simp add: same_policy_def same_name_def)
  show ?thesis
    unfolding within_limits_def
  proof (intro allI impI conjI)
    fix n most assume p: "read_policy (label_of n) = LabelOnFailure (Some most)"
    have le: "tally_count (cw_tally watch') n \<le> tally_count t n" using observe_copies_le [OF t] by (simp add: t')
    then show "tally_count (cw_tally watch') n \<le> most" using limits p by (auto simp: within_limits_def intro: order_trans)
    assume "is_in_flight (cw_restarts watch') n"
    then consider "is_in_flight rs n" | "n \<in> name_of ` set (find_candidates seen (cw_tally watch') rs now)"
      using dispatch_restarts_ok(3) [OF d seen assms(2) rs named] by blast
    then show "tally_count (cw_tally watch') n < most"
    proof cases
      case 1
      then show ?thesis using limits p le by (auto simp: within_limits_def intro: order_le_less_trans)
    next
      case 2
      then obtain i where i: "i \<in> set (find_candidates seen (cw_tally watch') rs now)" "n = name_of i" by blast
      from seen i(1) show ?thesis
      proof (rule candidates_from)
        fix info assume info: "ci_id info = i" "same_policy name_of label_of info" "restartable (cw_tally watch') rs now info"
        then have "ci_name info = n" using named i(2) by simp
        moreover have "info_policy info = LabelOnFailure (Some most)"
          using info(2) p calculation by (simp add: info_policy_read same_policy_def)
        ultimately show ?thesis using info(3) by (auto simp: restartable_def split: option.splits if_splits)
      qed
    qed
  qed
qed

lemma thread_done_ok:
  assumes "restarts_ok r" and "i < length (rt_threads r)"
  shows "restarts_ok (thread_done r i outcome) \<and> (\<forall>n. is_in_flight (thread_done r i outcome) n \<longleftrightarrow> is_in_flight r n)"
proof -
  have split: "mset (rt_threads r) = mset (take i (rt_threads r) @ drop (Suc i) (rt_threads r)) + {#rt_threads r ! i#}"
    using assms(2) by (subst id_take_nth_drop [OF assms(2)]) simp
  have names: "mset (unfinished (thread_done r i outcome)) = mset (unfinished r)"
    using arg_cong [OF split, of "image_mset rq_name"] by (simp add: unfinished_def thread_done_def Let_def)
  have flight: "is_in_flight (thread_done r i outcome) n \<longleftrightarrow> is_in_flight r n" for n
    by (simp add: thread_done_def is_in_flight_def Let_def)
  have "distinct (unfinished (thread_done r i outcome))" "set (unfinished (thread_done r i outcome)) = set (unfinished r)"
    using mset_eq_imp_distinct_iff [OF names] mset_eq_setD [OF names] assms(1) by (auto simp: restarts_ok_def)
  then show ?thesis using assms(1) flight by (simp add: restarts_ok_def thread_done_def Let_def)
qed

lemma watch_step_ok:
  assumes "watch_step env s s'" and "watch_ok P (fst s)" and "readings_satisfy env P" and "\<And>info. P info \<Longrightarrow> same_name name_of info"
  shows "watch_ok P (fst s')"
  using assms(1,2)
proof (cases rule: watch_step.cases)
  case (step_tick watch w now)
  then show ?thesis using reconcile_ok [OF _ assms(3,4)] assms(2) by simp
next
  case (step_events watch w)
  then show ?thesis
    using assms(2) known_ok_events [OF assms(3), of "cw_known watch" "cw_feed watch" w]
    by (auto simp: apply_events_def watch_ok_def split: prod.splits)
next
  case (step_thread i watch w outcome)
  then show ?thesis using assms(2) thread_done_ok [of "cw_restarts watch" i outcome] by (simp add: watch_ok_def)
qed (auto simp: watch_ok_def request_listing_def)

lemma watch_step_limits:
  assumes "watch_step env s s'" and "watch_ok (same_policy name_of label_of) (fst s)"
    and "readings_satisfy env (same_policy name_of label_of)" and "within_limits label_of (cw_tally (fst s)) (cw_restarts (fst s))"
  shows "within_limits label_of (cw_tally (fst s')) (cw_restarts (fst s'))"
  using assms(1,2)
proof (cases rule: watch_step.cases)
  case (step_tick watch w now)
  obtain watch' w' where "reconcile env watch now w = (watch', w')" by (metis prod.exhaust)
  then show ?thesis using step_tick reconcile_limits [of name_of label_of watch env now w] assms(2-4) by simp
next
  case (step_events watch w)
  then show ?thesis using assms(4) by (auto simp: apply_events_def split: prod.splits)
next
  case (step_thread i watch w outcome)
  then show ?thesis
    using assms(2,4) thread_done_ok [of "cw_restarts watch" i outcome] by (simp add: watch_ok_def within_limits_def)
qed (use assms(4) in \<open>auto simp: request_listing_def\<close>)

definition consistent :: "('w, 'f) watch_env \<Rightarrow> (container_id \<Rightarrow> string) \<Rightarrow> 'f container_watch \<times> 'w \<Rightarrow> bool" where
  "consistent env name_of s \<longleftrightarrow> (readings_satisfy env (same_name name_of) \<longrightarrow> watch_ok (same_name name_of) (fst s))"

definition restrained ::
  "('w, 'f) watch_env \<Rightarrow> (container_id \<Rightarrow> string) \<Rightarrow> (string \<Rightarrow> string option) \<Rightarrow> 'f container_watch \<times> 'w \<Rightarrow> bool" where
  "restrained env name_of label_of s \<longleftrightarrow>
     (readings_satisfy env (same_policy name_of label_of) \<longrightarrow>
        watch_ok (same_policy name_of label_of) (fst s) \<and> within_limits label_of (cw_tally (fst s)) (cw_restarts (fst s)))"

lemma watch_new_ok: "watch_ok P watch_new"
  by (simp add: watch_ok_def watch_new_def known_ok_empty restarts_ok_new tally_ok_new)

interpretation views: stepwise_invariant watch_start "watch_step env" "consistent env name_of" for env name_of
proof
  fix s :: "'a container_watch \<times> 'b"
  assume "watch_start s"
  then show "consistent env name_of s" by (simp add: watch_start_def consistent_def watch_new_ok)
next
  fix s t :: "'a container_watch \<times> 'b"
  assume "consistent env name_of s" "watch_step env s t"
  then show "consistent env name_of t" using watch_step_ok [of env s t "same_name name_of" name_of] by (auto simp: consistent_def)
qed

interpretation limits: stepwise_invariant watch_start "watch_step env" "restrained env name_of label_of" for env name_of label_of
proof
  fix s :: "'a container_watch \<times> 'b"
  assume "watch_start s"
  then show "restrained env name_of label_of s"
    by (simp add: watch_start_def restrained_def watch_new_ok within_limits_def) (simp add: watch_new_def restarts_new_def is_in_flight_def bt_get_def)
next
  fix s t :: "'a container_watch \<times> 'b"
  assume "restrained env name_of label_of s" "watch_step env s t"
  then show "restrained env name_of label_of t"
    using watch_step_ok [of env s t "same_policy name_of label_of" name_of] watch_step_limits [of env s t name_of label_of]
    by (auto simp: restrained_def same_policy_def)
qed

text \<open>
  Property C1.  In every interleaving of ticks, events and restart threads a container name has at most one restart that is not
  yet collected, the supervisor's table of running restarts names exactly those, and its view holds one container for each
  name.  The engine is assumed to keep the name of a container.
\<close>

theorem one_restart_per_name:
  assumes "readings_satisfy env (same_name name_of)" and "watch_start s" and "(watch_step env)\<^sup>*\<^sup>* s t"
  shows "distinct (unfinished (cw_restarts (fst t)))
    \<and> set (unfinished (cw_restarts (fst t))) = {n. is_in_flight (cw_restarts (fst t)) n}
    \<and> known_ok (same_name name_of) (cw_known (fst t))"
  using views.inv_reachable [OF assms(2,3), of name_of] assms(1) by (simp add: consistent_def watch_ok_def restarts_ok_def)


section \<open>What one tick restarts\<close>

lemma dispatch_flight: "dispatch env r info w = ((res, r'), w') \<Longrightarrow> is_in_flight r' n \<Longrightarrow> is_in_flight r n \<or> n = ci_name info"
  by (auto simp: dispatch_def Let_def is_in_flight_def bt_get_insert bt_get_remove split: option.splits prod.splits sum.splits if_splits)

lemma dispatch_each_from:
  "dispatch_each env r known ids w = (r', w') \<Longrightarrow> is_in_flight r' n \<Longrightarrow>
     is_in_flight r n \<or> (\<exists>i \<in> set ids. \<exists>info. bt_get known i = Some info \<and> exit_code info \<noteq> None \<and> ci_name info = n)"
proof (induction ids arbitrary: r w)
  case (Cons i ids)
  show ?case
  proof (cases "Option.bind (bt_get known i) exit_code")
    case None
    then have "dispatch_each env r known ids w = (r', w')" using Cons.prems(1) by (auto split: option.splits)
    then show ?thesis using Cons.IH Cons.prems(2) by fastforce
  next
    case (Some code)
    then obtain info where info: "bt_get known i = Some info" "exit_code info = Some code" by (auto simp: bind_eq_Some_conv)
    obtain res r1 w1 where d: "dispatch env r info w = ((res, r1), w1)" by (metis prod.exhaust)
    have "dispatch_each env r1 known ids w1 = (r', w')" using Cons.prems(1) info d by simp
    then show ?thesis using Cons.IH Cons.prems(2) dispatch_flight [OF d, of n] info by fastforce
  qed
qed simp


section \<open>No dead copy is left behind\<close>

definition answers :: "('w, 'f) watch_env \<Rightarrow> bool" where
  "answers env \<longleftrightarrow> (\<forall>ids w. \<exists>infos w'. inspect (we_engine env) ids w = (Inr infos, w') \<and> ci_id ` set infos \<subseteq> set ids)"

definition spawns :: "('w, 'f) watch_env \<Rightarrow> bool" where
  "spawns env \<longleftrightarrow> (\<forall>request w. \<exists>w'. we_spawn env request w = (Inr (), w'))"

lemma dispatch_adds:
  assumes "spawns env" and "exit_code info \<noteq> None" and "dispatch env r info w = ((res, r'), w')"
  shows "is_in_flight r' n \<longleftrightarrow> is_in_flight r n \<or> n = ci_name info"
proof -
  obtain app service copy where labels: "ci_app info = Some app" "ci_service info = Some service" "ci_copy info = Some copy"
    using assms(2) by (auto simp: exit_code_def split: container_state.splits option.splits)
  then obtain w1 where "we_spawn env \<lparr>rq_name = ci_name info, rq_id = ci_id info, rq_app = app,
      rq_service = service_str service, rq_copy = copy_get copy\<rparr> w = (Inr (), w1)"
    using assms(1) unfolding spawns_def by blast
  then show ?thesis
    using assms(3) labels by (auto simp: dispatch_def Let_def is_in_flight_def bt_get_insert split: if_splits)
qed

lemma dispatch_each_all:
  "spawns env \<Longrightarrow> dispatch_each env r known ids w = (r', w') \<Longrightarrow>
     (is_in_flight r n \<longrightarrow> is_in_flight r' n)
     \<and> (\<forall>i \<in> set ids. \<forall>info. bt_get known i = Some info \<longrightarrow> exit_code info \<noteq> None \<longrightarrow> is_in_flight r' (ci_name info))"
proof (induction ids arbitrary: r w n)
  case (Cons i ids)
  show ?case
  proof (cases "Option.bind (bt_get known i) exit_code")
    case None
    then have "dispatch_each env r known ids w = (r', w')" using Cons.prems(2) by (auto split: option.splits)
    then show ?thesis using Cons.IH [OF Cons.prems(1)] None by auto
  next
    case (Some code)
    then obtain info where info: "bt_get known i = Some info" "exit_code info = Some code" by (auto simp: bind_eq_Some_conv)
    obtain res r1 w1 where d: "dispatch env r info w = ((res, r1), w1)" by (metis prod.exhaust)
    have rest: "dispatch_each env r1 known ids w1 = (r', w')" using Cons.prems(2) info d by simp
    have added: "is_in_flight r1 m \<longleftrightarrow> is_in_flight r m \<or> m = ci_name info" for m
      using dispatch_adds [OF Cons.prems(1) _ d] info(2) by simp
    have "is_in_flight r' (ci_name info)" using Cons.IH [OF Cons.prems(1) rest, of "ci_name info"] added by simp
    then show ?thesis using Cons.IH [OF Cons.prems(1) rest, of n] added info by simp
  qed
qed simp

lemma remember_other:
  assumes "bt_ok known" and "i \<noteq> ci_id x" and "bt_get (remember known x) i = Some info"
  shows "bt_get known i = Some info"
  using assms by (auto simp: remember_def bt_get_insert bt_get_filter [OF assms(1)] split: option.splits if_splits)

lemma remember_all_other:
  "known_ok P known \<Longrightarrow> \<forall>x \<in> set infos. P x \<Longrightarrow> i \<notin> ci_id ` set infos \<Longrightarrow> bt_get (remember_all known infos) i = Some info \<Longrightarrow>
     bt_get known i = Some info"
proof (induction infos arbitrary: known)
  case (Cons x infos)
  have "bt_get (remember known x) i = Some info"
    using Cons.IH [OF known_ok_remember [OF Cons.prems(1)]] Cons.prems(2-4) by simp
  then show ?case using remember_other [OF known_okD(1) [OF Cons.prems(1)]] Cons.prems(3) by auto
qed simp

lemma merge_other:
  assumes "known_ok P known" and "\<forall>x \<in> set infos. P x" and "ci_id ` set infos \<subseteq> set asked" and "i \<notin> set asked"
    and "bt_get (merge_inspected known asked infos) i = Some info"
  shows "bt_get known i = Some info"
proof -
  let ?left = "fold (\<lambda>i known. if i \<notin> set (map ci_id infos) then bt_remove i known else known) asked known"
  have "bt_get ?left i = bt_get known i"
    using assms(4) by (induction asked arbitrary: known) (auto simp: bt_get_remove)
  moreover have "bt_get ?left i = Some info"
  proof (rule remember_all_other [OF known_ok_fold_remove [OF assms(1)] assms(2)])
    show "i \<notin> ci_id ` set infos" using assms(3,4) by blast
    show "bt_get (remember_all ?left infos) i = Some info" using assms(5) by (simp add: merge_inspected_def Let_def)
  qed
  ultimately show ?thesis by simp
qed


section \<open>A host with one dead copy\<close>

definition dead_raw :: raw_container where
  "dead_raw = \<lparr>rc_id = sample_id, rc_name = ''/shop.web.1'', rc_image = ''nginx:1'',
     rc_labels = Some [(''riku.app'', ''shop''), (''riku.copy'', ''1''), (''riku.restart'', ''on-failure:3''), (''riku.service'', ''web'')],
     rc_state = \<lparr>rw_status = ''exited'', rw_exit_code = Some 1, rw_health = None\<rparr>, rc_image_id = ''sha256:1''\<rparr>"

definition dead_engine :: "unit engine" where
  "dead_engine = sample_engine\<lparr>
     en_capture := (\<lambda>args limit w.
       (Inr \<lparr>cd_success = True,
             cd_stdout = (if hd args = ''inspect'' \<and> sample_id \<notin> set args then [] else sample_id),
             cd_stderr = [], cd_truncated = False\<rparr>, w)),
     en_inspect_json := (\<lambda>json. Inr (if json = sample_id then [dead_raw] else []))\<rparr>"

definition dead_env :: "(unit, nat) watch_env" where
  "dead_env = \<lparr>we_engine = dead_engine,
     we_floats = \<lparr>fl_parse = (\<lambda>t. None), fl_finite = (\<lambda>x. True), fl_at_least_zero = (\<lambda>x. True), fl_literal = (\<lambda>n. n),
       fl_mult = (\<lambda>x y. x * y), fl_round_u64 = of_nat\<rparr>,
     we_from_str = (\<lambda>t. None), we_open_events = (\<lambda>args w. (Inl ''no events'', w)), we_spawn = (\<lambda>request w. (Inr (), w))\<rparr>"

definition dead_info :: container_info where
  "dead_info = \<lparr>ci_id = ContainerId sample_id, ci_name = ''shop.web.1'', ci_app = Some ''shop'',
     ci_service = Some (ServiceName ''web''), ci_copy = Some (CopyIndex 1), ci_image = ''nginx:1'',
     ci_image_id = ''sha256:1'', ci_host_port = None, ci_restart = Some ''on-failure:3'', ci_state = Exited 1\<rparr>"

definition dead_name :: "container_id \<Rightarrow> string" where
  "dead_name i = ''shop.web.1''"

definition dead_label :: "string \<Rightarrow> string option" where
  "dead_label n = Some ''on-failure:3''"

lemma dead_output: "engine_output dead_engine args w =
    (Inr (if hd args = ''inspect'' \<and> sample_id \<notin> set args then [] else sample_id), w)"
  by (simp add: engine_output_def output_within_def run_capture_def calling_def giving_def dead_engine_def sample_engine_def Let_def)

lemma dead_into_info: "into_info dead_raw = Inr dead_info"
proof -
  let ?l = "[(''riku.app'', ''shop''), (''riku.copy'', ''1''), (''riku.restart'', ''on-failure:3''), (''riku.service'', ''web'')]"
  have labels: "riku_labels_of ?l = Inr \<lparr>rl_app = Some ''shop'', rl_service = Some (ServiceName ''web''), rl_copy = Some (CopyIndex 1)\<rparr>"
    by (simp add: riku_labels_of_def app_label_def service_label_def copy_label_def bt_get_def LABEL_APP_def
        LABEL_SERVICE_def LABEL_COPY_def sample_app_ok sample_name parse_u32_def parse_uint_def digits_value_def
        char_class_defs copy_index_new_def and_then_def)
  have port: "port_label ?l = None" by (simp add: port_label_def bt_get_def LABEL_PORT_def)
  show ?thesis
    using sample_id_ok
    by (simp add: into_info_def dead_raw_def Let_def labels port container_state_of_def and_then_def map_err_def
        dead_info_def bt_get_def LABEL_RESTART_def)
qed

lemma dead_inspect: "inspect dead_engine ids w = (Inr (if ContainerId sample_id \<in> set ids then [dead_info] else []), w)"
proof -
  have parsed: "parse_inspect (en_inspect_json dead_engine) out SkipContainer = Inr (if out = sample_id then [dead_info] else [])" for out
    by (simp add: parse_inspect_def dead_engine_def dead_into_info and_then_def map_err_def)
  have asked: "sample_id \<in> set ([''inspect'', ''--type'', ''container''] @ map id_str ids) \<longleftrightarrow> ContainerId sample_id \<in> set ids"
  proof -
    have "sample_id \<in> id_str ` set ids \<longleftrightarrow> ContainerId sample_id \<in> set ids"
      by (metis container_id.collapse container_id.sel image_iff)
    then show ?thesis by (simp add: sample_id_def)
  qed
  have "sample_id \<noteq> []" by (simp add: sample_id_def)
  then show ?thesis
    using asked by (auto simp: inspect_def inspect_with_def failing_def fetch_present_def dead_output parsed map_err_def)
qed

lemma dead_readings: "readings_satisfy dead_env (same_policy dead_name dead_label)"
  by (auto simp: readings_satisfy_def dead_env_def dead_inspect same_policy_def same_name_def dead_name_def dead_label_def dead_info_def)

lemma dead_answers: "answers dead_env"
  by (auto simp: answers_def dead_env_def dead_inspect dead_info_def)

lemma dead_spawns: "spawns dead_env"
  by (simp add: spawns_def dead_env_def)

lemma dead_listing: "take_listing dead_env known w = ((True, [(ContainerId sample_id, dead_info)]), w)"
proof -
  have "list_riku dead_engine w = (Inr [ContainerId sample_id], w)"
    by (simp add: list_riku_def list_with_filter_def calling_def failing_def giving_def dead_output sample_parse_ids map_err_def)
  then show ?thesis by (simp add: take_listing_def dead_env_def dead_inspect remember_def) (simp add: dead_info_def)
qed

lemma dead_policy: "restart_label_try_from ''on-failure:3'' = Some (LabelOnFailure (Some 3))"
  by (simp add: restart_label_try_from_def parse_on_failure_def strip_prefix_def parse_u32_def parse_uint_def digits_value_def char_class_defs)

definition dead_request :: restart_request where
  "dead_request = \<lparr>rq_name = ''shop.web.1'', rq_id = ContainerId sample_id, rq_app = ''shop'', rq_service = ''web'', rq_copy = 1\<rparr>"

definition dead_watch :: "nat container_watch" where
  "dead_watch = \<lparr>cw_feed = Polling, cw_known = [(ContainerId sample_id, dead_info)], cw_samples = [],
     cw_tally = [(''shop.web.1'', \<lparr>ta_id = ContainerId sample_id, ta_count = 0, ta_last_restart = None, ta_expects_successor = False\<rparr>)],
     cw_restarts = \<lparr>rt_reports = [], rt_threads = [dead_request], rt_in_flight = [(''shop.web.1'', ContainerId sample_id)]\<rparr>,
     cw_adopted = True, cw_last_listing = Some 0, cw_log_updates = [[(ContainerId sample_id, dead_info)]]\<rparr>"

lemma dead_adopt: "adopt dead_env watch_new 0 () = (dead_watch\<lparr>cw_tally := [], cw_restarts := restarts_new\<rparr>, ())"
proof -
  have "running_ids [(ContainerId sample_id, dead_info)] = []" by (simp add: running_ids_def dead_info_def state_is_running_def)
  then have l: "listing_with_stats dead_env watch_new () = ((True, watch_new\<lparr>cw_known := [(ContainerId sample_id, dead_info)]\<rparr>), ())"
    by (simp add: listing_with_stats_def dead_listing sample_stats_def) (simp add: watch_new_def)
  have "open_feed dead_env [(ContainerId sample_id, dead_info)] () = (Polling, ())"
    by (simp add: open_feed_def has_events_def dead_env_def dead_engine_def)
  then show ?thesis
    by (simp add: adopt_def l match_feed_to_containers_def logs_update_def)
       (simp add: watch_new_def dead_watch_def tally_new_def)
qed

lemma dead_tick: "reconcile dead_env watch_new 0 () = (dead_watch, ())"
proof -
  let ?known = "[(ContainerId sample_id, dead_info)]"
  have info: "has_copy_labels dead_info" "ci_name dead_info = ''shop.web.1''" "ci_id dead_info = ContainerId sample_id"
    by (simp_all add: dead_info_def has_copy_labels_def)
  have t: "observe_copies [] ?known restarts_new = cw_tally dead_watch"
    by (simp add: observe_copies_def info restarts_new_def is_in_flight_def tally_observe_def forget_missing_def dead_watch_def bt_get_def
        del: set_filter)
  have may: "restartable (cw_tally dead_watch) restarts_new 0 dead_info"
    by (simp add: restartable_def dead_info_def exit_code_def info_policy_def dead_policy restarts_new_def is_in_flight_def
        tally_count_def tally_due_def dead_watch_def bt_get_def)
  have c: "find_candidates ?known (cw_tally dead_watch) restarts_new 0 = [ContainerId sample_id]"
    using may by (simp add: find_candidates_def) (simp add: dead_info_def)
  have merged: "merge_inspected ?known [ContainerId sample_id] [dead_info] = ?known"
    by (simp add: merge_inspected_def remember_def dead_info_def)
  have "dispatch dead_env restarts_new dead_info () = ((Inr (), cw_restarts dead_watch), ())"
    by (simp add: dispatch_def dead_info_def dead_env_def restarts_new_def dead_watch_def dead_request_def)
  moreover have "exit_code dead_info = Some 1" by (simp add: exit_code_def dead_info_def)
  ultimately have d: "dispatch_restarts dead_env restarts_new ?known [ContainerId sample_id] () = ((cw_restarts dead_watch, ?known), ())"
    using dead_inspect by (simp add: dispatch_restarts_def dead_env_def merged bt_get_def)
  have c1: "collect_reports (cw_restarts watch_new) (cw_tally watch_new) (cw_known watch_new) 0 = (restarts_new, [], [])"
    by (simp add: collect_reports_def collect_def watch_new_def restarts_new_def tally_new_def)
  have same: "watch_new\<lparr>cw_restarts := restarts_new, cw_tally := [], cw_known := []\<rparr> = (watch_new :: nat container_watch)" "\<not> cw_adopted watch_new"
    by (simp_all add: watch_new_def tally_new_def)
  have fields: "cw_known dead_watch = ?known" by (simp add: dead_watch_def)
  have "dead_watch\<lparr>cw_tally := cw_tally dead_watch, cw_restarts := cw_restarts dead_watch, cw_known := ?known\<rparr> = dead_watch"
    by (simp add: dead_watch_def)
  then show ?thesis
    unfolding reconcile_def c1 by (simp add: Let_def same dead_adopt fields t c d)
qed

section \<open>Witnesses\<close>

lemma dead_reach: "(watch_step dead_env)\<^sup>*\<^sup>* (watch_new, ()) (dead_watch, ())"
  using step_tick [of dead_env watch_new "()" 0] by (simp add: dead_tick)

lemma dead_start: "watch_start (watch_new :: nat container_watch, ())"
  by (simp add: watch_start_def)

lemma dead_named: "readings_satisfy dead_env (same_name dead_name)"
  using dead_readings by (simp add: readings_satisfy_def same_policy_def)

theorem one_restart_per_name_witness:
  "distinct (unfinished (cw_restarts (fst (dead_watch, ()))))
    \<and> set (unfinished (cw_restarts (fst (dead_watch, ())))) = {n. is_in_flight (cw_restarts (fst (dead_watch, ()))) n}
    \<and> known_ok (same_name dead_name) (cw_known (fst (dead_watch, ())))"
  by (rule one_restart_per_name [OF dead_named dead_start dead_reach])




end
