(* ===== verification/Log_Pull.thy ===== *)
theory Log_Pull
  imports Container_Watch
begin

text \<open>
  Copying the output of containers into log files: \<open>riku-supervisor/src/containers/log_pull.rs\<close> and
  \<open>riku-supervisor/src/containers/log_thread.rs\<close>.

  A time stamp is a number of nanoseconds; the reading and printing of RFC 3339 times is the \<open>chrono\<close> crate's and a field
  of \<open>log_env\<close>, like the engine call and the writing of files.
\<close>

section \<open>log\_pull.rs\<close>

type_synonym stamp = int

datatype log_start = FromNow | FromFirst

record cursor =
  cu_at :: stamp
  cu_lines_at :: nat

record stamped =
  sl_at :: stamp
  sl_text :: string

record 'w log_env =
  lg_engine :: "'w engine"
  lg_capture :: "'w capped_capture"
  lg_parse :: "string \<Rightarrow> stamp option"
  lg_print :: "stamp \<Rightarrow> string"
  lg_create_dir_all :: "path \<Rightarrow> 'w \<Rightarrow> (string, unit) result \<times> 'w"
  lg_open_nofollow :: "path \<Rightarrow> 'w \<Rightarrow> (string, unit) result \<times> 'w"
  lg_write_all :: "path \<Rightarrow> string \<Rightarrow> 'w \<Rightarrow> (string, unit) result \<times> 'w"

record log_puller =
  lp_log_root :: path
  lp_cursors :: "(container_id, cursor option) btree"
  lp_gone :: "container_id list"
  lp_stream_cap :: nat

definition STREAM_CAP :: nat where
  "STREAM_CAP = 8 * 1024 * 1024"

definition puller_new :: "path \<Rightarrow> log_puller" where
  "puller_new log_root = \<lparr>lp_log_root = log_root, lp_cursors = [], lp_gone = [], lp_stream_cap = STREAM_CAP\<rparr>"

definition stamped_line :: "(string \<Rightarrow> stamp option) \<Rightarrow> string \<Rightarrow> stamped option" where
  "stamped_line parse line =
     (case (case split_once (CHR '' '') line of Some parts \<Rightarrow> parts | None \<Rightarrow> (line, [])) of
        (at, t) \<Rightarrow> (case parse at of Some s \<Rightarrow> Some \<lparr>sl_at = s, sl_text = t\<rparr> | None \<Rightarrow> None))"

definition stamped_lines :: "(string \<Rightarrow> stamp option) \<Rightarrow> string \<Rightarrow> stamped list" where
  "stamped_lines parse out = List.map_filter (stamped_line parse) (lines out)"

definition cut_off :: "(string \<Rightarrow> stamp option) \<Rightarrow> timestamped_logs \<Rightarrow> stamp option" where
  "cut_off parse logs =
     (let ends = List.map_filter
            (\<lambda>(t, capped). if capped then
               (case stamped_lines parse t of [] \<Rightarrow> None | l # ls \<Rightarrow> Some (sl_at (last (l # ls)))) else None)
            [(tl_stdout logs, tl_stdout_capped logs), (tl_stderr logs, tl_stderr_capped logs)]
      in case ends of [] \<Rightarrow> None | e # es \<Rightarrow> Some (fold min es e))"

definition merged :: "(string \<Rightarrow> stamp option) \<Rightarrow> timestamped_logs \<Rightarrow> stamped list" where
  "merged parse logs =
     (let ls = sort_key sl_at (stamped_lines parse (tl_stdout logs) @ stamped_lines parse (tl_stderr logs))
      in case cut_off parse logs of Some bound \<Rightarrow> filter (\<lambda>l. sl_at l \<le> bound) ls | None \<Rightarrow> ls)"

definition stays_under :: "path \<Rightarrow> path \<Rightarrow> bool" where
  "stays_under p root =
     (case path_strip_prefix root p of
        Some rest \<Rightarrow> list_all (\<lambda>c. case c of Normal _ \<Rightarrow> True | _ \<Rightarrow> False) rest
      | None \<Rightarrow> False)"

definition unseen :: "stamped list \<Rightarrow> cursor option \<Rightarrow> stamped list" where
  "unseen ls cursor =
     (case cursor of
        None \<Rightarrow> ls
      | Some c \<Rightarrow>
          (let older = length (takeWhile (\<lambda>l. sl_at l < cu_at c) ls);
               repeated = length (takeWhile (\<lambda>l. sl_at l = cu_at c) (drop older ls))
           in drop (older + min repeated (cu_lines_at c)) ls))"

definition cursor_after :: "stamped list \<Rightarrow> cursor option" where
  "cursor_after ls =
     (if ls = [] then None
      else let newest = sl_at (last ls)
           in Some \<lparr>cu_at = newest, cu_lines_at = length (filter (\<lambda>l. sl_at l = newest) ls)\<rparr>)"

definition log_path :: "log_puller \<Rightarrow> container_info \<Rightarrow> path option" where
  "log_path puller info =
     (case (ci_app info, ci_service info, ci_copy info) of
        (Some app, Some service, Some copy) \<Rightarrow>
          (let p = path_join (path_join (lp_log_root puller) (components app))
                     (components (service_str service @ ''.'' @ show_u32 (copy_get copy) @ ''.log''))
           in if stays_under p (lp_log_root puller) then Some p else None)
      | _ \<Rightarrow> None)"

definition log_start_at ::
  "'w log_env \<Rightarrow> log_puller \<Rightarrow> container_info \<Rightarrow> log_start \<Rightarrow> 'w \<Rightarrow> log_puller \<times> 'w" where
  "log_start_at env puller info start w =
     (if log_path puller info = None then (puller, w)
      else case start of
             FromFirst \<Rightarrow> (puller\<lparr>lp_cursors := bt_insert (ci_id info) None (lp_cursors puller)\<rparr>, w)
           | FromNow \<Rightarrow>
               (case read_logs (lg_capture env) (lg_engine env) (ci_id info) LogNewest (lp_stream_cap puller) w of
                  (Inr logs, w') \<Rightarrow>
                    (puller\<lparr>lp_cursors := bt_insert (ci_id info) (cursor_after (merged (lg_parse env) logs)) (lp_cursors puller)\<rparr>, w')
                | (Inl (ContainerGone _ _), w') \<Rightarrow> (puller\<lparr>lp_gone := ci_id info # lp_gone puller\<rparr>, w')
                | (Inl _, w') \<Rightarrow> (puller, w')))"

definition append_log ::
  "'w log_env \<Rightarrow> log_puller \<Rightarrow> container_info \<Rightarrow> stamped list \<Rightarrow> 'w \<Rightarrow> (string, unit) result \<times> 'w" where
  "append_log env puller info ls w =
     (case log_path puller info of
        None \<Rightarrow> (Inr (), w)
      | Some p \<Rightarrow>
          (case (case path_parent p of Some dir \<Rightarrow> lg_create_dir_all env dir w | None \<Rightarrow> (Inr (), w)) of
             (Inl e, w1) \<Rightarrow> (Inl e, w1)
           | (Inr _, w1) \<Rightarrow>
               (case lg_open_nofollow env p w1 of
                  (Inl e, w2) \<Rightarrow> (Inl e, w2)
                | (Inr _, w2) \<Rightarrow> lg_write_all env p (concat (map (\<lambda>l. sl_text l @ [NEWLINE]) ls)) w2)))"

definition cursor_range :: "'w log_env \<Rightarrow> cursor option \<Rightarrow> log_range" where
  "cursor_range env cursor = (case cursor of Some c \<Rightarrow> LogSince (lg_print env (cu_at c)) | None \<Rightarrow> LogAll)"

definition pull :: "'w log_env \<Rightarrow> log_puller \<Rightarrow> container_info \<Rightarrow> 'w \<Rightarrow> log_puller \<times> 'w" where
  "pull env puller info w =
     (case bt_get (lp_cursors puller) (ci_id info) of
        None \<Rightarrow> (puller, w)
      | Some cursor \<Rightarrow>
          (case read_logs (lg_capture env) (lg_engine env) (ci_id info) (cursor_range env cursor) (lp_stream_cap puller) w of
             (Inl (ContainerGone _ _), w1) \<Rightarrow>
               (puller\<lparr>lp_cursors := bt_remove (ci_id info) (lp_cursors puller), lp_gone := ci_id info # lp_gone puller\<rparr>, w1)
           | (Inl _, w1) \<Rightarrow> (puller, w1)
           | (Inr logs, w1) \<Rightarrow>
               (let ls = merged (lg_parse env) logs;
                    fresh = unseen ls cursor
                in case (if fresh \<noteq> [] then append_log env puller info fresh w1 else (Inr (), w1)) of
                     (Inl e, w2) \<Rightarrow> (puller, w2)
                   | (Inr _, w2) \<Rightarrow>
                       (case cursor_after ls of
                          Some following \<Rightarrow> (puller\<lparr>lp_cursors := bt_insert (ci_id info) (Some following) (lp_cursors puller)\<rparr>, w2)
                        | None \<Rightarrow> (puller, w2)))))"

fun pull_running :: "'w log_env \<Rightarrow> log_start \<Rightarrow> container_info list \<Rightarrow> log_puller \<Rightarrow> 'w \<Rightarrow> log_puller \<times> 'w" where
  "pull_running env start [] puller w = (puller, w)"
| "pull_running env start (info # infos) puller w =
     (if ci_id info \<in> set (lp_gone puller) then pull_running env start infos puller w
      else case (if bt_get (lp_cursors puller) (ci_id info) = None then log_start_at env puller info start w else (puller, w)) of
             (puller1, w1) \<Rightarrow>
               (case pull env puller1 info w1 of (puller2, w2) \<Rightarrow> pull_running env start infos puller2 w2))"

fun pull_stopped :: "'w log_env \<Rightarrow> known \<Rightarrow> container_id list \<Rightarrow> log_puller \<Rightarrow> 'w \<Rightarrow> log_puller \<times> 'w" where
  "pull_stopped env known [] puller w = (puller, w)"
| "pull_stopped env known (i # ids) puller w =
     (case (case bt_get known i of Some info \<Rightarrow> pull env puller info w | None \<Rightarrow> (puller, w)) of
        (puller1, w1) \<Rightarrow> pull_stopped env known ids (puller1\<lparr>lp_cursors := bt_remove i (lp_cursors puller1)\<rparr>) w1)"

definition puller_tick :: "'w log_env \<Rightarrow> log_puller \<Rightarrow> known \<Rightarrow> log_start \<Rightarrow> 'w \<Rightarrow> log_puller \<times> 'w" where
  "puller_tick env puller known start w =
     (let puller0 = puller\<lparr>lp_gone := filter (\<lambda>i. bt_get known i \<noteq> None) (lp_gone puller)\<rparr>;
          running = filter (\<lambda>info. state_is_running (ci_state info)) (map snd known)
      in case pull_running env start running puller0 w of
           (puller1, w1) \<Rightarrow>
             (let stopped = filter (\<lambda>i. case bt_get known i of Some info \<Rightarrow> \<not> state_is_running (ci_state info) | None \<Rightarrow> True)
                    (bt_keys (lp_cursors puller1))
              in pull_stopped env known stopped puller1 w1))"

section \<open>log\_thread.rs\<close>

record log_thread =
  lt_puller :: log_puller
  lt_known :: "known option"
  lt_start :: log_start

definition thread_new :: "path \<Rightarrow> log_thread" where
  "thread_new log_root = \<lparr>lt_puller = puller_new log_root, lt_known = None, lt_start = FromNow\<rparr>"

text \<open>One round of the thread with the updates that have arrived since the last one.\<close>

definition log_round :: "'w log_env \<Rightarrow> log_thread \<Rightarrow> known list \<Rightarrow> 'w \<Rightarrow> log_thread \<times> 'w" where
  "log_round env thread updates w =
     (let newest = (if updates = [] then lt_known thread else Some (last updates))
      in case newest of
           None \<Rightarrow> (thread\<lparr>lt_known := newest\<rparr>, w)
         | Some known \<Rightarrow>
             (case puller_tick env (lt_puller thread) known (lt_start thread) w of
                (puller, w') \<Rightarrow> (\<lparr>lt_puller = puller, lt_known = newest, lt_start = FromFirst\<rparr>, w')))"

section \<open>The log of a container\<close>

text \<open>What a container has written, in the order in which the engine stamped it.\<close>

record output_line =
  ol_err :: bool
  ol_at :: stamp
  ol_text :: string

definition to_stamped :: "output_line \<Rightarrow> stamped" where
  "to_stamped l = \<lparr>sl_at = ol_at l, sl_text = ol_text l\<rparr>"

definition render :: "(stamp \<Rightarrow> string) \<Rightarrow> output_line list \<Rightarrow> string" where
  "render print ls = concat (map (\<lambda>l. (print (ol_at l) @ '' '' @ ol_text l) @ [NEWLINE]) ls)"

definition since :: "stamp option \<Rightarrow> output_line \<Rightarrow> bool" where
  "since from l = (case from of None \<Rightarrow> True | Some t \<Rightarrow> t \<le> ol_at l)"

lemma since_from: "since None = (\<lambda>l. True)" "since (Some t) = (\<lambda>l. t \<le> ol_at l)"
  by (simp_all add: since_def fun_eq_iff)

text \<open>The engine's answer: both streams, from the asked time on (the time itself included), not cut short.\<close>

definition reply :: "(stamp \<Rightarrow> string) \<Rightarrow> stamp option \<Rightarrow> output_line list \<Rightarrow> timestamped_logs" where
  "reply print from ls = \<lparr>
     tl_stdout = render print (filter (\<lambda>l. \<not> ol_err l \<and> since from l) ls),
     tl_stderr = render print (filter (\<lambda>l. ol_err l \<and> since from l) ls),
     tl_stdout_capped = False, tl_stderr_capped = False\<rparr>"

definition readable_line :: "(string \<Rightarrow> stamp option) \<Rightarrow> (stamp \<Rightarrow> string) \<Rightarrow> output_line \<Rightarrow> bool" where
  "readable_line parse print l \<longleftrightarrow>
     parse (print (ol_at l)) = Some (ol_at l) \<and> CHR '' '' \<notin> set (print (ol_at l)) \<and> NEWLINE \<notin> set (print (ol_at l))
     \<and> NEWLINE \<notin> set (ol_text l) \<and> \<not> ends_with [CHR 0x0D] (ol_text l)"

definition log_ok :: "(string \<Rightarrow> stamp option) \<Rightarrow> (stamp \<Rightarrow> string) \<Rightarrow> output_line list \<Rightarrow> bool" where
  "log_ok parse print ls \<longleftrightarrow>
     sorted (map ol_at ls) \<and> list_all (readable_line parse print) ls
     \<and> list_all (\<lambda>a. list_all (\<lambda>b. ol_at a = ol_at b \<longrightarrow> ol_err a = ol_err b) ls) ls"

lemma stamped_render:
  "list_all (readable_line parse print) ls \<Longrightarrow> stamped_lines parse (render print ls) = map to_stamped ls"
proof (induction ls)
  case Nil
  then show ?case by (simp add: stamped_lines_def render_def lines_def split_on_def List.map_filter_def)
next
  case (Cons l ls)
  let ?line = "print (ol_at l) @ '' '' @ ol_text l"
  have ok: "readable_line parse print l" using Cons.prems by simp
  have nl: "NEWLINE \<notin> set ?line" using ok by (auto simp: readable_line_def)
  have "strip_cr ?line = ?line"
    using ok by (cases "ol_text l" rule: rev_cases) (auto simp: strip_cr_def ends_with_def readable_line_def)
  then have "lines (render print (l # ls)) = ?line # lines (render print ls)"
    using lines_Cons [OF nl, of "render print ls"] by (simp add: render_def)
  moreover have "split_once (CHR '' '') ?line = Some (print (ol_at l), ol_text l)"
    using ok by (simp add: split_once_Some readable_line_def)
  then have "stamped_line parse ?line = Some (to_stamped l)"
    using ok by (simp add: stamped_line_def to_stamped_def readable_line_def)
  ultimately show ?case using Cons by (simp add: stamped_lines_def List.map_filter_def)
qed

lemma merged_reply:
  assumes "log_ok parse print ls"
  shows "merged parse (reply print from ls) = map to_stamped (filter (since from) ls)"
proof -
  let ?ts = "filter (since from) ls"
  let ?out = "filter (\<lambda>l. \<not> ol_err l \<and> since from l) ls" and ?err = "filter (\<lambda>l. ol_err l \<and> since from l) ls"
  have "list_all (readable_line parse print) ls" using assms by (simp add: log_ok_def)
  then have readable: "list_all (readable_line parse print) ?out" "list_all (readable_line parse print) ?err"
    by (simp_all add: list_all_iff)
  have parts: "stamped_lines parse (tl_stdout (reply print from ls)) = map to_stamped ?out"
    "stamped_lines parse (tl_stderr (reply print from ls)) = map to_stamped ?err"
    by (simp_all add: reply_def stamped_render readable)
  have sorted: "sorted (map sl_at (map to_stamped ?ts))"
    using assms by (simp add: log_ok_def to_stamped_def comp_def sorted_filter)
  have same: "mset (map to_stamped ?ts) = mset (map to_stamped ?out @ map to_stamped ?err)"
    by (induction ls) auto
  have ties: "filter (\<lambda>x. sl_at k = sl_at x) (map to_stamped ?ts) = filter (\<lambda>x. sl_at k = sl_at x) (map to_stamped ?out @ map to_stamped ?err)"
    if k: "k \<in> set (map to_stamped ?ts)" for k
  proof -
    obtain l where l: "l \<in> set ls" "k = to_stamped l" using k by auto
    have tie: "ol_err x = ol_err l" if "x \<in> set ls" "ol_at l = ol_at x" for x
      using assms l(1) that unfolding log_ok_def list_all_iff by metis
    show ?thesis
    proof (cases "ol_err l")
      case True
      have "filter (\<lambda>x. since from x \<and> ol_at l = ol_at x) ls = filter (\<lambda>x. ol_err x \<and> since from x \<and> ol_at l = ol_at x) ls"
        by (rule filter_cong) (use tie True in auto)
      moreover have "filter (\<lambda>x. \<not> ol_err x \<and> since from x \<and> ol_at l = ol_at x) ls = []"
        using tie True by (auto simp: filter_empty_conv)
      ultimately show ?thesis by (simp add: l(2) to_stamped_def filter_map comp_def)
    next
      case False
      have "filter (\<lambda>x. since from x \<and> ol_at l = ol_at x) ls = filter (\<lambda>x. \<not> ol_err x \<and> since from x \<and> ol_at l = ol_at x) ls"
        by (rule filter_cong) (use tie False in auto)
      moreover have "filter (\<lambda>x. ol_err x \<and> since from x \<and> ol_at l = ol_at x) ls = []"
        using tie False by (auto simp: filter_empty_conv)
      ultimately show ?thesis by (simp add: l(2) to_stamped_def filter_map comp_def)
    qed
  qed
  have "sort_key sl_at (map to_stamped ?out @ map to_stamped ?err) = map to_stamped ?ts"
    by (rule properties_for_sort_key [OF same ties sorted])
  moreover have "cut_off parse (reply print from ls) = None" by (simp add: cut_off_def reply_def List.map_filter_def)
  ultimately show ?thesis by (simp add: merged_def parts)
qed

section \<open>Each line once\<close>

lemma rest_after_cursor:
  assumes "sorted (map sl_at (old @ new))" and "old \<noteq> []"
  shows "filter (\<lambda>l. sl_at (last old) \<le> sl_at l) (old @ new) = filter (\<lambda>l. sl_at l = sl_at (last old)) old @ new"
proof -
  let ?m = "sl_at (last old)"
  have old: "sl_at l \<le> ?m" if l: "l \<in> set old" for l
  proof -
    have split: "old = butlast old @ [last old]" using assms(2) by simp
    have "sorted (map sl_at (butlast old @ [last old]))" using assms(1) split by (simp add: sorted_append)
    then have "\<forall>x \<in> set (butlast old). sl_at x \<le> ?m" by (simp add: sorted_append)
    moreover have "l \<in> set (butlast old) \<or> l = last old" using l split by (metis Un_iff empty_iff empty_set insert_iff list.simps(15) set_append)
    ultimately show ?thesis by auto
  qed
  have "?m \<le> sl_at l" if "l \<in> set new" for l
    using assms that last_in_set [OF assms(2)] by (auto simp: sorted_append)
  then have "filter (\<lambda>l. ?m \<le> sl_at l) new = new" by simp
  moreover have "filter (\<lambda>l. ?m \<le> sl_at l) old = filter (\<lambda>l. sl_at l = ?m) old"
    by (rule filter_cong) (use old in force)+
  ultimately show ?thesis by simp
qed

lemma unseen_exact:
  assumes "sorted (map sl_at (old @ new))" and "cursor_after old = Some c"
    and "rest = filter (\<lambda>l. cu_at c \<le> sl_at l) (old @ new)"
  shows "unseen rest (Some c) = new \<and> cursor_after rest = cursor_after (old @ new)"
proof -
  have ne: "old \<noteq> []" and c: "cu_at c = sl_at (last old)" "cu_lines_at c = length (filter (\<lambda>l. sl_at l = sl_at (last old)) old)"
    using assms(2) by (auto simp: cursor_after_def Let_def split: if_splits)
  let ?m = "sl_at (last old)" and ?here = "filter (\<lambda>l. sl_at l = sl_at (last old)) old"
  have rest: "rest = ?here @ new" using rest_after_cursor [OF assms(1) ne] assms(3) c(1) by simp
  have "\<forall>l \<in> set rest. ?m \<le> sl_at l" by (auto simp: assms(3) c(1))
  then have "takeWhile (\<lambda>l. sl_at l < ?m) rest = []" by (cases rest) auto
  moreover have "takeWhile (\<lambda>l. sl_at l = ?m) rest = ?here @ takeWhile (\<lambda>l. sl_at l = ?m) new"
    unfolding rest by (rule takeWhile_append2) auto
  ultimately have "unseen rest (Some c) = drop (length ?here) rest"
    by (simp add: unseen_def c)
  then have new: "unseen rest (Some c) = new" by (simp add: rest)
  have here: "?here \<noteq> []" using ne by (auto simp: filter_empty_conv intro!: bexI [of _ "last old"])
  have newest: "sl_at (last rest) = sl_at (last (old @ new))"
  proof (cases "new = []")
    case True
    then show ?thesis using here last_in_set [OF here] by (auto simp: rest)
  qed (simp add: rest)
  have "?m \<le> sl_at (last (old @ new))"
    using assms(1) ne by (cases "new = []") (auto simp: sorted_append)
  then have "filter (\<lambda>l. sl_at l = sl_at (last (old @ new))) rest = filter (\<lambda>l. sl_at l = sl_at (last (old @ new))) (old @ new)"
    unfolding assms(3) c(1) filter_filter by (intro filter_cong) auto
  then have "cursor_after rest = cursor_after (old @ new)"
    using here ne newest by (simp add: cursor_after_def rest)
  then show ?thesis using new by simp
qed


text \<open>A container that wrote one line before and one since.\<close>

definition first_line :: output_line where
  "first_line = \<lparr>ol_err = False, ol_at = 1, ol_text = ''up''\<rparr>"

definition second_line :: output_line where
  "second_line = \<lparr>ol_err = True, ol_at = 2, ol_text = ''oops''\<rparr>"

definition tally_marks :: "stamp \<Rightarrow> string" where
  "tally_marks t = replicate (nat t) (CHR ''I'')"

definition sample_log_env :: "string log_env" where
  "sample_log_env = \<lparr>
     lg_engine = \<lparr>en_capture = (\<lambda>args limit w. (Inl [], w)), en_settings = en_settings sample_engine, en_inspect_json = en_inspect_json sample_engine,
       en_temp_file = (\<lambda>dir content w. (Inl [], w)), en_drop_file = (\<lambda>f w. w), en_try_join = (\<lambda>words. None)\<rparr>,
     lg_capture = (\<lambda>args limit cap w. (Inr \<lparr>cp_success = True, cp_status = [], cp_stdout = ''I up'' @ [NEWLINE],
       cp_stderr = ''II oops'' @ [NEWLINE], cp_stdout_capped = False, cp_stderr_capped = False, cp_truncated = False\<rparr>, w)),
     lg_parse = (\<lambda>t. Some (int (length t))), lg_print = tally_marks,
     lg_create_dir_all = (\<lambda>p w. (Inr (), w)), lg_open_nofollow = (\<lambda>p w. (Inr (), w)),
     lg_write_all = (\<lambda>p t w. (Inr (), w @ t))\<rparr>"

definition sample_puller :: log_puller where
  "sample_puller = (puller_new [RootDir, Normal ''logs''])\<lparr>lp_cursors := [(ContainerId sample_id, Some \<lparr>cu_at = 1, cu_lines_at = 1\<rparr>)]\<rparr>"

lemma sample_log_path: "log_path sample_puller sample_info = Some [RootDir, Normal ''logs'', Normal ''shop'', Normal ''web.1.log'']"
proof -
  have "show_u32 1 = ''1''" by code_simp
  then show ?thesis
    by (simp add: log_path_def sample_puller_def puller_new_def sample_info_def components_def split_on_def part_component_def
        path_join_def is_absolute_def stays_under_def Let_def)
qed


section \<open>Where the lines go\<close>

text \<open>Whatever its labels say, the output of a container is appended below the log root only.\<close>

lemma log_path_confined:
  assumes "log_path puller info = Some p"
  shows "\<exists>names. p = lp_log_root puller @ map Normal names"
proof -
  have "stays_under p (lp_log_root puller)"
    using assms by (auto simp: log_path_def Let_def split: option.splits if_splits)
  then obtain rest where p: "p = lp_log_root puller @ rest" and plain: "list_all (\<lambda>c. case c of Normal _ \<Rightarrow> True | _ \<Rightarrow> False) rest"
    by (auto simp: stays_under_def path_strip_prefix_Some split: option.splits)
  have "\<exists>names. rest = map Normal names"
    using plain
  proof (induction rest)
    case (Cons c rest)
    then obtain n names where "c = Normal n" "rest = map Normal names" by (auto split: component.splits)
    then show ?case by (metis list.simps(9))
  qed simp
  then show ?thesis using p by blast
qed

text \<open>Two lines of different streams with one stamp may come back in another order, and then one is written twice and one is lost.\<close>

lemma tied_stamps_lose_a_line:
  "let early = merged (\<lambda>t. Some 7) \<lparr>tl_stdout = ''t a'', tl_stderr = ''t b'', tl_stdout_capped = False, tl_stderr_capped = False\<rparr>;
       late = merged (\<lambda>t. Some 7) \<lparr>tl_stdout = ''t a'' @ [NEWLINE] @ ''t c'', tl_stderr = ''t b'', tl_stdout_capped = False, tl_stderr_capped = False\<rparr>
   in map sl_text early = [''a'', ''b''] \<and> map sl_text (unseen late (cursor_after early)) = [''b'']"
  by code_simp

end
