(* ===== verification/App_Control.thy ===== *)
theory App_Control
  imports Container_Watch
begin

text \<open>
  The operations on a deployed container app in \<open>riku-deploy/src/containers/\<close>: which apps run as containers and how many copies
  they want (\<open>app.rs\<close>), stopping and removing (\<open>removal.rs\<close>), restart, stop and scale (\<open>control.rs\<close>), the restart of one dead
  copy for the supervisor (\<open>copy_restart.rs\<close>), the rollout of a deploy (\<open>deploy.rs\<close>) and the deploy lock
  (\<open>riku-deploy/src/lock.rs\<close>).

  The record \<open>host\<close> stands for what lies outside: the files of the server, \<open>flock\<close> and the clock, the opening of the engine, the
  writing of router files and the signal to the supervisor.
\<close>

section \<open>Errors and the host\<close>

datatype control_error =
    CtlCopy copy_error
  | CtlEngine engine_error
  | CtlRule rule_error
  | CtlLocate locate_error
  | CtlProject project_error
  | NoImageFile string
  | ScalingEmptyName string
  | ScalingNotPair string
  | ScalingNotCount string
  | ScalingIo string
  | CannotStop string engine_error
  | CannotRemove string engine_error
  | DeadCopyKept string control_error
  | NotHealthyAgain string copy_error
  | RouterError string
  | NothingStopped string
  | RouterStale control_error control_error
  | ScaleFailed string "copy_error roll_error"
  | DeployInProgress string
  | LockIo string
  | HostIo string
  | EngineUnreachable engine_error control_error
  | CannotRemoveNetwork string engine_error

type_synonym ('w, 'a) control_call = "'w \<Rightarrow> (control_error, 'a) result \<times> 'w"

definition then_call :: "('w, 'a) control_call \<Rightarrow> ('a \<Rightarrow> ('w, 'b) control_call) \<Rightarrow> ('w, 'b) control_call" where
  "then_call m f w = (case m w of (Inl e, w') \<Rightarrow> (Inl e, w') | (Inr a, w') \<Rightarrow> f a w')"

definition from_error :: "('e \<Rightarrow> control_error) \<Rightarrow> ('w \<Rightarrow> ('e, 'a) result \<times> 'w) \<Rightarrow> ('w, 'a) control_call" where
  "from_error err m w = apfst (map_err err) (m w)"

definition give :: "(control_error, 'a) result \<Rightarrow> ('w, 'a) control_call" where
  "give r w = (r, w)"

datatype file_read = ReadText string | ReadMissing | ReadFailed string

record 'w host =
  ho_read_scaling :: "'w \<Rightarrow> file_read \<times> 'w"
  ho_write_scaling :: "string \<Rightarrow> 'w \<Rightarrow> (string, unit) result \<times> 'w"
  ho_router_remove :: "'w \<Rightarrow> (string, unit) result \<times> 'w"
  ho_router_configure :: "'w \<Rightarrow> (string, unit) result \<times> 'w"
  ho_notify_supervisor :: "'w \<Rightarrow> 'w"
  ho_load_app :: "('w, 'w container_app) control_call"
  ho_open_engine :: "('w, 'w engine) control_call"
  ho_saved_project :: "'w \<Rightarrow> compose_project option \<times> 'w"
  ho_open_lock :: "'w \<Rightarrow> (string, unit) result \<times> 'w"
  ho_flock :: "'w \<Rightarrow> (string, bool) result \<times> 'w"
  ho_lock_tag :: "'w \<Rightarrow> file_read \<times> 'w"
  ho_record_holder :: "string \<Rightarrow> 'w \<Rightarrow> (string, unit) result \<times> 'w"
  ho_unlock :: "'w \<Rightarrow> 'w"
  ho_now :: "'w \<Rightarrow> instant"
  ho_sleep :: "duration \<Rightarrow> 'w \<Rightarrow> 'w"

section \<open>app.rs\<close>

definition SINGLE_IMAGE_PORT :: u16 where
  "SINGLE_IMAGE_PORT = 8000"

definition RUNTIME_KEY :: string where
  "RUNTIME_KEY = ''RIKU_RUNTIME''"

definition RUNTIME_NAME :: string where
  "RUNTIME_NAME = ''container''"

definition COMPOSE_FILE_KEY :: string where
  "COMPOSE_FILE_KEY = ''COMPOSE_FILE''"

definition IMAGE_FILES :: "string list" where
  "IMAGE_FILES = [''Containerfile'', ''Dockerfile'']"

definition image_file :: "file_system \<Rightarrow> path \<Rightarrow> path option" where
  "image_file fs app_path = find (fs_is_file fs) (map (\<lambda>name. path_join app_path (components name)) IMAGE_FILES)"

definition requested_compose :: "env_map \<Rightarrow> string option" where
  "requested_compose env =
     (case bt_get env COMPOSE_FILE_KEY of Some name \<Rightarrow> (if name \<noteq> [] then Some name else None) | None \<Rightarrow> None)"

definition is_container_app :: "file_system \<Rightarrow> path \<Rightarrow> env_map \<Rightarrow> (control_error, bool) result" where
  "is_container_app fs app_path env =
     (if (case bt_get env RUNTIME_KEY of Some name \<Rightarrow> name \<noteq> RUNTIME_NAME | None \<Rightarrow> False) then Inr False
      else case find_compose_file fs app_path (requested_compose env) of
             Inr (Some _) \<Rightarrow> Inr True
           | Inr None \<Rightarrow> Inr (image_file fs app_path \<noteq> None)
           | Inl e \<Rightarrow> Inl (CtlLocate e))"

text \<open>\<open>single_image_project\<close> gives one service; its port and its \<open>PORT\<close> variable are added.\<close>

definition single_image :: "path \<Rightarrow> path \<Rightarrow> compose_project" where
  "single_image app_path dockerfile =
     (let project = single_image_project app_path dockerfile;
          service = hd (cp_services project);
          service = service\<lparr>
            sd_ports := sd_ports service
              @ [\<lparr>pb_host_ip = Loopback, pb_host_port = None, pb_container_port = SINGLE_IMAGE_PORT, pb_protocol = Tcp\<rparr>],
            sd_environment := bt_insert ''PORT'' (show_u16 SINGLE_IMAGE_PORT) (sd_environment service)\<rparr>
      in project\<lparr>cp_services := service # tl (cp_services project)\<rparr>)"

definition load_project ::
  "file_system \<Rightarrow> (string \<Rightarrow> string list option) \<Rightarrow> (string \<Rightarrow> (string, yaml) result) \<Rightarrow> string \<Rightarrow> path \<Rightarrow> env_map
     \<Rightarrow> (control_error, compose_project) result" where
  "load_project fs shlex yaml_of app app_path env =
     and_then (map_err CtlLocate (find_compose_file fs app_path (requested_compose env))) (\<lambda>compose.
     case compose of
       Some file \<Rightarrow> map_err CtlProject (read_project fs shlex yaml_of app_path file env)
     | None \<Rightarrow>
         (case image_file fs app_path of
            Some dockerfile \<Rightarrow> Inr (single_image app_path dockerfile)
          | None \<Rightarrow> Inl (NoImageFile app)))"

definition parse_count :: "string \<Rightarrow> (control_error, (string \<times> u32) option) result" where
  "parse_count raw =
     (let line = trim raw
      in if line = [] \<or> starts_with ''#'' line then Inr None
         else case split_once (CHR ''='') line of
                None \<Rightarrow> Inl (ScalingNotPair line)
              | Some (name, copies) \<Rightarrow>
                  (if trim name = [] then Inl (ScalingEmptyName line)
                   else case parse_u32 (trim copies) of
                          Some n \<Rightarrow> Inr (Some (trim name, n))
                        | None \<Rightarrow> Inl (ScalingNotCount line)))"

definition scaling_line :: "string \<Rightarrow> (string, u32) btree \<Rightarrow> (control_error, (string, u32) btree) result" where
  "scaling_line line counts =
     and_then (parse_count line) (\<lambda>entry.
     case entry of Some (name, copies) \<Rightarrow> Inr (bt_insert name copies counts) | None \<Rightarrow> Inr counts)"

definition parse_scaling :: "string \<Rightarrow> (control_error, (string, u32) btree) result" where
  "parse_scaling content = fold_result scaling_line (lines content) []"

definition read_scaling :: "'w host \<Rightarrow> ('w, (string, u32) btree) control_call" where
  "read_scaling host w =
     (case ho_read_scaling host w of
        (ReadText content, w') \<Rightarrow> (parse_scaling content, w')
      | (ReadMissing, w') \<Rightarrow> (Inr [], w')
      | (ReadFailed e, w') \<Rightarrow> (Inl (ScalingIo e), w'))"

definition scaling_text :: "(string, u32) btree \<Rightarrow> string" where
  "scaling_text counts = concat (map (\<lambda>(name, copies). (name @ ''='' @ show_u32 copies) @ [NEWLINE]) counts)"

definition save_scaling :: "'w host \<Rightarrow> (string, u32) btree \<Rightarrow> ('w, unit) control_call" where
  "save_scaling host counts = from_error ScalingIo (ho_write_scaling host (scaling_text counts))"

definition write_scaling :: "'w host \<Rightarrow> service_name \<Rightarrow> u32 \<Rightarrow> ('w, unit) control_call" where
  "write_scaling host service copies =
     then_call (read_scaling host) (\<lambda>counts. save_scaling host (bt_insert (service_str service) copies counts))"

definition retain_scaling :: "'w host \<Rightarrow> (string \<Rightarrow> bool) \<Rightarrow> ('w, unit) control_call" where
  "retain_scaling host keep =
     then_call (read_scaling host) (\<lambda>counts.
     let kept = filter (\<lambda>(name, _). keep name) counts
     in if length kept = length counts then give (Inr ()) else save_scaling host kept)"

section \<open>removal.rs\<close>

definition grace_of :: "compose_project option \<Rightarrow> container_info \<Rightarrow> duration" where
  "grace_of project info =
     (case Option.bind project (\<lambda>p. find (\<lambda>s. Some (sd_name s) = ci_service info) (cp_services p)) of
        Some service \<Rightarrow> sd_stop_grace service
      | None \<Rightarrow> DEFAULT_STOP_GRACE)"

definition app_containers :: "'w engine \<Rightarrow> string \<Rightarrow> ('w, container_info list) control_call" where
  "app_containers engine app =
     then_call (from_error CtlEngine (engine_list engine app)) (\<lambda>ids. from_error CtlEngine (inspect engine ids))"

fun remove_containers ::
  "'w engine \<Rightarrow> compose_project option \<Rightarrow> container_info list \<Rightarrow> ('w, unit) control_call" where
  "remove_containers engine project [] w = (Inr (), w)"
| "remove_containers engine project (info # infos) w =
     then_call (from_error (CannotStop (ci_name info)) (engine_stop engine (ci_id info) (grace_of project info))) (\<lambda>_.
     then_call (from_error (CannotRemove (ci_name info)) (engine_remove engine (ci_id info))) (\<lambda>_.
     remove_containers engine project infos)) w"

definition in_project :: "compose_project \<Rightarrow> container_info \<Rightarrow> bool" where
  "in_project project info \<longleftrightarrow> list_ex (\<lambda>s. Some (sd_name s) = ci_service info) (cp_services project)"

definition remove_dropped :: "'w engine \<Rightarrow> string \<Rightarrow> compose_project \<Rightarrow> ('w, unit) control_call" where
  "remove_dropped engine app project =
     then_call (app_containers engine app) (\<lambda>containers.
     let dropped = filter (\<lambda>info. \<not> in_project project info) containers
     in if dropped = [] then give (Inr ()) else remove_containers engine (Some project) dropped)"

section \<open>control.rs\<close>

definition chosen :: "'w container_app \<Rightarrow> service_name option \<Rightarrow> (control_error, service_def list) result" where
  "chosen ctx service =
     (case service of
        None \<Rightarrow> Inr (cp_services (ca_project ctx))
      | Some name \<Rightarrow> map_err CtlCopy (and_then (app_service ctx name) (\<lambda>def. Inr [def])))"

definition restart_locked :: "'w host \<Rightarrow> 'w container_app \<Rightarrow> service_name option \<Rightarrow> ('w, unit) control_call" where
  "restart_locked host ctx service =
     then_call (read_scaling host) (\<lambda>counts.
     then_call (give (chosen ctx service)) (\<lambda>services.
     from_error CtlCopy (roll_out ctx counts services)))"

text \<open>\<open>position\<close> counts from 0, and containers of services that are gone come first (\<open>usize::MAX\<close>).\<close>

definition start_rank :: "'w container_app \<Rightarrow> container_info \<Rightarrow> nat" where
  "start_rank ctx info =
     (let services = cp_services (ca_project ctx);
          n = length (takeWhile (\<lambda>s. Some (sd_name s) \<noteq> ci_service info) services)
      in if n < length services then n + 1 else 2 ^ 64 - 1)"

definition stop_targets :: "'w container_app \<Rightarrow> service_name option \<Rightarrow> container_info list \<Rightarrow> container_info list" where
  "stop_targets ctx service infos =
     sort_key (\<lambda>info. - int (start_rank ctx info))
       (filter (\<lambda>info. service = None \<or> ci_service info = service) infos)"

definition stop_locked :: "'w host \<Rightarrow> 'w container_app \<Rightarrow> service_name option \<Rightarrow> ('w, unit) control_call" where
  "stop_locked host ctx service =
     then_call (give (case service of Some name \<Rightarrow> map_err CtlCopy (and_then (app_service ctx name) (\<lambda>_. Inr ())) | None \<Rightarrow> Inr ())) (\<lambda>_.
     then_call (app_containers (ca_engine ctx) (app_str (ca_app ctx))) (\<lambda>infos.
     let routed_hit = (case service of None \<Rightarrow> ca_routed ctx \<noteq> None | Some name \<Rightarrow> app_is_routed ctx name)
     in then_call (if routed_hit then from_error NothingStopped (ho_router_remove host) else give (Inr ())) (\<lambda>_.
        remove_containers (ca_engine ctx) (Some (ca_project ctx)) (stop_targets ctx service infos))))"

definition scale_locked :: "'w host \<Rightarrow> 'w container_app \<Rightarrow> service_name \<Rightarrow> u32 \<Rightarrow> ('w, unit) control_call" where
  "scale_locked host ctx service copies =
     then_call (give (map_err CtlCopy (app_service ctx service))) (\<lambda>def.
     then_call (give (map_err CtlRule (check_scale (ca_project ctx) service copies))) (\<lambda>_ w.
     case scale_to (container_runtime ctx def) (service_routes ctx service) copies w of
       (scaled, w1) \<Rightarrow>
         (let w2 = ho_notify_supervisor host w1
          in case scaled of
               Inl e \<Rightarrow> (Inl (ScaleFailed (service_str service) e), w2)
             | Inr _ \<Rightarrow> write_scaling host service copies w2)))"

section \<open>lock.rs\<close>

definition CONTENTION_GRACE :: duration where
  "CONTENTION_GRACE = from_secs 1"

definition RETRY_INTERVAL :: duration where
  "RETRY_INTERVAL = 10 * 1000000"

definition RESTART_WAIT :: duration where
  "RESTART_WAIT = HEALTHCHECK_WAIT + from_secs 30"

datatype holder = Operation | HolderRestart

fun holder_tag :: "holder \<Rightarrow> string" where
  "holder_tag Operation = ''operation''"
| "holder_tag HolderRestart = ''restart''"

definition held_by_restart :: "'w host \<Rightarrow> 'w \<Rightarrow> bool \<times> 'w" where
  "held_by_restart host w =
     (case ho_lock_tag host w of
        (ReadText tag, w') \<Rightarrow> (trim tag = holder_tag HolderRestart, w')
      | (_, w') \<Rightarrow> (False, w'))"

definition keep_waiting :: "'w host \<Rightarrow> duration \<Rightarrow> duration \<Rightarrow> 'w \<Rightarrow> bool \<times> 'w" where
  "keep_waiting host waited restart_wait w =
     (if waited < CONTENTION_GRACE then (True, w)
      else if waited < restart_wait then held_by_restart host w
      else (False, w))"

text \<open>One round sleeps, tries and decides; fuel stands for the number of rounds.\<close>

fun retry_loop :: "'w host \<Rightarrow> instant \<Rightarrow> duration \<Rightarrow> nat \<Rightarrow> 'w \<Rightarrow> (string, bool) result option \<times> 'w" where
  "retry_loop host start restart_wait 0 w = (None, w)"
| "retry_loop host start restart_wait (Suc fuel) w =
     (case ho_flock host (ho_sleep host RETRY_INTERVAL w) of
        (Inl e, w1) \<Rightarrow> (Some (Inl e), w1)
      | (Inr True, w1) \<Rightarrow> (Some (Inr True), w1)
      | (Inr False, w1) \<Rightarrow>
          (case keep_waiting host (ho_now host w1 - start) restart_wait w1 of
             (True, w2) \<Rightarrow> retry_loop host start restart_wait fuel w2
           | (False, w2) \<Rightarrow> (Some (Inr False), w2)))"

definition retry_fuel :: "duration \<Rightarrow> nat" where
  "retry_fuel restart_wait = max CONTENTION_GRACE restart_wait div RETRY_INTERVAL + 2"

definition retry_acquire :: "'w host \<Rightarrow> duration \<Rightarrow> 'w \<Rightarrow> (string, bool) result option \<times> 'w" where
  "retry_acquire host restart_wait w = retry_loop host (ho_now host w) restart_wait (retry_fuel restart_wait) w"

text \<open>The value \<open>None\<close> of a loop that runs on stands for a call that does not return.\<close>

definition acquire_as :: "'w host \<Rightarrow> string \<Rightarrow> holder \<Rightarrow> duration \<Rightarrow> 'w \<Rightarrow> (control_error, unit) result option \<times> 'w" where
  "acquire_as host app holder restart_wait w =
     (case ho_open_lock host w of
        (Inl e, w1) \<Rightarrow> (Some (Inl (LockIo e)), w1)
      | (Inr _, w1) \<Rightarrow>
          (case (case ho_flock host w1 of
                   (Inr True, w2) \<Rightarrow> (Some (Inr True), w2)
                 | (Inr False, w2) \<Rightarrow> retry_acquire host restart_wait w2
                 | (Inl e, w2) \<Rightarrow> (Some (Inl e), w2)) of
             (None, w3) \<Rightarrow> (None, w3)
           | (Some (Inl e), w3) \<Rightarrow> (Some (Inl (LockIo e)), w3)
           | (Some (Inr False), w3) \<Rightarrow> (Some (Inl (DeployInProgress app)), w3)
           | (Some (Inr True), w3) \<Rightarrow>
               (case ho_record_holder host (holder_tag holder) w3 of
                  (Inr _, w4) \<Rightarrow> (Some (Inr ()), w4)
                | (Inl e, w4) \<Rightarrow> (Some (Inl (LockIo e)), ho_unlock host w4))))"

section \<open>The operations under the lock\<close>

text \<open>
  The lock is a guard: it is released when the operation returns, on every path.  A daemon that stopped answering is told
  apart from the failure it caused by asking it again.
\<close>

definition ping :: "'w engine \<Rightarrow> ('w, unit) engine_call" where
  "ping engine = calling (engine_output engine [''version'', ''--format'', ''json'']) (\<lambda>_. giving (Inr ()))"

definition reclassify :: "'w engine \<Rightarrow> ('w, 'a) control_call \<Rightarrow> ('w, 'a) control_call" where
  "reclassify engine m w =
     (case m w of
        (Inr v, w1) \<Rightarrow> (Inr v, w1)
      | (Inl e, w1) \<Rightarrow>
          (case ping engine w1 of
             (Inr _, w2) \<Rightarrow> (Inl e, w2)
           | (Inl pe, w2) \<Rightarrow> (Inl (EngineUnreachable pe e), w2)))"

definition under_lock ::
  "'w host \<Rightarrow> string \<Rightarrow> holder \<Rightarrow> ('w, 'a) control_call \<Rightarrow> 'w \<Rightarrow> (control_error, 'a) result option \<times> 'w" where
  "under_lock host app holder m w =
     (case acquire_as host app holder 0 w of
        (None, w1) \<Rightarrow> (None, w1)
      | (Some (Inl e), w1) \<Rightarrow> (Some (Inl e), w1)
      | (Some (Inr _), w1) \<Rightarrow> apsnd (ho_unlock host) (apfst Some (m w1)))"

definition locked ::
  "'w host \<Rightarrow> string \<Rightarrow> ('w container_app \<Rightarrow> ('w, 'a) control_call) \<Rightarrow> 'w \<Rightarrow> (control_error, 'a) result option \<times> 'w" where
  "locked host app m = under_lock host app Operation (then_call (ho_load_app host) m)"

definition restart_service ::
  "'w host \<Rightarrow> string \<Rightarrow> service_name option \<Rightarrow> 'w \<Rightarrow> (control_error, unit) result option \<times> 'w" where
  "restart_service host app service =
     locked host app (\<lambda>ctx.
       reclassify (ca_engine ctx) (\<lambda>w. apsnd (ho_notify_supervisor host) (restart_locked host ctx service w)))"

definition stop_service ::
  "'w host \<Rightarrow> string \<Rightarrow> service_name option \<Rightarrow> 'w \<Rightarrow> (control_error, unit) result option \<times> 'w" where
  "stop_service host app service = locked host app (\<lambda>ctx. reclassify (ca_engine ctx) (stop_locked host ctx service))"

definition scale_service ::
  "'w host \<Rightarrow> string \<Rightarrow> service_name \<Rightarrow> u32 \<Rightarrow> 'w \<Rightarrow> (control_error, unit) result option \<times> 'w" where
  "scale_service host app service copies = locked host app (\<lambda>ctx. scale_locked host ctx service copies)"

definition destroy_containers :: "'w host \<Rightarrow> string \<Rightarrow> 'w \<Rightarrow> (control_error, unit) result option \<times> 'w" where
  "destroy_containers host app =
     under_lock host app Operation
       (then_call (ho_open_engine host) (\<lambda>engine.
        then_call (app_containers engine app) (\<lambda>containers w.
        case ho_saved_project host w of
          (project, w1) \<Rightarrow>
            then_call (remove_containers engine project containers) (\<lambda>_.
            let network = network_str (network_name_for_app app)
            in from_error (CannotRemoveNetwork network) (remove_network engine network)) w1)))"

section \<open>copy\_restart.rs\<close>

definition is_busy :: "control_error \<Rightarrow> bool" where
  "is_busy e = (case e of DeployInProgress _ \<Rightarrow> True | _ \<Rightarrow> False)"

definition reconfigure_router :: "'w host \<Rightarrow> 'w container_app \<Rightarrow> service_name \<Rightarrow> ('w, unit) control_call" where
  "reconfigure_router host ctx service =
     (if \<not> app_is_routed ctx service then give (Inr ()) else from_error RouterError (ho_router_configure host))"

definition reroute_after_failure ::
  "'w host \<Rightarrow> 'w container_app \<Rightarrow> service_def \<Rightarrow> control_error \<Rightarrow> 'w \<Rightarrow> control_error \<times> 'w" where
  "reroute_after_failure host ctx def err w =
     (if \<not> app_is_routed ctx (sd_name def) then (err, w)
      else
        (case (case runtime_live ctx def w of
                 (Inr left, w1) \<Rightarrow>
                   (if left = [] then from_error RouterError (ho_router_remove host) w1
                    else reconfigure_router host ctx (sd_name def) w1)
               | (Inl e, w1) \<Rightarrow> (Inl (CtlCopy e), w1)) of
           (Inr _, w2) \<Rightarrow> (err, w2)
         | (Inl e, w2) \<Rightarrow> (RouterStale err e, w2)))"

definition is_dead_slot :: "service_name \<Rightarrow> copy_index \<Rightarrow> container_info \<Rightarrow> bool" where
  "is_dead_slot service copy info \<longleftrightarrow>
     ci_service info = Some service \<and> ci_copy info = Some copy
     \<and> (case ci_state info of Exited _ \<Rightarrow> True | _ \<Rightarrow> False)"

definition dead_copy :: "'w container_app \<Rightarrow> service_name \<Rightarrow> copy_index \<Rightarrow> ('w, container_info option) control_call" where
  "dead_copy ctx service copy =
     then_call (app_containers (ca_engine ctx) (app_str (ca_app ctx))) (\<lambda>containers.
     give (Inr (find (is_dead_slot service copy) containers)))"

definition slot_text :: "service_name \<Rightarrow> copy_index \<Rightarrow> string" where
  "slot_text service copy = service_str service @ ''.'' @ show_u32 (copy_get copy)"

definition start_slot ::
  "'w host \<Rightarrow> 'w container_app \<Rightarrow> service_name \<Rightarrow> copy_index \<Rightarrow> ('w, restart_outcome) control_call" where
  "start_slot host ctx service copy =
     then_call (give (map_err CtlCopy (app_service ctx service))) (\<lambda>def.
     then_call (dead_copy ctx service copy) (\<lambda>dead.
     case dead of
       None \<Rightarrow> give (Inr Gone)
     | Some info \<Rightarrow>
         then_call (from_error (DeadCopyKept (slot_text service copy))
           (remove_containers (ca_engine ctx) (Some (ca_project ctx)) [info])) (\<lambda>_ w.
         let runtime = container_runtime ctx def
         in case cr_start runtime copy w of
              (Inl e, w1) \<Rightarrow> apfst Inl (reroute_after_failure host ctx def (CtlCopy e) w1)
            | (Inr fresh, w1) \<Rightarrow>
                (case cr_wait_healthy runtime fresh w1 of
                   (Inl e, w2) \<Rightarrow>
                     apfst Inl (reroute_after_failure host ctx def (NotHealthyAgain (slot_text service copy) e)
                       (cr_discard runtime fresh w2))
                 | (Inr _, w2) \<Rightarrow>
                     then_call (reconfigure_router host ctx service) (\<lambda>_. give (Inr Restarted)) w2))))"

definition restart_copy ::
  "'w host \<Rightarrow> string \<Rightarrow> service_name \<Rightarrow> copy_index \<Rightarrow> 'w \<Rightarrow> (control_error, restart_outcome) result option \<times> 'w" where
  "restart_copy host app service copy w =
     (case acquire_as host app HolderRestart 0 w of
        (None, w1) \<Rightarrow> (None, w1)
      | (Some (Inl e), w1) \<Rightarrow> (Some (if is_busy e then Inr Busy else Inl e), w1)
      | (Some (Inr _), w1) \<Rightarrow>
          apsnd (ho_unlock host) (apfst Some
            (then_call (ho_load_app host) (\<lambda>ctx. start_slot host ctx service copy) w1)))"

section \<open>deploy.rs\<close>

definition check_counts :: "compose_project \<Rightarrow> (string, u32) btree \<Rightarrow> (control_error, unit) result" where
  "check_counts project counts =
     check_each (\<lambda>s. map_err CtlRule (check_scale project (sd_name s) (wanted counts (sd_name s)))) (cp_services project)"

definition roll_out_app :: "'w host \<Rightarrow> 'w container_app \<Rightarrow> (string, u32) btree \<Rightarrow> ('w, unit) control_call" where
  "roll_out_app host ctx counts =
     then_call (from_error CtlCopy (roll_out ctx counts (cp_services (ca_project ctx)))) (\<lambda>_.
     then_call (remove_dropped (ca_engine ctx) (app_str (ca_app ctx)) (ca_project ctx)) (\<lambda>_.
     case ca_routed ctx of Some _ \<Rightarrow> give (Inr ()) | None \<Rightarrow> from_error RouterError (ho_router_remove host)))"

end
