(* ===== verification/Container_Safety.thy ===== *)
theory Container_Safety
  imports Restart_Tally
begin

text \<open>
  What the rollout of a container app guarantees.  The container runtime keeps the law the rollout relies on, so the
  lemmas of \<open>Rolling_Safety\<close> hold for it; recording the calls changes neither results nor the world.  A copy's labels read
  back to the copy, and a spec built from a parsed service passes the engine driver's checks.
\<close>

section \<open>Calls of the container runtime\<close>

lemma and_call_Inr:
  "and_call m f w = (Inr b, w') \<longleftrightarrow> (\<exists>a w1. m w = (Inr a, w1) \<and> f a w1 = (Inr b, w'))"
  by (auto simp: and_call_def split: prod.splits sum.splits)

lemma pure_call_Inr: "pure_call r w = (Inr a, w') \<longleftrightarrow> r = Inr a \<and> w' = w"
  by (auto simp: pure_call_def)

lemma from_call_Inr: "from_call err m w = (Inr a, w') \<longleftrightarrow> m w = (Inr a, w')"
  by (cases "m w") (auto simp: from_call_def map_err_Inr)

lemmas copy_call_simps = and_call_Inr pure_call_Inr from_call_Inr

text \<open>The runtime starts the copy it is asked for: the law the rollout relies on.\<close>

interpretation containers: copy_runtime_law "container_runtime ctx service" "service_routes ctx name"
  for ctx :: "'w container_app" and service name
proof
  fix i w c w'
  assume "cr_start (container_runtime ctx service) i w = (Inr c, w')"
  then show "lc_copy c = i" by (auto simp: container_runtime_def runtime_start_def copy_call_simps)
qed

section \<open>Recording changes nothing\<close>

definition erases :: "('w logged \<Rightarrow> 'a \<times> 'w logged) \<Rightarrow> ('w \<Rightarrow> 'a \<times> 'w) \<Rightarrow> bool" where
  "erases m' m \<longleftrightarrow> (\<forall>w t. \<exists>t'. m' (w, t) = (fst (m w), (snd (m w), t')))"

lemma erasesE:
  assumes "erases m' m"
  obtains t' where "m' (w, t) = (fst (m w), (snd (m w), t'))"
  using assms by (auto simp: erases_def)

lemma erases_bind:
  assumes "erases m' m" and f: "\<And>a. erases (f' a) (f a)"
  shows "erases (bind m' f') (bind m f)"
  unfolding erases_def
proof (intro allI)
  fix w t
  obtain t1 where m': "m' (w, t) = (fst (m w), (snd (m w), t1))" using assms(1) by (rule erasesE)
  obtain r w1 where m: "m w = (r, w1)" by (cases "m w")
  show "\<exists>t'. bind m' f' (w, t) = (fst (bind m f w), (snd (bind m f w), t'))"
    using f by (cases r) (auto simp: bind_def m m' erases_def)
qed

lemma erases_lift: "erases m' m \<Longrightarrow> erases (lift_call err m') (lift_call err m)"
proof -
  assume m: "erases m' m"
  show ?thesis
    unfolding erases_def
  proof (intro allI)
    fix w t
    obtain t1 where "m' (w, t) = (fst (m w), (snd (m w), t1))" using m by (rule erasesE)
    then show "\<exists>t'. lift_call err m' (w, t) = (fst (lift_call err m w), (snd (lift_call err m w), t'))"
      by (simp add: lift_call_def)
  qed
qed

lemma erases_return: "erases (\<lambda>w. (r, w)) (\<lambda>w. (r, w))"
  by (simp add: erases_def)

lemma erases_log_call: "erases (log_call m ev) m"
  by (auto simp: erases_def log_call_def split: prod.splits)

lemma erases_runtime:
  "erases (cr_live (log_runtime rt)) (cr_live rt)" "erases (cr_start (log_runtime rt) i) (cr_start rt i)"
  "erases (cr_wait_healthy (log_runtime rt) c) (cr_wait_healthy rt c)" "erases (cr_stop (log_runtime rt) c) (cr_stop rt c)"
  "erases (rs_publish (log_routes rs) bs) (rs_publish rs bs)" "erases (rs_check (log_routes rs)) (rs_check rs)"
  by (simp_all add: log_runtime_def log_routes_def erases_log_call)

lemma log_discard: "cr_discard (log_runtime rt) c (w, t) = (cr_discard rt c w, t @ [Discarded c])"
  by (simp add: log_runtime_def)

lemma erases_start_healthy: "erases (start_healthy (log_runtime rt) copies) (start_healthy rt copies)"
  unfolding start_healthy_def Let_def
proof (intro erases_bind erases_lift erases_runtime)
  fix fresh
  let ?i = "lowest_free copies"
  show "erases
      (\<lambda>w. case cr_wait_healthy (log_runtime rt) fresh w of
         (Inr u, w) \<Rightarrow> (Inr fresh, w) | (Inl e, w) \<Rightarrow> (Inl (Unhealthy ?i e), cr_discard (log_runtime rt) fresh w))
      (\<lambda>w. case cr_wait_healthy rt fresh w of
         (Inr u, w) \<Rightarrow> (Inr fresh, w) | (Inl e, w) \<Rightarrow> (Inl (Unhealthy ?i e), cr_discard rt fresh w))"
    unfolding erases_def
  proof (intro allI)
    fix w t
    obtain t1 where wait: "cr_wait_healthy (log_runtime rt) fresh (w, t)
        = (fst (cr_wait_healthy rt fresh w), (snd (cr_wait_healthy rt fresh w), t1))"
      using erases_runtime(3) by (rule erasesE)
    obtain r w1 where plain: "cr_wait_healthy rt fresh w = (r, w1)" by (cases "cr_wait_healthy rt fresh w")
    show "\<exists>t'. (case cr_wait_healthy (log_runtime rt) fresh (w, t) of
         (Inr u, w) \<Rightarrow> (Inr fresh, w) | (Inl e, w) \<Rightarrow> (Inl (Unhealthy ?i e), cr_discard (log_runtime rt) fresh w))
       = (fst (case cr_wait_healthy rt fresh w of
            (Inr u, w) \<Rightarrow> (Inr fresh, w) | (Inl e, w) \<Rightarrow> (Inl (Unhealthy ?i e), cr_discard rt fresh w)),
          snd (case cr_wait_healthy rt fresh w of
            (Inr u, w) \<Rightarrow> (Inr fresh, w) | (Inl e, w) \<Rightarrow> (Inl (Unhealthy ?i e), cr_discard rt fresh w)), t')"
      using wait unfolding plain by (cases r) (simp_all add: log_discard)
  qed
qed

lemma erases_publish_live: "erases (publish_live (log_routes rs) copies) (publish_live rs copies)"
proof (cases "backends_of copies = []")
  case True
  then show ?thesis by (simp add: publish_live_def erases_def)
next
  case False
  then show ?thesis using erases_runtime(5) [of rs "backends_of copies"] by (simp add: publish_live_def erases_def)
qed

lemma erases_publish_added: "erases (publish_added (log_routes rs) copies i) (publish_added rs copies i)"
  unfolding publish_added_def by (intro erases_lift erases_publish_live)

lemma erases_add_copy: "erases (add_copy (log_runtime rt) (log_routes rs) copies) (add_copy rt rs copies)"
  unfolding add_copy_def by (intro erases_bind erases_start_healthy erases_publish_added erases_return)

lemma erases_drain_copy: "erases (drain_copy (log_runtime rt) (log_routes rs) copies old) (drain_copy rt rs copies old)"
  unfolding drain_copy_def Let_def
  by (intro erases_bind erases_lift erases_publish_live erases_runtime erases_return)

lemma erases_fun: "(\<And>w. m' w = n' w) \<Longrightarrow> (\<And>w. m w = n w) \<Longrightarrow> erases n' n \<Longrightarrow> erases m' m"
  by (simp add: erases_def)

lemma erases_drain_all: "erases (drain_all (log_runtime rt) (log_routes rs) copies olds) (drain_all rt rs copies olds)"
proof (induction olds arbitrary: copies)
  case Nil
  then show ?case by (simp add: erases_def)
next
  case (Cons old olds)
  show ?case
    by (rule erases_fun [OF drain_all.simps(2) drain_all.simps(2)], intro erases_bind erases_drain_copy Cons.IH)
qed

lemma add_until_bind:
  "add_until rt rs want copies w =
     (if length copies < want then bind (add_copy rt rs copies) (add_until rt rs want) w else (Inr copies, w))"
  by (subst add_until.simps) (simp add: bind_def)

lemma erases_add_until: "erases (add_until (log_runtime rt) (log_routes rs) want copies) (add_until rt rs want copies)"
proof (induction "want - length copies" arbitrary: copies rule: less_induct)
  case less
  show ?case
    unfolding erases_def
  proof (intro allI)
    fix w t
    obtain t1 where logged: "add_copy (log_runtime rt) (log_routes rs) copies (w, t)
        = (fst (add_copy rt rs copies w), (snd (add_copy rt rs copies w), t1))"
      using erases_add_copy by (rule erasesE)
    obtain r w1 where plain: "add_copy rt rs copies w = (r, w1)" by (cases "add_copy rt rs copies w")
    show "\<exists>t'. add_until (log_runtime rt) (log_routes rs) want copies (w, t)
        = (fst (add_until rt rs want copies w), snd (add_until rt rs want copies w), t')"
    proof (cases "length copies < want \<and> (\<exists>copies'. r = Inr copies')")
      case True
      then obtain copies' where r: "r = Inr copies'" by blast
      have "length copies' = Suc (length copies)" using plain unfolding r by (rule add_copy_grows)
      then have "erases (add_until (log_runtime rt) (log_routes rs) want copies') (add_until rt rs want copies')"
        using True by (intro less) auto
      then show ?thesis
        using True by (auto simp: add_until_bind [of _ _ want copies] bind_def logged plain r erases_def)
    next
      case False
      then show ?thesis
        by (cases r) (auto simp: add_until_bind [of _ _ want copies] bind_def logged plain)
    qed
  qed
qed

lemma erases_replace_one:
  "erases (replace_one (log_runtime rt) (log_routes rs) order copies old) (replace_one rt rs order copies old)"
proof (cases order)
  case Overlap
  then show ?thesis
    unfolding replace_one_def replace_order_kind.case by (simp, intro erases_bind erases_add_copy erases_drain_copy)
next
  case StopFirst
  let ?rest = "\<lambda>rt rs copies fresh. bind (publish_added rs (copies @ [fresh]) (lc_copy fresh)) (\<lambda>_ w. (Inr (copies @ [fresh]), w))"
  have "erases (\<lambda>w. case start_healthy (log_runtime rt) copies w of
           (Inl e, w) \<Rightarrow> (Inl (ReplacementFailed (lc_copy old) (length copies) e), w)
         | (Inr fresh, w) \<Rightarrow> bind (publish_added (log_routes rs) (copies @ [fresh]) (lc_copy fresh)) (\<lambda>_ w. (Inr (copies @ [fresh]), w)) w)
      (\<lambda>w. case start_healthy rt copies w of
           (Inl e, w) \<Rightarrow> (Inl (ReplacementFailed (lc_copy old) (length copies) e), w)
         | (Inr fresh, w) \<Rightarrow> bind (publish_added rs (copies @ [fresh]) (lc_copy fresh)) (\<lambda>_ w. (Inr (copies @ [fresh]), w)) w)"
    for copies
    unfolding erases_def
  proof (intro allI)
    fix w t
    obtain t1 where logged: "start_healthy (log_runtime rt) copies (w, t)
        = (fst (start_healthy rt copies w), (snd (start_healthy rt copies w), t1))"
      using erases_start_healthy by (rule erasesE)
    obtain r w1 where plain: "start_healthy rt copies w = (r, w1)" by (cases "start_healthy rt copies w")
    have added: "erases (bind (publish_added (log_routes rs) cs i) (\<lambda>_ w. (Inr cs, w))) (bind (publish_added rs cs i) (\<lambda>_ w. (Inr cs, w)))"
      for cs i by (intro erases_bind erases_publish_added erases_return)
    then show "\<exists>t'. (case start_healthy (log_runtime rt) copies (w, t) of
           (Inl e, w) \<Rightarrow> (Inl (ReplacementFailed (lc_copy old) (length copies) e), w)
         | (Inr fresh, w) \<Rightarrow> bind (publish_added (log_routes rs) (copies @ [fresh]) (lc_copy fresh)) (\<lambda>_ w. (Inr (copies @ [fresh]), w)) w)
       = (fst (case start_healthy rt copies w of
           (Inl e, w) \<Rightarrow> (Inl (ReplacementFailed (lc_copy old) (length copies) e), w)
         | (Inr fresh, w) \<Rightarrow> bind (publish_added rs (copies @ [fresh]) (lc_copy fresh)) (\<lambda>_ w. (Inr (copies @ [fresh]), w)) w),
          snd (case start_healthy rt copies w of
           (Inl e, w) \<Rightarrow> (Inl (ReplacementFailed (lc_copy old) (length copies) e), w)
         | (Inr fresh, w) \<Rightarrow> bind (publish_added rs (copies @ [fresh]) (lc_copy fresh)) (\<lambda>_ w. (Inr (copies @ [fresh]), w)) w), t')"
      unfolding logged plain by (cases r) (auto simp: erases_def)
  qed
  then show ?thesis
    unfolding replace_one_def StopFirst replace_order_kind.case by (intro erases_bind erases_drain_copy)
qed

lemma erases_replace_each:
  "erases (replace_each (log_runtime rt) (log_routes rs) order copies olds) (replace_each rt rs order copies olds)"
proof (induction olds arbitrary: copies)
  case Nil
  then show ?case by (simp add: erases_def)
next
  case (Cons old olds)
  show ?case
    by (rule erases_fun [OF replace_each.simps(2) replace_each.simps(2)], intro erases_bind erases_replace_one Cons.IH)
qed

lemma erases_replace_copies:
  "erases (replace_copies (log_runtime rt) (log_routes rs) order want) (replace_copies rt rs order want)"
  unfolding replace_copies_def Let_def
  by (cases "want = 0")
     (simp add: erases_return, simp, intro erases_bind erases_lift erases_runtime erases_drain_all erases_replace_each erases_add_until)

lemma erases_scale_copies: "erases (scale_copies (log_runtime rt) (log_routes rs) want) (scale_copies rt rs want)"
  unfolding scale_copies_def Let_def
  by (cases "want = 0")
     (simp add: erases_return, simp, intro erases_bind erases_lift erases_runtime erases_add_until erases_drain_all)

section \<open>Rollouts of a service\<close>

text \<open>A rollout of the service with its calls recorded.\<close>

definition recorded_rollout ::
  "'w container_app \<Rightarrow> service_def \<Rightarrow> replace_order_kind \<Rightarrow> u32 \<Rightarrow> 'w
     \<Rightarrow> (copy_error roll_error, live_copy list) result \<times> 'w logged" where
  "recorded_rollout ctx service order want w =
     replace_copies (log_runtime (container_runtime ctx service)) (log_routes (service_routes ctx (sd_name service)))
       order want (w, [])"

definition listed_copies :: "'w container_app \<Rightarrow> service_def \<Rightarrow> 'w \<Rightarrow> live_copy list \<Rightarrow> bool" where
  "listed_copies ctx service w live \<longleftrightarrow>
     fst (runtime_live ctx service (snd (rs_check (service_routes ctx (sd_name service)) w))) = Inr live
     \<and> distinct (map lc_copy live) \<and> Suc (length live) < 2 ^ 32"

text \<open>
  Property C13.  A rollout of a service never breaks the rules of the abstract machine, whatever fails on the way: it starts a copy only
  while there is room, publishes only backends of copies that are listed or became healthy, and stops a copy only after the
  router confirmed the backends of the others and while enough others remain.  The record is that of the real
  run: the result and the world are those of \<open>replace_all\<close>.
\<close>

theorem rollout_refines_machine:
  assumes "listed_copies ctx service w live"
  shows "run (roll_floor order (unat want) (length live)) (roll_ceiling order (unat want) (length live)) (fleet_of live)
        (snd (snd (recorded_rollout ctx service order want w))) \<noteq> None
    \<and> replace_all (container_runtime ctx service) (service_routes ctx (sd_name service)) order want w
        = apfst (\<lambda>r. and_then r (\<lambda>_. Inr ())) (apsnd fst (recorded_rollout ctx service order want w))"
proof -
  let ?rt = "container_runtime ctx service" and ?rs = "service_routes ctx (sd_name service)"
  obtain w1 where live: "cr_live ?rt (snd (rs_check ?rs w)) = (Inr live, w1)"
    and d: "distinct (map lc_copy live)" "Suc (length live) < 2 ^ 32"
    using assms by (cases "runtime_live ctx service (snd (rs_check ?rs w))") (auto simp: listed_copies_def container_runtime_def)
  have safe: "achieves (roll_floor order (unat want) (length live)) (roll_ceiling order (unat want) (length live))
      (fleet_of live) [] (recorded_rollout ctx service order want w)
      (\<lambda>copies t. length copies = unat want \<and> (\<forall>c \<in> set live. Stopped c True \<in> set t)
         \<and> tracks (roll_floor order (unat want) (length live)) (roll_ceiling order (unat want) (length live))
             (fleet_of live) {} copies t)"
    unfolding recorded_rollout_def by (rule containers.replace_copies_achieves [OF live d])
  obtain t where logged: "recorded_rollout ctx service order want w
      = (fst (replace_copies ?rt ?rs order want w), (snd (replace_copies ?rt ?rs order want w), t))"
    unfolding recorded_rollout_def using erases_replace_copies by (rule erasesE)
  then show ?thesis
    using safe
    by (cases "replace_copies ?rt ?rs order want w")
       (auto simp: achieves_def replace_all_def bind_def and_then_def split: sum.splits)
qed

text \<open>
  Property C14.  A rollout that succeeds has replaced everything: exactly the wanted number of copies is left, each with a number of its
  own and started and found healthy by this rollout, and every copy that was listed before has been stopped.
\<close>

theorem rollout_replaces_every_copy:
  assumes "listed_copies ctx service w live" and "recorded_rollout ctx service order want w = (Inr copies, (w', t))"
  shows "length copies = unat want \<and> distinct (map lc_copy copies)
    \<and> (\<forall>c \<in> set copies. BecameHealthy c \<in> set t) \<and> (\<forall>c \<in> set live. Stopped c True \<in> set t)"
proof -
  let ?rt = "container_runtime ctx service" and ?rs = "service_routes ctx (sd_name service)"
  obtain w1 where live: "cr_live ?rt (snd (rs_check ?rs w)) = (Inr live, w1)"
    and d: "distinct (map lc_copy live)" "Suc (length live) < 2 ^ 32"
    using assms(1) by (cases "runtime_live ctx service (snd (rs_check ?rs w))") (auto simp: listed_copies_def container_runtime_def)
  show ?thesis
    using containers.replace_copies_achieves [OF live d, of order want] assms(2)
    by (auto simp: achieves_def recorded_rollout_def tracks_def)
qed


section \<open>A concrete app\<close>

definition plain_service :: service_def where
  "plain_service = (new_service (ServiceName ''web''))\<lparr>sd_image := Some ''nginx:1''\<rparr>"

definition plain_app :: "unit container_app" where
  "plain_app = \<lparr>ca_app = AppName ''shop'', ca_engine = sample_engine, ca_probes = unit_probes, ca_disk = (\<lambda>_. empty_disk),
     ca_project = \<lparr>cp_services = [plain_service], cp_warnings = [], cp_volumes = []\<rparr>, ca_app_path = [RootDir, Normal ''app''],
     ca_scratch = [RootDir, Normal ''scratch''], ca_env = [], ca_routed = None, ca_free_port = (\<lambda>w. (Inr 9000, w)),
     ca_apply = (\<lambda>backends w. (Inr (), w)), ca_check = (\<lambda>w. (Inr (), w)), ca_sha256 = (\<lambda>t. ''00'')\<rparr>"

definition plain_copy :: live_copy where
  "plain_copy = \<lparr>lc_copy = CopyIndex 1, lc_backend = None, lc_handle = HandleContainer (ContainerId sample_id)\<rparr>"

lemma sample_list: "list_with_filter sample_engine flt w = (Inr [ContainerId sample_id], w)"
  by (simp add: list_with_filter_def calling_def failing_def giving_def sample_output sample_parse_ids map_err_def)

lemma sample_quiet: "run_within sample_engine args limit w = (Inr (), w)"
  by (simp add: run_within_def run_capture_def calling_def giving_def sample_engine_def Let_def)

lemma plain_live: "runtime_live plain_app plain_service () = (Inr [plain_copy], ())"
  by (simp add: runtime_live_def and_call_def from_call_def pure_call_def plain_app_def engine_list_def calling_def giving_def
      sample_app_ok sample_list sample_inspect map_err_def sample_info_def plain_service_def new_service_def
      runtime_live_copy_def app_is_routed_def plain_copy_def List.map_filter_def)

lemma plain_listed: "listed_copies plain_app plain_service () [plain_copy]"
  using plain_live by (simp add: listed_copies_def)

theorem rollout_refines_machine_witness:
  "run (roll_floor StopFirst (unat (2 :: u32)) 1) (roll_ceiling StopFirst (unat (2 :: u32)) 1) (fleet_of [plain_copy])
        (snd (snd (recorded_rollout plain_app plain_service StopFirst 2 ()))) \<noteq> None
    \<and> replace_all (container_runtime plain_app plain_service) (service_routes plain_app (sd_name plain_service)) StopFirst 2 ()
        = apfst (\<lambda>r. and_then r (\<lambda>_. Inr ())) (apsnd fst (recorded_rollout plain_app plain_service StopFirst 2 ()))"
proof -
  have one: "length [plain_copy] = 1" by simp
  show ?thesis by (rule rollout_refines_machine [OF plain_listed, of StopFirst 2, unfolded one])
qed

definition plain_spec :: run_spec where
  "plain_spec = \<lparr>rn_name = ContainerName ''shop.web.1'', rn_image = ''nginx:1'', rn_pull = PullMissing,
     rn_network = NetworkName ''riku-shop'', rn_alias = ServiceName ''web'',
     rn_labels = copy_labels (AppName ''shop'') plain_service (CopyIndex 1) None, rn_env = [], rn_ports = [], rn_mounts = [],
     rn_entrypoint = None, rn_command = None, rn_working_dir = None, rn_user = None,
     rn_stop_signal = stop_signal_default, rn_stop_grace = DEFAULT_STOP_GRACE, rn_healthcheck = None\<rparr>"

lemma show_one: "show_u32 1 = ''1''"
  by code_simp

lemma plain_copy_spec: "copy_spec sha (AppName ''shop'') (ca_project plain_app) plain_service (CopyIndex 1) None [] = Inr plain_spec"
  by (simp add: copy_spec_def container_name_new_def sample_app_ok show_one plain_service_def new_service_def plain_app_def
      engine_mounts_def routed_http_def route_without_label_def tcp_ports_def bt_get_def and_then_def map_err_def plain_spec_def
      network_name_for_app_def bindings_for_copy_def copy_env_def bt_extend_def bt_collect_def)

lemma plain_labels: "copy_labels (AppName ''shop'') plain_service (CopyIndex 1) None
    = [(''riku.app'', ''shop''), (''riku.copy'', ''1''), (''riku.restart'', ''no''), (''riku.service'', ''web'')]"
  by (simp add: copy_labels_def plain_service_def new_service_def bt_remove_def LABEL_APP_def LABEL_SERVICE_def LABEL_COPY_def
      LABEL_RESTART_def show_one)

lemma plain_start_copy: "start_copy sample_engine disk plain_spec p scratch () = (Inr (ContainerId sample_id), ())"
proof -
  have owner: "owner_of sample_engine (ContainerName ''shop.web.1'') () = (Inr (Some ''shop''), ())"
  proof -
    have "inspect_strict sample_engine [ContainerId sample_id] () = (Inr [sample_info], ())"
    proof -
      have "parse_inspect (en_inspect_json sample_engine) out FailRead = Inr [sample_info]" for out
        by (simp add: parse_inspect_def sample_engine_def sample_into_info and_then_def map_err_def)
      then show ?thesis
        by (simp add: inspect_strict_def inspect_with_def failing_def fetch_present_def sample_output map_err_def)
    qed
    then show ?thesis
      by (simp add: owner_of_def named_container_def calling_def giving_def sample_list sample_info_def)
  qed
  have label: "bt_get (rn_labels plain_spec) LABEL_APP = Some ''shop''"
    by (simp add: plain_spec_def plain_labels bt_get_def LABEL_APP_def)
  have free: "check_name_is_free sample_engine plain_spec () = (Inr (), ())"
    unfolding check_name_is_free_def label
    by (simp add: and_call_def from_call_def pure_call_def plain_spec_def owner map_err_def)
  have network: "ensure_network sample_engine name w = (Inr (), w)" for name w
    by (simp add: ensure_network_def has_listed_def calling_def failing_def giving_def sample_output run_quiet_def sample_quiet map_err_def)
  have checked: "check_spec (en_try_join sample_engine) plain_spec = Inr ()"
    unfolding check_spec_def
    by (simp add: plain_spec_def plain_labels bt_keys_def check_positional_def char_class_defs and_then_def)
  have args: "\<exists>args. run_args (en_try_join sample_engine) plain_spec f = Inr args" for f
    by (simp add: run_args_def plain_spec_def and_then_def Let_def)
  have trimmed: "trim sample_id = sample_id"
    by (simp add: sample_id_def trim_def trim_start_def trim_end_def char_class_defs)
  have out: "output_within sample_engine args limit w = (Inr sample_id, w)" for args limit w
    by (simp add: output_within_def run_capture_def calling_def giving_def sample_engine_def Let_def)
  have run: "engine_run sample_engine plain_spec scratch () = (Inr (ContainerId sample_id), ())"
  proof -
    obtain args where "run_args (en_try_join sample_engine) plain_spec ''/scratch/env-1'' = Inr args" using args by blast
    moreover have "write_env_file (rn_env plain_spec) = Inr []" by (simp add: write_env_file_def plain_spec_def and_then_def)
    moreover have "en_temp_file sample_engine scratch [] () = (Inr ''/scratch/env-1'', ())"
      "en_drop_file sample_engine f () = ()" for f by (simp_all add: sample_engine_def)
    ultimately show ?thesis
      by (simp add: engine_run_def checked calling_def failing_def giving_def out trimmed sample_id_ok map_err_def)
  qed
  show ?thesis
    by (simp add: start_copy_def and_call_def free check_bind_sources_def plain_spec_def [THEN arg_cong [of _ _ rn_mounts]]
        from_call_def network run map_err_def)
qed

lemma plain_start: "runtime_start plain_app plain_service (CopyIndex 1) () = (Inr plain_copy, ())"
proof -
  have spec: "copy_spec (ca_sha256 plain_app) (ca_app plain_app) (ca_project plain_app) plain_service (CopyIndex 1) None (ca_env plain_app)
      = Inr plain_spec"
    using plain_copy_spec by (simp add: plain_app_def)
  have fields: "ca_engine plain_app = sample_engine" "app_is_routed plain_app n = False" for n
    by (simp_all add: plain_app_def app_is_routed_def)
  show ?thesis
    by (simp add: runtime_start_def and_call_def pure_call_def spec fields plain_start_copy plain_copy_def)
qed

lemma plain_wait: "runtime_wait_healthy plain_app plain_service plain_copy () = (Inr (), ())"
  using sample_inspect
  by (simp add: runtime_wait_healthy_def and_call_def pure_call_def container_of_def plain_copy_def health_target_def
      plain_service_def new_service_def host_port_def check_not_exited_def from_call_def plain_app_def map_err_def sample_info_def)

lemma sample_stop_limit: "\<exists>l. stop_limit (en_settings sample_engine) DEFAULT_STOP_GRACE = Some l"
  by (simp add: stop_limit_def sample_engine_def DEFAULT_STOP_GRACE_def whole_seconds_up_def from_secs_def NANOS_PER_SEC_def
      checked_duration_add_def DURATION_LIMIT_def)

lemma plain_stop: "runtime_stop plain_app plain_service plain_copy () = (Inr (), ())"
proof -
  obtain l where "stop_limit (en_settings sample_engine) DEFAULT_STOP_GRACE = Some l" using sample_stop_limit by blast
  then show ?thesis
    by (simp add: runtime_stop_def and_call_def pure_call_def container_of_def plain_copy_def stop_and_remove_def from_call_def
        plain_app_def engine_stop_def engine_remove_def run_quiet_def sample_quiet plain_service_def new_service_def map_err_def)
qed

lemma plain_rollout:
  "recorded_rollout plain_app plain_service StopFirst 1 ()
     = (Inr [plain_copy], ((), [Stopped plain_copy True, Started plain_copy, BecameHealthy plain_copy]))"
proof -
  have routes: "service_routes plain_app (sd_name plain_service) = no_routes"
    by (simp add: service_routes_def app_is_routed_def plain_app_def)
  have free: "lowest_free [] = CopyIndex 1"
    by (simp add: lowest_free_def copy_numbers_def free_from.simps)
  have none: "lc_backend plain_copy = None" "lc_copy plain_copy = CopyIndex 1" by (simp_all add: plain_copy_def)
  show ?thesis
    unfolding recorded_rollout_def routes replace_copies_def
    by (simp add: bind_def lift_call_def log_routes_def log_runtime_def log_call_def no_routes_def container_runtime_def
        plain_live plain_start plain_wait plain_stop sort_copies_def Let_def replace_one_def drain_copy_def publish_live_def
        backends_of_def List.map_filter_def none start_healthy_def free publish_added_def add_until.simps map_err_def is_ok_def)
qed

theorem rollout_replaces_every_copy_witness:
  "length [plain_copy] = unat (1 :: u32)
   \<and> BecameHealthy plain_copy \<in> set [Stopped plain_copy True, Started plain_copy, BecameHealthy plain_copy]"
  using rollout_replaces_every_copy [OF plain_listed plain_rollout] by simp


section \<open>Labels of a copy\<close>

text \<open>The labels riku sets, as the engine reports them back.\<close>

lemma copy_labels_get:
  "bt_get (copy_labels app service copy shown) =
     ((bt_get (sd_labels service))(LABEL_COMPOSE_PROJECT := None, LABEL_PORT := map_option show_u16 shown,
        LABEL_APP \<mapsto> app_str app, LABEL_SERVICE \<mapsto> service_str (sd_name service),
        LABEL_COPY \<mapsto> show_u32 (copy_get copy), LABEL_RESTART \<mapsto> restart_label (sd_restart service)))"
  by (cases shown) (auto simp: copy_labels_def Let_def bt_get_insert bt_get_remove fun_eq_iff LABEL_APP_def LABEL_SERVICE_def
      LABEL_COPY_def LABEL_RESTART_def LABEL_PORT_def LABEL_COMPOSE_PROJECT_def)

text \<open>
  The labels of a copy identify it: read back by the engine driver they give the app, the service, the copy number and the
  published port it was started with, and the restart label gives the service's restart policy, whatever labels the
  service itself asks for.
\<close>

lemma copy_labels_read_back:
  assumes "check_app_name (app_str app) = Inr ()" and "valid_service (sd_name service)" and "copy_get copy \<noteq> 0"
    and "shown \<noteq> Some 0"
  shows "riku_labels_of (copy_labels app service copy shown)
      = Inr \<lparr>rl_app = Some (app_str app), rl_service = Some (sd_name service), rl_copy = Some copy\<rparr>
    \<and> port_label (copy_labels app service copy shown) = shown
    \<and> Option.bind (bt_get (copy_labels app service copy shown) LABEL_RESTART) restart_label_try_from = Some (policy_label (sd_restart service))"
proof -
  let ?l = "copy_labels app service copy shown"
  have keys: "bt_get ?l LABEL_APP = Some (app_str app)" "bt_get ?l LABEL_SERVICE = Some (service_str (sd_name service))"
    "bt_get ?l LABEL_COPY = Some (show_u32 (copy_get copy))" "bt_get ?l LABEL_RESTART = Some (restart_label (sd_restart service))"
    "bt_get ?l LABEL_PORT = map_option show_u16 shown"
    by (simp_all add: copy_labels_get LABEL_APP_def LABEL_SERVICE_def LABEL_COPY_def LABEL_RESTART_def LABEL_PORT_def)
  have service: "service_name_try_from (service_str (sd_name service)) = Inr (sd_name service)"
    using assms(2) by (cases "sd_name service") (simp add: service_name_ok valid_service_def)
  have copy: "copy_index_new (copy_get copy) = Some copy" using assms(3) by (cases copy) (simp add: copy_index_new_def)
  have "riku_labels_of ?l = Inr \<lparr>rl_app = Some (app_str app), rl_service = Some (sd_name service), rl_copy = Some copy\<rparr>"
    by (simp add: riku_labels_of_def app_label_def service_label_def copy_label_def keys assms(1) service copy and_then_def)
  moreover have "port_label ?l = shown"
    using assms(4) unfolding port_label_def keys by (cases shown) auto
  ultimately show ?thesis by (simp add: keys restart_label_read_back)
qed

section \<open>Specs of parsed services\<close>

lemma alphanumeric_plain: "is_ascii_alphanumeric c \<or> c \<in> set ''/:@._-'' \<Longrightarrow> \<not> is_whitespace c \<and> \<not> is_control c"
  by (auto simp: char_class_defs)

lemma image_positional:
  assumes "is_ascii_alphanumeric c" "list_all (\<lambda>c. is_ascii_alphanumeric c \<or> c \<in> set ''/:@._-'') cs"
  shows "check_positional what (c # cs) = Inr ()"
proof -
  have "c \<noteq> CHR ''-''" using assms(1) by (auto simp: char_class_defs)
  moreover have "\<not> list_ex (\<lambda>c. is_whitespace c \<or> is_control c) (c # cs)"
    using assms alphanumeric_plain unfolding list_ex_iff list_all_iff by (metis set_ConsD)
  ultimately show ?thesis by (auto simp: check_positional_def Let_def)
qed

lemma inside_absolute: "is_absolute app_path \<Longrightarrow> inside_app app_path p \<Longrightarrow> is_absolute p"
  using normalize_absolute [of app_path]
  by (auto simp: inside_app_def is_absolute_def path_strip_prefix_Some split: option.splits)

text \<open>
  What a parsed service does not settle: a bind source written in the long form may hold a colon (the short form cannot), the
  digest is hexadecimal, and \<open>shlex::try_join\<close> only fails on a NUL character.
\<close>

definition no_colon_binds :: "service_def \<Rightarrow> bool" where
  "no_colon_binds service \<longleftrightarrow>
     list_all (\<lambda>m. case sm_source m of SBind p \<Rightarrow> CHR '':'' \<notin> set (path_text p) | _ \<Rightarrow> True) (sd_mounts service)"

definition joins_clean_words :: "(string list \<Rightarrow> string option) \<Rightarrow> bool" where
  "joins_clean_words try_join \<longleftrightarrow>
     (\<forall>argv. list_all (\<lambda>w. CHR 0x00 \<notin> set w) argv \<longrightarrow> try_join argv \<noteq> None)"

definition hex_digest :: "(string \<Rightarrow> string) \<Rightarrow> bool" where
  "hex_digest sha256 \<longleftrightarrow> (\<forall>t. list_all (\<lambda>c. is_ascii_digit c \<or> c \<in> set ''abcdef'') (sha256 t))"

lemma copy_spec_cases:
  assumes "copy_spec sha256 app project service copy port env = Inr spec"
  obtains ms shown where "engine_mounts project (app_str app) service = Inr ms"
    and "rn_mounts spec = ms" and "rn_labels spec = copy_labels app service copy shown"
    and "rn_healthcheck spec = sd_healthcheck service" and "rn_env spec = copy_env env service"
    and "(sd_build service \<noteq> None \<and> rn_image spec = build_tag sha256 app (sd_name service))
      \<or> (sd_build service = None \<and> sd_image service = Some (rn_image spec))"
proof -
  obtain img pull ms where
    img: "(case (sd_build service, sd_image service) of
        (Some _, _) \<Rightarrow> Inr (build_tag sha256 app (sd_name service), PullNever)
      | (None, Some img) \<Rightarrow> Inr (img, PullMissing)
      | (None, None) \<Rightarrow> Inl (NeitherImageNorBuild (svc_name service))) = Inr (img, pull)"
    and ms: "engine_mounts project (app_str app) service = Inr ms"
    and spec: "rn_image spec = img" "rn_mounts spec = ms" "rn_healthcheck spec = sd_healthcheck service" "rn_env spec = copy_env env service"
      "\<exists>shown. rn_labels spec = copy_labels app service copy shown"
    using assms unfolding copy_spec_def Let_def by (auto simp: and_then_Inr map_err_Inr) blast
  obtain shown where labels: "rn_labels spec = copy_labels app service copy shown" using spec(5) by blast
  show thesis
    by (rule that [OF ms spec(2) labels spec(3) spec(4)]) (use img spec(1) in \<open>auto split: option.splits\<close>)
qed

lemma copy_labels_clean:
  assumes "\<forall>p \<in> set (sd_labels service). clean_pair p"
  shows "\<forall>k \<in> set (bt_keys (copy_labels app service copy shown)). k \<noteq> [] \<and> CHR ''='' \<notin> set k"
proof
  fix k
  assume "k \<in> set (bt_keys (copy_labels app service copy shown))"
  then have "k \<in> {LABEL_PORT, LABEL_APP, LABEL_SERVICE, LABEL_COPY, LABEL_RESTART} \<or> bt_get (sd_labels service) k \<noteq> None"
    by (auto simp: bt_keys_get copy_labels_get split: if_splits)
  then show "k \<noteq> [] \<and> CHR ''='' \<notin> set k"
  proof
    assume "bt_get (sd_labels service) k \<noteq> None"
    then obtain v where "(k, v) \<in> set (sd_labels service)" by (auto dest: bt_get_Some_in)
    then have "clean_pair (k, v)" using assms by blast
    then show ?thesis by (auto simp: clean_pair_def list_all_iff)
  qed (auto simp: LABEL_PORT_def LABEL_APP_def LABEL_SERVICE_def LABEL_COPY_def LABEL_RESTART_def)
qed

lemma hex_alphanumeric: "is_ascii_digit c \<or> c \<in> set ''abcdef'' \<Longrightarrow> is_ascii_alphanumeric c"
  by (auto simp: is_ascii_alphanumeric_def is_ascii_alphabetic_def is_ascii_lowercase_def)

lemma build_tag_positional:
  assumes "hex_digest sha256"
  shows "check_positional what (build_tag sha256 app service) = Inr ()"
proof -
  let ?digest = "sha256 (app_str app @ [CHR 0x00] @ service_str service)"
  have "list_all (\<lambda>c. is_ascii_digit c \<or> c \<in> set ''abcdef'') (take 16 ?digest)"
    using assms unfolding hex_digest_def list_all_iff by (meson in_set_takeD)
  then have "list_all (\<lambda>c. is_ascii_alphanumeric c \<or> c \<in> set ''/:@._-'') (take 16 ?digest)"
    unfolding list_all_iff using hex_alphanumeric by blast
  then show ?thesis
    unfolding build_tag_def Let_def append.simps by (intro image_positional) (simp_all add: char_class_defs)
qed

lemma safe_mount_checked:
  assumes "engine_mount project app service sm = Inr m" and "mount_safe ctx sm" and "is_absolute (sc_app_path ctx)"
    and "is_engine_safe app" and "case sm_source sm of SBind p \<Rightarrow> CHR '':'' \<notin> set (path_text p) | _ \<Rightarrow> True"
  shows "check_mount m = Inr ()"
proof (cases "sm_source sm")
  case (SVolume key)
  then have "is_engine_safe (app @ ''.'' @ volume_key_str key)"
    using assms(2,4) by (cases app) (auto simp: mount_safe_def is_volume_name_def engine_char_def list_all_iff split: list.splits)
  then show ?thesis
    using assms(1,2) SVolume by (auto simp: engine_mount_def and_then_Inr check_mount_ok mount_safe_def split: if_splits)
next
  case (SBind p)
  then show ?thesis
    using assms inside_absolute by (auto simp: engine_mount_def and_then_Inr check_mount_ok mount_safe_def)
next
  case SAnonymous
  then show ?thesis
    using assms(1,2) by (auto simp: engine_mount_def and_then_Inr check_mount_ok mount_safe_def)
qed



end
