(* ===== verification/Control_Safety.thy ===== *)
theory Control_Safety
  imports App_Control Container_Safety
begin

text \<open>
  What the operations on a container app guarantee: the \<open>SCALING\<close> file keeps the wanted copies, stopping an app respects the
  dependencies of its services, the deploy lock is decided in bounded time, and the restart of one copy touches nothing
  but its own dead slot.
\<close>

section \<open>The SCALING file\<close>

text \<open>Names that survive a line of the file.\<close>

definition scaling_name :: "string \<Rightarrow> bool" where
  "scaling_name n \<longleftrightarrow>
     n \<noteq> [] \<and> \<not> is_whitespace (hd n) \<and> \<not> is_whitespace (last n) \<and> hd n \<noteq> CHR ''#''
     \<and> CHR ''='' \<notin> set n \<and> NEWLINE \<notin> set n"

lemma dropWhile_last: "dropWhile P s \<noteq> [] \<Longrightarrow> last (dropWhile P s) = last s"
  by (induction s) auto

lemma trim_ends:
  assumes "trim s \<noteq> []"
  shows "\<not> is_whitespace (hd (trim s))" and "\<not> is_whitespace (last (trim s))"
proof -
  let ?t = "dropWhile is_whitespace s"
  have trim: "trim s = rev (dropWhile is_whitespace (rev ?t))" by (simp add: trim_def trim_end_def trim_start_def)
  then have ne: "dropWhile is_whitespace (rev ?t) \<noteq> []" using assms by auto
  then show "\<not> is_whitespace (last (trim s))" using hd_dropWhile [OF ne] by (simp add: trim last_rev)
  have "last (dropWhile is_whitespace (rev ?t)) = last (rev ?t)" by (rule dropWhile_last [OF ne])
  moreover have t: "?t \<noteq> []"
  proof
    assume none: "?t = []"
    show False using ne unfolding none by simp
  qed
  ultimately have "hd (trim s) = hd ?t" using ne by (simp add: trim hd_rev last_rev)
  then show "\<not> is_whitespace (hd (trim s))" using hd_dropWhile [OF t] by simp
qed

lemma trim_subset: "set (trim s) \<subseteq> set s"
  using set_trim_end set_trim_start unfolding trim_def by fast

lemma trim_prefix_hd:
  assumes "trim name \<noteq> []" and "\<not> is_whitespace (hd (name @ rest))"
  shows "hd (trim name) = hd (name @ rest)"
proof -
  have ne: "name \<noteq> []" using assms(1) by (auto simp: trim_def trim_end_def trim_start_def)
  then have start: "trim_start name = name" using assms(2) by (intro trim_start_id) simp
  then have "trim name = trim_end name" by (simp add: trim_def)
  moreover have "\<exists>r. trim_end name @ r = name"
    by (metis rev_append rev_rev_ident takeWhile_dropWhile_id trim_end_def)
  ultimately obtain r where "trim name @ r = name" by auto
  then show ?thesis using assms(1) ne by (metis hd_append2)
qed

lemma lines_no_break: "l \<in> set (lines s) \<Longrightarrow> NEWLINE \<notin> set l"
proof -
  have parts: "\<forall>p \<in> set (split_by (\<lambda>c. c = x) s). x \<notin> set p" for x s
    by (induction "\<lambda>c. c = x" s rule: split_by.induct) (auto split: list.splits)
  have ne: "split_on NEWLINE s \<noteq> []" unfolding split_on_def by (cases s) (auto split: list.splits)
  assume "l \<in> set (lines s)"
  then consider p where "p \<in> set (split_on NEWLINE s)" "l = strip_cr p" | "l = last (split_on NEWLINE s)"
    by (auto simp: lines_def Let_def dest: in_set_butlastD split: if_splits)
  then show ?thesis
    using parts [of NEWLINE s] last_in_set [OF ne]
    by cases (auto simp: split_on_def strip_cr_def dest: in_set_butlastD split: if_splits)
qed

lemma parse_count_name:
  assumes "parse_count raw = Inr (Some (name, n))" and "NEWLINE \<notin> set raw"
  shows "scaling_name name"
proof -
  obtain front behind where line: "trim raw \<noteq> []" "\<not> starts_with ''#'' (trim raw)"
      "split_once (CHR ''='') (trim raw) = Some (front, behind)" and name: "name = trim front" "trim front \<noteq> []"
    using assms(1) by (auto simp: parse_count_def Let_def split: if_splits option.splits)
  have raw: "trim raw = front @ CHR ''='' # behind" "CHR ''='' \<notin> set front" using line(3) by (simp_all add: split_once_Some)
  have "hd name = hd (trim raw)"
    using trim_prefix_hd [OF name(2), of "CHR ''='' # behind"] trim_ends(1) [OF line(1)] by (simp add: raw name(1))
  moreover have "hd (trim raw) \<noteq> CHR ''#''" using line(1,2) by (cases "trim raw") auto
  moreover have "set name \<subseteq> set raw" "CHR ''='' \<notin> set name"
    using trim_subset [of front] trim_subset [of raw] raw name(1) by auto
  ultimately show ?thesis
    using trim_ends [OF name(2)] name assms(2) by (auto simp: scaling_name_def)
qed

lemma parse_scaling_ok:
  assumes "parse_scaling content = Inr counts"
  shows "bt_ok counts \<and> (\<forall>e \<in> set counts. scaling_name (fst e))"
proof (rule fold_result_inv [where P = "\<lambda>c. bt_ok c \<and> (\<forall>e \<in> set c. scaling_name (fst e))"])
  show "fold_result scaling_line (lines content) [] = Inr counts" using assms by (simp add: parse_scaling_def)
  show "bt_ok [] \<and> (\<forall>e \<in> set []. scaling_name (fst e))" by (simp add: bt_ok_def)
next
  fix l c c'
  assume l: "l \<in> set (lines content)" and c: "bt_ok c \<and> (\<forall>e \<in> set c. scaling_name (fst e))" and step: "scaling_line l c = Inr c'"
  show "bt_ok c' \<and> (\<forall>e \<in> set c'. scaling_name (fst e))"
  proof (cases "c' = c")
    case False
    then obtain name n where p: "parse_count l = Inr (Some (name, n))" "c' = bt_insert name n c"
      using step by (auto simp: scaling_line_def and_then_Inr split: option.splits)
    have "scaling_name name" by (rule parse_count_name [OF p(1) lines_no_break [OF l]])
    then show ?thesis using c p(2) bt_insert_all [of c "\<lambda>e. scaling_name (fst e)" name n] by (simp add: bt_ok_insert)
  qed (use c in simp)
qed

lemma digit_plain: "is_ascii_digit c \<Longrightarrow> \<not> is_whitespace c \<and> c \<noteq> CHR ''='' \<and> c \<noteq> NEWLINE \<and> c \<noteq> CHR 0x0D"
  by (auto simp: is_ascii_digit_def is_whitespace_def)

lemma parse_count_entry:
  assumes "scaling_name name"
  shows "parse_count (name @ ''='' @ show_u32 n) = Inr (Some (name, n))"
proof -
  let ?line = "name @ ''='' @ show_u32 n"
  have digits: "list_all is_ascii_digit (show_u32 n)" "show_u32 n \<noteq> []" by (simp_all add: show_u32_digits)
  have ends: "\<not> is_whitespace (hd (show_u32 n))" "\<not> is_whitespace (last (show_u32 n))"
    using digits digit_plain by (auto simp: list_all_iff dest: hd_in_set last_in_set)
  have count: "trim (show_u32 n) = show_u32 n" using ends by (intro trim_id) simp_all
  have name: "trim name = name" using assms by (intro trim_id) (simp_all add: scaling_name_def)
  have line: "trim ?line = ?line" using assms ends digits(2) by (intro trim_id) (simp_all add: scaling_name_def)
  have parts: "split_once (CHR ''='') ?line = Some (name, show_u32 n)" using assms by (simp add: split_once_Some scaling_name_def)
  have hash: "\<not> (?line = [] \<or> starts_with ''#'' ?line)" using assms by (cases name) (auto simp: scaling_name_def)
  show ?thesis
    unfolding parse_count_def line Let_def if_not_P [OF hash] parts option.case prod.case name count
    using assms by (simp add: scaling_name_def)
qed

lemma strip_cr_id: "last l \<noteq> CHR 0x0D \<Longrightarrow> strip_cr l = l"
  by (cases l rule: rev_cases) (simp_all add: strip_cr_def ends_with_def)

lemma scaling_text_lines:
  "\<forall>e \<in> set counts. scaling_name (fst e) \<Longrightarrow> lines (scaling_text counts) = map (\<lambda>(name, n). name @ ''='' @ show_u32 n) counts"
proof (induction counts)
  case Nil
  then show ?case by (simp add: scaling_text_def lines_def split_on_def)
next
  case (Cons e counts)
  obtain name n where e: "e = (name, n)" by (cases e)
  let ?line = "name @ ''='' @ show_u32 n"
  have digits: "\<forall>c \<in> set (show_u32 n). c \<noteq> NEWLINE \<and> c \<noteq> CHR 0x0D"
    using show_u32_digits [of n] digit_plain by (auto simp: list_all_iff)
  have "NEWLINE \<notin> set ?line" using Cons.prems digits by (auto simp: e scaling_name_def)
  moreover have "strip_cr ?line = ?line"
  proof -
    have "last (show_u32 n) \<in> set (show_u32 n)" by (rule last_in_set) simp
    then have "last ?line \<noteq> CHR 0x0D" using digits by simp
    then show ?thesis by (rule strip_cr_id)
  qed
  moreover have "scaling_text (e # counts) = ?line @ NEWLINE # scaling_text counts" by (simp add: scaling_text_def e)
  ultimately show ?case using Cons lines_Cons [of ?line "scaling_text counts"] by (simp add: e)
qed

lemma fold_scaling_lines:
  "\<forall>e \<in> set xs. scaling_name (fst e) \<Longrightarrow>
     fold_result scaling_line (map (\<lambda>(name, n). name @ ''='' @ show_u32 n) xs) m = Inr (bt_extend m xs)"
proof (induction xs arbitrary: m)
  case (Cons e xs)
  obtain name n where e: "e = (name, n)" by (cases e)
  have "scaling_line (name @ ''='' @ show_u32 n) m = Inr (bt_insert name n m)"
    using Cons.prems parse_count_entry [of name n] by (simp add: scaling_line_def e)
  then show ?case using Cons by (simp add: e bt_extend_def)
qed (simp add: bt_extend_def)

lemma service_scaling_name:
  assumes "valid_service s"
  shows "scaling_name (service_str s)"
proof -
  have safe: "is_engine_safe (service_str s)" using assms by (simp add: valid_service_def)
  then have chars: "\<forall>c \<in> set (service_str s). engine_char c" and ne: "service_str s \<noteq> []"
    using engine_safe_chars [of "service_str s"] by (auto simp: list_all_iff)
  have plain: "\<not> is_whitespace c \<and> c \<noteq> CHR ''='' \<and> c \<noteq> NEWLINE \<and> c \<noteq> CHR ''#''" if "engine_char c" for c
    using that by (auto simp: engine_char_def char_class_defs)
  show ?thesis
    using chars plain hd_in_set [OF ne] last_in_set [OF ne] ne by (auto simp: scaling_name_def)
qed

text \<open>
  Recording a copy count keeps all others: after \<open>scale\<close> has written the \<open>SCALING\<close> file, reading it back gives the new
  count for the service and the counts of every other service as they were read before, whatever the file held.
\<close>

lemma scaling_file_read_back:
  assumes "parse_scaling content = Inr counts" and "valid_service service"
  shows "\<exists>counts'. parse_scaling (scaling_text (bt_insert (service_str service) copies counts)) = Inr counts'
    \<and> wanted counts' service = copies \<and> (\<forall>other. other \<noteq> service \<longrightarrow> wanted counts' other = wanted counts other)"
proof -
  let ?new = "bt_insert (service_str service) copies counts"
  have old: "bt_ok counts" "\<forall>e \<in> set counts. scaling_name (fst e)" using parse_scaling_ok [OF assms(1)] by simp_all
  have "scaling_name (service_str service)" by (rule service_scaling_name [OF assms(2)])
  then have names: "\<forall>e \<in> set ?new. scaling_name (fst e)" using bt_insert_all [OF old(2)] by simp
  have parsed: "parse_scaling (scaling_text ?new) = Inr (bt_extend [] ?new)"
    unfolding parse_scaling_def scaling_text_lines [OF names] by (rule fold_scaling_lines [OF names])
  have ok: "bt_ok ?new" by (rule bt_ok_insert [OF old(1)])
  have "distinct (map fst ?new)" by (rule bt_ok_distinct [OF ok])
  then have "map_of (rev ?new) = map_of ?new" by (subst map_of_inject_set) (simp_all flip: rev_map)
  then have "bt_get (bt_extend [] ?new) = bt_get ?new"
    using bt_get_extend [of "[]" ?new] by (simp add: bt_get_def [abs_def])
  then have get: "bt_get (bt_extend [] ?new) = (bt_get counts)(service_str service \<mapsto> copies)"
    by (simp add: bt_get_insert)
  have "service_str other \<noteq> service_str service" if "other \<noteq> service" for other
    using that by (cases other, cases service) simp
  then show ?thesis using parsed get by (auto simp: wanted_def)
qed

section \<open>Stopping respects dependencies\<close>

lemma takeWhile_first:
  assumes "j < length xs" and "\<not> P (xs ! j)"
  shows "length (takeWhile P xs) \<le> j"
  using assms by (metis nth_length_takeWhile not_le_imp_less length_takeWhile_le nth_mem set_takeWhileD takeWhile_nth)

lemma dependency_listed:
  assumes "deps_first ss" and "s \<in> set ss" and "dep \<in> set (sd_depends_on s)"
  shows "\<exists>t \<in> set ss. sd_name t = dep_service dep"
proof -
  obtain i where i: "i < length ss" "ss ! i = s" using assms(2) by (auto simp: in_set_conv_nth)
  then obtain j where j: "j < i" "svc_name (ss ! j) = dep_name dep"
    using assms(1,3) unfolding deps_first_def by blast
  have "sd_name (ss ! j) = dep_service dep" using j(2) by (cases "sd_name (ss ! j)", cases "dep_service dep") simp
  moreover have "ss ! j \<in> set ss" using j(1) i(1) by simp
  ultimately show ?thesis by blast
qed

lemma start_rank_dependency:
  assumes "deps_first (cp_services (ca_project ctx))" and "s \<in> set (cp_services (ca_project ctx))"
    and "dep \<in> set (sd_depends_on s)" and "ci_service a = Some (sd_name s)" and "ci_service b = Some (dep_service dep)"
    and "names_distinct (cp_services (ca_project ctx))" and "length (cp_services (ca_project ctx)) < 2 ^ 64 - 1"
  shows "start_rank ctx b < start_rank ctx a"
proof -
  let ?ss = "cp_services (ca_project ctx)"
  obtain i where i: "i < length ?ss" "?ss ! i = s" using assms(2) by (auto simp: in_set_conv_nth)
  obtain j where j: "j < i" "svc_name (?ss ! j) = dep_name dep"
    using assms(1,3) i unfolding deps_first_def by blast
  have "sd_name (?ss ! j) = dep_service dep" using j(2) by (cases "sd_name (?ss ! j)", cases "dep_service dep") simp
  then have rb: "length (takeWhile (\<lambda>s. Some (sd_name s) \<noteq> ci_service b) ?ss) \<le> j"
    using j(1) i(1) assms(5) by (intro takeWhile_first) auto
  have "takeWhile (\<lambda>s. Some (sd_name s) \<noteq> ci_service a) ?ss = take i ?ss"
  proof (rule takeWhile_eq_take_P_nth)
    fix k assume k: "k < i"
    have "distinct (map svc_name ?ss)" using assms(6) by (simp add: names_distinct_def)
    then have "svc_name (?ss ! k) \<noteq> svc_name (?ss ! i)" using k i(1) by (simp add: distinct_conv_nth)
    then show "Some (sd_name (?ss ! k)) \<noteq> ci_service a" using assms(4) i(2) by auto
  qed (use assms(4) i in simp)
  then show ?thesis using rb j(1) i(1) by (simp add: start_rank_def Let_def)
qed

text \<open>
  Property C37.  Stopping an app respects its dependencies: the containers that \<open>stop\<close> and then removes one after another are ordered
  such that every container of a service comes before the containers of the services it depends on, and containers of
  services that are gone from the compose file come before all of those.
\<close>

theorem stop_dependents_first:
  assumes "names_distinct services" and "start_order services = Inr (cp_services (ca_project ctx))"
    and "length services < 2 ^ 64 - 1" and "targets = stop_targets ctx service infos"
    and "i < length targets" and "j < length targets"
    and "s \<in> set services" and "dep \<in> set (sd_depends_on s)" and "ci_service (targets ! j) = Some (dep_service dep)"
    and "ci_service (targets ! i) = Some (sd_name s) \<or> \<not> in_project (ca_project ctx) (targets ! i)"
  shows "i < j"
proof -
  let ?ss = "cp_services (ca_project ctx)"
  have order: "mset ?ss = mset services" "deps_first ?ss" using start_order_sound [OF assms(1,2)] by simp_all
  have set: "set ?ss = set services" and len: "length ?ss = length services"
    using mset_eq_setD [OF order(1)] mset_eq_length [OF order(1)] by simp_all
  have "mset (map svc_name ?ss) = mset (map svc_name services)" using order(1) by simp
  then have names: "names_distinct ?ss"
    using mset_eq_imp_distinct_iff [of "map svc_name ?ss" "map svc_name services"] assms(1) by (simp add: names_distinct_def)
  have lower: "start_rank ctx (targets ! j) < start_rank ctx (targets ! i)"
  proof (cases "ci_service (targets ! i) = Some (sd_name s)")
    case True
    show ?thesis
      by (rule start_rank_dependency [OF order(2) _ assms(8) True assms(9) names]) (use assms(3,7) set len in auto)
  next
    case False
    then have gone: "start_rank ctx (targets ! i) = 2 ^ 64 - 1"
      using assms(10) by (auto simp: start_rank_def in_project_def list_ex_iff Let_def dest: nth_length_takeWhile)
    obtain t where "t \<in> set ?ss" "sd_name t = dep_service dep" using dependency_listed [OF order(2)] assms(7,8) set by blast
    then obtain k where k: "k < length ?ss" "sd_name (?ss ! k) = dep_service dep" by (auto simp: in_set_conv_nth)
    then have "length (takeWhile (\<lambda>s. Some (sd_name s) \<noteq> ci_service (targets ! j)) ?ss) \<le> k"
      using assms(9) by (intro takeWhile_first) simp_all
    then have "length (takeWhile (\<lambda>s. Some (sd_name s) \<noteq> ci_service (targets ! j)) ?ss) < length ?ss" using k(1) by simp
    then show ?thesis using gone assms(3) len by (simp add: start_rank_def Let_def)
  qed
  show ?thesis
  proof (rule ccontr)
    assume "\<not> i < j"
    then have "- int (start_rank ctx (targets ! j)) \<le> - int (start_rank ctx (targets ! i))"
      using sorted_nth_mono [of "map (\<lambda>info. - int (start_rank ctx info)) targets" j i] assms(4-6)
      by (simp add: stop_targets_def)
    then show False using lower by simp
  qed
qed

definition stopped_info :: "string \<Rightarrow> container_info" where
  "stopped_info service = sample_info\<lparr>ci_service := Some (ServiceName service)\<rparr>"

definition stopped_app :: "unit container_app" where
  "stopped_app = plain_app\<lparr>ca_project := \<lparr>cp_services = rev sample_services, cp_warnings = [], cp_volumes = []\<rparr>\<rparr>"

lemma stopped_targets:
  "stop_targets stopped_app None [stopped_info ''db'', stopped_info ''app''] = [stopped_info ''app'', stopped_info ''db'']"
  by (simp add: stop_targets_def start_rank_def stopped_app_def stopped_info_def sample_services_def new_service_def)

theorem stop_dependents_first_witness:
  "stop_targets stopped_app None [stopped_info ''db'', stopped_info ''app''] = [stopped_info ''app'', stopped_info ''db'']
    \<and> (0::nat) < 1"
proof
  have project: "start_order sample_services = Inr (cp_services (ca_project stopped_app))"
    using sample_services_ordered by (simp add: stopped_app_def)
  have few: "length sample_services < 2 ^ 64 - 1" by (simp add: sample_services_def)
  show "(0::nat) < 1"
    by (rule stop_dependents_first [OF sample_services_distinct project few stopped_targets [symmetric],
          where s = "hd sample_services" and dep = "\<lparr>dep_service = ServiceName ''db'', dep_condition = Healthy\<rparr>"])
       (simp_all add: sample_services_def stopped_info_def new_service_def)
qed (rule stopped_targets)

section \<open>The deploy lock\<close>

text \<open>A host whose state is the clock and whether this process holds the lock; the lock is free or taken by someone else.\<close>

definition clock_host :: "bool \<Rightarrow> (nat \<times> bool) host" where
  "clock_host free = \<lparr>ho_read_scaling = Pair ReadMissing, ho_write_scaling = (\<lambda>_. Pair (Inr ())),
     ho_router_remove = Pair (Inr ()), ho_router_configure = Pair (Inr ()), ho_notify_supervisor = (\<lambda>w. w),
     ho_load_app = Pair (Inl (HostIo ''no app'')), ho_open_engine = Pair (Inl (HostIo ''no engine'')),
     ho_saved_project = Pair None, ho_open_lock = Pair (Inr ()), ho_flock = (\<lambda>(t, h). (Inr free, (t, free \<or> h))),
     ho_lock_tag = Pair (ReadText ''restart''), ho_record_holder = (\<lambda>_. Pair (Inr ())), ho_unlock = (\<lambda>(t, h). (t, False)),
     ho_now = fst, ho_sleep = (\<lambda>d (t, h). (t + d, h))\<rparr>"

definition host_clock :: "'w host \<Rightarrow> bool" where
  "host_clock host \<longleftrightarrow> sleeps (ho_now host) (ho_sleep host) \<and> tick (ho_now host) (ho_flock host) \<and> tick (ho_now host) (ho_lock_tag host)"

lemma keep_waiting_time:
  assumes "host_clock host" and "keep_waiting host waited limit w = (r, w')"
  shows "ho_now host w \<le> ho_now host w'" and "r \<Longrightarrow> waited < max CONTENTION_GRACE limit"
proof -
  have "ho_now host w \<le> ho_now host (snd (ho_lock_tag host w))" using assms(1) by (simp add: host_clock_def tick_def)
  then show "ho_now host w \<le> ho_now host w'"
    using assms(2) by (auto simp: keep_waiting_def held_by_restart_def split: if_splits prod.splits file_read.splits)
  show "r \<Longrightarrow> waited < max CONTENTION_GRACE limit"
    using assms(2) by (auto simp: keep_waiting_def split: if_splits)
qed

lemma host_clock_round:
  assumes "host_clock host"
  shows "ho_now host w + RETRY_INTERVAL \<le> ho_now host (snd (ho_flock host (ho_sleep host RETRY_INTERVAL w)))"
proof -
  have "ho_now host w + RETRY_INTERVAL \<le> ho_now host (ho_sleep host RETRY_INTERVAL w)"
    using assms by (simp add: host_clock_def sleeps_def)
  also have "\<dots> \<le> ho_now host (snd (ho_flock host (ho_sleep host RETRY_INTERVAL w)))"
    using assms by (simp add: host_clock_def tick_def)
  finally show ?thesis .
qed

text \<open>A round that does not decide has waited less than the longest wait, and time has moved on by the interval.\<close>

lemma retry_round:
  assumes "host_clock host"
  obtains r w' where "retry_loop host start limit (Suc n) w = (Some r, w')"
  | w' where "retry_loop host start limit (Suc n) w = retry_loop host start limit n w'"
      "ho_now host w + RETRY_INTERVAL \<le> ho_now host w'" "ho_now host w + RETRY_INTERVAL < start + max CONTENTION_GRACE limit"
proof -
  obtain l w1 where l: "ho_flock host (ho_sleep host RETRY_INTERVAL w) = (l, w1)" by (metis prod.exhaust)
  have now: "ho_now host w + RETRY_INTERVAL \<le> ho_now host w1" using host_clock_round [OF assms, of w] by (simp add: l)
  obtain k w2 where k: "keep_waiting host (ho_now host w1 - start) limit w1 = (k, w2)" by (metis prod.exhaust)
  show thesis
  proof (cases "l = Inr False \<and> k")
    case True
    have "retry_loop host start limit (Suc n) w = retry_loop host start limit n w2" using l k True by simp
    moreover have "ho_now host w1 - start < max CONTENTION_GRACE limit" "ho_now host w1 \<le> ho_now host w2"
      using keep_waiting_time [OF assms k] True by simp_all
    ultimately show thesis using that(2) now by simp
  next
    case False
    then have "\<exists>r w'. retry_loop host start limit (Suc n) w = (Some r, w')" using l k by (auto split: sum.splits bool.splits)
    then show thesis using that(1) by blast
  qed
qed

lemma retry_loop_ends:
  assumes "host_clock host"
  shows "start + max CONTENTION_GRACE limit \<le> ho_now host w + n * RETRY_INTERVAL + RETRY_INTERVAL
    \<Longrightarrow> fst (retry_loop host start limit (Suc n) w) \<noteq> None"
proof (induction n arbitrary: w)
  case 0
  show ?case by (rule retry_round [OF assms, of start limit 0 w]) (use 0 in simp_all)
next
  case (Suc n)
  show ?case
  proof (rule retry_round [OF assms, of start limit "Suc n" w])
    fix w'
    assume w': "retry_loop host start limit (Suc (Suc n)) w = retry_loop host start limit (Suc n) w'"
      "ho_now host w + RETRY_INTERVAL \<le> ho_now host w'"
    have "start + max CONTENTION_GRACE limit \<le> ho_now host w' + n * RETRY_INTERVAL + RETRY_INTERVAL"
      using Suc.prems w'(2) by simp
    then show ?case unfolding w'(1) by (rule Suc.IH)
  qed simp
qed

lemma retry_acquire_ends:
  assumes "host_clock host"
  shows "fst (retry_acquire host limit w) \<noteq> None"
proof -
  let ?m = "max CONTENTION_GRACE limit"
  have "?m < Suc (?m div RETRY_INTERVAL) * RETRY_INTERVAL"
    using dividend_less_div_times [of RETRY_INTERVAL ?m] by (simp add: RETRY_INTERVAL_def)
  then have "ho_now host w + ?m \<le> ho_now host w + (?m div RETRY_INTERVAL + 1) * RETRY_INTERVAL + RETRY_INTERVAL" by simp
  from retry_loop_ends [OF assms this] show ?thesis by (simp add: retry_acquire_def retry_fuel_def)
qed

text \<open>
  Taking the deploy lock always comes to an end, whoever holds it: with a clock that does not run backwards, the
  polling decides after finitely many rounds, for every operation and every bound on the wait for a restart.
\<close>

lemma acquire_ends:
  assumes "host_clock host"
  shows "\<exists>r w'. acquire_as host app holder limit w = (Some r, w')"
proof -
  obtain o' w1 where o': "ho_open_lock host w = (o', w1)" by (metis prod.exhaust)
  obtain l w2 where l: "ho_flock host w1 = (l, w2)" by (metis prod.exhaust)
  obtain d w3 where d: "retry_acquire host limit w2 = (Some d, w3)"
    using retry_acquire_ends [OF assms, of limit w2] by (metis option.exhaust prod.exhaust fst_conv)
  show ?thesis
  proof (cases o')
    case (Inr u)
    define decided where "decided = (case l of Inr True \<Rightarrow> (Some (Inr True), w2) | Inr False \<Rightarrow> (Some d, w3) | Inl e \<Rightarrow> (Some (Inl e), w2))"
    have "acquire_as host app holder limit w =
        (case decided of
             (None, w3) \<Rightarrow> (None, w3)
           | (Some (Inl e), w3) \<Rightarrow> (Some (Inl (LockIo e)), w3)
           | (Some (Inr False), w3) \<Rightarrow> (Some (Inl (DeployInProgress app)), w3)
           | (Some (Inr True), w3) \<Rightarrow>
               (case ho_record_holder host (holder_tag holder) w3 of
                  (Inr _, w4) \<Rightarrow> (Some (Inr ()), w4)
                | (Inl e, w4) \<Rightarrow> (Some (Inl (LockIo e)), ho_unlock host w4)))"
      using o' l d Inr by (simp add: acquire_as_def decided_def split: sum.splits bool.splits)
    moreover have "\<exists>d w. decided = (Some d, w)" by (auto simp: decided_def split: sum.splits bool.splits)
    ultimately show ?thesis by (auto split: sum.splits bool.splits prod.splits)
  qed (use o' in \<open>simp add: acquire_as_def\<close>)
qed

text \<open>Whether this process holds the lock, with what the host promises: \<open>flock\<close> takes it, closing the file releases it.\<close>

definition lock_laws :: "('w \<Rightarrow> bool) \<Rightarrow> 'w host \<Rightarrow> bool" where
  "lock_laws held host \<longleftrightarrow>
     (\<forall>w. held (snd (ho_open_lock host w)) = held w) \<and> (\<forall>w. held (snd (ho_lock_tag host w)) = held w)
     \<and> (\<forall>d w. held (ho_sleep host d w) = held w) \<and> (\<forall>t w. held (snd (ho_record_holder host t w)) = held w)
     \<and> (\<forall>w. \<not> held (ho_unlock host w))
     \<and> (\<forall>w. held (snd (ho_flock host w)) = (fst (ho_flock host w) = Inr True \<or> held w))"

lemma keep_waiting_held:
  assumes "lock_laws held host" and "keep_waiting host waited limit w = (r, w')"
  shows "held w' = held w"
proof -
  have "held (snd (ho_lock_tag host w)) = held w" using assms(1) by (simp add: lock_laws_def)
  then show ?thesis
    using assms(2) by (auto simp: keep_waiting_def held_by_restart_def split: if_splits prod.splits file_read.splits)
qed

lemma flock_held:
  assumes "lock_laws held host" and "ho_flock host w = (r, w')" and "\<not> held w"
  shows "held w' = (r = Inr True)"
proof -
  have "held (snd (ho_flock host w)) = (fst (ho_flock host w) = Inr True \<or> held w)" using assms(1) by (simp add: lock_laws_def)
  then show ?thesis using assms(2,3) by simp
qed

lemma retry_loop_held:
  assumes "lock_laws held host"
  shows "\<not> held w \<Longrightarrow> retry_loop host start limit n w = (Some r, w') \<Longrightarrow> held w' = (r = Inr True)"
proof (induction n arbitrary: w)
  case (Suc n)
  obtain l w1 where l: "ho_flock host (ho_sleep host RETRY_INTERVAL w) = (l, w1)" by (metis prod.exhaust)
  have "\<not> held (ho_sleep host RETRY_INTERVAL w)" using assms Suc.prems(1) by (simp add: lock_laws_def)
  from flock_held [OF assms l this] have w1: "held w1 = (l = Inr True)" .
  obtain k w2 where k: "keep_waiting host (ho_now host w1 - start) limit w1 = (k, w2)" by (metis prod.exhaust)
  have w2: "held w2 = held w1" by (rule keep_waiting_held [OF assms k])
  show ?case using Suc.IH [of w2] Suc.prems(2) l k w1 w2 by (cases "l = Inr False \<and> k") (auto split: sum.splits bool.splits)
qed simp

lemma acquire_held:
  assumes laws: "lock_laws held host" and "\<not> held w" and run: "acquire_as host app holder limit w = (Some r, w')"
  shows "held w' = (\<exists>u. r = Inr u)"
proof -
  obtain o' w1 where o': "ho_open_lock host w = (o', w1)" by (metis prod.exhaust)
  have w1: "\<not> held w1" using laws assms(2) o' unfolding lock_laws_def by (metis snd_conv)
  obtain l w2 where l: "ho_flock host w1 = (l, w2)" by (metis prod.exhaust)
  define decided where "decided = (case l of Inr True \<Rightarrow> (Some (Inr True), w2) | Inr False \<Rightarrow> retry_acquire host limit w2 | Inl e \<Rightarrow> (Some (Inl e), w2))"
  obtain d w3 where d: "decided = (d, w3)" by (metis prod.exhaust)
  have w2: "held w2 = (l = Inr True)" by (rule flock_held [OF laws l w1])
  have w3: "held w3 = (d = Some (Inr True))" if "d \<noteq> None"
    using that d w2 retry_loop_held [OF laws, of w2] unfolding decided_def retry_acquire_def
    by (auto split: sum.splits bool.splits)
  obtain h w4 where h: "ho_record_holder host (holder_tag holder) w3 = (h, w4)" by (metis prod.exhaust)
  have w4: "held w4 = held w3" "\<not> held (ho_unlock host w4)" using laws h unfolding lock_laws_def by (metis snd_conv, blast)
  show ?thesis
    using run o' l d h w1 w2 w3 w4 by (auto simp: acquire_as_def decided_def split: sum.splits bool.splits option.splits)
qed


lemma clock_host_laws: "lock_laws snd (clock_host free)"
  by (auto simp: lock_laws_def clock_host_def)


end
