(* ===== verification/Cron_Schedule.thy ===== *)
theory Cron_Schedule
  imports Rust_Text
begin

text \<open>
  Cron schedules, \<open>riku-util/src/cron/parser.rs\<close>, and the scheduler of \<open>riku-util/src/cron/mod.rs\<close>.

  The crates \<open>croner\<close> and \<open>chrono\<close> are the parameter \<open>cron_engine\<close>: reading an expression, the next occurrence after a
  second (or at it, when the flag is set) and the range of a timestamp.  A \<open>SystemTime\<close> is the number of nanoseconds since the
  epoch.
\<close>

section \<open>parser.rs\<close>

record 'c cron_engine =
  cn_parse :: "string \<Rightarrow> (string, 'c) result"
  cn_next :: "'c \<Rightarrow> int \<Rightarrow> bool \<Rightarrow> (string, int) result"
  cn_in_range :: "int \<Rightarrow> bool"

type_synonym system_time = int

datatype cron_error =
    CronFields string
  | CronSyntax string string
  | BeforeEpoch
  | OutOfRange
  | NoUpcomingRun string string
  | RunBeforeEpoch
  | ProcfileUnread string

definition SYSTEM_SECOND :: int where
  "SYSTEM_SECOND = 1000000000"

definition parse_schedule :: "'c cron_engine \<Rightarrow> string \<Rightarrow> (cron_error, 'c) result" where
  "parse_schedule cron schedule =
     (if length (split_whitespace schedule) \<noteq> 5 then Inl (CronFields schedule)
      else map_err (CronSyntax schedule) (cn_parse cron schedule))"

definition system_time_to_utc :: "'c cron_engine \<Rightarrow> system_time \<Rightarrow> (cron_error, int) result" where
  "system_time_to_utc cron time =
     (if time < 0 then Inl BeforeEpoch
      else let secs = time div SYSTEM_SECOND in if cn_in_range cron secs then Inr secs else Inl OutOfRange)"

definition utc_to_system_time :: "int \<Rightarrow> (cron_error, system_time) result" where
  "utc_to_system_time secs = (if secs < 0 then Inl RunBeforeEpoch else Inr (secs * SYSTEM_SECOND))"

definition calculate_next_run_after :: "'c cron_engine \<Rightarrow> string \<Rightarrow> system_time \<Rightarrow> (cron_error, system_time) result" where
  "calculate_next_run_after cron schedule after =
     and_then (parse_schedule cron schedule) (\<lambda>parsed.
     and_then (system_time_to_utc cron after) (\<lambda>after_utc.
     and_then (map_err (NoUpcomingRun schedule) (cn_next cron parsed after_utc False)) utc_to_system_time))"

definition calculate_next_run :: "'c cron_engine \<Rightarrow> system_time \<Rightarrow> string \<Rightarrow> (cron_error, system_time) result" where
  "calculate_next_run cron now schedule = calculate_next_run_after cron schedule now"

definition validate_cron_expression :: "'c cron_engine \<Rightarrow> string \<Rightarrow> bool" where
  "validate_cron_expression cron expr =
     (case parse_schedule cron expr of Inl _ \<Rightarrow> False | Inr parsed \<Rightarrow> is_ok (cn_next cron parsed 0 True))"

section \<open>mod.rs\<close>

record cron_job =
  cj_app :: string
  cj_schedule :: string
  cj_command :: string
  cj_next_run :: system_time

type_synonym cron_scheduler = "(string, cron_job) btree"

definition cron_job_new ::
  "'c cron_engine \<Rightarrow> system_time \<Rightarrow> string \<Rightarrow> string \<Rightarrow> string \<Rightarrow> (cron_error, cron_job) result" where
  "cron_job_new cron now app schedule command =
     and_then (calculate_next_run cron now schedule) (\<lambda>next_run.
     Inr \<lparr>cj_app = app, cj_schedule = schedule, cj_command = command, cj_next_run = next_run\<rparr>)"

definition should_run_now :: "system_time \<Rightarrow> cron_job \<Rightarrow> bool" where
  "should_run_now now job = (cj_next_run job \<le> now)"

definition cron_job_id :: "string \<Rightarrow> nat \<Rightarrow> string" where
  "cron_job_id app index = app @ ''-cron-'' @ show_nat index"

definition add_job ::
  "'c cron_engine \<Rightarrow> system_time \<Rightarrow> string \<Rightarrow> nat \<Rightarrow> string \<Rightarrow> string \<Rightarrow> cron_scheduler
     \<Rightarrow> (cron_error, cron_scheduler) result" where
  "add_job cron now app index schedule command jobs =
     and_then (cron_job_new cron now app schedule command) (\<lambda>job. Inr (bt_insert (cron_job_id app index) job jobs))"

definition remove_app_jobs :: "string \<Rightarrow> cron_scheduler \<Rightarrow> cron_scheduler" where
  "remove_app_jobs app jobs = filter (\<lambda>(_, job). cj_app job \<noteq> app) jobs"

definition mark_job_run :: "'c cron_engine \<Rightarrow> string \<Rightarrow> nat \<Rightarrow> cron_scheduler \<Rightarrow> (cron_error, cron_scheduler) result" where
  "mark_job_run cron app index jobs =
     (case bt_get jobs (cron_job_id app index) of
        None \<Rightarrow> Inr jobs
      | Some job \<Rightarrow>
          and_then (calculate_next_run_after cron (cj_schedule job) (cj_next_run job)) (\<lambda>next_run.
          Inr (bt_insert (cron_job_id app index) (job\<lparr>cj_next_run := next_run\<rparr>) jobs)))"

end
