(* ===== verification/App_Settings.thy ===== *)
theory App_Settings
  imports Cron_Schedule App_Control
begin

text \<open>
  The files an app is configured by: the \<open>ENV\<close> file with its variable references (\<open>riku-util/src/env.rs\<close>), the Procfile
  (\<open>riku-util/src/procfile.rs\<close>), the routing keys a deploy keeps in the \<open>ENV\<close> file (\<open>riku-deploy/src/workers/web_env.rs\<close>) and the
  worker counts (\<open>workers/scaling.rs\<close>, \<open>workers/socket.rs\<close> and parts of \<open>scaling.rs\<close>).

  A \<open>HashMap\<close> is written in an order of its own: the function \<open>walk\<close> orders the keys.
\<close>

section \<open>env.rs\<close>

text \<open>The class \<open>\w\<close> of the regular expression \<open>\$(\w+|\{([^}]*)\})\<close>, below U+0100.\<close>

definition is_word_char :: "char \<Rightarrow> bool" where
  "is_word_char c \<longleftrightarrow> is_ascii_alphanumeric c \<or> c = CHR ''_'' \<or> code_point c \<in> {0xAA, 0xB5, 0xBA}
     \<or> (0xC0 \<le> code_point c \<and> code_point c \<noteq> 0xD7 \<and> code_point c \<noteq> 0xF7)"

text \<open>A reference after its dollar sign: the name, the text matched and the rest.\<close>

definition env_reference :: "string \<Rightarrow> (string \<times> string \<times> string) option" where
  "env_reference s =
     (let word = takeWhile is_word_char s
      in if word \<noteq> [] then Some (word, word, dropWhile is_word_char s)
         else case s of
                [] \<Rightarrow> None
              | c # body \<Rightarrow>
                  (if c = CHR ''{''
                   then (case split_once (CHR ''}'') body of
                           Some (name, rest) \<Rightarrow> Some (name, ''{'' @ name @ ''}'', rest)
                         | None \<Rightarrow> None)
                   else None))"

definition reference_value :: "env_map \<Rightarrow> string option \<Rightarrow> string \<Rightarrow> string \<Rightarrow> string" where
  "reference_value env other name matched =
     (case bt_get env name of
        Some v \<Rightarrow> v
      | None \<Rightarrow> (case other of Some d \<Rightarrow> d | None \<Rightarrow> CHR ''$'' # matched))"

lemma split_once_length: "split_once c s = Some (a, b) \<Longrightarrow> length b < length s"
  by (induction s arbitrary: a b) (auto split: if_splits option.splits)

lemma env_reference_length: "env_reference s = Some (name, matched, rest) \<Longrightarrow> length rest \<le> length s"
  by (auto simp: env_reference_def Let_def split: if_splits list.splits option.splits
      intro: length_dropWhile_le dest!: split_once_length)

function expandvars :: "env_map \<Rightarrow> string option \<Rightarrow> string \<Rightarrow> string" where
  "expandvars env other [] = []"
| "expandvars env other (c # s) =
     (if c = CHR ''$'' then
        (case env_reference s of
           Some (name, matched, rest) \<Rightarrow> reference_value env other name matched @ expandvars env other rest
         | None \<Rightarrow> c # expandvars env other s)
      else c # expandvars env other s)"
  by pat_completeness auto
termination by (relation "measure (length \<circ> snd \<circ> snd)") (auto dest: env_reference_length)

definition clean_setting :: "string \<Rightarrow> string" where
  "clean_setting v = filter (\<lambda>c. \<not> is_control c \<or> c = CHR 0x09) v"

fun settings_lines :: "string list \<Rightarrow> env_map \<Rightarrow> bool \<times> env_map" where
  "settings_lines [] env = (True, env)"
| "settings_lines (line # rest) env =
     (if line = [] \<or> starts_with ''#'' line \<or> trim line = [] then settings_lines rest env
      else case split_once (CHR ''='') line of
             None \<Rightarrow> (False, env)
           | Some (k, v) \<Rightarrow> settings_lines rest (bt_insert (trim k) (expandvars env None (clean_setting (trim v))) env))"

text \<open>The map returned, and the map passed in as it is left.\<close>

definition parse_settings :: "file_read \<Rightarrow> env_map \<Rightarrow> (string, env_map) result \<times> env_map" where
  "parse_settings content env =
     (case content of
        ReadMissing \<Rightarrow> (Inr [], env)
      | file_read.ReadFailed e \<Rightarrow> (Inl e, env)
      | ReadText t \<Rightarrow>
          (case settings_lines (lines t) env of
             (True, env') \<Rightarrow> (Inr env', env')
           | (False, env') \<Rightarrow> (Inr [], env')))"

definition write_config_text :: "(string list \<Rightarrow> string list) \<Rightarrow> string \<Rightarrow> env_map \<Rightarrow> string" where
  "write_config_text walk separator bag =
     concat (map (\<lambda>k. k @ separator @ (case bt_get bag k of Some v \<Rightarrow> v | None \<Rightarrow> []) @ [NEWLINE]) (walk (bt_keys bag)))"

section \<open>procfile.rs\<close>

datatype procfile_error =
    ProcfileRead string
  | NoColon nat string
  | InvalidKind nat string
  | InvalidCron nat string

definition is_valid_cron_command :: "'c cron_engine \<Rightarrow> string \<Rightarrow> bool" where
  "is_valid_cron_command cron command =
     (let fields = split_whitespace command
      in 5 \<le> length fields \<and> validate_cron_expression cron (join '' '' (take 5 fields)))"

definition procfile_line :: "'c cron_engine \<Rightarrow> nat \<Rightarrow> string \<Rightarrow> (procfile_error, (string \<times> string) option) result" where
  "procfile_line cron n raw =
     (let line = trim raw
      in if line = [] \<or> starts_with ''#'' line then Inr None
         else case split_once (CHR '':'') line of
                None \<Rightarrow> Inl (NoColon n line)
              | Some (kind, command) \<Rightarrow>
                  (let kind = trim kind; command = trim command
                   in if \<not> is_valid_kind kind then Inl (InvalidKind n line)
                      else if starts_with ''cron'' kind \<and> \<not> is_valid_cron_command cron command then Inl (InvalidCron n line)
                      else Inr (Some (kind, command))))"

fun procfile_lines ::
  "'c cron_engine \<Rightarrow> nat \<Rightarrow> string list \<Rightarrow> env_map \<Rightarrow> (procfile_error, env_map) result" where
  "procfile_lines cron n [] workers = Inr workers"
| "procfile_lines cron n (line # rest) workers =
     and_then (procfile_line cron n line) (\<lambda>entry.
     procfile_lines cron (n + 1) rest
       (case entry of Some (kind, command) \<Rightarrow> bt_insert kind command workers | None \<Rightarrow> workers))"

definition wsgi_over_web :: "env_map \<Rightarrow> env_map" where
  "wsgi_over_web workers =
     (if bt_get workers ''wsgi'' \<noteq> None \<or> bt_get workers ''jwsgi'' \<noteq> None \<or> bt_get workers ''rwsgi'' \<noteq> None
      then bt_remove ''web'' workers else workers)"

definition parse_procfile :: "'c cron_engine \<Rightarrow> file_read \<Rightarrow> (procfile_error, env_map option) result" where
  "parse_procfile cron content =
     (case content of
        ReadMissing \<Rightarrow> Inr None
      | file_read.ReadFailed e \<Rightarrow> Inl (ProcfileRead e)
      | ReadText t \<Rightarrow> and_then (procfile_lines cron 1 (lines t) []) (\<lambda>workers. Inr (Some (wsgi_over_web workers))))"

section \<open>Routing keys\<close>

definition is_wsgi_kind :: "string \<Rightarrow> bool" where
  "is_wsgi_kind kind \<longleftrightarrow> kind \<in> {''wsgi'', ''jwsgi'', ''rwsgi'', ''php''}"

definition is_web_facing :: "string \<Rightarrow> bool" where
  "is_web_facing kind \<longleftrightarrow> kind = ''web'' \<or> is_wsgi_kind kind"

definition RIKU_NGINX_EXTERNAL_PORT :: string where
  "RIKU_NGINX_EXTERNAL_PORT = ''80''"

definition LEGACY_ADDRESS_KEYS :: "string list" where
  "LEGACY_ADDRESS_KEYS = [''RIKU_UPSTREAM_PORT'', ''UWSGI_SOCKET'']"

definition ROUTE_KEYS :: "string list" where
  "ROUTE_KEYS = [''RIKU_NGINX_PORTMAP'', ''RIKU_NGINX_EXTERNAL_PORT'', ''RIKU_NGINX_WSGI'']"

definition apply_route_keys :: "string \<Rightarrow> env_map \<Rightarrow> env_map" where
  "apply_route_keys kind persisted =
     (let persisted = fold bt_remove LEGACY_ADDRESS_KEYS persisted
      in if is_wsgi_kind kind
         then bt_insert ''RIKU_NGINX_WSGI'' ''true''
                (bt_remove ''RIKU_NGINX_EXTERNAL_PORT'' (bt_remove ''RIKU_NGINX_PORTMAP'' persisted))
         else bt_insert ''RIKU_NGINX_EXTERNAL_PORT'' RIKU_NGINX_EXTERNAL_PORT
                (bt_insert ''RIKU_NGINX_PORTMAP'' ''true'' (bt_remove ''RIKU_NGINX_WSGI'' persisted)))"

definition drop_route_keys :: "env_map \<Rightarrow> bool \<times> env_map" where
  "drop_route_keys persisted =
     (let kept = fold bt_remove (ROUTE_KEYS @ LEGACY_ADDRESS_KEYS) persisted
      in (length kept \<noteq> length persisted, kept))"

section \<open>Worker counts\<close>

fun scaling_count_in :: "string list \<Rightarrow> string \<Rightarrow> u32" where
  "scaling_count_in [] kind = 1"
| "scaling_count_in (raw # rest) kind =
     (let line = trim raw
      in if line = [] \<or> starts_with ''#'' line then scaling_count_in rest kind
         else case split_once (CHR ''='') line of
                None \<Rightarrow> scaling_count_in rest kind
              | Some (key, val) \<Rightarrow>
                  (case (if trim key = kind then parse_u32 (trim val) else None) of
                     Some n \<Rightarrow> n
                   | None \<Rightarrow> scaling_count_in rest kind))"

definition scaling_count :: "file_read \<Rightarrow> string \<Rightarrow> (string, u32) result" where
  "scaling_count content kind =
     (case content of
        ReadMissing \<Rightarrow> Inr 1
      | file_read.ReadFailed e \<Rightarrow> Inl e
      | ReadText t \<Rightarrow> Inr (scaling_count_in (lines t) kind))"

definition count_line :: "string \<Rightarrow> (string, u32) btree \<Rightarrow> (string, u32) btree" where
  "count_line raw counts =
     (let line = trim raw
      in if line = [] \<or> starts_with ''#'' line then counts
         else case split_once (CHR ''='') line of
                None \<Rightarrow> counts
              | Some (key, val) \<Rightarrow>
                  (case parse_u32 (trim val) of Some n \<Rightarrow> bt_insert (trim key) n counts | None \<Rightarrow> counts))"

definition read_counts :: "file_read \<Rightarrow> (string, (string, u32) btree) result" where
  "read_counts content =
     (case content of
        ReadMissing \<Rightarrow> Inr []
      | file_read.ReadFailed e \<Rightarrow> Inl e
      | ReadText t \<Rightarrow> Inr (fold count_line (lines t) []))"

text \<open>
  \<open>(-delta) as u32\<close> and \<open>*delta as u32\<close> keep the low 32 bits, and the addition wraps in a release build.
\<close>

definition scaled_count :: "u32 \<Rightarrow> int \<Rightarrow> u32" where
  "scaled_count current delta =
     (if delta < 0
      then (if unat current < unat (word_of_int (- delta) :: u32) then 0 else current - word_of_int (- delta))
      else current + word_of_int delta)"

definition default_counts :: "string list \<Rightarrow> (string, u32) btree \<Rightarrow> (string, u32) btree" where
  "default_counts kinds counts =
     fold (\<lambda>kind counts. if bt_get counts kind = None then bt_insert kind 1 counts else counts) kinds counts"

definition new_counts :: "(string, u32) btree \<Rightarrow> (string \<times> int) list \<Rightarrow> (string, u32) btree" where
  "new_counts worker_counts deltas =
     fold (\<lambda>(kind, delta) counts.
       bt_insert kind (scaled_count (case bt_get worker_counts kind of Some n \<Rightarrow> n | None \<Rightarrow> 0) delta) counts)
       deltas worker_counts"

definition WSGI_KINDS :: "string list" where
  "WSGI_KINDS = [''wsgi'', ''jwsgi'', ''rwsgi'', ''php'']"

end
