(* ===== verification/Worker_Stats.thy ===== *)
theory Worker_Stats
  imports Restart_Tally
begin

text \<open>
  The statistics the supervisor keeps on processes, \<open>riku-supervisor/src/stats/types.rs\<close>, \<open>manager.rs\<close> and \<open>queries.rs\<close>: one row per
  process id, with the container rows among them.  The gauges in \<open>f64\<close> and the writing of the file are left out.  Times
  are arguments, read from the clock by the callers.
\<close>

section \<open>types.rs\<close>

type_synonym utc = nat

datatype process_status = PsStarting | PsRunning | PsStopped | PsCrashed | PsRestarting | PsOomKilled

datatype health_status = HsUnknown | HsHealthy | HsUnhealthy | HsTimeout | HsError string

record container_facts =
  cf_id :: string
  cf_image :: string
  cf_state :: string
  cf_exit_code :: "int option"

record process_stats =
  ps_process_id :: string
  ps_app :: string
  ps_kind :: string
  ps_ordinal :: u32
  ps_pid :: "u32 option"
  ps_status :: process_status
  ps_started_at :: "utc option"
  ps_last_health_check :: "utc option"
  ps_health_check_status :: health_status
  ps_restart_count :: u32
  ps_last_restart_at :: "utc option"
  ps_cpu_time_ms :: nat
  ps_memory_bytes :: nat
  ps_container :: "container_facts option"

fun status_text :: "process_status \<Rightarrow> string" where
  "status_text PsStarting = ''starting''"
| "status_text PsRunning = ''running''"
| "status_text PsStopped = ''stopped''"
| "status_text PsCrashed = ''crashed''"
| "status_text PsRestarting = ''restarting''"
| "status_text PsOomKilled = ''oom_killed''"

section \<open>manager.rs\<close>

record stats_manager =
  sm_stats :: "(string, process_stats) btree"
  sm_start_times :: "(string, instant) btree"

definition stats_new :: stats_manager where
  "stats_new = \<lparr>sm_stats = [], sm_start_times = []\<rparr>"

definition register_process ::
  "utc \<Rightarrow> instant \<Rightarrow> string \<Rightarrow> string \<Rightarrow> string \<Rightarrow> u32 \<Rightarrow> stats_manager \<Rightarrow> stats_manager" where
  "register_process now_utc now process_id app kind ordinal m =
     (let previous = bt_get (sm_stats m) process_id;
          stats = \<lparr>ps_process_id = process_id, ps_app = app, ps_kind = kind, ps_ordinal = ordinal, ps_pid = None,
            ps_status = PsStarting, ps_started_at = Some now_utc, ps_last_health_check = None,
            ps_health_check_status = HsUnknown,
            ps_restart_count = (case previous of Some p \<Rightarrow> ps_restart_count p | None \<Rightarrow> 0),
            ps_last_restart_at = Option.bind previous ps_last_restart_at,
            ps_cpu_time_ms = 0, ps_memory_bytes = 0, ps_container = None\<rparr>
      in m\<lparr>sm_stats := bt_insert process_id stats (sm_stats m),
           sm_start_times := bt_insert process_id now (sm_start_times m)\<rparr>)"

text \<open>\<open>get_mut\<close>: a row that is not there stays absent.\<close>

definition update_row :: "string \<Rightarrow> (process_stats \<Rightarrow> process_stats) \<Rightarrow> stats_manager \<Rightarrow> stats_manager" where
  "update_row process_id f m =
     (case bt_get (sm_stats m) process_id of
        Some row \<Rightarrow> m\<lparr>sm_stats := bt_insert process_id (f row) (sm_stats m)\<rparr>
      | None \<Rightarrow> m)"

definition mark_running :: "string \<Rightarrow> u32 \<Rightarrow> stats_manager \<Rightarrow> stats_manager" where
  "mark_running process_id pid = update_row process_id (\<lambda>s. s\<lparr>ps_status := PsRunning, ps_pid := Some pid\<rparr>)"

definition mark_stopped :: "string \<Rightarrow> stats_manager \<Rightarrow> stats_manager" where
  "mark_stopped process_id = update_row process_id (\<lambda>s. s\<lparr>ps_status := PsStopped\<rparr>)"

definition mark_crashed :: "string \<Rightarrow> stats_manager \<Rightarrow> stats_manager" where
  "mark_crashed process_id = update_row process_id (\<lambda>s. s\<lparr>ps_status := PsCrashed\<rparr>)"

definition mark_oom_killed :: "string \<Rightarrow> stats_manager \<Rightarrow> stats_manager" where
  "mark_oom_killed process_id = update_row process_id (\<lambda>s. s\<lparr>ps_status := PsOomKilled\<rparr>)"

definition mark_restarting :: "utc \<Rightarrow> string \<Rightarrow> stats_manager \<Rightarrow> stats_manager" where
  "mark_restarting now_utc process_id =
     update_row process_id (\<lambda>s. s\<lparr>ps_status := PsRestarting, ps_restart_count := ps_restart_count s + 1,
       ps_last_restart_at := Some now_utc\<rparr>)"

definition update_health_check :: "utc \<Rightarrow> string \<Rightarrow> health_status \<Rightarrow> stats_manager \<Rightarrow> stats_manager" where
  "update_health_check now_utc process_id status =
     update_row process_id (\<lambda>s. s\<lparr>ps_health_check_status := status, ps_last_health_check := Some now_utc\<rparr>)"

definition update_resource_usage :: "string \<Rightarrow> nat \<Rightarrow> nat \<Rightarrow> stats_manager \<Rightarrow> stats_manager" where
  "update_resource_usage process_id cpu_ms memory =
     update_row process_id (\<lambda>s. s\<lparr>ps_cpu_time_ms := cpu_ms, ps_memory_bytes := memory\<rparr>)"

definition reset_restarts :: "string \<Rightarrow> stats_manager \<Rightarrow> stats_manager" where
  "reset_restarts process_id =
     update_row process_id (\<lambda>s. s\<lparr>ps_restart_count := 0, ps_last_restart_at := None\<rparr>)"

section \<open>queries.rs\<close>

definition remove_process :: "string \<Rightarrow> stats_manager \<Rightarrow> stats_manager" where
  "remove_process process_id m =
     m\<lparr>sm_stats := bt_remove process_id (sm_stats m), sm_start_times := bt_remove process_id (sm_start_times m)\<rparr>"

definition remove_app :: "string \<Rightarrow> stats_manager \<Rightarrow> stats_manager" where
  "remove_app app m =
     fold remove_process (map ps_process_id (filter (\<lambda>s. ps_app s = app) (map snd (sm_stats m)))) m"

definition forget_stopped_apps :: "(string \<Rightarrow> bool) \<Rightarrow> stats_manager \<Rightarrow> stats_manager" where
  "forget_stopped_apps exists m =
     fold remove_process
       (map ps_process_id
         (filter (\<lambda>s. \<not> exists (ps_app s))
           (filter (\<lambda>s. ps_container s = None \<and> ps_status s = PsStopped) (map snd (sm_stats m))))) m"

definition replace_container_rows :: "process_stats list \<Rightarrow> stats_manager \<Rightarrow> stats_manager" where
  "replace_container_rows rows m =
     m\<lparr>sm_stats := fold (\<lambda>row. bt_insert (ps_process_id row) row) rows
       (filter (\<lambda>(_, s). ps_container s = None) (sm_stats m))\<rparr>"

record app_stats =
  as_app :: string
  as_total_processes :: nat
  as_running_processes :: nat
  as_healthy_processes :: nat
  as_total_restarts :: nat
  as_total_memory_bytes :: nat
  as_total_cpu_time_ms :: nat
  as_processes :: "process_stats list"

definition app_stats_new :: "string \<Rightarrow> app_stats" where
  "app_stats_new app = \<lparr>as_app = app, as_total_processes = 0, as_running_processes = 0, as_healthy_processes = 0,
     as_total_restarts = 0, as_total_memory_bytes = 0, as_total_cpu_time_ms = 0, as_processes = []\<rparr>"

definition add_row :: "process_stats \<Rightarrow> app_stats \<Rightarrow> app_stats" where
  "add_row s a = a\<lparr>as_total_processes := as_total_processes a + 1,
     as_running_processes := as_running_processes a + (if ps_status s = PsRunning then 1 else 0),
     as_healthy_processes := as_healthy_processes a + (if ps_health_check_status s = HsHealthy then 1 else 0),
     as_total_restarts := as_total_restarts a + unat (ps_restart_count s),
     as_total_memory_bytes := as_total_memory_bytes a + ps_memory_bytes s,
     as_total_cpu_time_ms := as_total_cpu_time_ms a + ps_cpu_time_ms s,
     as_processes := as_processes a @ [s]\<rparr>"

text \<open>The sums of the code are \<open>u32\<close> and \<open>u64\<close>; here they are taken without a bound.\<close>

definition get_all_stats :: "stats_manager \<Rightarrow> app_stats list" where
  "get_all_stats m =
     map snd (fold (\<lambda>s apps. bt_insert (ps_app s)
        (add_row s (case bt_get apps (ps_app s) of Some a \<Rightarrow> a | None \<Rightarrow> app_stats_new (ps_app s))) apps)
       (map snd (sm_stats m)) [])"

section \<open>Rows\<close>

text \<open>Every row is filed under its own id; all operations keep it so.\<close>

definition stats_ok :: "stats_manager \<Rightarrow> bool" where
  "stats_ok m \<longleftrightarrow> bt_ok (sm_stats m) \<and> (\<forall>(k, s) \<in> set (sm_stats m). ps_process_id s = k)"

abbreviation row :: "stats_manager \<Rightarrow> string \<Rightarrow> process_stats option" where
  "row m \<equiv> bt_get (sm_stats m)"

lemma row_update: "row (update_row k f m) = (case row m k of Some r \<Rightarrow> (row m)(k \<mapsto> f r) | None \<Rightarrow> row m)"
  by (simp add: update_row_def bt_get_insert split: option.splits)

lemma row_remove: "row (remove_process k m) = (row m)(k := None)"
  by (simp add: remove_process_def bt_get_remove)

lemma row_removes: "row (fold remove_process ks m) = (\<lambda>k. if k \<in> set ks then None else row m k)"
proof (induction ks arbitrary: m)
  case (Cons k ks)
  show ?case by (rule ext) (simp add: Cons row_remove)
qed simp

lemma stats_ok_insert:
  assumes "stats_ok m" and "ps_process_id s = k" and "sm_stats m' = bt_insert k s (sm_stats m)"
  shows "stats_ok m'"
proof -
  have ok: "bt_ok (sm_stats m)" and rows: "\<forall>e \<in> set (sm_stats m). ps_process_id (snd e) = fst e"
    using assms(1) by (auto simp: stats_ok_def)
  have "\<forall>e \<in> set (sm_stats m'). ps_process_id (snd e) = fst e"
    using bt_insert_all [of "sm_stats m" "\<lambda>e. ps_process_id (snd e) = fst e" k s] rows assms(2,3) by simp
  then show ?thesis using bt_ok_insert [OF ok] assms(3) by (auto simp: stats_ok_def)
qed

lemma stats_ok_update:
  assumes "stats_ok m" and "\<And>r. ps_process_id (f r) = ps_process_id r"
  shows "stats_ok (update_row k f m)"
proof (cases "row m k")
  case (Some r)
  have "ps_process_id r = k" using assms(1) bt_get_Some_in [OF Some] by (auto simp: stats_ok_def)
  then have "ps_process_id (f r) = k" using assms(2) [of r] by simp
  moreover have "sm_stats (update_row k f m) = bt_insert k (f r) (sm_stats m)" using Some by (simp add: update_row_def)
  ultimately show ?thesis by (rule stats_ok_insert [OF assms(1)])
qed (use assms(1) in \<open>simp add: update_row_def\<close>)

lemma stats_ok_register: "stats_ok m \<Longrightarrow> stats_ok (register_process u t k app kind ordinal m)"
  unfolding register_process_def Let_def by (rule stats_ok_insert) simp_all

lemma stats_ok_remove: "stats_ok m \<Longrightarrow> stats_ok (remove_process k m)"
  by (auto simp: stats_ok_def remove_process_def bt_ok_remove) (auto simp: bt_remove_def)

lemma removed_rows:
  assumes "stats_ok m"
  shows "row (fold remove_process (map ps_process_id (filter P (map snd (sm_stats m)))) m) k
    = (case row m k of Some r \<Rightarrow> (if P r then None else Some r) | None \<Rightarrow> None)"
proof -
  have ok: "bt_ok (sm_stats m)" and rows: "\<forall>e \<in> set (sm_stats m). ps_process_id (snd e) = fst e"
    using assms by (auto simp: stats_ok_def)
  have "k \<in> set (map ps_process_id (filter P (map snd (sm_stats m)))) \<longleftrightarrow> (\<exists>r. row m k = Some r \<and> P r)"
    using rows by (force simp: bt_get_eq_Some [OF ok])
  then show ?thesis by (auto simp: row_removes split: option.splits)
qed

text \<open>
  Purging a destroyed app removes all of its rows and no row of another app; the periodic sweep removes only stopped
  process rows of apps that are gone.
\<close>

lemma remove_app_exact:
  assumes "stats_ok m"
  shows "row (remove_app app m) k = (case row m k of Some r \<Rightarrow> (if ps_app r = app then None else Some r) | None \<Rightarrow> None)"
  unfolding remove_app_def by (rule removed_rows [OF assms])

lemma forget_stopped_apps_exact:
  assumes "stats_ok m"
  shows "row (forget_stopped_apps exists m) k =
    (case row m k of
       Some r \<Rightarrow> (if ps_container r = None \<and> ps_status r = PsStopped \<and> \<not> exists (ps_app r) then None else Some r)
     | None \<Rightarrow> None)"
proof -
  have eq: "forget_stopped_apps exists m =
      fold remove_process (map ps_process_id
        (filter (\<lambda>s. ps_container s = None \<and> ps_status s = PsStopped \<and> \<not> exists (ps_app s)) (map snd (sm_stats m)))) m"
    by (simp add: forget_stopped_apps_def filter_filter conj_assoc)
  show ?thesis unfolding eq by (rule removed_rows [OF assms])
qed

end
