(* ===== verification/Worker_Process.thy ===== *)
theory Worker_Process
  imports Worker_Stats Health_Wait
begin

text \<open>
  The worker processes of Procfile apps: their configuration (\<open>riku-supervisor/src/config/mod.rs\<close>), the process manager with its
  spawned processes (\<open>process/mod.rs\<close>, \<open>spawned.rs\<close>), stopping them (\<open>stop.rs\<close>) and spawning them (\<open>spawn.rs\<close>).

  The record \<open>worker_host\<close> stands for the operating system: process and group signals, waiting, cgroups, files, threads, HTTP and
  the clock.  A child is named by its process id.  Dropping a \<open>SpawnedProcess\<close> stops it when nobody did, as \<open>Drop\<close> does.
\<close>

section \<open>Configuration\<close>

record worker_info =
  wi_app :: string
  wi_kind :: string
  wi_command :: string
  wi_ordinal :: u32

record worker_health =
  hk_url :: string
  hk_interval :: nat
  hk_timeout :: nat
  hk_retries :: u32

record isolation_options =
  io_root_dir :: string
  io_max_memory_bytes :: "nat option"
  io_cpu_quota_us :: "nat option"
  io_cpu_period_us :: nat
  io_max_pids :: "nat option"

record worker_options =
  wo_working_dir :: string
  wo_log_file :: string
  wo_uid :: "string option"
  wo_gid :: "string option"
  wo_timeout :: nat
  wo_grace_period :: nat
  wo_max_restarts :: u32
  wo_health_check :: "worker_health option"
  wo_isolation :: "isolation_options option"

record worker_config =
  wc_worker :: worker_info
  wc_env :: env_map
  wc_options :: worker_options

definition info_name :: "worker_info \<Rightarrow> worker_name" where
  "info_name i = worker_name_new (wi_app i) (wi_kind i) (wi_ordinal i)"

abbreviation process_id_of :: "worker_config \<Rightarrow> string" where
  "process_id_of config \<equiv> worker_name_display (info_name (wc_worker config))"

definition RIKU_WORKER_TIMEOUT :: nat where
  "RIKU_WORKER_TIMEOUT = 7200"

definition RIKU_WORKER_GRACE_PERIOD :: nat where
  "RIKU_WORKER_GRACE_PERIOD = 30"

definition RIKU_MAX_RESTARTS :: u32 where
  "RIKU_MAX_RESTARTS = 5"

text \<open>The macros \<open>parse_env_or\<close> and \<open>parse_env_opt\<close>.\<close>

definition parse_env_opt :: "env_map \<Rightarrow> string \<Rightarrow> (string \<Rightarrow> 'a option) \<Rightarrow> 'a option" where
  "parse_env_opt env key parse = Option.bind (bt_get env key) parse"

definition parse_env_or :: "env_map \<Rightarrow> string \<Rightarrow> (string \<Rightarrow> 'a option) \<Rightarrow> 'a \<Rightarrow> 'a" where
  "parse_env_or env key parse other = (case parse_env_opt env key parse of Some v \<Rightarrow> v | None \<Rightarrow> other)"

definition health_from_env :: "env_map \<Rightarrow> worker_health option" where
  "health_from_env env =
     map_option (\<lambda>_. \<lparr>hk_url = parse_env_or env ''RIKU_HEALTH_CHECK_URL'' Some ''/health'',
         hk_interval = parse_env_or env ''RIKU_HEALTH_CHECK_INTERVAL'' parse_u64 30,
         hk_timeout = parse_env_or env ''RIKU_HEALTH_CHECK_TIMEOUT'' parse_u64 5,
         hk_retries = parse_env_or env ''RIKU_HEALTH_CHECK_RETRIES'' parse_u32 3\<rparr>)
       (bt_get env ''RIKU_HEALTH_CHECK_URL'')"

text \<open>\<open>mb * 1024 * 1024\<close> is \<open>u64\<close> arithmetic, which wraps in a release build.\<close>

definition isolation_from_env :: "env_map \<Rightarrow> isolation_options option" where
  "isolation_from_env env =
     map_option (\<lambda>root_dir. \<lparr>io_root_dir = root_dir,
         io_max_memory_bytes = map_option (\<lambda>mb. mb * 1024 * 1024 mod 2 ^ 64)
           (parse_env_opt env ''RIKU_ISOLATION_MAX_MEMORY_MB'' parse_u64),
         io_cpu_quota_us = parse_env_opt env ''RIKU_ISOLATION_CPU_QUOTA_US'' parse_u64,
         io_cpu_period_us = parse_env_or env ''RIKU_ISOLATION_CPU_PERIOD_US'' parse_u64 100000,
         io_max_pids = parse_env_opt env ''RIKU_ISOLATION_MAX_PIDS'' parse_u64\<rparr>)
       (bt_get env ''RIKU_ISOLATION_ROOT'')"

definition create_worker_config ::
  "string \<Rightarrow> string \<Rightarrow> string \<Rightarrow> u32 \<Rightarrow> env_map \<Rightarrow> string \<Rightarrow> string \<Rightarrow> worker_config" where
  "create_worker_config app kind command ordinal env working_dir log_file =
     (let timeout = parse_env_or env ''RIKU_WORKER_TIMEOUT'' parse_u64 RIKU_WORKER_TIMEOUT;
          grace_period = parse_env_or env ''RIKU_WORKER_GRACE_PERIOD'' parse_u64 RIKU_WORKER_GRACE_PERIOD;
          max_restarts = parse_env_or env ''RIKU_MAX_RESTARTS'' parse_u32 RIKU_MAX_RESTARTS;
          env = (if bt_get env ''RIKU_BIND_ADDRESS'' = None then bt_insert ''RIKU_BIND_ADDRESS'' ''127.0.0.1'' env else env)
      in \<lparr>wc_worker = \<lparr>wi_app = app, wi_kind = kind, wi_command = command, wi_ordinal = ordinal\<rparr>,
          wc_env = env,
          wc_options = \<lparr>wo_working_dir = working_dir, wo_log_file = log_file, wo_uid = None, wo_gid = None,
            wo_timeout = timeout, wo_grace_period = grace_period, wo_max_restarts = max_restarts,
            wo_health_check = health_from_env env, wo_isolation = isolation_from_env env\<rparr>\<rparr>)"

section \<open>The operating system\<close>

datatype worker_error =
    SignalFailed string u32 string
  | CannotReap string string
  | StopOutOfFuel
  | LogFilesFailed string
  | CgroupFailed string
  | NoExecutable string
  | SpawnFailed string
  | MarkerFailed string
  | NoPort string
  | ConfigIo string
  | ConfigParse string

datatype signal = SIGTERM | SIGKILL

fun signal_text :: "signal \<Rightarrow> string" where
  "signal_text SIGTERM = ''SIGTERM''"
| "signal_text SIGKILL = ''SIGKILL''"

datatype wait_status = StillRunning | ExitedWith "int option" | WaitError string

datatype kill_result = Sent | NoSuchProcess | NotPermitted | KillError string

datatype http_reply = HttpStatus nat | HttpTimeout | HttpError string

record child_spec =
  cs_program :: string
  cs_args :: "string list"
  cs_env :: env_map
  cs_dir :: string
  cs_gid :: "u32 option"
  cs_uid :: "u32 option"
  cs_cgroup :: "string option"

datatype worker_event =
    AppRestarted string string "int option" u32
  | AppFailed string string "int option" u32 u32

record 'w worker_host =
  wh_try_wait :: "u32 \<Rightarrow> 'w \<Rightarrow> wait_status \<times> 'w"
  wh_wait :: "u32 \<Rightarrow> 'w \<Rightarrow> (string, unit) result \<times> 'w"
  wh_killpg :: "signal \<Rightarrow> u32 \<Rightarrow> 'w \<Rightarrow> kill_result \<times> 'w"
  wh_probe_group :: "u32 \<Rightarrow> 'w \<Rightarrow> kill_result \<times> 'w"
  wh_reap_group :: "u32 \<Rightarrow> 'w \<Rightarrow> 'w"
  wh_kill_child :: "u32 \<Rightarrow> 'w \<Rightarrow> 'w"
  wh_provision :: "string \<Rightarrow> isolation_options \<Rightarrow> 'w \<Rightarrow> (string, string) result \<times> 'w"
  wh_kill_cgroup :: "string \<Rightarrow> 'w \<Rightarrow> (string, unit) result \<times> 'w"
  wh_oom_kills :: "string \<Rightarrow> 'w \<Rightarrow> nat option \<times> 'w"
  wh_open_logs :: "string \<Rightarrow> 'w \<Rightarrow> (string, unit) result \<times> 'w"
  wh_clone_logs :: "string \<Rightarrow> 'w \<Rightarrow> (string, unit) result \<times> 'w"
  wh_capture_logs :: "u32 \<Rightarrow> string \<Rightarrow> 'w \<Rightarrow> 'w"
  wh_user_id :: "string \<Rightarrow> 'w \<Rightarrow> u32 option \<times> 'w"
  wh_group_id :: "string \<Rightarrow> 'w \<Rightarrow> u32 option \<times> 'w"
  wh_current_exe :: "'w \<Rightarrow> (string, string) result \<times> 'w"
  wh_spawn :: "child_spec \<Rightarrow> 'w \<Rightarrow> (string, u32) result \<times> 'w"
  wh_create_marker :: "string \<Rightarrow> u32 \<Rightarrow> 'w \<Rightarrow> (string, unit) result \<times> 'w"
  wh_remove_marker :: "string \<Rightarrow> u32 \<Rightarrow> 'w \<Rightarrow> 'w"
  wh_resources :: "u32 \<Rightarrow> 'w \<Rightarrow> (nat \<times> nat) option \<times> 'w"
  wh_http :: "string \<Rightarrow> duration \<Rightarrow> 'w \<Rightarrow> http_reply \<times> 'w"
  wh_probe_thread :: "string \<Rightarrow> u32 \<Rightarrow> string \<Rightarrow> 'w \<Rightarrow> 'w"
  wh_emit :: "worker_event \<Rightarrow> 'w \<Rightarrow> 'w"
  wh_now :: "'w \<Rightarrow> instant"
  wh_utc :: "'w \<Rightarrow> utc"
  wh_sleep :: "duration \<Rightarrow> 'w \<Rightarrow> 'w"
  wh_walk :: "string list \<Rightarrow> 'w \<Rightarrow> string list"

text \<open>\<open>wh_walk\<close> is the order in which a \<open>HashMap\<close> hands out its keys.\<close>

definition fair_walk :: "'w worker_host \<Rightarrow> bool" where
  "fair_walk host \<longleftrightarrow> (\<forall>ks w. mset (wh_walk host ks w) = mset ks)"

section \<open>spawned.rs\<close>

record spawned_process =
  sp_pid :: u32
  sp_config :: worker_config
  sp_restart_count :: u32
  sp_last_restart :: instant
  sp_health_check_config :: "worker_health option"
  sp_consecutive_health_failures :: u32
  sp_last_health_probe :: "instant option"
  sp_cgroup :: "string option"
  sp_last_exit_code :: "int option"
  sp_pid_file :: "string option"
  sp_stopped :: bool

definition is_running :: "'w worker_host \<Rightarrow> spawned_process \<Rightarrow> 'w \<Rightarrow> bool \<times> spawned_process \<times> 'w" where
  "is_running host sp w =
     (case wh_try_wait host (sp_pid sp) w of
        (ExitedWith code, w') \<Rightarrow> (False, sp\<lparr>sp_last_exit_code := code\<rparr>, w')
      | (StillRunning, w') \<Rightarrow> (True, sp, w')
      | (WaitError _, w') \<Rightarrow> (False, sp, w'))"

definition oom_kill_count :: "'w worker_host \<Rightarrow> spawned_process \<Rightarrow> 'w \<Rightarrow> nat option \<times> 'w" where
  "oom_kill_count host sp w = (case sp_cgroup sp of Some cgroup \<Rightarrow> wh_oom_kills host cgroup w | None \<Rightarrow> (None, w))"

definition signal_group :: "'w worker_host \<Rightarrow> signal \<Rightarrow> spawned_process \<Rightarrow> 'w \<Rightarrow> (worker_error, unit) result \<times> 'w" where
  "signal_group host sig sp w =
     (case wh_killpg host sig (sp_pid sp) w of
        (Sent, w') \<Rightarrow> (Inr (), w')
      | (NoSuchProcess, w') \<Rightarrow> (Inr (), w')
      | (NotPermitted, w') \<Rightarrow> (Inl (SignalFailed (signal_text sig) (sp_pid sp) ''EPERM''), w')
      | (KillError e, w') \<Rightarrow> (Inl (SignalFailed (signal_text sig) (sp_pid sp) e), w'))"

definition group_alive :: "'w worker_host \<Rightarrow> spawned_process \<Rightarrow> 'w \<Rightarrow> bool \<times> 'w" where
  "group_alive host sp w =
     (case wh_probe_group host (sp_pid sp) (wh_reap_group host (sp_pid sp) w) of
        (Sent, w') \<Rightarrow> (True, w')
      | (NotPermitted, w') \<Rightarrow> (True, w')
      | (NoSuchProcess, w') \<Rightarrow> (False, w')
      | (KillError _, w') \<Rightarrow> (False, w'))"

definition new_with_cgroup ::
  "'w worker_host \<Rightarrow> bool \<Rightarrow> u32 \<Rightarrow> worker_config \<Rightarrow> string option \<Rightarrow> 'w \<Rightarrow> (worker_error, spawned_process) result \<times> 'w" where
  "new_with_cgroup host pid_dir pid config cgroup w =
     (case (if pid_dir then map_prod (map_sum MarkerFailed (\<lambda>_. Some (process_id_of config))) (\<lambda>w. w)
                              (wh_create_marker host (process_id_of config) pid w)
            else (Inr None, w)) of
        (Inl e, w') \<Rightarrow> (Inl e, w')
      | (Inr marker, w') \<Rightarrow>
          (Inr \<lparr>sp_pid = pid, sp_config = config, sp_restart_count = 0, sp_last_restart = wh_now host w',
             sp_health_check_config = wo_health_check (wc_options config), sp_consecutive_health_failures = 0,
             sp_last_health_probe = None, sp_cgroup = cgroup, sp_last_exit_code = None, sp_pid_file = marker,
             sp_stopped = False\<rparr>, w'))"

section \<open>stop.rs\<close>

definition KILL_SETTLE :: duration where
  "KILL_SETTLE = from_secs 2"

definition STOP_POLL :: duration where
  "STOP_POLL = 100 * 1000000"

text \<open>The polling loop; \<open>None\<close> is a loop that used up its fuel.\<close>

fun wait_rounds ::
  "'w worker_host \<Rightarrow> ('s \<Rightarrow> 'w \<Rightarrow> bool \<times> 's \<times> 'w) \<Rightarrow> instant \<Rightarrow> nat \<Rightarrow> 's \<Rightarrow> 'w \<Rightarrow> ('s \<times> 'w) option" where
  "wait_rounds host still_waiting deadline 0 s w = None"
| "wait_rounds host still_waiting deadline (Suc fuel) s w =
     (case still_waiting s w of
        (waiting, s', w') \<Rightarrow>
          (if waiting \<and> wh_now host w' < deadline
           then wait_rounds host still_waiting deadline fuel s' (wh_sleep host STOP_POLL w')
           else Some (s', w')))"

definition wait_while ::
  "'w worker_host \<Rightarrow> duration \<Rightarrow> ('s \<Rightarrow> 'w \<Rightarrow> bool \<times> 's \<times> 'w) \<Rightarrow> 's \<Rightarrow> 'w \<Rightarrow> ('s \<times> 'w) option" where
  "wait_while host limit still_waiting s w =
     wait_rounds host still_waiting (wh_now host w + limit) (limit div STOP_POLL + 2) s w"

definition group_waiting :: "'w worker_host \<Rightarrow> spawned_process \<Rightarrow> 'w \<Rightarrow> bool \<times> spawned_process \<times> 'w" where
  "group_waiting host sp w = (case group_alive host sp w of (alive, w') \<Rightarrow> (alive, sp, w'))"

definition stop_group_leftovers ::
  "'w worker_host \<Rightarrow> duration \<Rightarrow> spawned_process \<Rightarrow> 'w \<Rightarrow> (worker_error, unit) result \<times> spawned_process \<times> 'w" where
  "stop_group_leftovers host grace sp w =
     (case group_alive host sp w of
        (False, w1) \<Rightarrow> (Inr (), sp, w1)
      | (True, w1) \<Rightarrow>
          (case wait_while host grace (group_waiting host) sp w1 of
             None \<Rightarrow> (Inl StopOutOfFuel, sp, w1)
           | Some (sp, w2) \<Rightarrow>
               (case group_alive host sp w2 of
                  (False, w3) \<Rightarrow> (Inr (), sp, w3)
                | (True, w3) \<Rightarrow>
                    (case signal_group host SIGKILL sp w3 of
                       (Inl e, w4) \<Rightarrow> (Inl e, sp, w4)
                     | (Inr _, w4) \<Rightarrow>
                         (case wait_while host KILL_SETTLE (group_waiting host) sp w4 of
                            None \<Rightarrow> (Inl StopOutOfFuel, sp, w4)
                          | Some (sp, w5) \<Rightarrow> (Inr (), sp, snd (group_alive host sp w5)))))))"

definition stop_group ::
  "'w worker_host \<Rightarrow> string \<Rightarrow> spawned_process \<Rightarrow> 'w \<Rightarrow> (worker_error, unit) result \<times> spawned_process \<times> 'w" where
  "stop_group host process_id sp w =
     (case signal_group host SIGTERM sp w of
        (Inl e, w1) \<Rightarrow> (Inl e, sp, w1)
      | (Inr _, w1) \<Rightarrow>
          (let grace = from_secs (wo_grace_period (wc_options (sp_config sp)))
           in case wait_while host grace (is_running host) sp w1 of
                None \<Rightarrow> (Inl StopOutOfFuel, sp, w1)
              | Some (sp, w2) \<Rightarrow>
                  (case is_running host sp w2 of
                     (running, sp, w3) \<Rightarrow>
                       (case (if running then signal_group host SIGKILL sp w3 else (Inr (), w3)) of
                          (Inl e, w4) \<Rightarrow> (Inl e, sp, w4)
                        | (Inr _, w4) \<Rightarrow>
                            (case wh_wait host (sp_pid sp) w4 of
                               (Inl e, w5) \<Rightarrow> (Inl (CannotReap process_id e), sp, w5)
                             | (Inr _, w5) \<Rightarrow> stop_group_leftovers host grace sp w5)))))"

definition kill_cgroup :: "'w worker_host \<Rightarrow> spawned_process \<Rightarrow> 'w \<Rightarrow> 'w" where
  "kill_cgroup host sp w = (case sp_cgroup sp of None \<Rightarrow> w | Some cgroup \<Rightarrow> snd (wh_kill_cgroup host cgroup w))"

definition stop_spawned ::
  "'w worker_host \<Rightarrow> string \<Rightarrow> spawned_process \<Rightarrow> 'w \<Rightarrow> (worker_error, unit) result \<times> spawned_process \<times> 'w" where
  "stop_spawned host process_id sp w =
     (case stop_group host process_id (sp\<lparr>sp_stopped := True\<rparr>) w of
        (r, sp, w1) \<Rightarrow> (r, sp, kill_cgroup host sp w1))"

definition drop_spawned :: "'w worker_host \<Rightarrow> spawned_process \<Rightarrow> 'w \<Rightarrow> 'w" where
  "drop_spawned host sp w =
     (case (if sp_stopped sp then (sp, w) else snd (stop_spawned host (process_id_of (sp_config sp)) sp w)) of
        (sp, w1) \<Rightarrow>
          (case sp_pid_file sp of Some marker \<Rightarrow> wh_remove_marker host marker (sp_pid sp) w1 | None \<Rightarrow> w1))"

section \<open>The process manager\<close>

datatype generation_status = Stable | Probing | Failed

record app_generation =
  ag_version :: u32
  ag_pids :: "u32 list"
  ag_status :: generation_status
  ag_temp_key :: string
  ag_canonical_ordinal :: u32

record probe_outcome =
  po_process_id :: string
  po_version :: u32
  po_healthy :: bool
  po_reason :: string

record process_manager =
  pm_processes :: "(string, spawned_process) btree"
  pm_stats :: stats_manager
  pm_generations :: "(string, app_generation list) btree"
  pm_probe_results :: "probe_outcome list"
  pm_deployment_events :: "string list"
  pm_pid_dir :: bool

definition manager_new :: "bool \<Rightarrow> process_manager" where
  "manager_new pid_dir = \<lparr>pm_processes = [], pm_stats = stats_new, pm_generations = [], pm_probe_results = [],
     pm_deployment_events = [], pm_pid_dir = pid_dir\<rparr>"

definition is_managed :: "process_manager \<Rightarrow> string \<Rightarrow> bool" where
  "is_managed pm process_id \<longleftrightarrow> bt_get (pm_processes pm) process_id \<noteq> None"

type_synonym ('w, 'a) manager_call = "process_manager \<Rightarrow> 'w \<Rightarrow> (worker_error, 'a) result \<times> process_manager \<times> 'w"

definition pm_then :: "('w, 'a) manager_call \<Rightarrow> ('a \<Rightarrow> ('w, 'b) manager_call) \<Rightarrow> ('w, 'b) manager_call" where
  "pm_then m f pm w = (case m pm w of (Inl e, pm', w') \<Rightarrow> (Inl e, pm', w') | (Inr a, pm', w') \<Rightarrow> f a pm' w')"

definition pm_give :: "(worker_error, 'a) result \<Rightarrow> ('w, 'a) manager_call" where
  "pm_give r pm w = (r, pm, w)"

definition with_stats :: "(stats_manager \<Rightarrow> stats_manager) \<Rightarrow> process_manager \<Rightarrow> process_manager" where
  "with_stats f pm = pm\<lparr>pm_stats := f (pm_stats pm)\<rparr>"

definition stop_process_by_id :: "'w worker_host \<Rightarrow> string \<Rightarrow> ('w, unit) manager_call" where
  "stop_process_by_id host process_id pm w =
     (case bt_get (pm_processes pm) process_id of
        None \<Rightarrow> (Inr (), pm, w)
      | Some process \<Rightarrow>
          (let pm = with_stats (mark_stopped process_id) (pm\<lparr>pm_processes := bt_remove process_id (pm_processes pm)\<rparr>)
           in case stop_spawned host process_id process w of
                (r, process, w') \<Rightarrow> (r, pm, drop_spawned host process w')))"

fun stop_each :: "'w worker_host \<Rightarrow> string list \<Rightarrow> ('w, unit) manager_call" where
  "stop_each host [] pm w = (Inr (), pm, w)"
| "stop_each host (k # ks) pm w = pm_then (stop_process_by_id host k) (\<lambda>_. stop_each host ks) pm w"

definition stop_app_processes :: "'w worker_host \<Rightarrow> string \<Rightarrow> ('w, unit) manager_call" where
  "stop_app_processes host app pm w =
     stop_each host
       (filter (\<lambda>k. case bt_get (pm_processes pm) k of
                      Some p \<Rightarrow> wi_app (wc_worker (sp_config p)) = app | None \<Rightarrow> False)
         (wh_walk host (bt_keys (pm_processes pm)) w)) pm w"

text \<open>The threads of the scope are run one after another; a failed stop is logged.\<close>

fun stop_all_loop :: "'w worker_host \<Rightarrow> (string \<times> spawned_process) list \<Rightarrow> 'w \<Rightarrow> 'w" where
  "stop_all_loop host [] w = w"
| "stop_all_loop host ((k, p) # rest) w =
     (case stop_spawned host k p w of (_, p', w') \<Rightarrow> drop_spawned host p' (stop_all_loop host rest w'))"

definition stop_all_processes :: "'w worker_host \<Rightarrow> ('w, unit) manager_call" where
  "stop_all_processes host pm w =
     (let ks = wh_walk host (bt_keys (pm_processes pm)) w;
          to_stop = List.map_filter (\<lambda>k. map_option (Pair k) (bt_get (pm_processes pm) k)) ks;
          pm = with_stats (fold mark_stopped (map fst to_stop))
                 (pm\<lparr>pm_processes := fold bt_remove ks (pm_processes pm)\<rparr>)
      in (Inr (), pm, stop_all_loop host to_stop w))"

section \<open>spawn.rs\<close>

definition resolve_id ::
  "(string \<Rightarrow> 'w \<Rightarrow> u32 option \<times> 'w) \<Rightarrow> string option \<Rightarrow> 'w \<Rightarrow> u32 option \<times> 'w" where
  "resolve_id lookup given w =
     (case given of
        None \<Rightarrow> (None, w)
      | Some name \<Rightarrow> (case parse_u32 name of Some n \<Rightarrow> (Some n, w) | None \<Rightarrow> lookup name w))"

definition provision_cgroup ::
  "'w worker_host \<Rightarrow> string \<Rightarrow> worker_config \<Rightarrow> 'w \<Rightarrow> (worker_error, string option) result \<times> 'w" where
  "provision_cgroup host process_id config w =
     (case wo_isolation (wc_options config) of
        None \<Rightarrow> (Inr None, w)
      | Some opts \<Rightarrow> apfst (map_sum CgroupFailed Some) (wh_provision host process_id opts w))"

text \<open>A worker in isolation runs through the shim, which gets its root and command by the environment.\<close>

definition base_command ::
  "'w worker_host \<Rightarrow> worker_config \<Rightarrow> 'w \<Rightarrow> (worker_error, string \<times> string list \<times> env_map) result \<times> 'w" where
  "base_command host config w =
     (case wo_isolation (wc_options config) of
        None \<Rightarrow> (Inr (''sh'', [''-c'', wi_command (wc_worker config)], []), w)
      | Some opts \<Rightarrow>
          (case wh_current_exe host w of
             (Inl e, w') \<Rightarrow> (Inl (NoExecutable e), w')
           | (Inr exe, w') \<Rightarrow>
               (Inr (exe, [''__ns-shim''],
                  bt_insert ''RIKU_NS_CMD'' (wi_command (wc_worker config)) (bt_insert ''RIKU_NS_ROOT'' (io_root_dir opts) [])), w')))"

definition start_child ::
  "'w worker_host \<Rightarrow> bool \<Rightarrow> string \<Rightarrow> worker_config \<Rightarrow> 'w \<Rightarrow> (worker_error, spawned_process) result \<times> 'w" where
  "start_child host pid_dir process_id config w =
     (case wh_open_logs host (wo_log_file (wc_options config)) w of
        (Inl e, w1) \<Rightarrow> (Inl (LogFilesFailed e), w1)
      | (Inr _, w1) \<Rightarrow>
     case resolve_id (wh_user_id host) (wo_uid (wc_options config)) w1 of
        (uid, w2) \<Rightarrow>
     case resolve_id (wh_group_id host) (wo_gid (wc_options config)) w2 of
        (gid, w3) \<Rightarrow>
     case provision_cgroup host process_id config w3 of
        (Inl e, w4) \<Rightarrow> (Inl e, w4)
      | (Inr cgroup, w4) \<Rightarrow>
     case base_command host config w4 of
        (Inl e, w5) \<Rightarrow> (Inl e, w5)
      | (Inr (program, args, base), w5) \<Rightarrow>
     case wh_spawn host \<lparr>cs_program = program, cs_args = args, cs_env = bt_extend base (wc_env config),
            cs_dir = wo_working_dir (wc_options config), cs_gid = gid, cs_uid = uid, cs_cgroup = cgroup\<rparr> w5 of
        (Inl e, w6) \<Rightarrow> (Inl (SpawnFailed e), w6)
      | (Inr pid, w6) \<Rightarrow>
     case wh_clone_logs host (wo_log_file (wc_options config)) w6 of
        (Inl e, w7) \<Rightarrow> (Inl (LogFilesFailed e), w7)
      | (Inr _, w7) \<Rightarrow>
     case new_with_cgroup host pid_dir pid config cgroup w7 of
        (Inl e, w8) \<Rightarrow> (Inl e, wh_kill_child host pid w8)
      | (Inr process, w8) \<Rightarrow> (Inr process, wh_capture_logs host pid (wo_log_file (wc_options config)) w8))"

definition spawn_process :: "'w worker_host \<Rightarrow> worker_config \<Rightarrow> ('w, unit) manager_call" where
  "spawn_process host config =
     (let process_id = process_id_of config
      in pm_then (\<lambda>pm w. if is_managed pm process_id then stop_process_by_id host process_id pm w else (Inr (), pm, w))
           (\<lambda>_ pm w.
             case start_child host (pm_pid_dir pm) process_id config w of
               (Inl e, w1) \<Rightarrow> (Inl e, pm, w1)
             | (Inr process, w1) \<Rightarrow>
                 (let i = wc_worker config;
                      pm = with_stats (register_process (wh_utc host w1) (wh_now host w1) process_id
                             (wi_app i) (wi_kind i) (wi_ordinal i)) pm
                  in (Inr (), pm\<lparr>pm_processes := bt_insert process_id process (pm_processes pm)\<rparr>, w1))))"

end
