(* ===== verification/Worker_Generations.thy ===== *)
theory Worker_Generations
  imports Worker_Process
begin

text \<open>
  Versioned generations of a worker, \<open>riku-supervisor/src/process/generation.rs\<close> and \<open>orchestration.rs\<close>: a redeploy spawns a
  canary under a temporary key, a thread probes it, and the tick promotes it into its slot or rolls it back.
\<close>

section \<open>Constants\<close>

definition PROBE_WINDOW :: duration where
  "PROBE_WINDOW = from_secs 5"

definition GEN_PROBE_INTERVAL :: duration where
  "GEN_PROBE_INTERVAL = 250 * 1000000"

definition CANARY_ORDINAL_OFFSET :: u32 where
  "CANARY_ORDINAL_OFFSET = 2147483647"

definition MAX_FAILED_HISTORY :: nat where
  "MAX_FAILED_HISTORY = 5"

section \<open>Deploying a canary\<close>

definition generations_of :: "process_manager \<Rightarrow> string \<Rightarrow> app_generation list" where
  "generations_of pm process_id = (case bt_get (pm_generations pm) process_id of Some gens \<Rightarrow> gens | None \<Rightarrow> [])"

definition next_version :: "process_manager \<Rightarrow> string \<Rightarrow> u32" where
  "next_version pm process_id = fold max (map ag_version (generations_of pm process_id)) 0 + 1"

definition canary_ordinal :: "u32 \<Rightarrow> u32 \<Rightarrow> u32" where
  "canary_ordinal canonical version = canonical + (CANARY_ORDINAL_OFFSET + version)"

fun drop_failed :: "nat \<Rightarrow> app_generation list \<Rightarrow> app_generation list" where
  "drop_failed n [] = []"
| "drop_failed n (g # gens) =
     (if ag_status g = Failed \<and> 0 < n then drop_failed (n - 1) gens else g # drop_failed n gens)"

definition prune_failed :: "app_generation list \<Rightarrow> app_generation list" where
  "prune_failed gens =
     (let failed_seen = length (filter (\<lambda>g. ag_status g = Failed) gens)
      in if MAX_FAILED_HISTORY < failed_seen then drop_failed (failed_seen - MAX_FAILED_HISTORY) gens else gens)"

definition health_path :: "worker_config \<Rightarrow> string" where
  "health_path config = (case wo_health_check (wc_options config) of Some h \<Rightarrow> hk_url h | None \<Rightarrow> ''/health'')"

definition loopback_url :: "u16 \<Rightarrow> string \<Rightarrow> string" where
  "loopback_url port path = ''http://127.0.0.1:'' @ show_u16 port @ path"

definition config_with_ordinal :: "u32 \<Rightarrow> worker_config \<Rightarrow> worker_config" where
  "config_with_ordinal n config = config\<lparr>wc_worker := (wc_worker config)\<lparr>wi_ordinal := n\<rparr>\<rparr>"

definition deploy_generation :: "'w worker_host \<Rightarrow> string \<Rightarrow> worker_config \<Rightarrow> ('w, unit) manager_call" where
  "deploy_generation host process_id new_config pm w =
     (case Option.bind (bt_get (wc_env new_config) ''PORT'') parse_u16 of
        None \<Rightarrow> (Inl (NoPort process_id), pm, w)
      | Some port \<Rightarrow>
          (let canonical = wi_ordinal (wc_worker new_config);
               version = next_version pm process_id;
               temp_config = config_with_ordinal (canary_ordinal canonical version) new_config;
               temp_key = process_id_of temp_config
           in pm_then (spawn_process host temp_config) (\<lambda>_ pm w.
                let pid = (case bt_get (pm_processes pm) temp_key of Some p \<Rightarrow> sp_pid p | None \<Rightarrow> 0);
                    gens = generations_of pm process_id
                      @ [\<lparr>ag_version = version, ag_pids = [pid], ag_status = Probing, ag_temp_key = temp_key,
                          ag_canonical_ordinal = canonical\<rparr>]
                in (Inr (), pm\<lparr>pm_generations := bt_insert process_id (prune_failed gens) (pm_generations pm)\<rparr>,
                    wh_probe_thread host process_id version (loopback_url port (health_path new_config)) w)) pm w))"

section \<open>The probe thread\<close>

fun is_success :: "http_reply \<Rightarrow> bool" where
  "is_success (HttpStatus code) = (200 \<le> code \<and> code < 300)"
| "is_success _ = False"

fun show_status :: "nat \<Rightarrow> string" where
  "show_status n = show_u32 (of_nat n)"

fun probe_reason :: "http_reply \<Rightarrow> string" where
  "probe_reason (HttpStatus code) = ''probe returned HTTP '' @ show_status code"
| "probe_reason HttpTimeout = ''probe request failed: timeout''"
| "probe_reason (HttpError e) = ''probe request failed: '' @ e"

fun probe_rounds ::
  "'w worker_host \<Rightarrow> string \<Rightarrow> instant \<Rightarrow> nat \<Rightarrow> string \<Rightarrow> 'w \<Rightarrow> (bool \<times> string) option \<times> 'w" where
  "probe_rounds host url deadline 0 reason w = (None, w)"
| "probe_rounds host url deadline (Suc fuel) reason w =
     (if wh_now host w < deadline then
        (case wh_http host url (from_secs 2) w of
           (reply, w') \<Rightarrow>
             (if is_success reply then (Some (True, reason), w')
              else probe_rounds host url deadline fuel (probe_reason reply) (wh_sleep host GEN_PROBE_INTERVAL w')))
      else (Some (False, reason), w))"

definition probe_generation ::
  "'w worker_host \<Rightarrow> string \<Rightarrow> u32 \<Rightarrow> string \<Rightarrow> 'w \<Rightarrow> probe_outcome option \<times> 'w" where
  "probe_generation host process_id version url w =
     (case probe_rounds host url (wh_now host w + PROBE_WINDOW) (PROBE_WINDOW div GEN_PROBE_INTERVAL + 2)
             ''probe window expired without a 200 OK'' w of
        (None, w') \<Rightarrow> (None, w')
      | (Some (healthy, reason), w') \<Rightarrow>
          (Some \<lparr>po_process_id = process_id, po_version = version, po_healthy = healthy, po_reason = reason\<rparr>, w'))"

section \<open>Promotion and rollback\<close>

definition push_event :: "string \<Rightarrow> process_manager \<Rightarrow> process_manager" where
  "push_event e pm = pm\<lparr>pm_deployment_events := pm_deployment_events pm @ [e]\<rparr>"

definition take_over ::
  "'w worker_host \<Rightarrow> string \<Rightarrow> app_generation \<Rightarrow> process_manager \<Rightarrow> 'w \<Rightarrow> process_manager" where
  "take_over host process_id gen pm w =
     (case bt_get (pm_processes pm) (ag_temp_key gen) of
        None \<Rightarrow> pm
      | Some process \<Rightarrow>
          (let process = process\<lparr>sp_config := config_with_ordinal (ag_canonical_ordinal gen) (sp_config process)\<rparr>;
               i = wc_worker (sp_config process);
               pm = pm\<lparr>pm_processes := bt_remove (ag_temp_key gen) (pm_processes pm)\<rparr>;
               pm = with_stats (\<lambda>s. mark_running process_id (sp_pid process)
                      (register_process (wh_utc host w) (wh_now host w) process_id (wi_app i) (wi_kind i)
                        (ag_canonical_ordinal gen) (remove_process (ag_temp_key gen) s))) pm
           in pm\<lparr>pm_processes := bt_insert process_id process (pm_processes pm)\<rparr>))"

fun stable_first :: "app_generation list \<Rightarrow> app_generation list" where
  "stable_first [] = []"
| "stable_first (g # gens) = g\<lparr>ag_status := Stable\<rparr> # gens"

definition promote_generation :: "'w worker_host \<Rightarrow> string \<Rightarrow> u32 \<Rightarrow> ('w, unit) manager_call" where
  "promote_generation host process_id version pm w =
     (case find (\<lambda>g. ag_version g = version \<and> ag_status g = Probing) (generations_of pm process_id) of
        None \<Rightarrow> (Inr (), pm, w)
      | Some gen \<Rightarrow>
          pm_then
            (\<lambda>pm w. case bt_get (pm_processes pm) process_id of
                      None \<Rightarrow> (Inr (), pm, w)
                    | Some old \<Rightarrow>
                        (case stop_spawned host process_id old w of
                           (r, old, w') \<Rightarrow>
                             (r, pm\<lparr>pm_processes := bt_remove process_id (pm_processes pm)\<rparr>, drop_spawned host old w')))
            (\<lambda>_ pm w.
              let pm = take_over host process_id gen (with_stats (remove_process process_id) pm) w;
                  gens = stable_first (filter (\<lambda>g. ag_version g = version) (generations_of pm process_id));
                  pm = pm\<lparr>pm_generations := bt_insert process_id gens (pm_generations pm)\<rparr>
              in (Inr (), push_event (''[DEPLOYMENT_PROMOTED] '' @ process_id @ '' v'' @ show_u32 version @ '' is now stable'') pm, w))
            pm w)"

fun mark_failed :: "u32 \<Rightarrow> app_generation list \<Rightarrow> app_generation list" where
  "mark_failed version [] = []"
| "mark_failed version (g # gens) =
     (if ag_version g = version then g\<lparr>ag_status := Failed, ag_pids := []\<rparr> # gens else g # mark_failed version gens)"

definition fail_generation ::
  "'w worker_host \<Rightarrow> string \<Rightarrow> u32 \<Rightarrow> string \<Rightarrow> process_manager \<Rightarrow> 'w \<Rightarrow> process_manager \<times> 'w" where
  "fail_generation host process_id version reason pm w =
     (case find (\<lambda>g. ag_version g = version) (generations_of pm process_id) of
        None \<Rightarrow> (pm, w)
      | Some gen \<Rightarrow>
          (let temp_key = ag_temp_key gen;
               pm = pm\<lparr>pm_generations :=
                      bt_insert process_id (mark_failed version (generations_of pm process_id)) (pm_generations pm)\<rparr>;
               (pm, w) = (case bt_get (pm_processes pm) temp_key of
                            None \<Rightarrow> (pm, w)
                          | Some failed \<Rightarrow>
                              (case stop_spawned host temp_key failed w of
                                 (_, failed, w') \<Rightarrow>
                                   (pm\<lparr>pm_processes := bt_remove temp_key (pm_processes pm)\<rparr>, drop_spawned host failed w')))
           in (push_event (''[DEPLOYMENT_FAILED - ROLLING_BACK] '' @ process_id @ '' v'' @ show_u32 version @ '': '' @ reason)
                 (with_stats (remove_process temp_key) pm), w)))"

section \<open>The tick\<close>

definition still_running :: "'w worker_host \<Rightarrow> string \<Rightarrow> process_manager \<Rightarrow> 'w \<Rightarrow> bool \<times> process_manager \<times> 'w" where
  "still_running host key pm w =
     (case bt_get (pm_processes pm) key of
        None \<Rightarrow> (False, pm, w)
      | Some p \<Rightarrow>
          (case is_running host p w of
             (running, p', w') \<Rightarrow> (running, pm\<lparr>pm_processes := bt_insert key p' (pm_processes pm)\<rparr>, w')))"

fun crashed_canaries ::
  "'w worker_host \<Rightarrow> (string \<times> app_generation) list \<Rightarrow> process_manager \<Rightarrow> 'w \<Rightarrow> (string \<times> u32) list \<times> process_manager \<times> 'w" where
  "crashed_canaries host [] pm w = ([], pm, w)"
| "crashed_canaries host ((process_id, gen) # rest) pm w =
     (case still_running host (ag_temp_key gen) pm w of
        (running, pm, w) \<Rightarrow>
          (case crashed_canaries host rest pm w of
             (crashed, pm, w) \<Rightarrow> ((if running then crashed else (process_id, ag_version gen) # crashed), pm, w)))"

definition probing_entries :: "string list \<Rightarrow> process_manager \<Rightarrow> (string \<times> app_generation) list" where
  "probing_entries ks pm =
     concat (map (\<lambda>k. map (Pair k) (filter (\<lambda>g. ag_status g = Probing) (generations_of pm k))) ks)"

fun fail_each ::
  "'w worker_host \<Rightarrow> (string \<times> u32) list \<Rightarrow> process_manager \<Rightarrow> 'w \<Rightarrow> process_manager \<times> 'w" where
  "fail_each host [] pm w = (pm, w)"
| "fail_each host ((process_id, version) # rest) pm w =
     (case fail_generation host process_id version ''process exited before the probe window completed'' pm w of
        (pm, w) \<Rightarrow> fail_each host rest pm w)"

fun apply_outcomes :: "'w worker_host \<Rightarrow> probe_outcome list \<Rightarrow> ('w, unit) manager_call" where
  "apply_outcomes host [] pm w = (Inr (), pm, w)"
| "apply_outcomes host (o' # rest) pm w =
     (if po_healthy o'
      then pm_then (promote_generation host (po_process_id o') (po_version o')) (\<lambda>_. apply_outcomes host rest) pm w
      else case fail_generation host (po_process_id o') (po_version o') (po_reason o') pm w of
             (pm, w) \<Rightarrow> apply_outcomes host rest pm w)"

definition reconcile_generations :: "'w worker_host \<Rightarrow> ('w, unit) manager_call" where
  "reconcile_generations host pm w =
     (case crashed_canaries host (probing_entries (wh_walk host (bt_keys (pm_generations pm)) w) pm) pm w of
        (crashed, pm, w) \<Rightarrow>
          (case fail_each host crashed pm w of
             (pm, w) \<Rightarrow> apply_outcomes host (pm_probe_results pm) (pm\<lparr>pm_probe_results := []\<rparr>) w))"

fun stop_temp_keys :: "'w worker_host \<Rightarrow> string list \<Rightarrow> ('w, unit) manager_call" where
  "stop_temp_keys host [] pm w = (Inr (), pm, w)"
| "stop_temp_keys host (k # ks) pm w =
     pm_then (stop_process_by_id host k) (\<lambda>_ pm w. stop_temp_keys host ks (with_stats (remove_process k) pm) w) pm w"

definition stop_canaries :: "'w worker_host \<Rightarrow> string \<Rightarrow> ('w, unit) manager_call" where
  "stop_canaries host process_id pm w =
     stop_temp_keys host
       (map ag_temp_key (filter (\<lambda>g. ag_status g = Probing) (generations_of pm process_id)))
       (pm\<lparr>pm_generations := bt_remove process_id (pm_generations pm)\<rparr>) w"

definition drain_deployment_events :: "process_manager \<Rightarrow> string list \<times> process_manager" where
  "drain_deployment_events pm = (pm_deployment_events pm, pm\<lparr>pm_deployment_events := []\<rparr>)"

end
