(* ===== verification/Worker_Checks.thy ===== *)
theory Worker_Checks
  imports Worker_Generations
begin

text \<open>
  The check of all worker processes on each tick, \<open>riku-supervisor/src/process/health_check.rs\<close> and \<open>health_interval.rs\<close>: find
  processes that died, probe those with a health check, then restart or give up.  As in the code, the list of processes
  to restart also carries those to give up, marked by a prefix of their id.
\<close>

section \<open>health\_interval.rs\<close>

definition is_due :: "instant \<Rightarrow> instant option \<Rightarrow> duration \<Rightarrow> bool" where
  "is_due now last_probe interval = (case last_probe of Some t \<Rightarrow> interval \<le> now - t | None \<Rightarrow> True)"

definition claim_health_probe :: "'w worker_host \<Rightarrow> string \<Rightarrow> nat \<Rightarrow> process_manager \<Rightarrow> 'w \<Rightarrow> bool \<times> process_manager" where
  "claim_health_probe host process_id interval_secs pm w =
     (case bt_get (pm_processes pm) process_id of
        None \<Rightarrow> (False, pm)
      | Some p \<Rightarrow>
          (if \<not> is_due (wh_now host w) (sp_last_health_probe p) (from_secs interval_secs) then (False, pm)
           else (True, pm\<lparr>pm_processes :=
                   bt_insert process_id (p\<lparr>sp_last_health_probe := Some (wh_now host w)\<rparr>) (pm_processes pm)\<rparr>)))"

section \<open>health\_check.rs: the scan\<close>

definition REMOVE_MARK :: string where
  "REMOVE_MARK = ''__remove__''"

definition probing_keys :: "process_manager \<Rightarrow> string list" where
  "probing_keys pm =
     map ag_temp_key (filter (\<lambda>g. ag_status g = Probing) (concat (map snd (pm_generations pm))))"

definition base_backoff :: "u32 \<Rightarrow> nat" where
  "base_backoff restart_count = min 60 (2 ^ min (unat restart_count) 6)"

definition restart_backoff :: "spawned_process \<Rightarrow> nat" where
  "restart_backoff p = base_backoff (sp_restart_count p) + unat (sp_pid p) mod 10"

definition crash_mark :: "'w worker_host \<Rightarrow> string \<Rightarrow> spawned_process \<Rightarrow> 'w \<Rightarrow> (stats_manager \<Rightarrow> stats_manager) \<times> 'w" where
  "crash_mark host process_id p w =
     (case oom_kill_count host p w of
        (Some n, w') \<Rightarrow> (if 0 < n then mark_oom_killed process_id else mark_crashed process_id, w')
      | (None, w') \<Rightarrow> (mark_crashed process_id, w'))"

text \<open>One process of the scan: what to restart, what to probe, the changed manager and world.\<close>

definition scan_process ::
  "'w worker_host \<Rightarrow> string \<Rightarrow> process_manager \<Rightarrow> 'w
     \<Rightarrow> (string list \<times> (string \<times> worker_health) list) \<times> process_manager \<times> 'w" where
  "scan_process host process_id pm w =
     (case bt_get (pm_processes pm) process_id of
        None \<Rightarrow> (([], []), pm, w)
      | Some p \<Rightarrow>
          (case is_running host p w of
             (running, p, w) \<Rightarrow>
               (let pm = pm\<lparr>pm_processes := bt_insert process_id p (pm_processes pm)\<rparr>
                in if \<not> running then
                     (case crash_mark host process_id p w of
                        (mark, w) \<Rightarrow>
                          (let pm = with_stats mark pm
                           in if wo_max_restarts (wc_options (sp_config p)) \<le> sp_restart_count p
                              then (([REMOVE_MARK @ process_id], []), with_stats (mark_crashed process_id) pm, w)
                              else if restart_backoff p \<le> (wh_now host w - sp_last_restart p) div NANOS_PER_SEC
                              then (([process_id], []), pm, w)
                              else (([], []), pm, w)))
                   else
                     (case wh_resources host (sp_pid p) w of
                        (usage, w) \<Rightarrow>
                          (let pm = with_stats (mark_running process_id (sp_pid p)) pm;
                               pm = (case usage of
                                       Some (cpu_ms, memory) \<Rightarrow> with_stats (update_resource_usage process_id cpu_ms memory) pm
                                     | None \<Rightarrow> pm)
                           in (([], (case sp_health_check_config p of Some h \<Rightarrow> [(process_id, h)] | None \<Rightarrow> [])), pm, w))))))"

fun scan_each ::
  "'w worker_host \<Rightarrow> string list \<Rightarrow> string list \<Rightarrow> process_manager \<Rightarrow> 'w
     \<Rightarrow> (string list \<times> (string \<times> worker_health) list) \<times> process_manager \<times> 'w" where
  "scan_each host probing [] pm w = (([], []), pm, w)"
| "scan_each host probing (k # ks) pm w =
     (if k \<in> set probing then scan_each host probing ks pm w
      else case scan_process host k pm w of
             ((restart, checks), pm, w) \<Rightarrow>
               (case scan_each host probing ks pm w of
                  ((restarts, checkss), pm, w) \<Rightarrow> ((restart @ restarts, checks @ checkss), pm, w)))"

definition scan_process_status ::
  "'w worker_host \<Rightarrow> process_manager \<Rightarrow> 'w \<Rightarrow> (string list \<times> (string \<times> worker_health) list) \<times> process_manager \<times> 'w" where
  "scan_process_status host pm w =
     scan_each host (probing_keys pm) (wh_walk host (bt_keys (pm_processes pm)) w) pm w"

section \<open>The health checks\<close>

definition get_process_port :: "process_manager \<Rightarrow> string \<Rightarrow> u16 option" where
  "get_process_port pm process_id =
     Option.bind (bt_get (pm_processes pm) process_id) (\<lambda>p.
     Option.bind (bt_get (wc_env (sp_config p)) ''PORT'') parse_u16)"

definition perform_health_check ::
  "'w worker_host \<Rightarrow> string \<Rightarrow> worker_health \<Rightarrow> process_manager \<Rightarrow> 'w \<Rightarrow> health_status \<times> 'w" where
  "perform_health_check host process_id check pm w =
     (case get_process_port pm process_id of
        None \<Rightarrow> (HsError ''No port configured'', w)
      | Some port \<Rightarrow>
          (case wh_http host (loopback_url port (hk_url check)) (from_secs (hk_timeout check)) w of
             (HttpStatus code, w') \<Rightarrow> (if 200 \<le> code \<and> code < 300 then HsHealthy else HsUnhealthy, w')
           | (HttpTimeout, w') \<Rightarrow> (HsTimeout, w')
           | (HttpError e, w') \<Rightarrow> (HsError e, w')))"

definition count_health ::
  "string \<Rightarrow> worker_health \<Rightarrow> health_status \<Rightarrow> process_manager \<Rightarrow> string list \<times> process_manager" where
  "count_health process_id check status pm =
     (case bt_get (pm_processes pm) process_id of
        None \<Rightarrow> ([], pm)
      | Some p \<Rightarrow>
          (if status = HsHealthy
           then ([], pm\<lparr>pm_processes := bt_insert process_id (p\<lparr>sp_consecutive_health_failures := 0\<rparr>) (pm_processes pm)\<rparr>)
           else
             (let failures = sp_consecutive_health_failures p + 1
              in (if hk_retries check \<le> failures then [process_id] else [],
                  pm\<lparr>pm_processes := bt_insert process_id (p\<lparr>sp_consecutive_health_failures := failures\<rparr>) (pm_processes pm)\<rparr>))))"

fun run_health_checks ::
  "'w worker_host \<Rightarrow> (string \<times> worker_health) list \<Rightarrow> process_manager \<Rightarrow> 'w \<Rightarrow> string list \<times> process_manager \<times> 'w" where
  "run_health_checks host [] pm w = ([], pm, w)"
| "run_health_checks host ((process_id, check) # rest) pm w =
     (case claim_health_probe host process_id (hk_interval check) pm w of
        (False, pm) \<Rightarrow> run_health_checks host rest pm w
      | (True, pm) \<Rightarrow>
          (case perform_health_check host process_id check pm w of
             (status, w) \<Rightarrow>
               (case count_health process_id check status (with_stats (update_health_check (wh_utc host w) process_id status) pm) of
                  (restart, pm) \<Rightarrow>
                    (case run_health_checks host rest pm w of
                       (restarts, pm, w) \<Rightarrow> (restart @ restarts, pm, w)))))"

section \<open>Restarting and giving up\<close>

definition restart_process :: "'w worker_host \<Rightarrow> string \<Rightarrow> ('w, unit) manager_call" where
  "restart_process host process_id pm w =
     (case bt_get (pm_processes pm) process_id of
        None \<Rightarrow> (Inr (), pm, w)
      | Some p \<Rightarrow>
          (let pm = with_stats (mark_restarting (wh_utc host w) process_id)
                      (pm\<lparr>pm_processes := bt_remove process_id (pm_processes pm)\<rparr>);
               new_count = sp_restart_count p + 1
           in pm_then (spawn_process host (sp_config p)) (\<lambda>_ pm w.
                let pm = (case bt_get (pm_processes pm) process_id of
                            Some fresh \<Rightarrow>
                              pm\<lparr>pm_processes := bt_insert process_id
                                   (fresh\<lparr>sp_restart_count := new_count, sp_last_restart := wh_now host w\<rparr>) (pm_processes pm)\<rparr>
                          | None \<Rightarrow> pm)
                in (Inr (), pm, wh_emit host (AppRestarted (wi_app (wc_worker (sp_config p))) process_id
                      (sp_last_exit_code p) new_count) w)) pm (drop_spawned host p w)))"

definition give_up_process :: "'w worker_host \<Rightarrow> string \<Rightarrow> process_manager \<Rightarrow> 'w \<Rightarrow> process_manager \<times> 'w" where
  "give_up_process host process_id pm w =
     (case bt_get (pm_processes pm) process_id of
        None \<Rightarrow> (pm, w)
      | Some p \<Rightarrow>
          (pm\<lparr>pm_processes := bt_remove process_id (pm_processes pm)\<rparr>,
           drop_spawned host p (wh_emit host (AppFailed (wi_app (wc_worker (sp_config p))) process_id (sp_last_exit_code p)
             (sp_restart_count p) (wo_max_restarts (wc_options (sp_config p)))) w)))"

definition MAX_RESTARTS_PER_CYCLE :: nat where
  "MAX_RESTARTS_PER_CYCLE = 5"

fun restart_or_remove :: "'w worker_host \<Rightarrow> nat \<Rightarrow> string list \<Rightarrow> ('w, unit) manager_call" where
  "restart_or_remove host restarts [] pm w = (Inr (), pm, w)"
| "restart_or_remove host restarts (k # ks) pm w =
     (case strip_prefix REMOVE_MARK k of
        Some gone \<Rightarrow> (case give_up_process host gone pm w of (pm, w) \<Rightarrow> restart_or_remove host restarts ks pm w)
      | None \<Rightarrow>
          (if restarts < MAX_RESTARTS_PER_CYCLE
           then pm_then (restart_process host k) (\<lambda>_. restart_or_remove host (restarts + 1) ks) pm w
           else restart_or_remove host restarts ks pm w))"

definition check_processes :: "'w worker_host \<Rightarrow> ('w, unit) manager_call" where
  "check_processes host pm w =
     (case scan_process_status host pm w of
        ((to_restart, checks), pm, w) \<Rightarrow>
          (case run_health_checks host checks pm w of
             (unhealthy, pm, w) \<Rightarrow> restart_or_remove host 0 (to_restart @ unhealthy) pm w))"

end
