(* ===== verification/Worker_Config.thy ===== *)
theory Worker_Config
  imports Worker_Checks
begin

text \<open>
  The config files of workers, \<open>riku-supervisor/src/daemon/config_file.rs\<close> and \<open>config_watcher.rs\<close>, and the process part of the
  tick in \<open>periodic.rs\<close>: files that appear, change or go away start, replace or stop exactly the worker they are named after.

  The record \<open>config_host\<close> stands for the directory of config files, the TOML reader, the app directories and the cron scheduler.
\<close>

section \<open>config\_file.rs\<close>

record 'w config_host =
  ch_host :: "'w worker_host"
  ch_list :: "'w \<Rightarrow> (string, (string, string) result list) result option \<times> 'w"
  ch_read :: "string \<Rightarrow> 'w \<Rightarrow> (string, string) result \<times> 'w"
  ch_toml :: "string \<Rightarrow> (string, worker_config) result"
  ch_modified :: "string \<Rightarrow> 'w \<Rightarrow> nat option \<times> 'w"
  ch_app_exists :: "string \<Rightarrow> 'w \<Rightarrow> (string, bool) result \<times> 'w"
  ch_remove_cron :: "string \<Rightarrow> 'w \<Rightarrow> 'w"
  ch_load_cron :: "string \<Rightarrow> string \<Rightarrow> 'w \<Rightarrow> 'w"

definition named_worker :: "string \<Rightarrow> worker_name option" where
  "named_worker filename =
     Option.bind (strip_suffix CONFIG_EXTENSION filename) (\<lambda>rest.
     Option.bind (strip_suffix ''.'' rest) worker_name_parse)"

definition parse_worker_config :: "'w config_host \<Rightarrow> string \<Rightarrow> 'w \<Rightarrow> (worker_error, worker_config) result \<times> 'w" where
  "parse_worker_config ch filename w =
     (case ch_read ch filename w of
        (Inl e, w') \<Rightarrow> (Inl (ConfigIo e), w')
      | (Inr content, w') \<Rightarrow> (map_err ConfigParse (ch_toml ch content), w'))"

definition loadable_config ::
  "'w config_host \<Rightarrow> string \<Rightarrow> 'w \<Rightarrow> (worker_error, worker_config option) result \<times> 'w" where
  "loadable_config ch filename w =
     (case parse_worker_config ch filename w of
        (Inl e, w') \<Rightarrow> (Inl e, w')
      | (Inr config, w') \<Rightarrow>
          (Inr (if worker_file_name (info_name (wc_worker config)) \<noteq> filename then None else Some config), w'))"

section \<open>config\_watcher.rs\<close>

record supervisor =
  sv_manager :: process_manager
  sv_watched :: "(string, nat) btree"

type_synonym ('w, 'a) supervisor_call = "supervisor \<Rightarrow> 'w \<Rightarrow> (worker_error, 'a) result \<times> supervisor \<times> 'w"

definition sv_then :: "('w, 'a) supervisor_call \<Rightarrow> ('a \<Rightarrow> ('w, 'b) supervisor_call) \<Rightarrow> ('w, 'b) supervisor_call" where
  "sv_then m f sv w = (case m sv w of (Inl e, sv', w') \<Rightarrow> (Inl e, sv', w') | (Inr a, sv', w') \<Rightarrow> f a sv' w')"

definition sv_outside :: "('w \<Rightarrow> (worker_error, 'a) result \<times> 'w) \<Rightarrow> ('w, 'a) supervisor_call" where
  "sv_outside m sv w = (case m w of (r, w') \<Rightarrow> (r, sv, w'))"

definition on_manager :: "('w, 'a) manager_call \<Rightarrow> ('w, 'a) supervisor_call" where
  "on_manager m sv w = (case m (sv_manager sv) w of (r, pm, w') \<Rightarrow> (r, sv\<lparr>sv_manager := pm\<rparr>, w'))"

definition is_cron :: "string \<Rightarrow> bool" where
  "is_cron kind = starts_with ''cron'' kind"

definition load_config_file :: "'w config_host \<Rightarrow> string \<Rightarrow> ('w, unit) supervisor_call" where
  "load_config_file ch filename =
     sv_then (sv_outside (loadable_config ch filename)) (\<lambda>loaded sv w.
     case loaded of
       None \<Rightarrow> (Inr (), sv, w)
     | Some config \<Rightarrow>
         (if is_cron (wi_kind (wc_worker config))
          then (Inr (), sv, ch_load_cron ch (wi_app (wc_worker config)) (wo_working_dir (wc_options config)) w)
          else on_manager (spawn_process (ch_host ch) config) sv w))"

definition purge_if_gone :: "'w config_host \<Rightarrow> string \<Rightarrow> ('w, unit) supervisor_call" where
  "purge_if_gone ch app sv w =
     (case ch_app_exists ch app w of
        (Inl e, w') \<Rightarrow> (Inl (ConfigIo e), sv, w')
      | (Inr True, w') \<Rightarrow> (Inr (), sv, w')
      | (Inr False, w') \<Rightarrow>
          (Inr (), sv\<lparr>sv_manager := with_stats (remove_app app) (sv_manager sv)\<rparr>, ch_remove_cron ch app w'))"

definition unload_config :: "'w config_host \<Rightarrow> string \<Rightarrow> ('w, unit) supervisor_call" where
  "unload_config ch filename sv w =
     (case named_worker filename of
        None \<Rightarrow> (Inr (), sv, w)
      | Some name \<Rightarrow>
          sv_then
            (if is_cron (wn_kind name) then (\<lambda>sv w. (Inr (), sv, ch_remove_cron ch (wn_app name) w))
             else on_manager (pm_then (stop_canaries (ch_host ch) (worker_name_display name))
                    (\<lambda>_. stop_process_by_id (ch_host ch) (worker_name_display name))))
            (\<lambda>_. purge_if_gone ch (wn_app name)) sv w)"

definition handle_modified_config :: "'w config_host \<Rightarrow> string \<Rightarrow> ('w, unit) supervisor_call" where
  "handle_modified_config ch filename =
     sv_then (sv_outside (loadable_config ch filename)) (\<lambda>loaded sv w.
     case loaded of
       None \<Rightarrow> (Inr (), sv, w)
     | Some config \<Rightarrow>
         (if is_cron (wi_kind (wc_worker config)) then load_config_file ch filename sv w
          else if wo_health_check (wc_options config) \<noteq> None \<and> is_managed (sv_manager sv) (process_id_of config)
          then on_manager (deploy_generation (ch_host ch) (process_id_of config) config) sv w
          else sv_then (unload_config ch filename) (\<lambda>_. load_config_file ch filename) sv w))"

definition reset_process_restarts :: "string \<Rightarrow> supervisor \<Rightarrow> supervisor" where
  "reset_process_restarts filename sv =
     (case named_worker filename of
        Some name \<Rightarrow> sv\<lparr>sv_manager := with_stats (reset_restarts (worker_name_display name)) (sv_manager sv)\<rparr>
      | None \<Rightarrow> sv)"

definition watch_file :: "string \<Rightarrow> nat option \<Rightarrow> supervisor \<Rightarrow> supervisor" where
  "watch_file filename modified sv =
     (case modified of Some t \<Rightarrow> sv\<lparr>sv_watched := bt_insert filename t (sv_watched sv)\<rparr> | None \<Rightarrow> sv)"

definition watch_now :: "'w config_host \<Rightarrow> string \<Rightarrow> ('w, unit) supervisor_call" where
  "watch_now ch filename sv w =
     (case ch_modified ch filename w of (modified, w') \<Rightarrow> (Inr (), watch_file filename modified sv, w'))"

text \<open>\<open>Path::extension\<close> of a file name: what follows the last dot, unless the dot is first or missing.\<close>

definition extension :: "string \<Rightarrow> string option" where
  "extension filename =
     (case rsplit_once (CHR ''.'') filename of Some (stem, ext) \<Rightarrow> (if stem = [] then None else Some ext) | None \<Rightarrow> None)"

datatype file_event_kind = FileCreate | FileModify | FileRemove | FileOther

definition handle_path :: "'w config_host \<Rightarrow> file_event_kind \<Rightarrow> string \<Rightarrow> ('w, unit) supervisor_call" where
  "handle_path ch kind filename sv w =
     (if extension filename \<noteq> Some ''toml'' then (Inr (), sv, w)
      else case kind of
             FileCreate \<Rightarrow>
               sv_then (load_config_file ch filename) (\<lambda>_. watch_now ch filename) (reset_process_restarts filename sv) w
           | FileModify \<Rightarrow>
               (case ch_modified ch filename w of
                  (None, w) \<Rightarrow> (Inr (), sv, w)
                | (Some t, w) \<Rightarrow>
                    (case bt_get (sv_watched sv) filename of
                       Some old \<Rightarrow>
                         (if old < t
                          then sv_then (handle_modified_config ch filename)
                                 (\<lambda>_ sv w. (Inr (), watch_file filename (Some t) sv, w)) (reset_process_restarts filename sv) w
                          else (Inr (), sv, w))
                     | None \<Rightarrow>
                         sv_then (load_config_file ch filename)
                           (\<lambda>_ sv w. (Inr (), watch_file filename (Some t) sv, w)) (reset_process_restarts filename sv) w))
           | FileRemove \<Rightarrow>
               sv_then (unload_config ch filename)
                 (\<lambda>_ sv w. (Inr (), sv\<lparr>sv_watched := bt_remove filename (sv_watched sv)\<rparr>, w)) sv w
           | FileOther \<Rightarrow> (Inr (), sv, w))"

fun handle_file_event :: "'w config_host \<Rightarrow> file_event_kind \<Rightarrow> string list \<Rightarrow> ('w, unit) supervisor_call" where
  "handle_file_event ch kind [] sv w = (Inr (), sv, w)"
| "handle_file_event ch kind (filename # rest) sv w =
     sv_then (handle_path ch kind filename) (\<lambda>_. handle_file_event ch kind rest) sv w"

fun unload_each :: "'w config_host \<Rightarrow> string list \<Rightarrow> ('w, unit) supervisor_call" where
  "unload_each ch [] sv w = (Inr (), sv, w)"
| "unload_each ch (filename # rest) sv w =
     sv_then (unload_config ch filename)
       (\<lambda>_ sv w. unload_each ch rest (sv\<lparr>sv_watched := bt_remove filename (sv_watched sv)\<rparr>) w) sv w"

text \<open>A config that fails to load is logged and passed over.\<close>

definition load_or_log :: "('w, unit) supervisor_call \<Rightarrow> supervisor \<Rightarrow> 'w \<Rightarrow> supervisor \<times> 'w" where
  "load_or_log m sv w = snd (m sv w)"

definition reload_config :: "'w config_host \<Rightarrow> string \<Rightarrow> supervisor \<Rightarrow> 'w \<Rightarrow> supervisor \<times> 'w" where
  "reload_config ch filename sv w =
     (case bt_get (sv_watched sv) filename of
        Some old \<Rightarrow>
          (case ch_modified ch filename w of
             (None, w) \<Rightarrow> (sv, w)
           | (Some t, w) \<Rightarrow>
               (if old < t
                then (case load_or_log (handle_modified_config ch filename) sv w of
                        (sv, w) \<Rightarrow> (watch_file filename (Some t) sv, w))
                else (sv, w)))
      | None \<Rightarrow>
          (case load_or_log (load_config_file ch filename) sv w of
             (sv, w) \<Rightarrow> snd (watch_now ch filename sv w)))"

fun reload_each :: "'w config_host \<Rightarrow> string list \<Rightarrow> supervisor \<Rightarrow> 'w \<Rightarrow> supervisor \<times> 'w" where
  "reload_each ch [] sv w = (sv, w)"
| "reload_each ch (filename # rest) sv w =
     (case reload_config ch filename sv w of (sv, w) \<Rightarrow> reload_each ch rest sv w)"

definition config_files :: "'w config_host \<Rightarrow> 'w \<Rightarrow> (worker_error, string list) result \<times> 'w" where
  "config_files ch w =
     (case ch_list ch w of
        (None, w') \<Rightarrow> (Inr [], w')
      | (Some (Inl e), w') \<Rightarrow> (Inl (ConfigIo e), w')
      | (Some (Inr entries), w') \<Rightarrow>
          (map_err ConfigIo (and_then (traverse (\<lambda>entry. entry) entries) (\<lambda>names.
             Inr (filter (\<lambda>n. extension n = Some ''toml'') names))), w'))"

definition reload_all_configs :: "'w config_host \<Rightarrow> ('w, unit) supervisor_call" where
  "reload_all_configs ch =
     sv_then (sv_outside (config_files ch)) (\<lambda>current sv w.
     sv_then (unload_each ch (filter (\<lambda>k. k \<notin> set current) (wh_walk (ch_host ch) (bt_keys (sv_watched sv)) w)))
       (\<lambda>_ sv w. case reload_each ch (wh_walk (ch_host ch) current w) sv w of (sv, w) \<Rightarrow> (Inr (), sv, w)) sv w)"

fun load_each :: "'w config_host \<Rightarrow> (string, string) result list \<Rightarrow> ('w, unit) supervisor_call" where
  "load_each ch [] sv w = (Inr (), sv, w)"
| "load_each ch (Inl e # rest) sv w = (Inl (ConfigIo e), sv, w)"
| "load_each ch (Inr filename # rest) sv w =
     (if extension filename \<noteq> Some ''toml'' then load_each ch rest sv w
      else sv_then (load_config_file ch filename) (\<lambda>_ sv w.
        case ch_modified ch filename w of
          (None, w) \<Rightarrow> (Inl (ConfigIo filename), sv, w)
        | (Some t, w) \<Rightarrow> load_each ch rest (watch_file filename (Some t) sv) w) sv w)"

definition load_initial_configs :: "'w config_host \<Rightarrow> ('w, unit) supervisor_call" where
  "load_initial_configs ch sv w =
     (case ch_list ch w of
        (None, w) \<Rightarrow> (Inr (), sv, w)
      | (Some (Inl e), w) \<Rightarrow> (Inl (ConfigIo e), sv, w)
      | (Some (Inr entries), w) \<Rightarrow> load_each ch entries sv w)"

section \<open>periodic.rs\<close>

text \<open>The process part of the tick: each failure is logged and swallowed; events are taken when somebody streams them.\<close>

definition worker_tick :: "'w worker_host \<Rightarrow> bool \<Rightarrow> process_manager \<Rightarrow> 'w \<Rightarrow> string list \<times> process_manager \<times> 'w" where
  "worker_tick host streaming pm w =
     (case check_processes host pm w of
        (_, pm, w) \<Rightarrow>
          (case reconcile_generations host pm w of
             (_, pm, w) \<Rightarrow>
               (case (if streaming then drain_deployment_events pm else ([], pm)) of (events, pm) \<Rightarrow> (events, pm, w))))"

end
