(* ===== verification/Worker_Files.thy ===== *)
theory Worker_Files
  imports App_Settings Worker_Config
begin

text \<open>
  The files a Procfile app's workers are described by: which config belongs to which app (\<open>riku-supervisor/src/config/ownership.rs\<close>),
  the markers of live processes (\<open>process/pid_file.rs\<close>) and the wait for a stop (\<open>riku-deploy/src/workers/stop_wait.rs\<close>).

  The record \<open>deploy_disk\<close> holds the directories \<open>workers-enabled\<close> and \<open>workers-available\<close>, the directories of the apps' \<open>ENV\<close> files, each
  with its file if there is one, and the \<open>SCALING\<close> files, with
  the rest of the world in \<open>dd_outer\<close>.  An enabled entry is a link to the available file of some name, or a file of its own.
  The record \<open>deploy_host\<close> stands for what lies outside: \<open>dp_fault\<close> says whether a disk operation fails, without effect; TOML, ports,
  signals, the clock and the probes are functions of their own.
\<close>

section \<open>The disk\<close>

datatype enabled_entry = LinkTo string | OwnFile string

record 'w deploy_disk =
  dd_enabled :: "(string, enabled_entry) btree"
  dd_available :: "(string, string) btree"
  dd_env :: "(string, string option) btree"
  dd_scaling :: "(string, string) btree"
  dd_outer :: 'w

datatype disk_op =
    ListEnabled
  | ReadEnabled string
  | RemoveEnabled string
  | LinkEnabled string
  | WriteAvailable string
  | RemoveAvailable string
  | MakeEnvDir string
  | ReadEnv string
  | WriteEnv string
  | ReadScaling string
  | WriteScaling string
  | ListApps

record 'w deploy_host =
  dp_fault :: "disk_op \<Rightarrow> 'w \<Rightarrow> string option \<times> 'w"
  dp_walk :: "string list \<Rightarrow> 'w \<Rightarrow> string list"
  dp_toml :: "string \<Rightarrow> (string, worker_config) result"
  dp_to_toml :: "worker_config \<Rightarrow> (string, string) result"
  dp_owner :: "string \<Rightarrow> string option"
  dp_markers :: "'w \<Rightarrow> (string, (string, string) result list) result option \<times> 'w"
  dp_pid_exists :: "int \<Rightarrow> 'w \<Rightarrow> bool \<times> 'w"
  dp_pick_port :: "'w \<Rightarrow> (string, u16) result \<times> 'w"
  dp_port_busy :: "u16 \<Rightarrow> 'w \<Rightarrow> bool \<times> 'w"
  dp_socket_root :: "'w \<Rightarrow> (string, unit) result \<times> 'w"
  dp_remove_socket :: "path \<Rightarrow> 'w \<Rightarrow> (string, unit) result \<times> 'w"
  dp_notify :: "'w \<Rightarrow> 'w"
  dp_probes :: "'w probes"
  dp_now :: "'w \<Rightarrow> instant"
  dp_sleep :: "duration \<Rightarrow> 'w \<Rightarrow> 'w"

datatype deploy_error =
    CannotList string
  | CannotReadEnv string string
  | CannotWriteEnv string string
  | CannotMakeEnvDir string string
  | CannotReadScaling string
  | CannotWriteScaling string
  | NoUwsgiSocket string
  | NotAPort string
  | NotAnAddress string string
  | NoUsableAddress string copy_index deploy_error
  | PortNotAllocated string
  | NoDistinctPort
  | PinnedNotPort string
  | PinnedScaled u32 u16
  | PinnedByOther u16 string
  | PinnedInUse u16
  | SocketScaled string u32
  | SocketRootFailed string
  | CannotSerialize string string
  | CannotWrite string string
  | CannotEnable string string
  | CannotDisable string string
  | CannotRemoveFile string string
  | NoCopyNumber string copy_index
  | NoAddress string copy_index
  | CopyUnhealthy health_wait_error
  | NoRunningCopy string
  | NoBackends string deploy_error
  | DeployProcfile procfile_error
  | RollFailed string "deploy_error roll_error"
  | ListCopiesFailed string deploy_error
  | StopCopyFailed string copy_index deploy_error
  | RouteFailed string
  | BadWorkerKind string
  | BadAppName name_error
  | NoWorkerConfig string
  | NotHighest string u32 u32
  | ScaleBelowZero string
  | ScaleMalformed string

type_synonym ('w, 'a) deploy_call = "'w deploy_disk \<Rightarrow> (deploy_error, 'a) result \<times> 'w deploy_disk"

definition dp_then :: "('w, 'a) deploy_call \<Rightarrow> ('a \<Rightarrow> ('w, 'b) deploy_call) \<Rightarrow> ('w, 'b) deploy_call" where
  "dp_then m f d = (case m d of (Inl e, d') \<Rightarrow> (Inl e, d') | (Inr a, d') \<Rightarrow> f a d')"

definition dp_give :: "(deploy_error, 'a) result \<Rightarrow> ('w, 'a) deploy_call" where
  "dp_give r d = (r, d)"

definition dp_outside :: "('w \<Rightarrow> 'a \<times> 'w) \<Rightarrow> 'w deploy_disk \<Rightarrow> 'a \<times> 'w deploy_disk" where
  "dp_outside m d = (case m (dd_outer d) of (a, w) \<Rightarrow> (a, d\<lparr>dd_outer := w\<rparr>))"

text \<open>One disk operation: it fails without effect, or it is done.\<close>

definition dp_try :: "'w deploy_host \<Rightarrow> disk_op \<Rightarrow> (string \<Rightarrow> deploy_error) \<Rightarrow> ('w, unit) deploy_call" where
  "dp_try host op err d =
     (case dp_outside (dp_fault host op) d of (Some e, d') \<Rightarrow> (Inl (err e), d') | (None, d') \<Rightarrow> (Inr (), d'))"

definition enabled_text :: "'w deploy_disk \<Rightarrow> string \<Rightarrow> string option" where
  "enabled_text d name =
     (case bt_get (dd_enabled d) name of
        Some (LinkTo target) \<Rightarrow> bt_get (dd_available d) target
      | Some (OwnFile content) \<Rightarrow> Some content
      | None \<Rightarrow> None)"

definition read_enabled :: "'w deploy_host \<Rightarrow> string \<Rightarrow> 'w deploy_disk \<Rightarrow> string option \<times> 'w deploy_disk" where
  "read_enabled host name d =
     (case dp_outside (dp_fault host (ReadEnabled name)) d of
        (Some _, d') \<Rightarrow> (None, d')
      | (None, d') \<Rightarrow> (enabled_text d' name, d'))"

text \<open>\<open>fs::remove_file\<close> on an enabled entry; a missing one is not an error where this is used.\<close>

definition remove_enabled :: "'w deploy_host \<Rightarrow> (string \<Rightarrow> deploy_error) \<Rightarrow> string \<Rightarrow> ('w, unit) deploy_call" where
  "remove_enabled host err name =
     dp_then (dp_try host (RemoveEnabled name) err) (\<lambda>_ d. (Inr (), d\<lparr>dd_enabled := bt_remove name (dd_enabled d)\<rparr>))"

definition remove_available :: "'w deploy_host \<Rightarrow> (string \<Rightarrow> deploy_error) \<Rightarrow> string \<Rightarrow> ('w, unit) deploy_call" where
  "remove_available host err name =
     dp_then (dp_try host (RemoveAvailable name) err) (\<lambda>_ d. (Inr (), d\<lparr>dd_available := bt_remove name (dd_available d)\<rparr>))"

section \<open>ownership.rs\<close>

definition CONFIG_EXTENSIONS :: "string list" where
  "CONFIG_EXTENSIONS = [''toml'', ''ini'']"

definition is_config_file :: "string \<Rightarrow> bool" where
  "is_config_file name = (case extension name of Some ext \<Rightarrow> ext \<in> set CONFIG_EXTENSIONS | None \<Rightarrow> False)"

text \<open>\<open>Path::file_stem\<close>: what stands before the extension.\<close>

definition file_stem :: "string \<Rightarrow> string" where
  "file_stem name = (case extension name of Some ext \<Rightarrow> take (length name - length ext - 1) name | None \<Rightarrow> name)"

definition named_for :: "string \<Rightarrow> string \<Rightarrow> bool" where
  "named_for name app = (case worker_name_parse (file_stem name) of Some w \<Rightarrow> wn_app w = app | None \<Rightarrow> False)"

definition belongs_to :: "'w deploy_host \<Rightarrow> string \<Rightarrow> string \<Rightarrow> 'w deploy_disk \<Rightarrow> bool \<times> 'w deploy_disk" where
  "belongs_to host app name d =
     (case read_enabled host name d of
        (content, d') \<Rightarrow>
          (case Option.bind content (dp_owner host) of Some owner \<Rightarrow> owner = app | None \<Rightarrow> named_for name app, d'))"

fun owned_names :: "'w deploy_host \<Rightarrow> string \<Rightarrow> string list \<Rightarrow> 'w deploy_disk \<Rightarrow> string list \<times> 'w deploy_disk" where
  "owned_names host app [] d = ([], d)"
| "owned_names host app (name # rest) d =
     (if \<not> is_config_file name then owned_names host app rest d
      else case belongs_to host app name d of
             (mine, d) \<Rightarrow>
               (case owned_names host app rest d of (names, d) \<Rightarrow> ((if mine then name # names else names), d)))"

text \<open>The configs of the enabled directory; a directory that cannot be listed gives none.\<close>

definition app_worker_configs :: "'w deploy_host \<Rightarrow> string \<Rightarrow> 'w deploy_disk \<Rightarrow> string list \<times> 'w deploy_disk" where
  "app_worker_configs host app d =
     (case dp_outside (dp_fault host ListEnabled) d of
        (Some _, d) \<Rightarrow> ([], d)
      | (None, d) \<Rightarrow>
          (case owned_names host app (dp_walk host (bt_keys (dd_enabled d)) (dd_outer d)) d of (names, d) \<Rightarrow> (sort names, d)))"

section \<open>pid\_file.rs\<close>

text \<open>\<open>str::parse::<i32>\<close>: a sign and digits within the range.\<close>

definition parse_i32 :: "string \<Rightarrow> int option" where
  "parse_i32 s =
     (case s of
        [] \<Rightarrow> None
      | c # digits \<Rightarrow>
          (if c = CHR ''-''
           then (if starts_with ''+'' digits then None else map_option (\<lambda>n. - int n) (parse_uint (2 ^ 31 + 1) digits))
           else map_option int (parse_uint (2 ^ 31) s)))"

definition marker_name :: "string \<Rightarrow> u32 \<Rightarrow> string" where
  "marker_name process_id pid = process_id @ ''.'' @ show_u32 pid"

definition marker_of_app :: "string \<Rightarrow> string \<Rightarrow> int option" where
  "marker_of_app app file_name =
     (case rsplit_once (CHR ''.'') file_name of
        None \<Rightarrow> None
      | Some (process_id, pid) \<Rightarrow>
          (case worker_name_parse process_id of
             Some w \<Rightarrow> (if wn_app w = app then parse_i32 pid else None)
           | None \<Rightarrow> None))"

definition marker_of_process :: "string \<Rightarrow> string \<Rightarrow> int option" where
  "marker_of_process process_id file_name =
     (case rsplit_once (CHR ''.'') file_name of
        Some (pid_of, pid) \<Rightarrow> (if pid_of = process_id then parse_i32 pid else None)
      | None \<Rightarrow> None)"

fun live_marker_in ::
  "'w deploy_host \<Rightarrow> (string \<Rightarrow> int option) \<Rightarrow> (string, string) result list \<Rightarrow> 'w \<Rightarrow> (string, bool) result \<times> 'w" where
  "live_marker_in host pid_of [] w = (Inr False, w)"
| "live_marker_in host pid_of (Inl e # rest) w = (Inl e, w)"
| "live_marker_in host pid_of (Inr file_name # rest) w =
     (case pid_of file_name of
        None \<Rightarrow> live_marker_in host pid_of rest w
      | Some pid \<Rightarrow>
          (case dp_pid_exists host pid w of
             (True, w') \<Rightarrow> (Inr True, w')
           | (False, w') \<Rightarrow> live_marker_in host pid_of rest w'))"

definition any_live_marker ::
  "'w deploy_host \<Rightarrow> (string \<Rightarrow> int option) \<Rightarrow> 'w \<Rightarrow> (string, bool) result \<times> 'w" where
  "any_live_marker host pid_of w =
     (case dp_markers host w of
        (None, w') \<Rightarrow> (Inr False, w')
      | (Some (Inl e), w') \<Rightarrow> (Inl e, w')
      | (Some (Inr entries), w') \<Rightarrow> live_marker_in host pid_of entries w')"

definition app_has_live_worker :: "'w deploy_host \<Rightarrow> string \<Rightarrow> 'w \<Rightarrow> (string, bool) result \<times> 'w" where
  "app_has_live_worker host app = any_live_marker host (marker_of_app app)"

definition process_has_live_worker :: "'w deploy_host \<Rightarrow> string \<Rightarrow> 'w \<Rightarrow> (string, bool) result \<times> 'w" where
  "process_has_live_worker host process_id = any_live_marker host (marker_of_process process_id)"

section \<open>stop\_wait.rs\<close>

definition STOPPED_POLL :: duration where
  "STOPPED_POLL = 200 * 1000000"

text \<open>The first component tells whether the loop ended before its fuel was used up.\<close>

fun stopped_rounds :: "'w deploy_host \<Rightarrow> string \<Rightarrow> instant \<Rightarrow> nat \<Rightarrow> 'w \<Rightarrow> bool \<times> 'w" where
  "stopped_rounds host process_id deadline 0 w = (False, w)"
| "stopped_rounds host process_id deadline (Suc fuel) w =
     (case process_has_live_worker host process_id w of
        (Inr True, w') \<Rightarrow>
          (if deadline \<le> dp_now host w' then (True, w')
           else stopped_rounds host process_id deadline fuel (dp_sleep host STOPPED_POLL w'))
      | (_, w') \<Rightarrow> (True, w'))"

definition wait_stopped :: "'w deploy_host \<Rightarrow> string \<Rightarrow> duration \<Rightarrow> 'w \<Rightarrow> bool \<times> 'w" where
  "wait_stopped host process_id limit w =
     stopped_rounds host process_id (dp_now host w + limit) (limit div STOPPED_POLL + 2) w"

end
