(* ===== verification/Web_Copies.thy ===== *)
theory Web_Copies
  imports Worker_Files
begin

text \<open>
  The web copies of a Procfile app on disk: reading them and their addresses (\<open>riku-deploy/src/router/backends.rs\<close>, \<open>bind_address\<close> of
  \<open>riku-nginx/src/backends.rs\<close>) and the ports and sockets they use (\<open>workers/ports.rs\<close>, \<open>pinned.rs\<close>, \<open>socket.rs\<close>).
\<close>

section \<open>IP addresses\<close>

text \<open>\<open>IpAddr::from_str\<close>: dotted IPv4 without leading zeros, or IPv6 with its groups and the double colon.\<close>

definition ipv4_octet :: "string \<Rightarrow> nat option" where
  "ipv4_octet s =
     (if s \<noteq> [] \<and> length s \<le> 3 \<and> list_all is_ascii_digit s \<and> (length s = 1 \<or> hd s \<noteq> CHR ''0'') \<and> digits_value s \<le> 255
      then Some (digits_value s) else None)"

definition ipv4_octets :: "string \<Rightarrow> nat list option" where
  "ipv4_octets s =
     (let octets = map ipv4_octet (split_on (CHR ''.'') s)
      in if length octets = 4 \<and> None \<notin> set octets then Some (map the octets) else None)"

definition hex_digit :: "char \<Rightarrow> nat option" where
  "hex_digit c =
     (if is_ascii_digit c then Some (code_point c - 48)
      else if 97 \<le> code_point c \<and> code_point c \<le> 102 then Some (code_point c - 87)
      else if 65 \<le> code_point c \<and> code_point c \<le> 70 then Some (code_point c - 55) else None)"

definition ipv6_group :: "string \<Rightarrow> nat option" where
  "ipv6_group s =
     (if s \<noteq> [] \<and> length s \<le> 4 \<and> list_all (\<lambda>c. hex_digit c \<noteq> None) s
      then Some (foldl (\<lambda>n c. 16 * n + the (hex_digit c)) 0 s) else None)"

fun ipv6_groups :: "bool \<Rightarrow> string list \<Rightarrow> nat list option" where
  "ipv6_groups v4 [] = Some []"
| "ipv6_groups v4 (p # ps) =
     (case ipv6_group p of
        Some g \<Rightarrow> map_option (Cons g) (ipv6_groups v4 ps)
      | None \<Rightarrow>
          (case ipv4_octets p of
             Some [a, b, c, d] \<Rightarrow> (if v4 \<and> ps = [] then Some [256 * a + b, 256 * c + d] else None)
           | _ \<Rightarrow> None))"

fun split_double_colon :: "string \<Rightarrow> (string \<times> string) option" where
  "split_double_colon [] = None"
| "split_double_colon [c] = None"
| "split_double_colon (c # d # s) =
     (if c = CHR '':'' \<and> d = CHR '':'' then Some ([], s)
      else map_option (\<lambda>(a, b). (c # a, b)) (split_double_colon (d # s)))"

definition group_texts :: "string \<Rightarrow> string list" where
  "group_texts s = (if s = [] then [] else split_on (CHR '':'') s)"

definition parse_ipv6 :: "string \<Rightarrow> nat list option" where
  "parse_ipv6 s =
     (case split_double_colon s of
        None \<Rightarrow>
          (case ipv6_groups True (group_texts s) of
             Some gs \<Rightarrow> (if length gs = 8 then Some gs else None) | None \<Rightarrow> None)
      | Some (left, right) \<Rightarrow>
          (case (ipv6_groups False (group_texts left), ipv6_groups True (group_texts right)) of
             (Some gs, Some hs) \<Rightarrow>
               (if length gs + length hs \<le> 7 then Some (gs @ replicate (8 - length gs - length hs) 0 @ hs) else None)
           | _ \<Rightarrow> None))"

definition parse_ip :: "string \<Rightarrow> ip_addr option" where
  "parse_ip s =
     (case ipv4_octets s of
        Some [a, b, c, d] \<Rightarrow> Some (V4 (of_nat a) (of_nat b) (of_nat c) (of_nat d))
      | _ \<Rightarrow> map_option (\<lambda>gs. V6 (map of_nat gs)) (parse_ipv6 s))"

definition DEFAULT_BIND_ADDRESS :: string where
  "DEFAULT_BIND_ADDRESS = ''127.0.0.1''"

definition bind_address :: "env_map \<Rightarrow> (string, ip_addr) result" where
  "bind_address env =
     (let bind = (case bt_get env ''RIKU_BIND_ADDRESS'' of Some b \<Rightarrow> b | None \<Rightarrow> DEFAULT_BIND_ADDRESS)
      in case parse_ip (trim bind) of Some host \<Rightarrow> Inr host | None \<Rightarrow> Inl bind)"

section \<open>backends.rs\<close>

record riku_paths =
  rp_socket_root :: path
  rp_log_root :: path

definition copy_socket :: "riku_paths \<Rightarrow> string \<Rightarrow> copy_index \<Rightarrow> path" where
  "copy_socket paths app copy = path_join (rp_socket_root paths) [Normal (copy_socket_file_name app (copy_get copy))]"

definition parsed_worker :: "'w deploy_host \<Rightarrow> string \<Rightarrow> 'w deploy_disk \<Rightarrow> worker_config option \<times> 'w deploy_disk" where
  "parsed_worker host name d =
     (case read_enabled host name d of
        (None, d') \<Rightarrow> (None, d')
      | (Some content, d') \<Rightarrow> (case dp_toml host content of Inr config \<Rightarrow> Some config | Inl _ \<Rightarrow> None, d'))"

fun parsed_workers :: "'w deploy_host \<Rightarrow> string list \<Rightarrow> 'w deploy_disk \<Rightarrow> worker_config list \<times> 'w deploy_disk" where
  "parsed_workers host [] d = ([], d)"
| "parsed_workers host (name # rest) d =
     (if extension name \<noteq> Some ''toml'' then parsed_workers host rest d
      else case parsed_worker host name d of
             (config, d) \<Rightarrow>
               (case parsed_workers host rest d of
                  (configs, d) \<Rightarrow> ((case config of Some c \<Rightarrow> c # configs | None \<Rightarrow> configs), d)))"

definition copy_order :: "worker_config list \<Rightarrow> worker_config list" where
  "copy_order configs = sort_key (\<lambda>c. unat (wi_ordinal (wc_worker c))) (sort_key (\<lambda>c. wi_kind (wc_worker c)) configs)"

definition is_web_config :: "string \<Rightarrow> worker_config \<Rightarrow> bool" where
  "is_web_config app config \<longleftrightarrow> wi_app (wc_worker config) = app \<and> is_web_facing (wi_kind (wc_worker config))"

definition web_copies :: "'w deploy_host \<Rightarrow> string \<Rightarrow> ('w, worker_config list) deploy_call" where
  "web_copies host app =
     dp_then (dp_try host ListEnabled CannotList) (\<lambda>_ d.
     case parsed_workers host (dp_walk host (bt_keys (dd_enabled d)) (dd_outer d)) d of
       (configs, d) \<Rightarrow> (Inr (copy_order (filter (is_web_config app) configs)), d))"

definition worker_backend :: "worker_config \<Rightarrow> (deploy_error, backend) result" where
  "worker_backend config =
     (let name = process_id_of config
      in if is_wsgi_kind (wi_kind (wc_worker config))
         then (case bt_get (wc_env config) ''UWSGI_SOCKET'' of
                 Some socket \<Rightarrow> Inr (BackendUnix (components socket))
               | None \<Rightarrow> Inl (NoUwsgiSocket name))
         else case Option.bind (bt_get (wc_env config) ''PORT'') (\<lambda>port. parse_u16 (trim port)) of
                None \<Rightarrow> Inl (NotAPort name)
              | Some port \<Rightarrow>
                  (case bind_address (wc_env config) of
                     Inr host \<Rightarrow> Inr (BackendTcp host port)
                   | Inl e \<Rightarrow> Inl (NotAnAddress name e)))"

definition procfile_backends :: "'w deploy_host \<Rightarrow> string \<Rightarrow> ('w, backend list) deploy_call" where
  "procfile_backends host app = dp_then (web_copies host app) (\<lambda>copies. dp_give (traverse worker_backend copies))"

text \<open>\<open>current_backends\<close> of a Procfile app.\<close>

definition current_backends :: "'w deploy_host \<Rightarrow> string \<Rightarrow> ('w, backend list) deploy_call" where
  "current_backends host app d =
     (case procfile_backends host app d of
        (Inl e, d') \<Rightarrow> (Inl (NoBackends app e), d')
      | (Inr backends, d') \<Rightarrow> (if backends = [] then Inl (NoRunningCopy app) else Inr backends, d'))"

section \<open>ports.rs\<close>

definition PORT_PICK_ATTEMPTS :: nat where
  "PORT_PICK_ATTEMPTS = 20"

definition pinned_port :: "env_map \<Rightarrow> (deploy_error, u16 option) result" where
  "pinned_port env =
     (case bt_get env ''PORT'' of
        None \<Rightarrow> Inr None
      | Some value \<Rightarrow>
          (case parse_u16 value of
             Some port \<Rightarrow> (if port \<noteq> 0 then Inr (Some port) else Inl (PinnedNotPort value))
           | None \<Rightarrow> Inl (PinnedNotPort value)))"

fun unused_port :: "'w deploy_host \<Rightarrow> nat \<Rightarrow> u16 list \<Rightarrow> 'w \<Rightarrow> (deploy_error, u16) result \<times> 'w" where
  "unused_port host 0 taken w = (Inl NoDistinctPort, w)"
| "unused_port host (Suc attempts) taken w =
     (case dp_pick_port host w of
        (Inl e, w') \<Rightarrow> (Inl (PortNotAllocated e), w')
      | (Inr port, w') \<Rightarrow> (if port \<notin> set taken then (Inr port, w') else unused_port host attempts taken w'))"

definition enabled_ports :: "'w deploy_host \<Rightarrow> string \<Rightarrow> ('w, u16 list) deploy_call" where
  "enabled_ports host app =
     dp_then (web_copies host app) (\<lambda>copies.
     dp_give (Inr (List.map_filter (\<lambda>copy. Option.bind (bt_get (wc_env copy) ''PORT'') parse_u16) copies)))"

section \<open>Worker counts on disk\<close>

definition file_content :: "string option \<Rightarrow> string option \<Rightarrow> file_read" where
  "file_content found fault =
     (case found of
        None \<Rightarrow> ReadMissing
      | Some content \<Rightarrow> (case fault of Some e \<Rightarrow> file_read.ReadFailed e | None \<Rightarrow> ReadText content))"

definition read_scaling_count :: "'w deploy_host \<Rightarrow> string \<Rightarrow> string \<Rightarrow> ('w, u32) deploy_call" where
  "read_scaling_count host app kind d =
     (case dp_outside (dp_fault host (ReadScaling app)) d of
        (fault, d') \<Rightarrow> (map_err CannotReadScaling (scaling_count (file_content (bt_get (dd_scaling d') app) fault) kind), d'))"

fun check_socket_kinds :: "'w deploy_host \<Rightarrow> string \<Rightarrow> string list \<Rightarrow> ('w, unit) deploy_call" where
  "check_socket_kinds host app [] d = (Inr (), d)"
| "check_socket_kinds host app (kind # rest) d =
     dp_then (read_scaling_count host app kind) (\<lambda>count d.
       if 1 < count then (Inl (SocketScaled kind count), d) else check_socket_kinds host app rest d) d"

definition check_custom_socket :: "'w deploy_host \<Rightarrow> string \<Rightarrow> env_map \<Rightarrow> ('w, unit) deploy_call" where
  "check_custom_socket host app env d =
     (if bt_get env ''RIKU_NGINX_SOCKET'' = None then (Inr (), d) else check_socket_kinds host app WSGI_KINDS d)"

section \<open>pinned.rs\<close>

definition copy_on_port :: "'w deploy_host \<Rightarrow> u16 \<Rightarrow> string \<Rightarrow> ('w, bool) deploy_call" where
  "copy_on_port host port app =
     dp_then (web_copies host app) (\<lambda>copies.
     dp_give (Inr (list_ex (\<lambda>copy. bt_get (wc_env copy) ''PORT'' = Some (show_u16 port)) copies)))"

definition app_uses_port :: "'w deploy_host \<Rightarrow> u16 \<Rightarrow> string \<Rightarrow> ('w, bool) deploy_call" where
  "app_uses_port host port name d =
     (case dp_outside (dp_fault host (ReadEnv name)) d of
        (fault, d') \<Rightarrow>
          (case parse_settings (file_content (Option.bind (bt_get (dd_env d') name) (\<lambda>f. f)) fault) [] of
             (r, env) \<Rightarrow>
               (if is_ok r \<and> bt_get env ''PORT'' = Some (show_u16 port) then (Inr True, d')
                else copy_on_port host port name d')))"

fun app_on_port_in :: "'w deploy_host \<Rightarrow> u16 \<Rightarrow> string \<Rightarrow> string list \<Rightarrow> ('w, string option) deploy_call" where
  "app_on_port_in host port app [] d = (Inr None, d)"
| "app_on_port_in host port app (name # rest) d =
     (if name = app then app_on_port_in host port app rest d
      else dp_then (app_uses_port host port name) (\<lambda>uses d.
             if uses then (Inr (Some name), d) else app_on_port_in host port app rest d) d)"

text \<open>The directory of \<open>ENV\<close> files has one entry per app; one that cannot be listed names no app.\<close>

definition app_on_port :: "'w deploy_host \<Rightarrow> u16 \<Rightarrow> string \<Rightarrow> ('w, string option) deploy_call" where
  "app_on_port host port app d =
     (case dp_outside (dp_fault host ListApps) d of
        (Some _, d) \<Rightarrow> (Inr None, d)
      | (None, d) \<Rightarrow> app_on_port_in host port app (dp_walk host (bt_keys (dd_env d)) (dd_outer d)) d)"

definition check_pinned_port :: "'w deploy_host \<Rightarrow> string \<Rightarrow> env_map \<Rightarrow> ('w, unit) deploy_call" where
  "check_pinned_port host app env =
     dp_then (dp_give (pinned_port env)) (\<lambda>pinned.
     case pinned of
       None \<Rightarrow> dp_give (Inr ())
     | Some port \<Rightarrow>
         dp_then (read_scaling_count host app ''web'') (\<lambda>count.
         if 1 < count then dp_give (Inl (PinnedScaled count port))
         else dp_then (app_on_port host port app) (\<lambda>other.
         case other of
           Some name \<Rightarrow> dp_give (Inl (PinnedByOther port name))
         | None \<Rightarrow>
             dp_then (copy_on_port host port app) (\<lambda>ours d.
             if ours then (Inr (), d)
             else case dp_outside (dp_port_busy host port) d of
                    (busy, d) \<Rightarrow> (if busy then Inl (PinnedInUse port) else Inr (), d)))))"

end
