(* ===== verification/Web_Deploy.thy ===== *)
theory Web_Deploy
  imports Web_Copies Container_Copies
begin

text \<open>
  Starting the processes of a Procfile app: the environment of a copy (\<open>riku-deploy/src/workers/web_env.rs\<close>), its config file
  (\<open>files.rs\<close>), the runtime and the rollout of web copies (\<open>process_runtime.rs\<close>, \<open>web_rollout.rs\<close>), all kinds of a deploy
  (\<open>workers.rs\<close>), worker counts (\<open>scaling.rs\<close>, \<open>riku-cli/src/apps/process/ps_scale.rs\<close>) and the control of one worker
  (\<open>worker_control.rs\<close>).  Sums of durations and differences of counts are
  unbounded here.
\<close>

section \<open>web\_env.rs\<close>

definition UWSGI_PROCESSES :: string where
  "UWSGI_PROCESSES = ''4''"

definition UWSGI_THREADS :: string where
  "UWSGI_THREADS = ''4''"

text \<open>A path and its text: the one of the app is kept as it was written.\<close>

definition listen_socket :: "riku_paths \<Rightarrow> string \<Rightarrow> copy_index \<Rightarrow> env_map \<Rightarrow> string" where
  "listen_socket paths app copy env =
     (case bt_get env ''RIKU_NGINX_SOCKET'' of Some socket \<Rightarrow> socket | None \<Rightarrow> path_text (copy_socket paths app copy))"

definition ensure_socket_root :: "'w deploy_host \<Rightarrow> env_map \<Rightarrow> ('w, unit) deploy_call" where
  "ensure_socket_root host env d =
     (if bt_get env ''RIKU_NGINX_SOCKET'' \<noteq> None then (Inr (), d)
      else apfst (map_err SocketRootFailed) (dp_outside (dp_socket_root host) d))"

definition configure_wsgi_env :: "string \<Rightarrow> env_map \<Rightarrow> env_map" where
  "configure_wsgi_env socket env =
     bt_insert ''UWSGI_DIE_ON_TERM'' ''1'' (bt_insert ''UWSGI_CHMOD_SOCKET'' ''660''
       (bt_insert ''UWSGI_THREADS'' UWSGI_THREADS (bt_insert ''UWSGI_PROCESSES'' UWSGI_PROCESSES
         (bt_insert ''RIKU_NGINX_WSGI'' ''true'' (bt_insert ''UWSGI_SOCKET'' socket
           (bt_insert ''SOCKET'' (''unix://'' @ socket) env))))))"

definition web_env :: "string \<Rightarrow> u16 \<Rightarrow> env_map \<Rightarrow> env_map" where
  "web_env socket port env =
     bt_insert ''SOCKET'' socket (bt_insert ''RIKU_NGINX_EXTERNAL_PORT'' RIKU_NGINX_EXTERNAL_PORT
       (bt_insert ''RIKU_UPSTREAM_PORT'' (show_u16 port) (bt_insert ''RIKU_NGINX_PORTMAP'' ''true''
         (bt_insert ''PORT'' (show_u16 port) env))))"

definition configure_web_env :: "'w deploy_host \<Rightarrow> string \<Rightarrow> u16 list \<Rightarrow> env_map \<Rightarrow> ('w, env_map) deploy_call" where
  "configure_web_env host socket taken env =
     dp_then (dp_give (pinned_port env)) (\<lambda>pinned.
     dp_then (case pinned of
                Some port \<Rightarrow> dp_give (Inr port)
              | None \<Rightarrow> dp_outside (unused_port host PORT_PICK_ATTEMPTS taken))
       (\<lambda>port. dp_give (Inr (web_env socket port env))))"

definition rewrite_app_env :: "'w deploy_host \<Rightarrow> string \<Rightarrow> (env_map \<Rightarrow> bool \<times> env_map) \<Rightarrow> ('w, unit) deploy_call" where
  "rewrite_app_env host app change =
     dp_then (dp_try host (MakeEnvDir app) (CannotMakeEnvDir app)) (\<lambda>_ d.
     let d = (if bt_get (dd_env d) app = None then d\<lparr>dd_env := bt_insert app None (dd_env d)\<rparr> else d)
     in case dp_outside (dp_fault host (ReadEnv app)) d of
          (fault, d) \<Rightarrow>
            (case parse_settings (file_content (Option.bind (bt_get (dd_env d) app) (\<lambda>f. f)) fault) [] of
               (Inl e, _) \<Rightarrow> (Inl (CannotReadEnv app e), d)
             | (Inr _, persisted) \<Rightarrow>
                 (case change persisted of
                    (False, _) \<Rightarrow> (Inr (), d)
                  | (True, persisted) \<Rightarrow>
                      dp_then (dp_try host (WriteEnv app) (CannotWriteEnv app)) (\<lambda>_ d.
                        (Inr (), d\<lparr>dd_env := bt_insert app
                           (Some (write_config_text (\<lambda>ks. dp_walk host ks (dd_outer d)) ''='' persisted)) (dd_env d)\<rparr>)) d)))"

definition persist_route_env :: "'w deploy_host \<Rightarrow> string \<Rightarrow> string \<Rightarrow> ('w, unit) deploy_call" where
  "persist_route_env host app kind = rewrite_app_env host app (\<lambda>persisted. (True, apply_route_keys kind persisted))"

definition clear_route_env :: "'w deploy_host \<Rightarrow> string \<Rightarrow> ('w, unit) deploy_call" where
  "clear_route_env host app = rewrite_app_env host app drop_route_keys"

definition build_worker_env ::
  "'w deploy_host \<Rightarrow> riku_paths \<Rightarrow> string \<Rightarrow> string \<Rightarrow> copy_index \<Rightarrow> env_map \<Rightarrow> u16 list \<Rightarrow> ('w, env_map) deploy_call" where
  "build_worker_env host paths app kind copy base_env taken =
     (if \<not> is_web_facing kind then dp_give (Inr base_env)
      else let socket = listen_socket paths app copy base_env
           in dp_then
                (if is_wsgi_kind kind
                 then dp_then (ensure_socket_root host base_env) (\<lambda>_. dp_give (Inr (configure_wsgi_env socket base_env)))
                 else configure_web_env host socket taken base_env)
                (\<lambda>env. dp_then (persist_route_env host app kind) (\<lambda>_. dp_give (Inr env))))"

section \<open>files.rs\<close>

definition is_web_copy :: "string \<Rightarrow> bool" where
  "is_web_copy name = (case worker_name_parse (file_stem name) of Some w \<Rightarrow> is_web_facing (wn_kind w) | None \<Rightarrow> False)"

text \<open>A removal that fails is logged and passed over.\<close>

fun remove_names :: "'w deploy_host \<Rightarrow> string list \<Rightarrow> 'w deploy_disk \<Rightarrow> 'w deploy_disk" where
  "remove_names host [] d = d"
| "remove_names host (name # rest) d = remove_names host rest (snd (remove_enabled host (CannotRemoveFile name) name d))"

definition remove_stale_configs :: "'w deploy_host \<Rightarrow> string \<Rightarrow> 'w deploy_disk \<Rightarrow> 'w deploy_disk" where
  "remove_stale_configs host app d =
     (case app_worker_configs host app d of (names, d) \<Rightarrow> remove_names host (filter (\<lambda>name. \<not> is_web_copy name) names) d)"

definition is_surplus :: "(string, u32) btree \<Rightarrow> string \<Rightarrow> bool" where
  "is_surplus counts name =
     (case worker_name_parse (file_stem name) of
        None \<Rightarrow> False
      | Some w \<Rightarrow>
          \<not> is_web_facing (wn_kind w)
          \<and> (case bt_get counts (wn_kind w) of Some n \<Rightarrow> n < wn_ordinal w | None \<Rightarrow> False))"

definition remove_surplus_configs :: "'w deploy_host \<Rightarrow> string \<Rightarrow> (string, u32) btree \<Rightarrow> 'w deploy_disk \<Rightarrow> 'w deploy_disk" where
  "remove_surplus_configs host app counts d =
     (case app_worker_configs host app d of (names, d) \<Rightarrow> remove_names host (filter (is_surplus counts) names) d)"

definition write_worker_config ::
  "'w deploy_host \<Rightarrow> riku_paths \<Rightarrow> string \<Rightarrow> path \<Rightarrow> string \<Rightarrow> string \<Rightarrow> u32 \<Rightarrow> env_map \<Rightarrow> ('w, worker_config) deploy_call" where
  "write_worker_config host paths app app_path kind command index env =
     (let log_path = path_join (rp_log_root paths) [Normal app, Normal (kind @ ''.'' @ show_u32 index @ ''.log'')];
          config = create_worker_config app kind command index env (path_text app_path) (path_text log_path);
          filename = worker_file_name (info_name (wc_worker config))
      in case dp_to_toml host config of
           Inl e \<Rightarrow> dp_give (Inl (CannotSerialize filename e))
         | Inr serialized \<Rightarrow>
             dp_then (dp_try host (WriteAvailable filename) (CannotWrite filename)) (\<lambda>_ d.
             dp_then (dp_try host (LinkEnabled filename) (CannotEnable filename)) (\<lambda>_ d.
               (Inr config, d\<lparr>dd_enabled := bt_insert filename (LinkTo filename) (dd_enabled d)\<rparr>))
               (d\<lparr>dd_available := bt_insert filename serialized (dd_available d)\<rparr>)))"

section \<open>process\_runtime.rs\<close>

definition STOP_MARGIN :: duration where
  "STOP_MARGIN = from_secs 5"

record web_kind =
  wk_app :: string
  wk_app_path :: path
  wk_kind :: string
  wk_command :: string
  wk_env :: env_map
  wk_paths :: riku_paths

definition process_name :: "web_kind \<Rightarrow> copy_index \<Rightarrow> worker_name" where
  "process_name wk copy = worker_name_new (wk_app wk) (wk_kind wk) (copy_get copy)"

definition process_live_copy :: "web_kind \<Rightarrow> worker_config \<Rightarrow> (deploy_error, live_copy option) result" where
  "process_live_copy wk config =
     (case copy_index_new (wi_ordinal (wc_worker config)) of
        None \<Rightarrow> Inr None
      | Some copy \<Rightarrow>
          (case worker_backend config of
             Inr backend \<Rightarrow>
               Inr (Some \<lparr>lc_copy = copy, lc_backend = Some backend,
                 lc_handle = HandleProcess (wk_kind wk @ ''-'' @ show_u32 (copy_get copy))\<rparr>)
           | Inl e \<Rightarrow> Inl (NoUsableAddress (wk_kind wk) copy e)))"

definition grace_period :: "'w deploy_host \<Rightarrow> string \<Rightarrow> 'w deploy_disk \<Rightarrow> duration \<times> 'w deploy_disk" where
  "grace_period host filename d =
     (case parsed_worker host filename d of
        (config, d') \<Rightarrow>
          (from_secs (case config of Some c \<Rightarrow> wo_grace_period (wc_options c) | None \<Rightarrow> RIKU_WORKER_GRACE_PERIOD), d'))"

definition remove_copy_socket :: "'w deploy_host \<Rightarrow> web_kind \<Rightarrow> live_copy \<Rightarrow> ('w, unit) deploy_call" where
  "remove_copy_socket host wk copy d =
     (let own = copy_socket (wk_paths wk) (wk_app wk) (lc_copy copy)
      in if lc_backend copy \<noteq> Some (BackendUnix own) then (Inr (), d)
         else apfst (map_err (CannotRemoveFile (path_text own))) (dp_outside (dp_remove_socket host own) d))"

definition process_live :: "'w deploy_host \<Rightarrow> web_kind \<Rightarrow> ('w, live_copy list) deploy_call" where
  "process_live host wk =
     dp_then (web_copies host (wk_app wk)) (\<lambda>configs.
     dp_give (map_sum (\<lambda>e. e) (List.map_filter (\<lambda>c. c))
       (traverse (process_live_copy wk) (filter (\<lambda>c. wi_kind (wc_worker c) = wk_kind wk) configs))))"

definition process_start :: "'w deploy_host \<Rightarrow> web_kind \<Rightarrow> copy_index \<Rightarrow> ('w, live_copy) deploy_call" where
  "process_start host wk copy =
     dp_then (enabled_ports host (wk_app wk)) (\<lambda>taken.
     dp_then (build_worker_env host (wk_paths wk) (wk_app wk) (wk_kind wk) copy (wk_env wk) taken) (\<lambda>env.
     dp_then (write_worker_config host (wk_paths wk) (wk_app wk) (wk_app_path wk) (wk_kind wk) (wk_command wk)
                (copy_get copy) env) (\<lambda>written d.
       (case process_live_copy wk written of
          Inr (Some live) \<Rightarrow> Inr live
        | Inr None \<Rightarrow> Inl (NoCopyNumber (wk_kind wk) copy)
        | Inl e \<Rightarrow> Inl e,
        d\<lparr>dd_outer := dp_notify host (dd_outer d)\<rparr>))))"

definition process_wait_healthy :: "'w deploy_host \<Rightarrow> web_kind \<Rightarrow> live_copy \<Rightarrow> ('w, unit) deploy_call" where
  "process_wait_healthy host wk copy d =
     (case lc_backend copy of
        None \<Rightarrow> (Inl (NoAddress (wk_kind wk) (lc_copy copy)), d)
      | Some backend \<Rightarrow>
          (let target = (case backend of
                           BackendTcp _ port \<Rightarrow> procfile_target (bt_get (wk_env wk)) port
                         | BackendUnix p \<Rightarrow> TargetSocket p)
           in apfst (map_err CopyUnhealthy) (dp_outside (wait_healthy (dp_probes host) target None) d)))"

definition process_stop :: "'w deploy_host \<Rightarrow> web_kind \<Rightarrow> live_copy \<Rightarrow> ('w, unit) deploy_call" where
  "process_stop host wk copy d =
     (let name = process_name wk (lc_copy copy); filename = worker_file_name name
      in case grace_period host filename d of
           (grace, d) \<Rightarrow>
             dp_then (remove_enabled host (CannotDisable filename) filename) (\<lambda>_ d.
               let d = d\<lparr>dd_outer := dp_notify host (dd_outer d)\<rparr>;
                   d = snd (dp_outside (wait_stopped host (worker_name_display name) (grace + STOP_MARGIN)) d)
               in dp_then (remove_copy_socket host wk copy)
                    (\<lambda>_. remove_available host (CannotRemoveFile filename) filename) d) d)"

definition process_runtime :: "'w deploy_host \<Rightarrow> web_kind \<Rightarrow> (deploy_error, 'w deploy_disk) copy_runtime" where
  "process_runtime host wk = \<lparr>cr_live = process_live host wk, cr_start = process_start host wk,
     cr_wait_healthy = process_wait_healthy host wk, cr_stop = process_stop host wk,
     cr_discard = (\<lambda>copy d. snd (process_stop host wk copy d))\<rparr>"

section \<open>web\_rollout.rs\<close>

definition web_order :: "string \<Rightarrow> env_map \<Rightarrow> (deploy_error, replace_order_kind) result" where
  "web_order kind env =
     and_then (if kind = ''web'' then pinned_port env else Inr None) (\<lambda>pinned.
     Inr (if pinned \<noteq> None then StopFirst
          else if is_wsgi_kind kind \<and> bt_get env ''RIKU_NGINX_SOCKET'' \<noteq> None then StopFirst else Overlap))"

definition roll_web_kind ::
  "'w deploy_host \<Rightarrow> (deploy_error, 'w deploy_disk) route_sink \<Rightarrow> web_kind \<Rightarrow> u32 \<Rightarrow> ('w, unit) deploy_call" where
  "roll_web_kind host routes wk want =
     dp_then (dp_give (web_order (wk_kind wk) (wk_env wk))) (\<lambda>order d.
     apfst (map_err (RollFailed (wk_kind wk))) (replace_all (process_runtime host wk) routes order want d))"

fun stop_copies :: "'w deploy_host \<Rightarrow> web_kind \<Rightarrow> live_copy list \<Rightarrow> ('w, unit) deploy_call" where
  "stop_copies host wk [] d = (Inr (), d)"
| "stop_copies host wk (copy # rest) d =
     (case process_stop host wk copy d of
        (Inl e, d') \<Rightarrow> (Inl (StopCopyFailed (wk_kind wk) (lc_copy copy) e), d')
      | (Inr _, d') \<Rightarrow> stop_copies host wk rest d')"

definition stop_web_kind :: "'w deploy_host \<Rightarrow> web_kind \<Rightarrow> ('w, unit) deploy_call" where
  "stop_web_kind host wk d =
     (case process_live host wk d of
        (Inl e, d') \<Rightarrow> (Inl (ListCopiesFailed (wk_kind wk) e), d')
      | (Inr live, d') \<Rightarrow> stop_copies host wk live d')"

section \<open>workers.rs\<close>

definition WEB_KIND :: string where
  "WEB_KIND = ''web''"

definition ONE_SHOT_KINDS :: "string list" where
  "ONE_SHOT_KINDS = [''release'', ''preflight'']"

definition restart_wanted :: "env_map \<Rightarrow> bool" where
  "restart_wanted env =
     (case bt_get env ''RIKU_AUTO_RESTART'' of
        Some v \<Rightarrow> to_ascii_lowercase v \<noteq> ''false'' \<and> v \<noteq> ''0'' \<and> v \<noteq> ''no''
      | None \<Rightarrow> True)"

record web_deploy =
  wd_app :: string
  wd_app_path :: path
  wd_env :: env_map
  wd_paths :: riku_paths

definition kind_of :: "web_deploy \<Rightarrow> string \<Rightarrow> string \<Rightarrow> web_kind" where
  "kind_of deploy kind command = \<lparr>wk_app = wd_app deploy, wk_app_path = wd_app_path deploy, wk_kind = kind, wk_command = command,
     wk_env = wd_env deploy, wk_paths = wd_paths deploy\<rparr>"

fun write_each :: "'w deploy_host \<Rightarrow> web_deploy \<Rightarrow> string \<Rightarrow> string \<Rightarrow> u32 list \<Rightarrow> ('w, unit) deploy_call" where
  "write_each host deploy kind command [] d = (Inr (), d)"
| "write_each host deploy kind command (n # rest) d =
     (case copy_index_new n of
        None \<Rightarrow> write_each host deploy kind command rest d
      | Some copy \<Rightarrow>
          dp_then (build_worker_env host (wd_paths deploy) (wd_app deploy) kind copy (wd_env deploy) []) (\<lambda>env.
          dp_then (write_worker_config host (wd_paths deploy) (wd_app deploy) (wd_app_path deploy) kind command (copy_get copy) env)
            (\<lambda>_. write_each host deploy kind command rest)) d)"

definition write_copies :: "'w deploy_host \<Rightarrow> web_deploy \<Rightarrow> string \<Rightarrow> string \<Rightarrow> u32 \<Rightarrow> ('w, unit) deploy_call" where
  "write_copies host deploy kind command n = write_each host deploy kind command (map of_nat [1 ..< Suc (unat n)])"

fun stop_kinds :: "'w deploy_host \<Rightarrow> web_deploy \<Rightarrow> string list \<Rightarrow> ('w, unit) deploy_call" where
  "stop_kinds host deploy [] d = (Inr (), d)"
| "stop_kinds host deploy (kind # rest) d =
     dp_then (stop_web_kind host (kind_of deploy kind [])) (\<lambda>_. stop_kinds host deploy rest) d"

definition stop_dropped_kinds :: "'w deploy_host \<Rightarrow> web_deploy \<Rightarrow> env_map \<Rightarrow> ('w, unit) deploy_call" where
  "stop_dropped_kinds host deploy kept =
     dp_then (web_copies host (wd_app deploy)) (\<lambda>running.
     stop_kinds host deploy
       (remdups_adj (sort (filter (\<lambda>kind. bt_get kept kind = None) (map (\<lambda>c. wi_kind (wc_worker c)) running)))))"

fun read_kind_counts :: "'w deploy_host \<Rightarrow> string \<Rightarrow> string list \<Rightarrow> ('w, (string, u32) btree) deploy_call" where
  "read_kind_counts host app [] d = (Inr [], d)"
| "read_kind_counts host app (kind # rest) d =
     dp_then (read_scaling_count host app kind) (\<lambda>n.
     dp_then (read_kind_counts host app rest) (\<lambda>counts. dp_give (Inr (bt_insert kind n counts)))) d"

fun start_kinds ::
  "'w deploy_host \<Rightarrow> (deploy_error, 'w deploy_disk) route_sink \<Rightarrow> web_deploy \<Rightarrow> string option \<Rightarrow> (string, u32) btree
     \<Rightarrow> (string \<times> string) list \<Rightarrow> ('w, unit) deploy_call" where
  "start_kinds host routes deploy start_cmd counts [] d = (Inr (), d)"
| "start_kinds host routes deploy start_cmd counts ((kind, command) # rest) d =
     (let effective_cmd = (if command = [] then (case start_cmd of Some c \<Rightarrow> c | None \<Rightarrow> command) else command);
          n = (case bt_get counts kind of Some n \<Rightarrow> n | None \<Rightarrow> 1)
      in dp_then
           (if is_web_facing kind
            then (if n = 0 then stop_web_kind host (kind_of deploy kind [])
                  else roll_web_kind host routes (kind_of deploy kind effective_cmd) n)
            else write_copies host deploy kind effective_cmd n)
           (\<lambda>_. start_kinds host routes deploy start_cmd counts rest) d)"

definition procfile_entries :: "env_map option \<Rightarrow> string option \<Rightarrow> env_map option" where
  "procfile_entries parsed start_cmd =
     (case parsed of
        Some e \<Rightarrow> (if e \<noteq> [] then Some e else map_option (\<lambda>cmd. [(WEB_KIND, cmd)]) start_cmd)
      | None \<Rightarrow> map_option (\<lambda>cmd. [(WEB_KIND, cmd)]) start_cmd)"

definition run_entries ::
  "'w deploy_host \<Rightarrow> (deploy_error, 'w deploy_disk) route_sink \<Rightarrow> web_deploy \<Rightarrow> string option \<Rightarrow> env_map \<Rightarrow> ('w, unit) deploy_call" where
  "run_entries host routes deploy start_cmd entries =
     dp_then (if list_ex is_web_facing (bt_keys entries) then dp_give (Inr ()) else clear_route_env host (wd_app deploy)) (\<lambda>_ d.
     let processes = List.map_filter (\<lambda>kind. map_option (Pair kind) (bt_get entries kind))
           (filter (\<lambda>kind. kind \<notin> set ONE_SHOT_KINDS) (dp_walk host (bt_keys entries) (dd_outer d)))
     in dp_then (read_kind_counts host (wd_app deploy) (map fst processes)) (\<lambda>counts d.
        dp_then (start_kinds host routes deploy start_cmd counts processes) (\<lambda>_. stop_dropped_kinds host deploy entries)
          (remove_surplus_configs host (wd_app deploy) counts d)) d)"

definition create_workers_with ::
  "'w deploy_host \<Rightarrow> 'c cron_engine \<Rightarrow> (deploy_error, 'w deploy_disk) route_sink \<Rightarrow> web_deploy \<Rightarrow> file_read \<Rightarrow> string option
     \<Rightarrow> ('w, unit) deploy_call" where
  "create_workers_with host cron routes deploy procfile start_cmd =
     dp_then (check_pinned_port host (wd_app deploy) (wd_env deploy)) (\<lambda>_.
     dp_then (check_custom_socket host (wd_app deploy) (wd_env deploy)) (\<lambda>_ d.
     let d = (if restart_wanted (wd_env deploy) then remove_stale_configs host (wd_app deploy) d else d)
     in case parse_procfile cron procfile of
          Inl e \<Rightarrow> (Inl (DeployProcfile e), d)
        | Inr parsed \<Rightarrow>
            (case procfile_entries parsed start_cmd of
               None \<Rightarrow> (Inr (), d)
             | Some entries \<Rightarrow> run_entries host routes deploy start_cmd entries d)))"

section \<open>scaling.rs\<close>

fun remove_scaled_down :: "'w deploy_host \<Rightarrow> string \<Rightarrow> string \<Rightarrow> u32 list \<Rightarrow> ('w, unit) deploy_call" where
  "remove_scaled_down host app kind [] d = (Inr (), d)"
| "remove_scaled_down host app kind (ordinal # rest) d =
     (let filename = worker_file_name (worker_name_new app kind ordinal)
      in if enabled_text d filename = None then remove_scaled_down host app kind rest d
         else dp_then (remove_enabled host (CannotRemoveFile filename) filename)
                (\<lambda>_. remove_scaled_down host app kind rest) d)"

definition ordinals :: "u32 \<Rightarrow> u32 \<Rightarrow> u32 list" where
  "ordinals a b = map of_nat [unat a ..< Suc (unat b)]"

fun remove_all_scaled_down ::
  "'w deploy_host \<Rightarrow> string \<Rightarrow> (string, u32) btree \<Rightarrow> (string \<times> u32) list \<Rightarrow> ('w, unit) deploy_call" where
  "remove_all_scaled_down host app old [] d = (Inr (), d)"
| "remove_all_scaled_down host app old ((kind, n) # rest) d =
     (let m = (case bt_get old kind of Some m \<Rightarrow> m | None \<Rightarrow> 1)
      in dp_then (if n < m then remove_scaled_down host app kind (ordinals (n + 1) m) else dp_give (Inr ()))
           (\<lambda>_. remove_all_scaled_down host app old rest) d)"

definition apply_scaling_deltas ::
  "'w deploy_host \<Rightarrow> string \<Rightarrow> (string \<times> int) list \<Rightarrow> string list \<Rightarrow> ('w, (string, u32) btree) deploy_call" where
  "apply_scaling_deltas host app deltas kinds d =
     (case dp_outside (dp_fault host (ReadScaling app)) d of
        (fault, d) \<Rightarrow>
          (case read_counts (file_content (bt_get (dd_scaling d) app) fault) of
             Inl e \<Rightarrow> (Inl (CannotReadScaling e), d)
           | Inr found \<Rightarrow>
               (let old = default_counts kinds found; counts = new_counts old deltas
                in dp_then (dp_try host (MakeEnvDir app) (CannotMakeEnvDir app)) (\<lambda>_ d.
                   dp_then (dp_try host (WriteScaling app) CannotWriteScaling) (\<lambda>_ d.
                   dp_then (remove_all_scaled_down host app old
                       (List.map_filter (\<lambda>kind. map_option (Pair kind) (bt_get counts kind))
                         (dp_walk host (bt_keys counts) (dd_outer d)))) (\<lambda>_. dp_give (Inr counts))
                     (d\<lparr>dd_scaling := bt_insert app (scaling_text counts) (dd_scaling d)\<rparr>))
                     (if bt_get (dd_env d) app = None then d\<lparr>dd_env := bt_insert app None (dd_env d)\<rparr> else d)) d)))"

section \<open>ps\_scale.rs\<close>

text \<open>\<open>str::parse::<i64>\<close>.\<close>

definition parse_i64 :: "string \<Rightarrow> int option" where
  "parse_i64 s =
     (case s of
        [] \<Rightarrow> None
      | c # digits \<Rightarrow>
          (if c = CHR ''-''
           then (if starts_with ''+'' digits then None else map_option (\<lambda>n. - int n) (parse_uint (2 ^ 63 + 1) digits))
           else map_option int (parse_uint (2 ^ 63) s)))"

text \<open>A setting that is refused is reported and ends the command without an error: \<open>Inl\<close>.\<close>

definition scale_delta :: "env_map \<Rightarrow> string \<Rightarrow> (deploy_error, string \<times> int) result" where
  "scale_delta worker_count setting =
     (case split_once (CHR ''='') setting of
        None \<Rightarrow> Inl (ScaleMalformed setting)
      | Some (k, v) \<Rightarrow>
          (let k = trim k
           in case parse_i64 (trim v) of
                None \<Rightarrow> Inl (ScaleMalformed setting)
              | Some c \<Rightarrow>
                  (if c < 0 then Inl (ScaleBelowZero k)
                   else case bt_get worker_count k of
                          None \<Rightarrow> Inr (k, c)
                        | Some current \<Rightarrow>
                            (case parse_i64 current of
                               Some current_val \<Rightarrow> Inr (k, c - current_val)
                             | None \<Rightarrow> Inl (ScaleMalformed setting)))))"

definition scale_deltas :: "file_read \<Rightarrow> string list \<Rightarrow> (deploy_error, (string \<times> int) list) result" where
  "scale_deltas content settings =
     and_then (map_err CannotReadScaling (fst (parse_settings content []))) (\<lambda>worker_count.
     map_sum (\<lambda>e. e) bt_collect (traverse (scale_delta worker_count) settings))"

section \<open>worker\_control.rs\<close>

definition checked_worker :: "string \<Rightarrow> string \<Rightarrow> u32 \<Rightarrow> (deploy_error, worker_name) result" where
  "checked_worker app kind ordinal =
     and_then (map_err BadAppName (validate_app_name app)) (\<lambda>app.
     if \<not> is_valid_kind kind then Inl (BadWorkerKind kind) else Inr (worker_name_new app kind ordinal))"

definition restart_worker :: "'w deploy_host \<Rightarrow> string \<Rightarrow> string \<Rightarrow> u32 \<Rightarrow> ('w, unit) deploy_call" where
  "restart_worker host app kind ordinal =
     dp_then (dp_give (checked_worker app kind ordinal)) (\<lambda>name d.
     let filename = worker_file_name name
     in if bt_get (dd_available d) filename = None then (Inl (NoWorkerConfig filename), d)
        else dp_then (dp_try host (LinkEnabled filename) (CannotEnable filename)) (\<lambda>_ d.
               (Inr (), d\<lparr>dd_enabled := bt_insert filename (LinkTo filename) (dd_enabled d)\<rparr>)) d)"

definition delete_worker :: "'w deploy_host \<Rightarrow> string \<Rightarrow> string \<Rightarrow> u32 \<Rightarrow> ('w, unit) deploy_call" where
  "delete_worker host app kind ordinal =
     dp_then (dp_give (checked_worker app kind ordinal)) (\<lambda>name.
     dp_then (read_scaling_count host (wn_app name) kind) (\<lambda>current.
     if ordinal \<noteq> current then dp_give (Inl (NotHighest kind ordinal current))
     else dp_then (apply_scaling_deltas host (wn_app name) [(kind, -1)] [kind]) (\<lambda>_. dp_give (Inr ()))))"

end
