(* ===== verification/Settings_Safety.thy ===== *)
theory Settings_Safety
  imports Control_Safety Web_Deploy
begin

text \<open>
  What a deploy does to the files an app is configured by: settings that survive the rewriting of an \<open>ENV\<close> file and those that do
  not, and the worker counts that \<open>ps:scale\<close> asks for.
\<close>

section \<open>Settings read back\<close>

definition plain_value :: "string \<Rightarrow> bool" where
  "plain_value v \<longleftrightarrow> (v \<noteq> [] \<longrightarrow> \<not> is_whitespace (hd v) \<and> \<not> is_whitespace (last v))
     \<and> (\<forall>c \<in> set v. (\<not> is_control c \<or> c = CHR 0x09) \<and> c \<noteq> CHR ''$'')"

definition plain_settings :: "env_map \<Rightarrow> bool" where
  "plain_settings env \<longleftrightarrow> (\<forall>(k, v) \<in> set env. scaling_name k \<and> plain_value v)"

lemma expandvars_plain: "CHR ''$'' \<notin> set s \<Longrightarrow> expandvars env other s = s"
  by (induction s) auto

lemma plain_line:
  assumes "scaling_name k" and "plain_value v"
  shows "settings_lines ((k @ ''='' @ v) # rest) env = settings_lines rest (bt_insert k v env)"
    and "NEWLINE \<notin> set (k @ ''='' @ v)" and "strip_cr (k @ ''='' @ v) = k @ ''='' @ v"
proof -
  let ?line = "k @ ''='' @ v"
  have val: "trim v = v" "clean_setting v = v" "CHR ''$'' \<notin> set v"
    using assms(2) by (auto simp: plain_value_def clean_setting_def filter_id_conv intro: trim_id)
  have key: "trim k = k" using assms(1) by (intro trim_id) (simp_all add: scaling_name_def)
  have parts: "split_once (CHR ''='') ?line = Some (k, v)" using assms(1) by (simp add: scaling_name_def)
  have start: "\<not> (?line = [] \<or> starts_with ''#'' ?line \<or> trim ?line = [])"
  proof -
    obtain c k' where k: "k = c # k'" "\<not> is_whitespace c" "c \<noteq> CHR ''#''" using assms(1) by (cases k) (auto simp: scaling_name_def)
    have "trim ?line \<noteq> []" using k by (auto simp: trim_def trim_start_def trim_end_def dropWhile_eq_Nil_conv)
    then show ?thesis using k by auto
  qed
  show "settings_lines (?line # rest) env = settings_lines rest (bt_insert k v env)"
    by (simp only: settings_lines.simps if_not_P [OF start] parts option.case prod.case key val(1,2) expandvars_plain [OF val(3)])
  have plain: "c \<noteq> NEWLINE \<and> c \<noteq> CHR 0x0D" if "c \<in> set v" for c
  proof -
    have "\<not> is_control c \<or> c = CHR 0x09" using assms(2) that by (simp add: plain_value_def)
    moreover have "is_control NEWLINE" "is_control (CHR 0x0D)" by (simp_all add: is_control_def)
    ultimately show ?thesis by auto
  qed
  show "NEWLINE \<notin> set ?line" using assms(1) plain by (auto simp: scaling_name_def)
  have "last ?line \<noteq> CHR 0x0D" using plain last_in_set [of v] by (cases "v = []") auto
  then show "strip_cr ?line = ?line" by (rule strip_cr_id)
qed

definition setting_of :: "env_map \<Rightarrow> string \<Rightarrow> string" where
  "setting_of env k = (case bt_get env k of Some v \<Rightarrow> v | None \<Rightarrow> [])"

lemma write_lines:
  assumes "\<forall>k \<in> set ks. scaling_name k \<and> plain_value (setting_of env k)"
  shows "lines (concat (map (\<lambda>k. k @ ''='' @ setting_of env k @ [NEWLINE]) ks)) = map (\<lambda>k. k @ ''='' @ setting_of env k) ks"
  using assms
proof (induction ks)
  case Nil
  then show ?case by (simp add: lines_def split_on_def)
next
  case (Cons k ks)
  let ?line = "k @ ''='' @ setting_of env k" and ?rest = "concat (map (\<lambda>k. k @ ''='' @ setting_of env k @ [NEWLINE]) ks)"
  have "lines (?line @ NEWLINE # ?rest) = ?line # lines ?rest"
    using lines_Cons [of ?line ?rest] plain_line(2,3) [of k "setting_of env k"] Cons.prems by simp
  then show ?case using Cons by simp
qed

lemma settings_lines_written:
  assumes "\<forall>k \<in> set ks. scaling_name k \<and> plain_value (setting_of env k)"
  shows "settings_lines (map (\<lambda>k. k @ ''='' @ setting_of env k) ks) m = (True, bt_extend m (map (\<lambda>k. (k, setting_of env k)) ks))"
  using assms
proof (induction ks arbitrary: m)
  case (Cons k ks)
  then show ?case using plain_line(1) [of k "setting_of env k"] by (simp add: bt_extend_def)
qed (simp add: bt_extend_def)

text \<open>Settings without references or control characters read back, whatever order they are written in.\<close>

lemma settings_read_back:
  assumes "bt_ok env" and "plain_settings env" and "\<And>ks. mset (walk ks) = mset ks"
  shows "\<exists>env'. parse_settings (ReadText (write_config_text walk ''='' env)) [] = (Inr env', env') \<and> bt_get env' = bt_get env"
proof -
  let ?ks = "walk (bt_keys env)"
  have keys: "set ?ks = set (bt_keys env)" by (rule mset_eq_setD) (rule assms(3))
  have plain: "\<forall>k \<in> set ?ks. scaling_name k \<and> plain_value (setting_of env k)"
    using keys assms(1,2) by (auto simp: bt_keys_get setting_of_def plain_settings_def dest!: bt_get_Some_in split: option.splits)
  have written: "write_config_text walk ''='' env = concat (map (\<lambda>k. k @ ''='' @ setting_of env k @ [NEWLINE]) ?ks)"
    by (simp add: write_config_text_def setting_of_def)
  have "settings_lines (lines (write_config_text walk ''='' env)) [] = (True, bt_extend [] (map (\<lambda>k. (k, setting_of env k)) ?ks))"
    unfolding written write_lines [OF plain] by (rule settings_lines_written [OF plain])
  moreover have "bt_get (bt_extend [] (map (\<lambda>k. (k, setting_of env k)) ?ks)) = bt_get env"
  proof
    fix k
    have "map_of (rev (map (\<lambda>k. (k, setting_of env k)) ?ks)) k = (if k \<in> set ?ks then Some (setting_of env k) else None)"
      by (simp add: map_of_map_restrict [of "setting_of env"] rev_map restrict_map_def)
    also have "\<dots> = bt_get env k" using keys by (cases "bt_get env k") (auto simp: bt_keys_get setting_of_def)
    finally show "bt_get (bt_extend [] (map (\<lambda>k. (k, setting_of env k)) ?ks)) k = bt_get env k"
      by (simp add: bt_get_extend map_add_def bt_get_def [of "[]"] split: option.splits)
  qed
  ultimately show ?thesis by (simp add: parse_settings_def)
qed

section \<open>Rewriting the ENV file\<close>

definition no_faults :: "'w deploy_host \<Rightarrow> bool" where
  "no_faults host \<longleftrightarrow> (\<forall>op w. dp_fault host op w = (None, w))"

definition fair_disk_walk :: "'w deploy_host \<Rightarrow> bool" where
  "fair_disk_walk host \<longleftrightarrow> (\<forall>ks w. mset (dp_walk host ks w) = mset ks)"

lemma no_faults_try: "no_faults host \<Longrightarrow> dp_try host op err d = (Inr (), d)"
  by (simp add: dp_try_def dp_outside_def no_faults_def)

lemma no_faults_outside: "no_faults host \<Longrightarrow> dp_outside (dp_fault host op) d = (None, d)"
  by (simp add: dp_outside_def no_faults_def)

definition settings_on_disk :: "'w deploy_disk \<Rightarrow> string \<Rightarrow> env_map" where
  "settings_on_disk d app = snd (parse_settings (file_content (Option.bind (bt_get (dd_env d) app) (\<lambda>f. f)) None) [])"

lemma rewrite_run:
  assumes "no_faults host" and "bt_get (dd_env d) app = Some (Some content)"
  shows "rewrite_app_env host app (\<lambda>env. (True, change env)) d = (Inr (), d\<lparr>dd_env := bt_insert app
      (Some (write_config_text (\<lambda>ks. dp_walk host ks (dd_outer d)) ''='' (change (settings_on_disk d app)))) (dd_env d)\<rparr>)"
proof -
  have "\<exists>r. parse_settings (ReadText content) [] = (Inr r, settings_on_disk d app)"
    using assms(2) by (auto simp: settings_on_disk_def file_content_def parse_settings_def split: prod.splits bool.splits)
  then show ?thesis
    using assms(2) by (auto simp: rewrite_app_env_def dp_then_def no_faults_try [OF assms(1)] no_faults_outside [OF assms(1)] file_content_def)
qed

lemma apply_route_keys_get:
  "bt_get (apply_route_keys kind env) k =
     (if k \<in> set LEGACY_ADDRESS_KEYS then None
      else if k = ''RIKU_NGINX_WSGI'' then (if is_wsgi_kind kind then Some ''true'' else None)
      else if k = ''RIKU_NGINX_PORTMAP'' then (if is_wsgi_kind kind then None else Some ''true'')
      else if k = ''RIKU_NGINX_EXTERNAL_PORT'' then (if is_wsgi_kind kind then None else Some RIKU_NGINX_EXTERNAL_PORT)
      else bt_get env k)"
  by (auto simp: apply_route_keys_def Let_def LEGACY_ADDRESS_KEYS_def bt_get_insert bt_get_remove)

lemma settings_lines_ok: "bt_ok env \<Longrightarrow> bt_ok (snd (settings_lines ls env))"
proof (induction ls arbitrary: env)
  case (Cons l ls)
  show ?case
  proof (cases "l = [] \<or> starts_with ''#'' l \<or> trim l = []")
    case True
    then show ?thesis using Cons by simp
  next
    case False
    then show ?thesis using Cons by (cases "split_once (CHR ''='') l") (auto simp: bt_ok_insert)
  qed
qed simp

lemma parse_settings_snd:
  "snd (parse_settings (ReadText t) env) = snd (settings_lines (lines t) env)" "snd (parse_settings ReadMissing env) = env"
  "snd (parse_settings (file_read.ReadFailed e) env) = env"
  by (auto simp: parse_settings_def split: prod.splits bool.splits)

lemma settings_on_disk_ok: "bt_ok (settings_on_disk d app)"
proof -
  have "bt_ok (snd (settings_lines ls []))" for ls by (rule settings_lines_ok) (simp add: bt_ok_def)
  then have "bt_ok (snd (parse_settings r []))" for r by (cases r) (simp_all add: parse_settings_snd bt_ok_def [of "[]"])
  then show ?thesis by (simp add: settings_on_disk_def)
qed

lemma plain_settings_insert: "plain_settings env \<Longrightarrow> scaling_name k \<Longrightarrow> plain_value v \<Longrightarrow> plain_settings (bt_insert k v env)"
  unfolding plain_settings_def by (rule bt_insert_all) auto

lemma plain_settings_remove: "plain_settings env \<Longrightarrow> plain_settings (bt_remove k env)"
  by (auto simp: plain_settings_def bt_remove_def)

lemma apply_route_keys_plain: "plain_settings env \<Longrightarrow> plain_settings (apply_route_keys kind env)"
proof -
  have "scaling_name ''RIKU_NGINX_WSGI''" "scaling_name ''RIKU_NGINX_PORTMAP''" "scaling_name ''RIKU_NGINX_EXTERNAL_PORT''"
      "plain_value ''true''" "plain_value RIKU_NGINX_EXTERNAL_PORT"
    by code_simp+
  then show "plain_settings env \<Longrightarrow> plain_settings (apply_route_keys kind env)"
    by (simp add: apply_route_keys_def Let_def LEGACY_ADDRESS_KEYS_def plain_settings_insert plain_settings_remove)
qed

lemma apply_route_keys_ok: "bt_ok env \<Longrightarrow> bt_ok (apply_route_keys kind env)"
  by (simp add: apply_route_keys_def Let_def LEGACY_ADDRESS_KEYS_def bt_ok_insert bt_ok_remove)


lemma settings_lines_append:
  "settings_lines (xs @ ys) env = (case settings_lines xs env of (True, env') \<Rightarrow> settings_lines ys env' | (False, env') \<Rightarrow> (False, env'))"
  by (induction xs env rule: settings_lines.induct) (auto split: option.splits)

text \<open>
  A malformed line in an \<open>ENV\<close> file costs the settings after it: the reader gives up at the line and promises to
  ignore the file, but a deploy writes the settings read so far back over it, so that what stood below the line, whatever it
  was, is gone from the disk.
\<close>

lemma env_rewrite_truncates:
  assumes "no_faults host" and "bt_get (dd_env d) app = Some (Some content)" and "lines content = before @ bad # below"
    and "settings_lines before [] = (True, env)"
    and "trim bad \<noteq> []" and "\<not> starts_with ''#'' bad" and "CHR ''='' \<notin> set bad"
  shows "fst (parse_settings (ReadText content) []) = Inr []
    \<and> persist_route_env host app kind d = (Inr (), d\<lparr>dd_env := bt_insert app
        (Some (write_config_text (\<lambda>ks. dp_walk host ks (dd_outer d)) ''='' (apply_route_keys kind env))) (dd_env d)\<rparr>)"
proof -
  have "bad \<noteq> []" using assms(5) by (auto simp: trim_def trim_start_def trim_end_def)
  then have "settings_lines (bad # below) env = (False, env)" using assms(5-7) split_once_None [THEN iffD2, OF assms(7)] by simp
  then have lines: "settings_lines (lines content) [] = (False, env)" by (simp add: assms(3,4) settings_lines_append)
  then have "settings_on_disk d app = env" using assms(2) by (simp add: settings_on_disk_def file_content_def parse_settings_def)
  then show ?thesis
    using rewrite_run [OF assms(1,2), of "apply_route_keys kind"] lines by (simp add: persist_route_env_def parse_settings_def)
qed

text \<open>
  A reference that could not be resolved is kept as text, and the order of a rewritten file is arbitrary: the same reference can
  be resolved the next time, and the value changes although nobody set it.
\<close>

lemma reference_resolved_later:
  "settings_lines [''A=$B'', ''B=x''] [] = (True, [(''A'', ''$B''), (''B'', ''x'')])
   \<and> settings_lines [''B=x'', ''A=$B''] [] = (True, [(''A'', ''x''), (''B'', ''x'')])"
  by code_simp

section \<open>Worker counts\<close>

lemma scaled_count_exact:
  assumes "c < 2 ^ 32"
  shows "scaled_count n (int c - int (unat n)) = of_nat c"
proof (cases "c < unat n")
  case True
  let ?m = "unat n - c"
  have "unat n < 2 ^ 32" using unsigned_less [of n, where ?'a = nat] by simp
  then have small: "unat (of_nat ?m :: u32) = ?m" by (simp add: unat_of_nat)
  have "int (unat n) - int c = int ?m" using True by simp
  then have delta: "word_of_int (int (unat n) - int c) = (of_nat ?m :: u32)" by (simp only: of_int_of_nat_eq)
  have "(of_nat (unat n) :: u32) = of_nat c + of_nat ?m" using True by (simp flip: of_nat_add)
  then have "n = of_nat c + of_nat ?m" by simp
  then have "n - of_nat ?m = of_nat c" by (metis add_diff_cancel_right')
  moreover have "int c - int (unat n) < 0" "- (int c - int (unat n)) = int (unat n) - int c" "\<not> unat n < ?m" using True by linarith+
  ultimately show ?thesis unfolding scaled_count_def by (simp only: delta small if_True if_False)
next
  case False
  then have "int c - int (unat n) = int (c - unat n)" by simp
  then have "word_of_int (int c - int (unat n)) = (of_nat (c - unat n) :: u32)" by (simp only: of_int_of_nat_eq)
  moreover have "n + of_nat (c - unat n) = of_nat c"
  proof -
    have "(of_nat (unat n) :: u32) + of_nat (c - unat n) = of_nat c" using False by (simp flip: of_nat_add)
    then show ?thesis by simp
  qed
  moreover have "\<not> int c - int (unat n) < 0" using False by linarith
  ultimately show ?thesis unfolding scaled_count_def by (simp only: if_False)
qed

lemma show_u32_plain: "plain_value (show_u32 n)"
proof -
  have "\<not> is_whitespace c \<and> \<not> is_control c \<and> c \<noteq> CHR ''$''" if "is_ascii_digit c" for c
    using that by (auto simp: char_class_defs)
  then show ?thesis using show_u32_digits [of n] hd_in_set [of "show_u32 n"] last_in_set [of "show_u32 n"]
    by (auto simp: plain_value_def list_all_iff)
qed

lemma scaling_settings:
  assumes "\<forall>e \<in> set counts. scaling_name (fst e)"
  shows "settings_lines (map (\<lambda>(name, n). name @ ''='' @ show_u32 n) counts) m = (True, bt_extend m (map (apsnd show_u32) counts))"
  using assms
proof (induction counts arbitrary: m)
  case (Cons e counts)
  obtain k n where e: "e = (k, n)" by (cases e)
  have "scaling_name k" using Cons.prems by (simp add: e)
  then show ?case using Cons plain_line(1) [OF _ show_u32_plain, of k n] by (simp add: e bt_extend_def)
qed (simp add: bt_extend_def)

lemma count_line_entry:
  assumes "scaling_name name"
  shows "count_line (name @ ''='' @ show_u32 n) m = bt_insert name n m"
proof -
  have "parse_count (name @ ''='' @ show_u32 n) = Inr (Some (name, n))" by (rule parse_count_entry [OF assms])
  then show ?thesis by (auto simp: parse_count_def count_line_def Let_def split: if_splits option.splits)
qed

lemma read_counts_text:
  assumes "\<forall>e \<in> set counts. scaling_name (fst e)"
  shows "read_counts (ReadText (scaling_text counts)) = Inr (bt_extend [] counts)"
proof -
  have "fold count_line (map (\<lambda>(name, n). name @ ''='' @ show_u32 n) counts) m = bt_extend m counts" for m
    using assms
  proof (induction counts arbitrary: m)
    case (Cons e counts)
    then show ?case using count_line_entry [of "fst e" "snd e"] by (cases e) (simp add: bt_extend_def)
  qed (simp add: bt_extend_def)
  then show ?thesis by (simp add: read_counts_def scaling_text_lines [OF assms])
qed

lemma bt_get_extend_self:
  assumes "bt_ok m"
  shows "bt_get (bt_extend [] m) = bt_get m"
proof -
  have "map_of (rev m) = map_of m" by (subst map_of_inject_set) (use bt_ok_distinct [OF assms] in \<open>simp_all flip: rev_map\<close>)
  then show ?thesis using bt_get_extend [of "[]" m] by (simp add: bt_get_def [abs_def])
qed

lemma remove_scaled_down_run:
  assumes "no_faults host"
  shows "\<exists>es. remove_scaled_down host app kind ns d = (Inr (), d\<lparr>dd_enabled := es\<rparr>)"
proof (induction ns arbitrary: d)
  case Nil
  have "d = d\<lparr>dd_enabled := dd_enabled d\<rparr>" by simp
  then show ?case by (metis remove_scaled_down.simps(1))
next
  case (Cons n ns)
  let ?f = "worker_file_name (worker_name_new app kind n)"
  obtain es where "remove_scaled_down host app kind ns (d\<lparr>dd_enabled := bt_remove ?f (dd_enabled d)\<rparr>)
      = (Inr (), d\<lparr>dd_enabled := bt_remove ?f (dd_enabled d)\<rparr>\<lparr>dd_enabled := es\<rparr>)" using Cons.IH by blast
  then show ?case using Cons.IH [of d] by (auto simp: Let_def dp_then_def remove_enabled_def no_faults_try [OF assms])
qed

lemma remove_all_scaled_down_run:
  assumes "no_faults host"
  shows "\<exists>es. remove_all_scaled_down host app old ns d = (Inr (), d\<lparr>dd_enabled := es\<rparr>)"
proof (induction ns arbitrary: d)
  case Nil
  have "d = d\<lparr>dd_enabled := dd_enabled d\<rparr>" by simp
  then show ?case by (metis remove_all_scaled_down.simps(1))
next
  case (Cons e ns)
  obtain kind n where e: "e = (kind, n)" by (cases e)
  let ?m = "case bt_get old kind of Some m \<Rightarrow> m | None \<Rightarrow> 1"
  obtain es where one: "(if n < ?m then remove_scaled_down host app kind (ordinals (n + 1) ?m) else dp_give (Inr ())) d = (Inr (), d\<lparr>dd_enabled := es\<rparr>)"
  proof (cases "n < ?m")
    case True
    then show ?thesis using that remove_scaled_down_run [OF assms, of app kind "ordinals (n + 1) ?m" d] by auto
  next
    case False
    then show ?thesis using that [of "dd_enabled d"] by (simp add: dp_give_def)
  qed
  obtain es' where "remove_all_scaled_down host app old ns (d\<lparr>dd_enabled := es\<rparr>) = (Inr (), d\<lparr>dd_enabled := es\<rparr>\<lparr>dd_enabled := es'\<rparr>)"
    using Cons.IH by blast
  then show ?case by (auto simp: e Let_def dp_then_def one)
qed

lemma default_counts_get:
  "bt_get (default_counts kinds counts) k = (case bt_get counts k of Some n \<Rightarrow> Some n | None \<Rightarrow> if k \<in> set kinds then Some 1 else None)"
  unfolding default_counts_def
  by (induction kinds arbitrary: counts) (auto simp: bt_get_insert split: option.splits)

lemma apply_scaling_run:
  assumes "no_faults host" and "bt_get (dd_scaling d) app = Some (scaling_text counts)" and "\<forall>e \<in> set counts. scaling_name (fst e)"
  shows "\<exists>d'. apply_scaling_deltas host app deltas kinds d = (Inr (new_counts (default_counts kinds (bt_extend [] counts)) deltas), d')
    \<and> bt_get (dd_scaling d') app = Some (scaling_text (new_counts (default_counts kinds (bt_extend [] counts)) deltas))"
proof -
  let ?old = "default_counts kinds (bt_extend [] counts)"
  let ?new = "new_counts ?old deltas"
  let ?d = "if bt_get (dd_env d) app = None then d\<lparr>dd_env := bt_insert app None (dd_env d)\<rparr> else d"
  let ?e = "?d\<lparr>dd_scaling := bt_insert app (scaling_text ?new) (dd_scaling ?d)\<rparr>"
  let ?ns = "List.map_filter (\<lambda>kind. map_option (Pair kind) (bt_get ?new kind)) (dp_walk host (bt_keys ?new) (dd_outer ?d))"
  obtain es where gone: "remove_all_scaled_down host app ?old ?ns ?e = (Inr (), ?e\<lparr>dd_enabled := es\<rparr>)"
    using remove_all_scaled_down_run [OF assms(1)] by blast
  have read: "read_counts (file_content (bt_get (dd_scaling d) app) None) = Inr (bt_extend [] counts)"
    using assms(2) read_counts_text [OF assms(3)] by (simp add: file_content_def)
  have "apply_scaling_deltas host app deltas kinds d = (Inr ?new, ?e\<lparr>dd_enabled := es\<rparr>)"
    unfolding apply_scaling_deltas_def no_faults_outside [OF assms(1)] prod.case read sum.case Let_def dp_then_def no_faults_try [OF assms(1)] gone
    by (simp add: dp_give_def)
  then show ?thesis by (simp add: bt_get_insert)
qed

lemma parse_i64_show:
  assumes "n < 2 ^ 63"
  shows "parse_i64 (show_nat n) = Some (int n)"
proof -
  have "show_nat n \<noteq> []" "list_all is_ascii_digit (show_nat n)" by (simp_all add: show_nat_digits)
  then obtain c ds where cs: "show_nat n = c # ds" "is_ascii_digit c" by (cases "show_nat n") auto
  have "c \<noteq> CHR ''-''" using cs(2) by (auto simp: is_ascii_digit_def)
  then show ?thesis using cs(1) parse_uint_show_nat [of n "2 ^ 63"] assms by (simp add: parse_i64_def)
qed

lemma bt_get_shown: "bt_get (bt_extend [] (map (apsnd show_u32) counts)) k = map_option show_u32 (bt_get (bt_extend [] counts) k)"
proof -
  have "map_of (map (apsnd show_u32) xs) k = map_option show_u32 (map_of xs k)" for xs by (induction xs) auto
  then show ?thesis by (simp add: bt_get_extend map_add_def bt_get_def [of "[]"] rev_map split: option.splits)
qed

lemma scale_request:
  assumes "\<forall>e \<in> set counts. scaling_name (fst e)" and "bt_ok counts" and "scaling_name kind" and "c < 2 ^ 63"
  shows "scale_deltas (ReadText (scaling_text counts)) [kind @ ''='' @ show_nat c]
    = Inr [(kind, case bt_get counts kind of Some n \<Rightarrow> int c - int (unat n) | None \<Rightarrow> int c)]"
proof -
  let ?env = "bt_extend [] (map (apsnd show_u32) counts)" and ?s = "kind @ ''='' @ show_nat c"
  have env: "fst (parse_settings (ReadText (scaling_text counts)) []) = Inr ?env"
    unfolding parse_settings_def file_read.case scaling_text_lines [OF assms(1)] scaling_settings [OF assms(1)] by simp
  have get: "bt_get ?env kind = map_option show_u32 (bt_get counts kind)"
    by (simp only: bt_get_shown bt_get_extend_self [OF assms(2)])
  have "plain_value (show_nat c)" if "c < 2 ^ 63" for c :: nat
  proof -
    have "\<not> is_whitespace x \<and> \<not> is_control x \<and> x \<noteq> CHR ''$''" if "is_ascii_digit x" for x
      using that by (auto simp: char_class_defs)
    then show ?thesis using show_nat_digits [of c] hd_in_set [of "show_nat c"] last_in_set [of "show_nat c"]
      by (auto simp: plain_value_def list_all_iff)
  qed
  then have num: "trim (show_nat c) = show_nat c" using assms(4) by (intro trim_id) (auto simp: plain_value_def)
  have key: "trim kind = kind" using assms(3) by (intro trim_id) (simp add: scaling_name_def)
  have parts: "split_once (CHR ''='') ?s = Some (kind, show_nat c)" using assms(3) by (simp add: scaling_name_def)
  have old: "parse_i64 (show_u32 n) = Some (int (unat n))" for n
    using unsigned_less [of n, where ?'a = nat] by (simp add: show_u32_def parse_i64_show)
  have "scale_delta ?env ?s = Inr (kind, case bt_get counts kind of Some n \<Rightarrow> int c - int (unat n) | None \<Rightarrow> int c)"
    unfolding scale_delta_def parts option.case prod.case Let_def num key parse_i64_show [OF assms(4)] get
    by (cases "bt_get counts kind") (simp_all add: old)
  then show ?thesis by (simp add: scale_deltas_def env bt_collect_def bt_extend_def)
qed

text \<open>
  Scaling reaches the number asked for: when the \<open>SCALING\<close> file of an app holds a count for a kind, asking for
  another count below \<open>2 ^ 32\<close> leads, through the difference to the old one and its 32-bit arithmetic, to exactly that
  count in the file; every other count is kept, and kinds of the Procfile without one get 1.
\<close>

lemma scale_reaches_request:
  assumes "no_faults host" and "bt_get (dd_scaling d) app = Some (scaling_text counts)" and "bt_ok counts"
    and "\<forall>e \<in> set counts. scaling_name (fst e)" and "bt_get counts kind = Some n" and "c < 2 ^ 32"
  shows "\<exists>deltas counts' d'. scale_deltas (ReadText (scaling_text counts)) [kind @ ''='' @ show_nat c] = Inr deltas
    \<and> apply_scaling_deltas host app deltas kinds d = (Inr counts', d')
    \<and> bt_get (dd_scaling d') app = Some (scaling_text counts') \<and> bt_get counts' kind = Some (of_nat c)
    \<and> (\<forall>other. other \<noteq> kind \<longrightarrow> bt_get counts' other
          = (case bt_get counts other of Some m \<Rightarrow> Some m | None \<Rightarrow> if other \<in> set kinds then Some 1 else None))"
proof -
  have name: "scaling_name kind" using bt_get_Some_in [OF assms(5)] assms(4) by auto
  let ?old = "default_counts kinds (bt_extend [] counts)" and ?deltas = "[(kind, int c - int (unat n))]"
  let ?new = "new_counts ?old ?deltas"
  have old: "bt_get ?old kind = Some n" by (simp add: default_counts_get bt_get_extend_self [OF assms(3)] assms(5))
  obtain d' where run: "apply_scaling_deltas host app ?deltas kinds d = (Inr ?new, d')" "bt_get (dd_scaling d') app = Some (scaling_text ?new)"
    using apply_scaling_run [OF assms(1,2,4)] by blast
  have "bt_get ?new kind = Some (of_nat c)" using scaled_count_exact [OF assms(6), of n] by (simp add: new_counts_def old bt_get_insert)
  moreover have "bt_get ?new other = (case bt_get counts other of Some m \<Rightarrow> Some m | None \<Rightarrow> if other \<in> set kinds then Some 1 else None)"
    if "other \<noteq> kind" for other
    using that by (simp add: new_counts_def bt_get_insert default_counts_get bt_get_extend_self [OF assms(3)])
  moreover have "scale_deltas (ReadText (scaling_text counts)) [kind @ ''='' @ show_nat c] = Inr ?deltas"
    using scale_request [OF assms(4,3) name, of c] assms(5,6) by simp
  ultimately show ?thesis using run by blast
qed

text \<open>
  For a kind the file has no count for the comment promises the number asked for; a kind of the Procfile has been given 1 by
  then, and the number is added to it.
\<close>

lemma fresh_kind_scaled_past_request:
  assumes "no_faults host" and "bt_get (dd_scaling d) app = Some (scaling_text counts)" and "bt_ok counts"
    and "\<forall>e \<in> set counts. scaling_name (fst e)" and "scaling_name kind" and "bt_get counts kind = None" and "kind \<in> set kinds"
    and "c < 2 ^ 32"
  shows "\<exists>counts' d'. apply_scaling_deltas host app [(kind, int c)] kinds d = (Inr counts', d')
    \<and> scale_deltas (ReadText (scaling_text counts)) [kind @ ''='' @ show_nat c] = Inr [(kind, int c)]
    \<and> bt_get counts' kind = Some (1 + of_nat c)"
proof -
  let ?old = "default_counts kinds (bt_extend [] counts)"
  have old: "bt_get ?old kind = Some 1" using assms(6,7) by (simp add: default_counts_get bt_get_extend_self [OF assms(3)])
  obtain d' where run: "apply_scaling_deltas host app [(kind, int c)] kinds d = (Inr (new_counts ?old [(kind, int c)]), d')"
    using apply_scaling_run [OF assms(1,2,4)] by blast
  have "bt_get (new_counts ?old [(kind, int c)]) kind = Some (1 + of_nat c)"
    by (simp add: new_counts_def old bt_get_insert scaled_count_def)
  then show ?thesis using run scale_request [OF assms(4,3,5), of c] assms(6,8) by simp
qed

section \<open>Removing one worker\<close>

lemma enabled_text_cong:
  "dd_enabled d = dd_enabled e \<Longrightarrow> dd_available d = dd_available e \<Longrightarrow> enabled_text d f = enabled_text e f"
  by (simp add: enabled_text_def split: option.splits enabled_entry.splits)

lemma scaling_count_entry:
  assumes "scaling_name k"
  shows "scaling_count_in ((k @ ''='' @ show_u32 n) # rest) kind = (if k = kind then n else scaling_count_in rest kind)"
proof -
  let ?line = "k @ ''='' @ show_u32 n"
  have "parse_count ?line = Inr (Some (k, n))" by (rule parse_count_entry [OF assms])
  then obtain key val where parts: "\<not> (trim ?line = [] \<or> starts_with ''#'' (trim ?line))"
      "split_once (CHR ''='') (trim ?line) = Some (key, val)" "trim key = k" "parse_u32 (trim val) = Some n"
    unfolding parse_count_def Let_def by (auto split: if_splits option.splits)
  show ?thesis
    unfolding scaling_count_in.simps(2) Let_def if_not_P [OF parts(1)] parts(2-4) option.case prod.case by simp
qed

lemma read_scaling_count_one:
  assumes "no_faults host" and "bt_get (dd_scaling d) app = Some (scaling_text [(kind, n)])" and "scaling_name kind"
  shows "read_scaling_count host app kind d = (Inr n, d)"
proof -
  have "lines (scaling_text [(kind, n)]) = [kind @ ''='' @ show_u32 n]" using scaling_text_lines [of "[(kind, n)]"] assms(3) by simp
  then have "scaling_count (ReadText (scaling_text [(kind, n)])) kind = Inr n"
    using scaling_count_entry [OF assms(3), of n "[]" kind] by (simp add: scaling_count_def)
  then show ?thesis by (simp add: read_scaling_count_def no_faults_outside [OF assms(1)] file_content_def assms(2))
qed

text \<open>
  Removing a web worker can miss it: copies of a web kind keep the numbers a rollout gave them, so the one copy of an
  app scaled to 1 need not be number 1.  The removal of number 1 then succeeds, records a count of 0 and leaves every
  enabled config in place, and the removal of the copy that runs is refused.
\<close>

lemma delete_worker_misses_copy:
  assumes "no_faults host" and "checked_worker app kind 1 = Inr name" and "scaling_name kind"
    and "bt_get (dd_scaling d) (wn_app name) = Some (scaling_text [(kind, 1)])"
    and "enabled_text d (worker_file_name name) = None" and "fair_disk_walk host" and "n \<noteq> 1"
  shows "\<exists>d'. delete_worker host app kind 1 d = (Inr (), d') \<and> dd_enabled d' = dd_enabled d
      \<and> bt_get (dd_scaling d') (wn_app name) = Some (scaling_text [(kind, 0)])
    \<and> delete_worker host app kind n d = (Inl (NotHighest kind n 1), d)"
proof -
  let ?app = "wn_app name"
  have name: "name = worker_name_new ?app kind 1" "\<And>m. checked_worker app kind m = Inr (worker_name_new ?app kind m)"
    using assms(2) by (auto simp: checked_worker_def and_then_def map_err_def worker_name_new_def split: sum.splits if_splits)
  have count: "read_scaling_count host ?app kind d = (Inr 1, d)" by (rule read_scaling_count_one [OF assms(1,4,3)])
  let ?d = "if bt_get (dd_env d) ?app = None then d\<lparr>dd_env := bt_insert ?app None (dd_env d)\<rparr> else d"
  let ?e = "?d\<lparr>dd_scaling := bt_insert ?app (scaling_text [(kind, 0)]) (dd_scaling ?d)\<rparr>"
  have read: "read_counts (file_content (bt_get (dd_scaling d) ?app) None) = Inr [(kind, 1)]"
    using read_counts_text [of "[(kind, 1)]"] assms(3) by (simp add: file_content_def assms(4) bt_extend_def)
  have new: "new_counts [(kind, 1)] [(kind, - 1)] = [(kind, 0)]" "default_counts [kind] [(kind, 1)] = [(kind, 1)]"
    by (simp_all add: new_counts_def default_counts_def bt_get_def scaled_count_def)
  have "mset (dp_walk host [kind] w) = {#kind#}" for w using assms(6) by (simp add: fair_disk_walk_def)
  then have walk: "dp_walk host (bt_keys [(kind, 0 :: u32)]) w = [kind]" for w by (simp add: bt_keys_def)
  have "enabled_text ?e (worker_file_name (worker_name_new ?app kind 1)) = None"
    using assms(5) name(1) enabled_text_cong [of ?e d] by simp
  moreover have "ordinals 1 1 = [1]" by (simp add: ordinals_def)
  ultimately have gone: "remove_all_scaled_down host ?app [(kind, 1)] [(kind, 0)] ?e = (Inr (), ?e)"
    by (simp add: Let_def dp_then_def bt_get_def)
  have picked: "List.map_filter (\<lambda>k. map_option (Pair k) (bt_get [(kind, 0 :: u32)] k)) [kind] = [(kind, 0)]"
    by (simp add: List.map_filter_def bt_get_def)
  have "apply_scaling_deltas host ?app [(kind, - 1)] [kind] d = (Inr [(kind, 0)], ?e)"
    unfolding apply_scaling_deltas_def no_faults_outside [OF assms(1)] prod.case read sum.case Let_def new(1) new(2) dp_then_def
      no_faults_try [OF assms(1)] walk picked gone by (simp add: dp_give_def)
  then have "delete_worker host app kind 1 d = (Inr (), ?e)"
    using name(2) [of 1] count by (simp add: delete_worker_def dp_then_def dp_give_def worker_name_new_def)
  moreover have "delete_worker host app kind n d = (Inl (NotHighest kind n 1), d)"
    using name(2) [of n] count assms(7) by (simp add: delete_worker_def dp_then_def dp_give_def worker_name_new_def)
  ultimately show ?thesis by (auto simp: bt_get_insert)
qed

section \<open>A disk without faults\<close>

definition quiet_host :: "unit deploy_host" where
  "quiet_host = \<lparr>dp_fault = (\<lambda>_. Pair None), dp_walk = (\<lambda>ks _. ks), dp_toml = (\<lambda>_. Inl ''no reader''),
     dp_to_toml = (\<lambda>_. Inl ''no writer''), dp_owner = (\<lambda>_. None), dp_markers = Pair None, dp_pid_exists = (\<lambda>_. Pair False),
     dp_pick_port = Pair (Inr 5000), dp_port_busy = (\<lambda>_. Pair False), dp_socket_root = Pair (Inr ()),
     dp_remove_socket = (\<lambda>_. Pair (Inr ())), dp_notify = (\<lambda>w. w), dp_probes = unit_probes, dp_now = (\<lambda>_. 0), dp_sleep = (\<lambda>_ w. w)\<rparr>"

lemma quiet_host_laws: "no_faults quiet_host" "fair_disk_walk quiet_host"
  by (simp_all add: no_faults_def fair_disk_walk_def quiet_host_def)

definition env_disk :: "string \<Rightarrow> unit deploy_disk" where
  "env_disk content = \<lparr>dd_enabled = [], dd_available = [], dd_env = [(''shop'', Some content)],
     dd_scaling = [(''shop'', scaling_text [(''web'', 1)])], dd_outer = ()\<rparr>"

lemma env_disk_get:
  "bt_get (dd_env (env_disk content)) ''shop'' = Some (Some content)"
  "bt_get (dd_scaling (env_disk content)) ''shop'' = Some (scaling_text [(''web'', 1)])"
  by (simp_all add: env_disk_def bt_get_def)

lemma web_scaling_name: "scaling_name ''web''" "scaling_name ''KEY''"
  by code_simp+


lemma delete_worker_misses_copy_instance:
  "\<exists>d'. delete_worker quiet_host ''shop'' ''web'' 1 ((env_disk [])\<lparr>dd_enabled := [(''shop@web.2.toml'', OwnFile [])]\<rparr>) = (Inr (), d')
    \<and> dd_enabled d' = [(''shop@web.2.toml'', OwnFile [])] \<and> bt_get (dd_scaling d') ''shop'' = Some (scaling_text [(''web'', 0)])
    \<and> delete_worker quiet_host ''shop'' ''web'' 2 ((env_disk [])\<lparr>dd_enabled := [(''shop@web.2.toml'', OwnFile [])]\<rparr>)
      = (Inl (NotHighest ''web'' 2 1), (env_disk [])\<lparr>dd_enabled := [(''shop@web.2.toml'', OwnFile [])]\<rparr>)"
proof -
  let ?d = "(env_disk [])\<lparr>dd_enabled := [(''shop@web.2.toml'', OwnFile [])]\<rparr>" and ?name = "worker_name_new ''shop'' ''web'' 1"
  have name: "checked_worker ''shop'' ''web'' 1 = Inr ?name" by code_simp
  have app: "wn_app ?name = ''shop''" by (simp add: worker_name_new_def)
  have "worker_file_name ?name = ''shop@web.1.toml''" by code_simp
  then have missing: "enabled_text ?d (worker_file_name ?name) = None" by (simp add: enabled_text_def bt_get_def)
  have scaling: "bt_get (dd_scaling ?d) (wn_app ?name) = Some (scaling_text [(''web'', 1)])" using env_disk_get(2) [of "[]"] by (simp add: app)
  show ?thesis
    using delete_worker_misses_copy [OF quiet_host_laws(1) name web_scaling_name(1) scaling missing quiet_host_laws(2), of 2]
    by (auto simp: app)
qed

end
