(* ===== verification/Frames.thy ===== *)
theory Frames
  imports Main
begin

text \<open>
  Frames: a reflexive and transitive relation between the state before and after a call, and the calls that stay within it.  The deploy
  of a Procfile app and the router helper both show with it which part of the state they can touch.
\<close>

section \<open>Calls within a relation\<close>

definition within :: "('s \<Rightarrow> 's \<Rightarrow> bool) \<Rightarrow> ('s \<Rightarrow> 'a \<times> 's) \<Rightarrow> bool" where
  "within R m \<longleftrightarrow> (\<forall>s. R s (snd (m s)))"

lemma withinD: "within R m \<Longrightarrow> m s = (r, s') \<Longrightarrow> R s s'"
  unfolding within_def by (metis snd_conv)

lemma withinI: "(\<And>s r s'. m s = (r, s') \<Longrightarrow> R s s') \<Longrightarrow> within R m"
  unfolding within_def by (metis prod.collapse)

locale frame =
  fixes R :: "'s \<Rightarrow> 's \<Rightarrow> bool"
  assumes frame_refl: "R s s" and frame_trans: "R s t \<Longrightarrow> R t u \<Longrightarrow> R s u"
begin

lemma within_give: "within R (\<lambda>s. (r, s))"
  by (simp add: within_def frame_refl)

lemma within_case: "within R m \<Longrightarrow> (\<And>a. within R (f a)) \<Longrightarrow> within R (\<lambda>s. case m s of (a, s') \<Rightarrow> f a s')"
  by (rule withinI) (auto split: prod.splits dest: withinD intro: frame_trans)

end

end
