(* ===== verification/Deploy_Frame.thy ===== *)
theory Deploy_Frame
  imports Settings_Safety Frames
begin

text \<open>
  Which files the deploy of a Procfile app touches: the frame \<open>kept\<close> relates the disk before and after, every operation of
  \<open>Web_Deploy\<close> that starts, rolls or stops workers stays within it, and so does a rollout over runtimes and routes that do.
\<close>

named_theorems frames \<open>operations that keep the files of other apps\<close>

section \<open>Rollouts within a relation\<close>

context frame begin

lemma within_lift: "within R m \<Longrightarrow> within R (lift_call err m)"
  by (simp add: within_def lift_call_def)

lemma within_bind:
  assumes "within R m" and "\<And>a. within R (f a)"
  shows "within R (bind m f)"
  unfolding within_def
proof
  fix s
  obtain r s' where m: "m s = (r, s')" by (metis prod.exhaust)
  then have "R s s'" using assms(1) unfolding within_def by (metis snd_conv)
  then show "R s (snd (bind m f s))"
    using m assms(2) frame_trans by (auto simp: bind_def within_def split: sum.splits)
qed

lemma within_publish: "(\<And>b. within R (rs_publish routes b)) \<Longrightarrow> within R (publish_live routes copies)"
  by (simp add: within_def publish_live_def Let_def frame_refl)

lemma within_start_healthy:
  assumes "\<And>i. within R (cr_start rt i)" and "\<And>c. within R (cr_wait_healthy rt c)" and "\<And>c s. R s (cr_discard rt c s)"
  shows "within R (start_healthy rt copies)"
proof -
  have "R s (snd (case cr_wait_healthy rt c s of (Inr _, s') \<Rightarrow> (Inr c, s') | (Inl e, s') \<Rightarrow> (Inl (Unhealthy i e), cr_discard rt c s')))"
    for c i s
    using assms(2) [of c] assms(3) frame_trans
    by (cases "cr_wait_healthy rt c s") (fastforce simp: within_def split: sum.splits dest: spec [of _ s])
  then show ?thesis
    unfolding start_healthy_def Let_def by (intro within_bind within_lift assms(1)) (simp add: within_def)
qed

lemma within_drain:
  assumes "\<And>b. within R (rs_publish routes b)" and "\<And>c. within R (cr_stop rt c)"
  shows "within R (drain_copy rt routes copies old)" and "within R (drain_all rt routes copies olds)"
proof -
  show one: "within R (drain_copy rt routes copies old)" for copies old
    unfolding drain_copy_def Let_def by (intro within_bind within_lift within_publish assms within_give)
  have bind: "within R (bind (drain_copy rt routes copies old) (\<lambda>copies. drain_all rt routes copies rest))"
    if "\<And>copies. within R (drain_all rt routes copies rest)" for copies old rest by (intro within_bind one that)
  show "within R (drain_all rt routes copies olds)"
  proof (induction olds arbitrary: copies)
    case (Cons old rest)
    show ?case using bind [OF Cons.IH] by (simp add: within_def)
  qed (simp add: within_def frame_refl)
qed

lemma within_add_until:
  assumes "\<And>b. within R (rs_publish routes b)" and "\<And>i. within R (cr_start rt i)"
    and "\<And>c. within R (cr_wait_healthy rt c)" and "\<And>c s. R s (cr_discard rt c s)"
  shows "within R (add_copy rt routes copies)" and "within R (add_until rt routes want copies)"
proof -
  show one: "within R (add_copy rt routes copies)" for copies
    unfolding add_copy_def publish_added_def
    by (intro within_bind within_lift within_publish assms(1) within_start_healthy assms(2-4) within_give)
  have "R s (snd (add_until rt routes want copies s))" for s
  proof (induction "want - length copies" arbitrary: copies s rule: less_induct)
    case less
    obtain r s' where add: "add_copy rt routes copies s = (r, s')" by (metis prod.exhaust)
    then have step: "R s s'" using one [of copies] unfolding within_def by (metis snd_conv)
    show ?case
    proof (cases r)
      case (Inr copies')
      have "want - length copies' < want - length copies" if "length copies < want"
        using add_copy_grows add Inr that by fastforce
      then show ?thesis
        using less [of copies' s'] add Inr step frame_trans frame_refl by (subst add_until.simps) auto
    qed (use add step frame_refl in \<open>subst add_until.simps, auto\<close>)
  qed
  then show "within R (add_until rt routes want copies)" by (simp add: within_def)
qed

lemma within_replace_each:
  assumes "\<And>b. within R (rs_publish routes b)" and "\<And>i. within R (cr_start rt i)" and "\<And>c. within R (cr_wait_healthy rt c)"
    and "\<And>c s. R s (cr_discard rt c s)" and "\<And>c. within R (cr_stop rt c)"
  shows "within R (replace_each rt routes order copies olds)"
proof -
  have fresh: "R s (snd (case start_healthy rt copies s of (Inl e, s') \<Rightarrow> (Inl (ReplacementFailed i n e), s')
      | (Inr fresh, s') \<Rightarrow> bind (publish_added routes (copies @ [fresh]) (lc_copy fresh)) (\<lambda>_ s. (Inr (copies @ [fresh]), s)) s'))"
    for copies i n s
  proof -
    obtain r s' where start: "start_healthy rt copies s = (r, s')" by (metis prod.exhaust)
    then have "R s s'" using within_start_healthy [OF assms(2-4), of copies] unfolding within_def by (metis snd_conv)
    moreover have "within R (bind (publish_added routes cs j) (\<lambda>_ s. (Inr cs, s)))" for cs :: "live_copy list" and j
      unfolding publish_added_def by (intro within_bind within_lift within_publish assms(1) within_give)
    ultimately show ?thesis using start frame_trans by (auto simp: within_def split: sum.splits)
  qed
  have one: "within R (replace_one rt routes order copies old)" for copies old
  proof (cases order)
    case Overlap
    then show ?thesis
      unfolding replace_one_def
      by (simp only: replace_order_kind.case) (intro within_bind within_add_until(1) within_drain(1) assms)
  next
    case StopFirst
    then show ?thesis
      unfolding replace_one_def
      by (simp only: replace_order_kind.case) (intro within_bind within_drain(1) assms, simp only: within_def, intro allI fresh)
  qed
  show ?thesis
  proof (induction olds arbitrary: copies)
    case (Cons old rest)
    then have "within R (bind (replace_one rt routes order copies old) (\<lambda>copies. replace_each rt routes order copies rest))"
      by (intro within_bind one)
    then show ?case by (simp add: within_def)
  qed (simp add: within_def frame_refl)
qed

lemma within_replace_all:
  assumes "\<And>b. within R (rs_publish routes b)" and "within R (rs_check routes)" and "within R (cr_live rt)"
    and "\<And>i. within R (cr_start rt i)" and "\<And>c. within R (cr_wait_healthy rt c)"
    and "\<And>c s. R s (cr_discard rt c s)" and "\<And>c. within R (cr_stop rt c)"
  shows "within R (replace_all rt routes order want)"
proof (cases "want = 0")
  case False
  then show ?thesis
    unfolding replace_all_def replace_copies_def Let_def
    by (simp only: if_False)
      (intro within_bind within_lift within_drain(2) within_replace_each within_add_until(2) assms within_give)
qed (simp add: replace_all_def replace_copies_def within_def bind_def frame_refl)

end

section \<open>Files of other apps\<close>

text \<open>The names a worker of the app can have, for any kind and number.\<close>

definition app_file :: "string \<Rightarrow> string \<Rightarrow> bool" where
  "app_file app f \<longleftrightarrow> (\<exists>kind n. f = worker_file_name (worker_name_new app kind n))"

text \<open>An enabled config that neither is named for the app nor says that it is its.\<close>

definition foreign_config :: "'w deploy_host \<Rightarrow> string \<Rightarrow> 'w deploy_disk \<Rightarrow> string \<Rightarrow> bool" where
  "foreign_config host app d f \<longleftrightarrow>
     \<not> app_file app f \<and> \<not> named_for f app \<and> (\<forall>g. bt_get (dd_enabled d) f = Some (LinkTo g) \<longrightarrow> \<not> app_file app g)
     \<and> (\<forall>content. enabled_text d f = Some content \<longrightarrow> dp_owner host content \<noteq> Some app)"

definition kept :: "'w deploy_host \<Rightarrow> string \<Rightarrow> 'w deploy_disk \<Rightarrow> 'w deploy_disk \<Rightarrow> bool" where
  "kept host app d d' \<longleftrightarrow>
     dd_scaling d' = dd_scaling d \<and> (\<forall>a. a \<noteq> app \<longrightarrow> bt_get (dd_env d') a = bt_get (dd_env d) a)
     \<and> (\<forall>f. \<not> app_file app f \<longrightarrow> bt_get (dd_available d') f = bt_get (dd_available d) f)
     \<and> (\<forall>f. foreign_config host app d f \<longrightarrow> bt_get (dd_enabled d') f = bt_get (dd_enabled d) f)"

lemma kept_text: "kept host app d d' \<Longrightarrow> foreign_config host app d f \<Longrightarrow> enabled_text d' f = enabled_text d f"
  by (auto simp: kept_def foreign_config_def enabled_text_def split: option.splits enabled_entry.splits)

lemma kept_foreign: "kept host app d d' \<Longrightarrow> foreign_config host app d f \<Longrightarrow> foreign_config host app d' f"
  using kept_text [of host app d d' f] by (auto simp: foreign_config_def kept_def)

interpretation deploy: frame "kept host app"
  for host :: "'w deploy_host" and app
proof
  show "kept host app d d" for d by (simp add: kept_def)
  show "kept host app d d2" if "kept host app d d1" "kept host app d1 d2" for d d1 d2
    using that kept_foreign [OF that(1)] by (auto simp: kept_def)
qed

lemma kept_outer: "kept host app d (d\<lparr>dd_outer := w\<rparr>)"
  by (simp add: kept_def)

lemma kept_step: "kept host app d0 d \<Longrightarrow> kept host app d d' \<Longrightarrow> kept host app d0 d'"
  by (rule deploy.frame_trans)

lemma within_outside [frames]: "within (kept host app) (dp_outside m)"
  by (simp add: within_def dp_outside_def kept_outer split: prod.splits)

lemma within_try [frames]: "within (kept host app) (dp_try host' op err)"
  by (simp add: within_def dp_try_def dp_outside_def kept_outer split: prod.splits option.splits)

lemma within_dp_give [frames]: "within (kept host app) (dp_give r)"
  by (simp add: within_def dp_give_def deploy.frame_refl)

lemma within_dp_then [frames]:
  "within (kept host app) m \<Longrightarrow> (\<And>a. within (kept host app) (f a)) \<Longrightarrow> within (kept host app) (dp_then m f)"
  by (rule withinI) (auto simp: dp_then_def split: prod.splits sum.splits dest: withinD intro: kept_step)

section \<open>Reading\<close>

lemma within_read_enabled [frames]: "within (kept host app) (read_enabled host name)"
  by (simp add: within_def read_enabled_def dp_outside_def kept_outer split: prod.splits option.splits)

lemma within_parsed_worker [frames]: "within (kept host app) (parsed_worker host name)"
  by (rule withinI) (auto simp: parsed_worker_def split: prod.splits option.splits dest: withinD [OF within_read_enabled])

lemma within_parsed_workers [frames]: "within (kept host app) (parsed_workers host names)"
proof (induction names)
  case (Cons name rest)
  show ?case
    by (rule withinI)
      (auto split: prod.splits if_splits dest!: withinD [OF within_parsed_worker [of host app]] withinD [OF Cons] intro: kept_step)
qed (simp add: within_def deploy.frame_refl)

lemma within_web_copies [frames]: "within (kept host app) (web_copies host app')"
proof -
  have "within (kept host app) (\<lambda>d. case parsed_workers host (names d) d of (configs, d') \<Rightarrow> (f configs, d'))" for names f
    by (rule withinI) (auto split: prod.splits dest!: withinD [OF within_parsed_workers [of host app]])
  then show ?thesis unfolding web_copies_def by (intro frames)
qed

lemma within_read_scaling [frames]: "within (kept host app) (read_scaling_count host app' kind)"
  by (simp add: within_def read_scaling_count_def dp_outside_def kept_outer split: prod.splits)

section \<open>Writing and removing\<close>

lemma app_file_own: "app_file app (worker_file_name (worker_name_new app kind n))"
  by (auto simp: app_file_def)

lemma kept_env: "kept host app d (d\<lparr>dd_env := bt_insert app v (dd_env d)\<rparr>)"
  by (auto simp: kept_def bt_get_insert)

lemma within_rewrite_env [frames]: "within (kept host app) (rewrite_app_env host app change)"
proof -
  have wrote: "within (kept host app) (dp_then (dp_try host op err) (\<lambda>_ d. (Inr (), d\<lparr>dd_env := bt_insert app (v d) (dd_env d)\<rparr>)))"
    for op err v by (intro frames) (simp add: within_def kept_env)
  have made: "kept host app d (if bt_get (dd_env d) app = None then d\<lparr>dd_env := bt_insert app None (dd_env d)\<rparr> else d)" for d
    by (simp add: kept_env deploy.frame_refl)
  show ?thesis
    unfolding rewrite_app_env_def
    by (intro frames withinI)
      (auto simp: Let_def split: prod.splits sum.splits bool.splits
        dest!: withinD [OF within_outside [of host app]] withinD [OF wrote] intro: kept_step [OF made] kept_step)
qed

lemma within_build_env [frames]: "within (kept host app) (build_worker_env host paths app kind copy base_env taken)"
proof -
  have "within (kept host app) (ensure_socket_root host base_env)"
    by (rule withinI) (auto simp: ensure_socket_root_def deploy.frame_refl apfst_def map_prod_def split: if_splits prod.splits
      dest!: withinD [OF within_outside [of host app]])
  moreover have "within (kept host app) (case pinned of Some port \<Rightarrow> dp_give (Inr port)
      | None \<Rightarrow> dp_outside (unused_port host PORT_PICK_ATTEMPTS taken))" for pinned
    by (cases pinned) (simp_all add: frames)
  ultimately show ?thesis
    unfolding build_worker_env_def Let_def configure_web_env_def persist_route_env_def by (simp add: frames)
qed

lemma within_remove_enabled [frames]: "app_file app name \<Longrightarrow> within (kept host app) (remove_enabled host err name)"
  unfolding remove_enabled_def by (intro frames) (auto simp: within_def kept_def bt_get_remove foreign_config_def)

lemma within_remove_available [frames]: "app_file app name \<Longrightarrow> within (kept host app) (remove_available host err name)"
  unfolding remove_available_def by (intro frames) (auto simp: within_def kept_def bt_get_remove)

lemma within_link:
  "app_file app name \<Longrightarrow> within (kept host app) (\<lambda>d. (r, d\<lparr>dd_enabled := bt_insert name entry (dd_enabled d)\<rparr>))"
  by (auto simp: within_def kept_def bt_get_insert foreign_config_def)

lemma within_write_config [frames]:
  "within (kept host app) (write_worker_config host paths app app_path kind command n env)"
proof -
  let ?config = "create_worker_config app kind command n env (path_text app_path)
    (path_text (path_join (rp_log_root paths) [Normal app, Normal (kind @ ''.'' @ show_u32 n @ ''.log'')]))"
  let ?f = "worker_file_name (info_name (wc_worker ?config))"
  have own: "app_file app ?f" by (simp add: create_worker_config_def Let_def info_name_def app_file_own)
  have link: "within (kept host app) (dp_then (dp_try host (LinkEnabled ?f) (CannotEnable ?f))
      (\<lambda>_ d. (Inr ?config, d\<lparr>dd_enabled := bt_insert ?f (LinkTo ?f) (dd_enabled d)\<rparr>)))"
    by (intro frames within_link own)
  have "kept host app d (d\<lparr>dd_available := bt_insert ?f content (dd_available d)\<rparr>)" for d content
    using own by (auto simp: kept_def bt_get_insert)
  then have "within (kept host app) (\<lambda>d. dp_then (dp_try host (LinkEnabled ?f) (CannotEnable ?f))
      (\<lambda>_ d. (Inr ?config, d\<lparr>dd_enabled := bt_insert ?f (LinkTo ?f) (dd_enabled d)\<rparr>))
      (d\<lparr>dd_available := bt_insert ?f content (dd_available d)\<rparr>))" for content
    by (intro withinI) (rule kept_step, assumption, erule withinD [OF link])
  then show ?thesis
    unfolding write_worker_config_def Let_def by (auto simp: frames split: sum.splits)
qed

section \<open>Configs of the app\<close>

lemma foreign_outer [simp]: "foreign_config host app (d\<lparr>dd_outer := w\<rparr>) f = foreign_config host app d f"
  by (simp add: foreign_config_def enabled_text_def split: option.splits enabled_entry.splits)

lemma belongs_to_foreign:
  assumes "belongs_to host app name d = (mine, d')"
  shows "\<exists>w. d' = d\<lparr>dd_outer := w\<rparr>" and "mine \<Longrightarrow> \<not> foreign_config host app d name"
  using assms
  by (auto simp: belongs_to_def read_enabled_def dp_outside_def foreign_config_def enabled_text_def bind_eq_Some_conv
      split: prod.splits option.splits enabled_entry.splits)

lemma owned_names_foreign:
  assumes "owned_names host app names d = (owned, d')"
  shows "\<exists>w. d' = d\<lparr>dd_outer := w\<rparr>" and "\<forall>f \<in> set owned. \<not> foreign_config host app d f"
proof -
  have "(\<exists>w. d' = d\<lparr>dd_outer := w\<rparr>) \<and> (\<forall>f \<in> set owned. \<not> foreign_config host app d f)"
    using assms
  proof (induction names arbitrary: d owned d')
    case Nil
    then show ?case by (auto intro: exI [of _ "dd_outer d"])
  next
    case (Cons name rest)
    show ?case
    proof (cases "is_config_file name")
      case True
      obtain mine d1 where one: "belongs_to host app name d = (mine, d1)" by (metis prod.exhaust)
      obtain fs d2 where rest: "owned_names host app rest d1 = (fs, d2)" by (metis prod.exhaust)
      obtain w where w: "d1 = d\<lparr>dd_outer := w\<rparr>" using belongs_to_foreign(1) [OF one] by blast
      show ?thesis
        using Cons.prems Cons.IH [OF rest] one rest True belongs_to_foreign(2) [OF one]
        by (auto simp: w split: if_splits)
    qed (use Cons in simp)
  qed
  then show "\<exists>w. d' = d\<lparr>dd_outer := w\<rparr>" "\<forall>f \<in> set owned. \<not> foreign_config host app d f" by simp_all
qed

lemma remove_names_kept:
  assumes "kept host app d0 d" and "\<forall>f \<in> set names. \<not> foreign_config host app d0 f"
  shows "kept host app d0 (remove_names host names d)"
  using assms
proof (induction names arbitrary: d)
  case (Cons name rest)
  have "kept host app d0 (d\<lparr>dd_outer := w\<rparr>)" for w using Cons.prems(1) by (rule kept_step) (rule kept_outer)
  then have "kept host app d0 (snd (remove_enabled host (CannotRemoveFile name) name d))"
    using Cons.prems(2)
    by (auto simp: remove_enabled_def dp_then_def dp_try_def dp_outside_def kept_def bt_get_remove split: prod.splits option.splits)
  then show ?case using Cons by simp
qed simp

lemma remove_own_configs_kept:
  assumes "app_worker_configs host app d = (names, d1)"
  shows "kept host app d (remove_names host (filter P names) d1)"
proof -
  have "(\<exists>w. d1 = d\<lparr>dd_outer := w\<rparr>) \<and> (\<forall>f \<in> set names. \<not> foreign_config host app d f)"
  proof -
    obtain fault w where fault: "dp_fault host ListEnabled (dd_outer d) = (fault, w)" by (metis prod.exhaust)
    obtain owned d2 where owned: "owned_names host app (dp_walk host (bt_keys (dd_enabled d)) w) (d\<lparr>dd_outer := w\<rparr>) = (owned, d2)"
      by (metis prod.exhaust)
    show ?thesis
      using assms owned_names_foreign [OF owned] fault owned
      by (auto simp: app_worker_configs_def dp_outside_def split: option.splits)
  qed
  then show ?thesis by (auto intro!: remove_names_kept simp: kept_outer)
qed

lemma stale_configs_kept: "kept host app d (remove_stale_configs host app d)"
  by (auto simp: remove_stale_configs_def split: prod.splits intro: remove_own_configs_kept)

lemma surplus_configs_kept: "kept host app d (remove_surplus_configs host app counts d)"
  by (auto simp: remove_surplus_configs_def split: prod.splits intro: remove_own_configs_kept)

section \<open>Processes\<close>

lemma within_process_live [frames]: "within (kept host app) (process_live host wk)"
  unfolding process_live_def by (intro frames)

lemma within_process_start [frames]:
  assumes "wk_app wk = app"
  shows "within (kept host app) (process_start host wk copy)"
proof -
  have "within (kept host app) (\<lambda>d. (r, d\<lparr>dd_outer := dp_notify host (dd_outer d)\<rparr>))" for r :: "(deploy_error, live_copy) result"
    by (simp add: within_def kept_outer)
  moreover have "within (kept host app) (enabled_ports host app)" unfolding enabled_ports_def by (intro frames)
  ultimately show ?thesis unfolding process_start_def assms by (intro frames)
qed

lemma within_wait_healthy [frames]: "within (kept host app) (process_wait_healthy host wk copy)"
  by (rule withinI) (auto simp: process_wait_healthy_def Let_def deploy.frame_refl apfst_def map_prod_def split: option.splits prod.splits
    dest!: withinD [OF within_outside [of host app]])

lemma within_remove_socket [frames]: "within (kept host app) (remove_copy_socket host wk copy)"
  by (rule withinI) (auto simp: remove_copy_socket_def Let_def deploy.frame_refl apfst_def map_prod_def split: if_splits prod.splits
    dest!: withinD [OF within_outside [of host app]])

lemma within_process_stop [frames]:
  assumes "wk_app wk = app"
  shows "within (kept host app) (process_stop host wk copy)"
proof -
  let ?name = "process_name wk (lc_copy copy)"
  let ?f = "worker_file_name ?name"
  have own: "app_file app ?f" by (simp add: process_name_def assms [symmetric] app_file_own)
  have removed: "within (kept host app) (dp_then (remove_copy_socket host wk copy)
      (\<lambda>_. remove_available host (CannotRemoveFile ?f) ?f))" by (intro frames own)
  have waited: "within (kept host app) (\<lambda>d. dp_then (remove_copy_socket host wk copy)
      (\<lambda>_. remove_available host (CannotRemoveFile ?f) ?f) (snd (dp_outside m (d\<lparr>dd_outer := w d\<rparr>))))" for m w
  proof (rule withinI)
    fix d r d'
    assume run: "dp_then (remove_copy_socket host wk copy) (\<lambda>_. remove_available host (CannotRemoveFile ?f) ?f)
      (snd (dp_outside m (d\<lparr>dd_outer := w d\<rparr>))) = (r, d')"
    have "kept host app d (snd (dp_outside m (d\<lparr>dd_outer := w d\<rparr>)))"
      by (simp add: dp_outside_def kept_outer split: prod.splits)
    then show "kept host app d d'" using withinD [OF removed run] by (rule kept_step)
  qed
  have "within (kept host app) (grace_period host ?f)"
    by (rule withinI) (auto simp: grace_period_def split: prod.splits dest!: withinD [OF within_parsed_worker [of host app]])
  then show ?thesis
    unfolding process_stop_def Let_def by (intro deploy.within_case frames own waited)
qed

lemma within_stop_kind [frames]:
  assumes "wk_app wk = app"
  shows "within (kept host app) (stop_web_kind host wk)"
proof -
  have each: "within (kept host app) (stop_copies host wk copies)" for copies
  proof (induction copies)
    case (Cons copy rest)
    show ?case
      by (rule withinI) (auto split: prod.splits sum.splits dest!: withinD [OF within_process_stop [OF assms]] withinD [OF Cons] intro: kept_step)
  qed (simp add: within_def deploy.frame_refl)
  show ?thesis
    by (rule withinI) (auto simp: stop_web_kind_def split: prod.splits sum.splits
      dest!: withinD [OF within_process_live [of host app]] withinD [OF each] intro: kept_step)
qed

section \<open>Deploys\<close>

text \<open>Routers write their own files and none of those a deploy is described by.\<close>

definition routes_apart :: "('e, 'w deploy_disk) route_sink \<Rightarrow> bool" where
  "routes_apart routes \<longleftrightarrow>
     (\<forall>b d. \<exists>w. snd (rs_publish routes b d) = d\<lparr>dd_outer := w\<rparr>) \<and> (\<forall>d. \<exists>w. snd (rs_check routes d) = d\<lparr>dd_outer := w\<rparr>)"

lemma within_routes:
  assumes "routes_apart routes"
  shows "within (kept host app) (rs_publish routes b)" and "within (kept host app) (rs_check routes)"
  using assms unfolding within_def routes_apart_def by (metis kept_outer)+

lemma within_roll [frames]:
  assumes "routes_apart routes" and "wk_app wk = app"
  shows "within (kept host app) (roll_web_kind host routes wk want)"
proof -
  note start = within_process_start [OF assms(2), of host] and stop = within_process_stop [OF assms(2), of host]
  have "within (kept host app) (replace_all (process_runtime host wk) routes order want)" for order
  proof (rule deploy.within_replace_all)
    show "kept host app d (cr_discard (process_runtime host wk) c d)" for c d
      using stop [of c] by (simp add: process_runtime_def within_def)
  qed (simp_all add: process_runtime_def within_routes [OF assms(1)] frames start stop)
  then have "within (kept host app) (\<lambda>d. apfst (map_err (RollFailed (wk_kind wk))) (replace_all (process_runtime host wk) routes order want d))"
    for order by (simp add: within_def)
  then show ?thesis unfolding roll_web_kind_def by (intro frames)
qed

lemma within_write_copies [frames]: "wd_app deploy = app \<Longrightarrow> within (kept host app) (write_copies host deploy kind command n)"
proof -
  assume app: "wd_app deploy = app"
  have "within (kept host app) (write_each host deploy kind command ns)" for ns
  proof (induction ns)
    case (Cons n rest)
    have "within (kept host app) (dp_then (build_worker_env host (wd_paths deploy) app kind copy (wd_env deploy) []) (\<lambda>env.
        dp_then (write_worker_config host (wd_paths deploy) app (wd_app_path deploy) kind command (copy_get copy) env)
          (\<lambda>_. write_each host deploy kind command rest)))" for copy by (intro frames Cons)
    then show ?case using Cons by (cases "copy_index_new n") (simp_all add: within_def app)
  qed (simp add: within_def deploy.frame_refl)
  then show ?thesis by (simp add: write_copies_def)
qed

lemma within_stop_dropped [frames]:
  assumes "wd_app deploy = app"
  shows "within (kept host app) (stop_dropped_kinds host deploy kept_kinds)"
proof -
  have "within (kept host app) (stop_kinds host deploy kinds)" for kinds
  proof (induction kinds)
    case (Cons kind rest)
    then have "within (kept host app) (dp_then (stop_web_kind host (kind_of deploy kind [])) (\<lambda>_. stop_kinds host deploy rest))"
      using assms by (intro frames) (simp add: kind_of_def)
    then show ?case by (simp add: within_def)
  qed (simp add: within_def deploy.frame_refl)
  then show ?thesis unfolding stop_dropped_kinds_def by (intro frames)
qed

lemma within_kind_counts [frames]: "within (kept host app) (read_kind_counts host app' kinds)"
proof (induction kinds)
  case (Cons kind rest)
  then have "within (kept host app) (dp_then (read_scaling_count host app' kind) (\<lambda>n.
      dp_then (read_kind_counts host app' rest) (\<lambda>counts. dp_give (Inr (bt_insert kind n counts)))))" by (intro frames)
  then show ?case by (simp add: within_def)
qed (simp add: within_def deploy.frame_refl)

lemma within_start_kinds [frames]:
  assumes "routes_apart routes" and "wd_app deploy = app"
  shows "within (kept host app) (start_kinds host routes deploy start_cmd counts processes)"
proof (induction processes)
  case (Cons p rest)
  obtain kind command where p: "p = (kind, command)" by (metis prod.exhaust)
  have app: "wk_app (kind_of deploy k c) = app" for k c using assms(2) by (simp add: kind_of_def)
  have "within (kept host app) (dp_then (if is_web_facing kind
      then (if n = 0 then stop_web_kind host (kind_of deploy kind []) else roll_web_kind host routes (kind_of deploy kind cmd) n)
      else write_copies host deploy kind cmd n) (\<lambda>_. start_kinds host routes deploy start_cmd counts rest))" for n cmd
    using assms app Cons by (auto intro!: frames)
  then show ?case by (simp add: within_def p Let_def)
qed (simp add: within_def deploy.frame_refl)

lemma within_run_entries [frames]:
  assumes "routes_apart routes" and "wd_app deploy = app"
  shows "within (kept host app) (run_entries host routes deploy start_cmd entries)"
proof -
  have cleared: "within (kept host app) (if list_ex is_web_facing (bt_keys entries) then dp_give (Inr ()) else clear_route_env host app)"
    unfolding clear_route_env_def by (simp add: frames)
  have started: "within (kept host app) (dp_then (start_kinds host routes deploy start_cmd counts processes)
      (\<lambda>_. stop_dropped_kinds host deploy entries))" for counts processes by (intro frames assms)
  have "within (kept host app) (dp_then (read_kind_counts host app (map fst processes)) (\<lambda>counts d.
      dp_then (start_kinds host routes deploy start_cmd counts processes) (\<lambda>_. stop_dropped_kinds host deploy entries)
        (remove_surplus_configs host app counts d)))" for processes
    by (intro frames withinI) (rule kept_step [OF surplus_configs_kept], erule withinD [OF started])
  note rest = withinD [OF this]
  show ?thesis
    unfolding run_entries_def assms(2) Let_def by (intro within_dp_then cleared withinI) (erule rest)
qed

lemma within_check_socket [frames]: "within (kept host app) (check_custom_socket host app' env)"
proof -
  have "within (kept host app) (check_socket_kinds host app' kinds)" for kinds
  proof (induction kinds)
    case (Cons kind rest)
    have "within (kept host app) (dp_then (read_scaling_count host app' kind) (\<lambda>n d.
        if 1 < n then (Inl (SocketScaled kind n), d) else check_socket_kinds host app' rest d))"
      using Cons deploy.frame_refl by (intro frames) (auto simp: within_def)
    then show ?case by (simp add: within_def)
  qed (simp add: within_def deploy.frame_refl)
  then show ?thesis by (simp add: within_def check_custom_socket_def deploy.frame_refl)
qed

lemma within_check_port [frames]: "within (kept host app) (check_pinned_port host app' env)"
proof -
  have copy: "within (kept host app) (copy_on_port host port a)" for port a unfolding copy_on_port_def by (intro frames)
  have uses: "within (kept host app) (app_uses_port host port a)" for port a
    by (rule withinI) (auto simp: app_uses_port_def split: prod.splits if_splits
      dest!: withinD [OF within_outside [of host app]] withinD [OF copy] intro: kept_step)
  have on: "within (kept host app) (app_on_port_in host port a names)" for port a names
  proof (induction names)
    case (Cons name rest)
    have "within (kept host app) (dp_then (app_uses_port host port name) (\<lambda>uses d.
        if uses then (Inr (Some name), d) else app_on_port_in host port a rest d))"
      using Cons deploy.frame_refl by (intro frames uses) (auto simp: within_def)
    then show ?case using Cons by (simp add: within_def)
  qed (simp add: within_def deploy.frame_refl)
  have other: "within (kept host app) (app_on_port host port a)" for port a
    by (rule withinI) (auto simp: app_on_port_def split: prod.splits option.splits
      dest!: withinD [OF within_outside [of host app]] withinD [OF on] intro: kept_step)
  have busy: "within (kept host app) (\<lambda>d. if ours then (Inr (), d) else case dp_outside (dp_port_busy host port) d of
      (busy, d) \<Rightarrow> (if busy then Inl (PinnedInUse port) else Inr (), d))" for ours port
    by (rule withinI) (auto split: if_splits prod.splits dest!: withinD [OF within_outside [of host app]] intro: deploy.frame_refl)
  have "within (kept host app) (case found of Some name \<Rightarrow> dp_give (Inl (PinnedByOther port name))
      | None \<Rightarrow> dp_then (copy_on_port host port app') (\<lambda>ours d. if ours then (Inr (), d) else
          case dp_outside (dp_port_busy host port) d of (busy, d) \<Rightarrow> (if busy then Inl (PinnedInUse port) else Inr (), d)))"
    for found port by (cases found) (simp_all add: frames copy busy)
  then have "within (kept host app) (case pinned of None \<Rightarrow> dp_give (Inr ())
      | Some port \<Rightarrow> dp_then (read_scaling_count host app' ''web'') (\<lambda>n.
          if 1 < n then dp_give (Inl (PinnedScaled n port))
          else dp_then (app_on_port host port app') (\<lambda>found. case found of Some name \<Rightarrow> dp_give (Inl (PinnedByOther port name))
      | None \<Rightarrow> dp_then (copy_on_port host port app') (\<lambda>ours d. if ours then (Inr (), d) else
          case dp_outside (dp_port_busy host port) d of (busy, d) \<Rightarrow> (if busy then Inl (PinnedInUse port) else Inr (), d)))))" for pinned
    by (cases pinned) (auto simp: other intro!: frames)
  then show ?thesis unfolding check_pinned_port_def by (intro frames)
qed

end
