(* ===== verification/Worker_Views.thy ===== *)
theory Worker_Views
  imports Worker_Config
begin

text \<open>
  What each operation on workers leaves alone.  The view of a set of slots is the processes filed under them; one lemma per
  operation says which slots it may change and that it keeps the generations in order.  The keys of canaries are names of
  the same worker with a shifted ordinal, so they belong to the same app and never meet an ordinary slot.
\<close>

section \<open>Names of slots\<close>

lemma display_split:
  "rsplit_once (CHR ''.'') (worker_name_display v) = Some (wn_app v @ [APP_SEPARATOR] @ wn_kind v, show_u32 (wn_ordinal v))"
  using rsplit_once_append [of "CHR ''.''" "show_u32 (wn_ordinal v)" "wn_app v @ [APP_SEPARATOR] @ wn_kind v"]
  by (simp add: worker_name_display_def show_u32_no)

lemma display_ordinal: "worker_name_display u = worker_name_display v \<Longrightarrow> wn_ordinal u = wn_ordinal v"
  using display_split [of u] display_split [of v] by (auto dest: show_u32_inj)

lemma worker_parse_ok: "worker_name_parse s = Some n \<Longrightarrow> worker_ok n"
  by (auto simp: worker_name_parse_def worker_ok_def worker_name_new_def exact_app_name_iff split: option.splits if_splits)

text \<open>A displayed name that parses parses to itself, whatever the name holds.\<close>

lemma display_parsed:
  assumes "worker_name_parse (worker_name_display v) = Some n"
  shows "n = v"
proof -
  obtain a rest where a: "split_once APP_SEPARATOR (worker_name_display v) = Some (a, rest)"
    and r: "case rsplit_once (CHR ''.'') rest of None \<Rightarrow> False
      | Some (kind, ordinal) \<Rightarrow> is_valid_kind kind \<and> list_all is_ascii_digit ordinal"
    using assms by (auto simp: worker_name_parse_def split: option.splits if_splits)
  obtain kind ordinal where k: "rsplit_once (CHR ''.'') rest = Some (kind, ordinal)" "is_valid_kind kind" "list_all is_ascii_digit ordinal"
    using r by (auto split: option.splits)
  have rest: "rest = kind @ CHR ''.'' # ordinal" using k(1) by (simp add: rsplit_once_Some)
  have no_sep: "APP_SEPARATOR \<notin> set rest"
    using rest k(2,3) kind_no_sep by (auto simp: list_all_iff APP_SEPARATOR_def is_ascii_digit_def)
  have disp: "worker_name_display v = a @ APP_SEPARATOR # rest" "APP_SEPARATOR \<notin> set a" using a by (simp_all add: split_once_Some)
  have "APP_SEPARATOR \<notin> set (wn_app v)"
  proof
    assume "APP_SEPARATOR \<in> set (wn_app v)"
    then obtain x y where xy: "wn_app v = x @ APP_SEPARATOR # y" "APP_SEPARATOR \<notin> set x" by (meson split_list_first)
    let ?tail = "y @ [APP_SEPARATOR] @ wn_kind v @ ''.'' @ show_u32 (wn_ordinal v)"
    have "split_once APP_SEPARATOR (worker_name_display v) = Some (x, ?tail)"
      using xy by (simp add: worker_name_display_def)
    then have "rest = ?tail" using a by simp
    then show False using no_sep by simp
  qed
  then have "worker_ok v"
    using assms by (auto simp: worker_name_parse_def worker_name_display_def show_u32_no worker_ok_def exact_app_name_iff
        split: option.splits if_splits)
  then show ?thesis using assms worker_parse_display [of v] by simp
qed

definition key_app :: "string \<Rightarrow> string option" where
  "key_app k = map_option wn_app (worker_name_parse k)"

definition with_ordinal :: "u32 \<Rightarrow> worker_name \<Rightarrow> worker_name" where
  "with_ordinal n v = v\<lparr>wn_ordinal := n\<rparr>"

lemma key_app_with_ordinal: "key_app (worker_name_display (with_ordinal n v)) = key_app (worker_name_display v)"
proof (cases "worker_ok v")
  case True
  then have "worker_ok (with_ordinal n v)" by (simp add: worker_ok_def with_ordinal_def)
  then show ?thesis using True by (simp add: key_app_def worker_parse_display with_ordinal_def)
next
  case False
  then have none: "worker_name_parse (worker_name_display v) = None"
    using display_parsed worker_parse_ok by (metis option.exhaust)
  have "\<not> worker_ok (with_ordinal n v)" using False by (simp add: worker_ok_def with_ordinal_def)
  then have "worker_name_parse (worker_name_display (with_ordinal n v)) = None"
    using display_parsed worker_parse_ok by (metis option.exhaust)
  then show ?thesis using none by (simp add: key_app_def)
qed

lemma name_with_ordinal [simp]: "info_name (wc_worker (config_with_ordinal n c)) = with_ordinal n (info_name (wc_worker c))"
  by (simp add: config_with_ordinal_def info_name_def with_ordinal_def worker_name_new_def)

section \<open>Views\<close>

definition same_workers :: "(string \<Rightarrow> bool) \<Rightarrow> process_manager \<Rightarrow> process_manager \<Rightarrow> bool" where
  "same_workers P pm pm' \<longleftrightarrow> (\<forall>k. P k \<longrightarrow> bt_get (pm_processes pm') k = bt_get (pm_processes pm) k)"

lemma same_workers_refl [simp, intro]: "same_workers P pm pm"
  by (simp add: same_workers_def)

lemma same_workers_trans: "same_workers P a b \<Longrightarrow> same_workers P b c \<Longrightarrow> same_workers P a c"
  by (simp add: same_workers_def)

lemma same_workers_processes: "pm_processes b = pm_processes a \<Longrightarrow> same_workers P a b"
  by (simp add: same_workers_def)

text \<open>Operations on single slots: the slots outside, the generations and the outcomes stay.\<close>

definition slot_change :: "string \<Rightarrow> process_manager \<Rightarrow> process_manager \<Rightarrow> bool" where
  "slot_change k pm pm' \<longleftrightarrow> same_workers (\<lambda>j. j \<noteq> k) pm pm' \<and> pm_generations pm' = pm_generations pm
     \<and> pm_probe_results pm' = pm_probe_results pm"

lemma slot_change_refl [simp, intro]: "slot_change k pm pm"
  by (simp add: slot_change_def)

lemma slot_change_trans: "slot_change k a b \<Longrightarrow> slot_change k b c \<Longrightarrow> slot_change k a c"
  by (auto simp: slot_change_def intro: same_workers_trans)

lemma slot_change_insert: "slot_change k pm (pm\<lparr>pm_processes := bt_insert k p (pm_processes pm)\<rparr>)"
  by (simp add: slot_change_def same_workers_def bt_get_insert)

lemma slot_change_remove: "slot_change k pm (pm\<lparr>pm_processes := bt_remove k (pm_processes pm)\<rparr>)"
  by (simp add: slot_change_def same_workers_def bt_get_remove)

lemma slot_change_stats: "slot_change k pm (with_stats f pm)"
  by (simp add: slot_change_def same_workers_def with_stats_def)

lemmas slot_changes = slot_change_insert slot_change_remove slot_change_stats

lemma slot_change_view: "slot_change k pm pm' \<Longrightarrow> \<not> P k \<Longrightarrow> same_workers P pm pm'"
  by (auto simp: slot_change_def same_workers_def)

lemma pm_then_cases:
  assumes "pm_then m f pm w = (r, pm', w')"
  obtains e where "m pm w = (Inl e, pm', w')" "r = Inl e"
  | a pm1 w1 where "m pm w = (Inr a, pm1, w1)" "f a pm1 w1 = (r, pm', w')"
  using assms by (auto simp: pm_then_def split: prod.splits sum.splits)

lemma stop_process_change: "stop_process_by_id host k pm w = (r, pm', w') \<Longrightarrow> slot_change k pm pm'"
  by (auto simp: stop_process_by_id_def Let_def slot_change_def same_workers_def bt_get_remove with_stats_def
      split: option.splits prod.splits)

lemma spawn_process_change:
  assumes "spawn_process host config pm w = (r, pm', w')"
  shows "slot_change (process_id_of config) pm pm'"
proof -
  let ?k = "process_id_of config"
  obtain r1 pm1 w1 where stop: "(if is_managed pm ?k then stop_process_by_id host ?k pm w else (Inr (), pm, w)) = (r1, pm1, w1)"
    by (metis prod.exhaust)
  have "slot_change ?k pm pm1" using stop by (auto dest: stop_process_change split: if_splits)
  moreover have "slot_change ?k pm1 pm'"
  proof (cases r1)
    case (Inl e)
    then show ?thesis using assms stop by (simp add: spawn_process_def Let_def pm_then_def)
  next
    case (Inr u)
    obtain c w2 where c: "start_child host (pm_pid_dir pm1) ?k config w1 = (c, w2)" by (metis prod.exhaust)
    show ?thesis
      using assms stop Inr c
      by (cases c) (auto simp: spawn_process_def Let_def pm_then_def slot_change_def same_workers_def bt_get_insert with_stats_def)
  qed
  ultimately show ?thesis by (rule slot_change_trans)
qed

lemma restart_process_change:
  assumes "restart_process host k pm w = (r, pm', w')" and "\<forall>p. bt_get (pm_processes pm) k = Some p \<longrightarrow> process_id_of (sp_config p) = k"
  shows "slot_change k pm pm'"
proof (cases "bt_get (pm_processes pm) k")
  case None
  then show ?thesis using assms(1) by (simp add: restart_process_def)
next
  case (Some p)
  let ?pm = "with_stats (mark_restarting (wh_utc host w) k) (pm\<lparr>pm_processes := bt_remove k (pm_processes pm)\<rparr>)"
  obtain s pm1 w1 where s: "spawn_process host (sp_config p) ?pm (drop_spawned host p w) = (s, pm1, w1)" by (metis prod.exhaust)
  have "slot_change k pm ?pm" by (rule slot_change_trans [OF slot_change_remove slot_change_stats])
  moreover have "slot_change k ?pm pm1" using spawn_process_change [OF s] assms(2) Some by simp
  moreover have "slot_change k pm1 pm'"
    using assms(1) Some s
    by (cases s) (auto simp: restart_process_def Let_def pm_then_def intro: slot_changes split: option.splits)
  ultimately show ?thesis by (blast intro: slot_change_trans)
qed

lemma give_up_change: "give_up_process host k pm w = (pm', w') \<Longrightarrow> slot_change k pm pm'"
  by (auto simp: give_up_process_def intro: slot_changes split: option.splits)

lemma still_running_change: "still_running host k pm w = (b, pm', w') \<Longrightarrow> slot_change k pm pm'"
  by (auto simp: still_running_def intro: slot_changes split: option.splits prod.splits)

lemma claim_change: "claim_health_probe host k n pm w = (b, pm') \<Longrightarrow> slot_change k pm pm'"
  by (auto simp: claim_health_probe_def intro: slot_changes split: option.splits if_splits)

lemma count_health_change: "count_health k h st pm = (rs, pm') \<Longrightarrow> slot_change k pm pm'"
  by (auto simp: count_health_def Let_def intro: slot_changes split: option.splits if_splits)

section \<open>Generations\<close>

text \<open>What a generation is: its version, its temporary key and the ordinal it stands in for.\<close>

definition gens_all :: "(string \<Rightarrow> u32 \<Rightarrow> string \<Rightarrow> u32 \<Rightarrow> bool) \<Rightarrow> process_manager \<Rightarrow> bool" where
  "gens_all Q pm \<longleftrightarrow>
     (\<forall>slot. \<forall>g \<in> set (generations_of pm slot). Q slot (ag_version g) (ag_temp_key g) (ag_canonical_ordinal g))"

lemma gens_allD: "gens_all Q pm \<Longrightarrow> g \<in> set (generations_of pm slot) \<Longrightarrow> Q slot (ag_version g) (ag_temp_key g) (ag_canonical_ordinal g)"
  by (simp add: gens_all_def)

lemma gens_all_cong: "pm_generations pm' = pm_generations pm \<Longrightarrow> gens_all Q pm' = gens_all Q pm"
  by (simp add: gens_all_def generations_of_def)

lemma gens_all_slot_change: "slot_change k pm pm' \<Longrightarrow> gens_all Q pm' = gens_all Q pm"
  by (rule gens_all_cong) (simp add: slot_change_def)

lemma generations_of_insert:
  "generations_of (pm\<lparr>pm_generations := bt_insert slot gens (pm_generations pm)\<rparr>) j = (if j = slot then gens else generations_of pm j)"
  by (simp add: generations_of_def bt_get_insert)

lemma generations_of_remove:
  "generations_of (pm\<lparr>pm_generations := bt_remove slot (pm_generations pm)\<rparr>) j = (if j = slot then [] else generations_of pm j)"
  by (simp add: generations_of_def bt_get_remove)

lemma mark_failed_all:
  "\<forall>g \<in> set gens. Q (ag_version g) (ag_temp_key g) (ag_canonical_ordinal g)
    \<Longrightarrow> \<forall>g \<in> set (mark_failed v gens). Q (ag_version g) (ag_temp_key g) (ag_canonical_ordinal g)"
  by (induction gens) auto

lemma stable_first_all:
  "\<forall>g \<in> set gens. Q (ag_version g) (ag_temp_key g) (ag_canonical_ordinal g)
    \<Longrightarrow> \<forall>g \<in> set (stable_first gens). Q (ag_version g) (ag_temp_key g) (ag_canonical_ordinal g)"
  by (cases gens) auto

lemma drop_failed_subset: "set (drop_failed n gens) \<subseteq> set gens"
  by (induction n gens rule: drop_failed.induct) auto

lemma prune_failed_subset: "set (prune_failed gens) \<subseteq> set gens"
  using drop_failed_subset by (simp add: prune_failed_def Let_def)

lemma push_event_change: "slot_change k pm (push_event e pm)"
  by (simp add: slot_change_def same_workers_def push_event_def)

text \<open>A rollback changes the slot of the canary only.\<close>

lemma fail_generation_view:
  assumes "fail_generation host slot v reason pm w = (pm', w')" and "gens_all Q pm"
    and "\<And>c t. Q slot v t c \<Longrightarrow> \<not> P t"
  shows "same_workers P pm pm' \<and> gens_all Q pm' \<and> pm_probe_results pm' = pm_probe_results pm"
proof (cases "find (\<lambda>g. ag_version g = v) (generations_of pm slot)")
  case None
  then show ?thesis using assms by (simp add: fail_generation_def)
next
  case (Some g)
  let ?t = "ag_temp_key g"
  have g: "g \<in> set (generations_of pm slot)" "ag_version g = v" using Some by (auto simp: find_Some_iff in_set_conv_nth)
  have t: "\<not> P ?t" using gens_allD [OF assms(2) g(1)] g(2) assms(3) by simp
  define pm1 where "pm1 = pm\<lparr>pm_generations := bt_insert slot (mark_failed v (generations_of pm slot)) (pm_generations pm)\<rparr>"
  have "\<forall>g \<in> set (generations_of pm j). Q j (ag_version g) (ag_temp_key g) (ag_canonical_ordinal g)" for j
    using assms(2) by (simp add: gens_all_def)
  then have pm1: "same_workers P pm pm1" "gens_all Q pm1" "pm_probe_results pm1 = pm_probe_results pm"
    using mark_failed_all [of "generations_of pm slot" "Q slot"]
    by (auto simp: pm1_def same_workers_def gens_all_def generations_of_insert)
  have change: "slot_change ?t pm1 pm'"
    using assms(1) Some
    by (auto simp: fail_generation_def Let_def pm1_def slot_change_def same_workers_def bt_get_remove with_stats_def push_event_def
        split: option.splits prod.splits)
  then have "pm_probe_results pm' = pm_probe_results pm1" by (simp add: slot_change_def)
  then show ?thesis
    using pm1 slot_change_view [OF change, of P, OF t] gens_all_slot_change [OF change] by (auto intro: same_workers_trans)
qed

text \<open>A promotion changes the slot it fills and the slot of the canary.\<close>

lemma take_over_view:
  assumes "\<not> P slot" and "\<not> P (ag_temp_key g)"
  shows "same_workers P pm (take_over host slot g pm w)"
    and "pm_generations (take_over host slot g pm w) = pm_generations pm"
    and "pm_probe_results (take_over host slot g pm w) = pm_probe_results pm"
  using assms
  by (auto simp: take_over_def Let_def same_workers_def bt_get_insert bt_get_remove with_stats_def split: option.splits)

lemma promote_generation_view:
  assumes run: "promote_generation host slot v pm w = (r, pm', w')" and gens: "gens_all Q pm"
    and keys: "\<not> P slot" "\<And>c t. Q slot v t c \<Longrightarrow> \<not> P t"
  shows "same_workers P pm pm' \<and> gens_all Q pm' \<and> pm_probe_results pm' = pm_probe_results pm"
proof (cases "find (\<lambda>g. ag_version g = v \<and> ag_status g = Probing) (generations_of pm slot)")
  case None
  then show ?thesis using run gens by (simp add: promote_generation_def)
next
  case (Some g)
  have g: "g \<in> set (generations_of pm slot)" "ag_version g = v" using Some by (auto simp: find_Some_iff in_set_conv_nth)
  have t: "\<not> P (ag_temp_key g)" using gens_allD [OF gens g(1)] g(2) keys(2) by simp
  obtain r1 pm1 w1 where stop: "(case bt_get (pm_processes pm) slot of None \<Rightarrow> (Inr (), pm, w)
      | Some old \<Rightarrow> (case stop_spawned host slot old w of
          (r, old, w') \<Rightarrow> (r, pm\<lparr>pm_processes := bt_remove slot (pm_processes pm)\<rparr>, drop_spawned host old w'))) = (r1, pm1, w1)"
    by (metis prod.exhaust)
  have c1: "slot_change slot pm pm1" using stop by (auto intro: slot_changes split: option.splits prod.splits)
  define pm2 where "pm2 = take_over host slot g (with_stats (remove_process slot) pm1) w1"
  have pm2: "same_workers P pm1 pm2" "pm_generations pm2 = pm_generations pm1" "pm_probe_results pm2 = pm_probe_results pm1"
    using take_over_view [where pm = "with_stats (remove_process slot) pm1" and host = host and w = w1, OF keys(1) t]
    by (auto simp: pm2_def with_stats_def same_workers_def)
  have all: "gens_all Q pm1" "gens_all Q pm2" using gens gens_all_slot_change [OF c1] gens_all_cong [OF pm2(2)] by simp_all
  have view: "same_workers P pm pm1" using slot_change_view [OF c1, of P] keys(1) by simp
  have same: "pm_probe_results pm1 = pm_probe_results pm" using c1 by (simp add: slot_change_def)
  show ?thesis
  proof (cases r1)
    case (Inl e)
    then have "pm' = pm1" using run Some stop by (simp add: promote_generation_def pm_then_def)
    then show ?thesis using view all same by simp
  next
    case (Inr u)
    let ?gens = "stable_first (filter (\<lambda>g. ag_version g = v) (generations_of pm2 slot))"
    have pm': "pm' = push_event (''[DEPLOYMENT_PROMOTED] '' @ slot @ '' v'' @ show_u32 v @ '' is now stable'')
        (pm2\<lparr>pm_generations := bt_insert slot ?gens (pm_generations pm2)\<rparr>)"
      using run Some stop Inr by (auto simp: promote_generation_def pm_then_def Let_def pm2_def)
    have "\<forall>g \<in> set ?gens. Q slot (ag_version g) (ag_temp_key g) (ag_canonical_ordinal g)"
      using all(2) by (intro stable_first_all) (auto simp: gens_all_def)
    then have "gens_all Q pm'"
      using all(2) by (simp add: pm' gens_all_def push_event_def generations_of_def bt_get_insert)
    moreover have "same_workers P pm2 pm'" "pm_probe_results pm' = pm_probe_results pm2"
      by (simp_all add: pm' push_event_def same_workers_def)
    ultimately show ?thesis using view pm2 same by (auto intro: same_workers_trans)
  qed
qed

text \<open>A canary deploy changes only the slot of the new canary, and files a generation that describes it.\<close>

lemma deploy_generation_view:
  assumes run: "deploy_generation host slot config pm w = (r, pm', w')" and gens: "gens_all Q pm"
    and new: "\<And>v. Q slot v (process_id_of (config_with_ordinal (canary_ordinal (wi_ordinal (wc_worker config)) v) config))
      (wi_ordinal (wc_worker config))"
    and keys: "\<And>v. \<not> P (process_id_of (config_with_ordinal (canary_ordinal (wi_ordinal (wc_worker config)) v) config))"
  shows "same_workers P pm pm' \<and> gens_all Q pm' \<and> pm_probe_results pm' = pm_probe_results pm"
proof (cases "Option.bind (bt_get (wc_env config) ''PORT'') parse_u16")
  case None
  then show ?thesis using run gens by (simp add: deploy_generation_def)
next
  case (Some port)
  let ?v = "next_version pm slot"
  let ?temp = "config_with_ordinal (canary_ordinal (wi_ordinal (wc_worker config)) ?v) config"
  obtain s pm1 w1 where s: "spawn_process host ?temp pm w = (s, pm1, w1)" by (metis prod.exhaust)
  have change: "slot_change (process_id_of ?temp) pm pm1" by (rule spawn_process_change [OF s])
  have view: "same_workers P pm pm1" using slot_change_view [OF change, of P] keys by simp
  have gens1: "gens_all Q pm1" using gens gens_all_slot_change [OF change] by simp
  have same: "pm_probe_results pm1 = pm_probe_results pm" using change by (simp add: slot_change_def)
  show ?thesis
  proof (cases s)
    case (Inl e)
    then have "pm' = pm1" using run Some s by (simp add: deploy_generation_def Let_def pm_then_def)
    then show ?thesis using view gens1 same by simp
  next
    case (Inr u)
    define g where "g = \<lparr>ag_version = ?v,
      ag_pids = [case bt_get (pm_processes pm1) (process_id_of ?temp) of Some p \<Rightarrow> sp_pid p | None \<Rightarrow> 0],
      ag_status = Probing, ag_temp_key = process_id_of ?temp, ag_canonical_ordinal = wi_ordinal (wc_worker config)\<rparr>"
    have g: "ag_version g = ?v" "ag_temp_key g = process_id_of ?temp" "ag_canonical_ordinal g = wi_ordinal (wc_worker config)"
      by (simp_all add: g_def)
    have pm': "pm' = pm1\<lparr>pm_generations := bt_insert slot (prune_failed (generations_of pm1 slot @ [g])) (pm_generations pm1)\<rparr>"
      using run Some s Inr by (auto simp: deploy_generation_def Let_def pm_then_def g_def)
    have "\<forall>h \<in> set (prune_failed (generations_of pm1 slot @ [g])). Q slot (ag_version h) (ag_temp_key h) (ag_canonical_ordinal h)"
      using prune_failed_subset [of "generations_of pm1 slot @ [g]"] gens1 new g by (auto simp: gens_all_def)
    then have "gens_all Q pm'" using gens1 by (simp add: pm' gens_all_def generations_of_insert)
    moreover have "same_workers P pm1 pm'" by (simp add: pm' same_workers_def)
    ultimately show ?thesis using view same by (auto simp: pm' intro: same_workers_trans)
  qed
qed

lemma stop_temp_keys_view:
  "stop_temp_keys host ks pm w = (r, pm', w') \<Longrightarrow> \<forall>k \<in> set ks. \<not> P k \<Longrightarrow>
     same_workers P pm pm' \<and> pm_generations pm' = pm_generations pm \<and> pm_probe_results pm' = pm_probe_results pm"
proof (induction ks arbitrary: pm w)
  case (Cons k ks)
  obtain r1 pm1 w1 where s: "stop_process_by_id host k pm w = (r1, pm1, w1)" by (metis prod.exhaust)
  have change: "slot_change k pm pm1" by (rule stop_process_change [OF s])
  have view: "same_workers P pm pm1" using slot_change_view [OF change, of P] Cons.prems(2) by simp
  show ?case
  proof (cases r1)
    case (Inl e)
    then show ?thesis using Cons.prems(1) s view change by (simp add: pm_then_def slot_change_def)
  next
    case (Inr u)
    then have rest: "stop_temp_keys host ks (with_stats (remove_process k) pm1) w1 = (r, pm', w')"
      using Cons.prems(1) s by (simp add: pm_then_def)
    have "same_workers P pm1 pm' \<and> pm_generations pm' = pm_generations pm1 \<and> pm_probe_results pm' = pm_probe_results pm1"
      using Cons.IH [OF rest] Cons.prems(2) by (simp add: with_stats_def same_workers_def)
    then show ?thesis using view change by (auto simp: slot_change_def intro: same_workers_trans)
  qed
qed simp

lemma stop_canaries_view:
  assumes "stop_canaries host slot pm w = (r, pm', w')" and "gens_all Q pm" and "\<And>v c t. Q slot v t c \<Longrightarrow> \<not> P t"
  shows "same_workers P pm pm' \<and> gens_all Q pm' \<and> generations_of pm' slot = [] \<and> pm_probe_results pm' = pm_probe_results pm"
proof -
  let ?pm = "pm\<lparr>pm_generations := bt_remove slot (pm_generations pm)\<rparr>"
  let ?ks = "map ag_temp_key (filter (\<lambda>g. ag_status g = Probing) (generations_of pm slot))"
  have keys: "\<forall>k \<in> set ?ks. \<not> P k" using assms(2,3) by (auto dest: gens_allD)
  have run: "stop_temp_keys host ?ks ?pm w = (r, pm', w')" using assms(1) by (simp add: stop_canaries_def)
  have "same_workers P ?pm pm'" "pm_generations pm' = pm_generations ?pm" "pm_probe_results pm' = pm_probe_results ?pm"
    using stop_temp_keys_view [OF run keys] by simp_all
  moreover have "gens_all Q ?pm" using assms(2) by (simp add: gens_all_def generations_of_remove)
  moreover have "generations_of ?pm slot = []" by (simp add: generations_of_remove)
  ultimately show ?thesis
    using gens_all_cong [of pm' ?pm Q] by (simp add: same_workers_def generations_of_def)
qed

section \<open>The tick over generations\<close>

lemma crashed_canaries_view:
  "crashed_canaries host es pm w = (crashed, pm', w') \<Longrightarrow> \<forall>e \<in> set es. \<not> P (ag_temp_key (snd e)) \<Longrightarrow>
     same_workers P pm pm' \<and> pm_generations pm' = pm_generations pm \<and> pm_probe_results pm' = pm_probe_results pm
     \<and> (\<forall>(slot, v) \<in> set crashed. \<exists>g. (slot, g) \<in> set es \<and> ag_version g = v)"
proof (induction es arbitrary: pm w crashed)
  case (Cons e es)
  obtain slot g where e: "e = (slot, g)" by (cases e)
  obtain b pm1 w1 where s: "still_running host (ag_temp_key g) pm w = (b, pm1, w1)" by (metis prod.exhaust)
  have change: "slot_change (ag_temp_key g) pm pm1" by (rule still_running_change [OF s])
  have view: "same_workers P pm pm1" using slot_change_view [OF change, of P] Cons.prems(2) by (simp add: e)
  obtain cs where cs: "crashed_canaries host es pm1 w1 = (cs, pm', w')" "crashed = (if b then cs else (slot, ag_version g) # cs)"
    using Cons.prems(1) s by (auto simp: e split: prod.splits)
  have "same_workers P pm1 pm' \<and> pm_generations pm' = pm_generations pm1 \<and> pm_probe_results pm' = pm_probe_results pm1
     \<and> (\<forall>(slot, v) \<in> set cs. \<exists>g. (slot, g) \<in> set es \<and> ag_version g = v)"
    using Cons.IH [OF cs(1)] Cons.prems(2) by simp
  then show ?case using view change cs(2) by (auto simp: slot_change_def e intro: same_workers_trans split: if_splits)
qed simp

lemma fail_each_view:
  "fail_each host cs pm w = (pm', w') \<Longrightarrow> gens_all Q pm \<Longrightarrow> (\<And>slot v c t. Q slot v t c \<Longrightarrow> \<not> P t) \<Longrightarrow>
     same_workers P pm pm' \<and> gens_all Q pm' \<and> pm_probe_results pm' = pm_probe_results pm"
proof (induction host cs pm w rule: fail_each.induct)
  case (2 host slot v rest pm w)
  obtain pm1 w1 where f: "fail_generation host slot v ''process exited before the probe window completed'' pm w = (pm1, w1)"
    by (metis prod.exhaust)
  have "same_workers P pm pm1 \<and> gens_all Q pm1 \<and> pm_probe_results pm1 = pm_probe_results pm"
    using fail_generation_view [OF f "2.prems"(2)] "2.prems"(3) by blast
  moreover have "same_workers P pm1 pm' \<and> gens_all Q pm' \<and> pm_probe_results pm' = pm_probe_results pm1"
    using "2.IH" [of pm1 w1] f "2.prems"(1,3) calculation by simp
  ultimately show ?case by (auto intro: same_workers_trans)
qed simp

lemma apply_outcomes_view:
  "apply_outcomes host os pm w = (r, pm', w') \<Longrightarrow> gens_all Q pm \<Longrightarrow> (\<And>slot v c t. Q slot v t c \<Longrightarrow> \<not> P t) \<Longrightarrow>
     \<forall>out \<in> set os. po_healthy out \<longrightarrow> \<not> P (po_process_id out) \<Longrightarrow>
     same_workers P pm pm' \<and> gens_all Q pm' \<and> pm_probe_results pm' = pm_probe_results pm"
proof (induction os arbitrary: pm w)
  case (Cons out os)
  show ?case
  proof (cases "po_healthy out")
    case True
    obtain r1 pm1 w1 where s: "promote_generation host (po_process_id out) (po_version out) pm w = (r1, pm1, w1)" by (metis prod.exhaust)
    have view: "same_workers P pm pm1 \<and> gens_all Q pm1 \<and> pm_probe_results pm1 = pm_probe_results pm"
      by (rule promote_generation_view [OF s Cons.prems(2)]) (use Cons.prems(3,4) True in auto)
    show ?thesis
    proof (cases r1)
      case (Inl e)
      then show ?thesis using Cons.prems(1) True s view by (simp add: pm_then_def)
    next
      case (Inr u)
      then have "apply_outcomes host os pm1 w1 = (r, pm', w')" using Cons.prems(1) True s by (simp add: pm_then_def)
      then have "same_workers P pm1 pm' \<and> gens_all Q pm' \<and> pm_probe_results pm' = pm_probe_results pm1"
        using Cons.IH [of pm1 w1] Cons.prems(3,4) view by simp
      then show ?thesis using view by (auto intro: same_workers_trans)
    qed
  next
    case False
    obtain pm1 w1 where s: "fail_generation host (po_process_id out) (po_version out) (po_reason out) pm w = (pm1, w1)" by (metis prod.exhaust)
    have view: "same_workers P pm pm1 \<and> gens_all Q pm1 \<and> pm_probe_results pm1 = pm_probe_results pm"
      by (rule fail_generation_view [OF s Cons.prems(2)]) (rule Cons.prems(3))
    have "apply_outcomes host os pm1 w1 = (r, pm', w')" using Cons.prems(1) False s by simp
    then have "same_workers P pm1 pm' \<and> gens_all Q pm' \<and> pm_probe_results pm' = pm_probe_results pm1"
      using Cons.IH [of pm1 w1] Cons.prems(3,4) view by simp
    then show ?thesis using view by (auto intro: same_workers_trans)
  qed
qed simp

lemma reconcile_view:
  assumes run: "reconcile_generations host pm w = (r, pm', w')" and gens: "gens_all Q pm"
    and keys: "\<And>slot v c t. Q slot v t c \<Longrightarrow> \<not> P t"
    and quiet: "\<forall>out \<in> set (pm_probe_results pm). po_healthy out \<longrightarrow> \<not> P (po_process_id out)"
  shows "same_workers P pm pm' \<and> gens_all Q pm'"
proof -
  let ?es = "probing_entries (wh_walk host (bt_keys (pm_generations pm)) w) pm"
  obtain crashed pm1 w1 where c: "crashed_canaries host ?es pm w = (crashed, pm1, w1)" by (metis prod.exhaust)
  obtain pm2 w2 where f: "fail_each host crashed pm1 w1 = (pm2, w2)" by (metis prod.exhaust)
  have entries: "\<forall>e \<in> set ?es. \<not> P (ag_temp_key (snd e))"
    using gens keys by (auto simp: probing_entries_def dest: gens_allD)
  have v1: "same_workers P pm pm1" "gens_all Q pm1" "pm_probe_results pm1 = pm_probe_results pm"
    using crashed_canaries_view [OF c entries] gens gens_all_cong [of pm1 pm Q] by simp_all
  have v2: "same_workers P pm1 pm2" "gens_all Q pm2" "pm_probe_results pm2 = pm_probe_results pm1"
    using fail_each_view [OF f v1(2), of P] keys by blast+
  let ?pm = "pm2\<lparr>pm_probe_results := []\<rparr>"
  have "apply_outcomes host (pm_probe_results pm) ?pm w2 = (r, pm', w')"
    using run c f v1 v2 by (simp add: reconcile_generations_def)
  moreover have "gens_all Q ?pm" using v2(2) by (simp add: gens_all_def generations_of_def)
  ultimately have "same_workers P ?pm pm' \<and> gens_all Q pm'"
    using apply_outcomes_view [of host "pm_probe_results pm" ?pm w2 r pm' w' Q P] keys quiet by blast
  then show ?thesis using v1 v2 by (auto simp: same_workers_def)
qed

end
