(* ===== verification/Worker_Invariant.thy ===== *)
theory Worker_Invariant
  imports Worker_Views
begin

text \<open>
  The invariant of the process manager, kept by every operation: each process is filed under the name of its own config, a worker
  without a health check was restarted at most as often as its config allows, and every generation stands in for the
  worker it is filed under.
\<close>

section \<open>The invariant\<close>

definition worker_inv :: "string \<Rightarrow> spawned_process \<Rightarrow> bool" where
  "worker_inv k p \<longleftrightarrow> process_id_of (sp_config p) = k
     \<and> sp_health_check_config p = wo_health_check (wc_options (sp_config p))
     \<and> (sp_health_check_config p = None \<longrightarrow> sp_restart_count p \<le> wo_max_restarts (wc_options (sp_config p)))"

definition processes_ok :: "process_manager \<Rightarrow> bool" where
  "processes_ok pm \<longleftrightarrow> bt_ok (pm_processes pm) \<and> (\<forall>k p. bt_get (pm_processes pm) k = Some p \<longrightarrow> worker_inv k p)"

definition shifted :: "string \<Rightarrow> u32 \<Rightarrow> string \<Rightarrow> u32 \<Rightarrow> bool" where
  "shifted slot version temp canonical \<longleftrightarrow>
     (\<exists>u. slot = worker_name_display u \<and> canonical = wn_ordinal u
        \<and> temp = worker_name_display (with_ordinal (canary_ordinal canonical version) u))"

definition manager_ok :: "process_manager \<Rightarrow> bool" where
  "manager_ok pm \<longleftrightarrow> processes_ok pm \<and> gens_all shifted pm"

lemma processes_okD: "processes_ok pm \<Longrightarrow> bt_get (pm_processes pm) k = Some p \<Longrightarrow> worker_inv k p"
  by (simp add: processes_ok_def)

lemma processes_ok_cong: "pm_processes pm' = pm_processes pm \<Longrightarrow> processes_ok pm' = processes_ok pm"
  by (simp add: processes_ok_def)

lemma processes_ok_stats [simp]: "processes_ok (with_stats f pm) = processes_ok pm"
  by (rule processes_ok_cong) (simp add: with_stats_def)

lemma processes_ok_insert:
  "processes_ok pm \<Longrightarrow> worker_inv k p \<Longrightarrow> processes_ok (pm\<lparr>pm_processes := bt_insert k p (pm_processes pm)\<rparr>)"
  by (simp add: processes_ok_def bt_ok_insert bt_get_insert)

lemma processes_ok_remove: "processes_ok pm \<Longrightarrow> processes_ok (pm\<lparr>pm_processes := bt_remove k (pm_processes pm)\<rparr>)"
  by (simp add: processes_ok_def bt_ok_remove bt_get_remove)

lemma manager_ok_cong: "pm_processes pm' = pm_processes pm \<Longrightarrow> pm_generations pm' = pm_generations pm \<Longrightarrow> manager_ok pm' = manager_ok pm"
  by (simp add: manager_ok_def processes_ok_cong [of pm' pm] gens_all_cong [of pm' pm])

section \<open>Spawning and stopping\<close>

lemma stop_process_inv:
  assumes "stop_process_by_id host k pm w = (r, pm', w')" and "processes_ok pm"
  shows "processes_ok pm'"
proof (cases "bt_get (pm_processes pm) k")
  case (Some p)
  then have "pm' = with_stats (mark_stopped k) (pm\<lparr>pm_processes := bt_remove k (pm_processes pm)\<rparr>)"
    using assms(1) by (auto simp: stop_process_by_id_def Let_def split: prod.splits)
  then show ?thesis using processes_ok_remove [OF assms(2)] by simp
qed (use assms in \<open>simp add: stop_process_by_id_def\<close>)

lemma new_with_cgroup_fresh:
  assumes "new_with_cgroup host pid_dir pid config cgroup w = (Inr p, w')"
  shows "worker_inv (process_id_of config) p \<and> sp_config p = config \<and> sp_restart_count p = 0"
  using assms by (auto simp: new_with_cgroup_def worker_inv_def split: prod.splits sum.splits)

lemma start_child_fresh:
  assumes "start_child host pid_dir k config w = (Inr p, w')"
  shows "worker_inv (process_id_of config) p \<and> sp_config p = config \<and> sp_restart_count p = 0"
proof -
  obtain pid cgroup w1 w2 where "new_with_cgroup host pid_dir pid config cgroup w1 = (Inr p, w2)"
    using assms unfolding start_child_def by (auto split: prod.splits sum.splits)
  then show ?thesis by (rule new_with_cgroup_fresh)
qed

lemma spawn_process_result:
  assumes run: "spawn_process host config pm w = (r, pm', w')" and ok: "processes_ok pm"
  shows "processes_ok pm'"
    and "r = Inr u \<Longrightarrow> \<exists>p. bt_get (pm_processes pm') (process_id_of config) = Some p \<and> sp_config p = config \<and> sp_restart_count p = 0"
proof -
  let ?k = "process_id_of config"
  obtain r1 pm1 w1 where stop: "(if is_managed pm ?k then stop_process_by_id host ?k pm w else (Inr (), pm, w)) = (r1, pm1, w1)"
    by (metis prod.exhaust)
  have ok1: "processes_ok pm1" using stop ok by (auto dest: stop_process_inv split: if_splits)
  obtain c w2 where c: "start_child host (pm_pid_dir pm1) ?k config w1 = (c, w2)" by (metis prod.exhaust)
  let ?new = "\<lambda>p. (with_stats (register_process (wh_utc host w2) (wh_now host w2) ?k (wi_app (wc_worker config))
      (wi_kind (wc_worker config)) (wi_ordinal (wc_worker config))) pm1)\<lparr>pm_processes := bt_insert ?k p (pm_processes pm1)\<rparr>"
  have cases: "(\<exists>e. r = Inl e \<and> pm' = pm1) \<or> (\<exists>p. c = Inr p \<and> r = Inr () \<and> pm' = ?new p)"
    using run stop c by (cases r1; cases c) (auto simp: spawn_process_def Let_def pm_then_def with_stats_def)
  have fresh: "worker_inv ?k p \<and> sp_config p = config \<and> sp_restart_count p = 0" if "c = Inr p" for p
    using start_child_fresh [of host "pm_pid_dir pm1" ?k config w1 p w2] c that by simp
  have new: "processes_ok (?new p)" if "c = Inr p" for p
    using processes_ok_insert [of pm1 ?k p] ok1 fresh [OF that] by (simp add: processes_ok_def with_stats_def)
  show "processes_ok pm'" using cases ok1 new by blast
  show "\<exists>p. bt_get (pm_processes pm') ?k = Some p \<and> sp_config p = config \<and> sp_restart_count p = 0" if "r = Inr u"
    using cases that fresh by (auto simp: bt_get_insert)
qed

section \<open>The scan and the health checks\<close>

text \<open>What the checks may not change: config, restart count and health check of every process.\<close>

definition static :: "spawned_process \<Rightarrow> worker_config \<times> u32 \<times> worker_health option" where
  "static p = (sp_config p, sp_restart_count p, sp_health_check_config p)"

definition same_static :: "process_manager \<Rightarrow> process_manager \<Rightarrow> bool" where
  "same_static pm pm' \<longleftrightarrow> (bt_ok (pm_processes pm) \<longrightarrow> bt_ok (pm_processes pm'))
     \<and> (\<forall>k. map_option static (bt_get (pm_processes pm') k) = map_option static (bt_get (pm_processes pm) k))
     \<and> pm_generations pm' = pm_generations pm \<and> pm_probe_results pm' = pm_probe_results pm"

lemma same_static_refl [simp]: "same_static pm pm"
  by (simp add: same_static_def)

lemma same_static_trans: "same_static a b \<Longrightarrow> same_static b c \<Longrightarrow> same_static a c"
  by (simp add: same_static_def)

lemma same_static_stats [simp]: "same_static a (with_stats f b) = same_static a b"
  by (simp add: same_static_def with_stats_def)

lemma same_static_insert:
  assumes "bt_get (pm_processes pm) k = Some p" and "static p' = static p"
  shows "same_static pm (pm\<lparr>pm_processes := bt_insert k p' (pm_processes pm)\<rparr>)"
  using assms by (simp add: same_static_def bt_get_insert bt_ok_insert)

lemma same_static_get:
  "same_static pm pm' \<Longrightarrow> map_option static (bt_get (pm_processes pm') k) = map_option static (bt_get (pm_processes pm) k)"
  unfolding same_static_def by blast

lemma worker_inv_static: "static p' = static p \<Longrightarrow> worker_inv k p' = worker_inv k p"
  by (simp add: static_def worker_inv_def)

lemma same_static_ok: "same_static pm pm' \<Longrightarrow> manager_ok pm \<Longrightarrow> manager_ok pm'"
proof -
  assume same: "same_static pm pm'" and ok: "manager_ok pm"
  have "worker_inv k p'" if "bt_get (pm_processes pm') k = Some p'" for k p'
  proof -
    have "map_option static (bt_get (pm_processes pm) k) = Some (static p')" using same_static_get [OF same, of k] that by simp
    then obtain p where p: "bt_get (pm_processes pm) k = Some p" "static p = static p'" by auto
    then show ?thesis using ok processes_okD [of pm k p] worker_inv_static [OF p(2)] by (simp add: manager_ok_def)
  qed
  then show ?thesis
    using same ok gens_all_cong [of pm' pm shifted] by (simp add: manager_ok_def processes_ok_def same_static_def)
qed

lemma is_running_static: "is_running host p w = (b, p', w') \<Longrightarrow> static p' = static p"
  by (auto simp: is_running_def static_def split: prod.splits wait_status.splits)

lemma claim_static: "claim_health_probe host k n pm w = (b, pm') \<Longrightarrow> same_static pm pm'"
  by (auto simp: claim_health_probe_def static_def intro!: same_static_insert split: option.splits if_splits)

lemma count_health_static: "count_health k h st pm = (rs, pm') \<Longrightarrow> same_static pm pm'"
  by (auto simp: count_health_def Let_def static_def intro!: same_static_insert split: option.splits if_splits)

text \<open>A process the tick may restart: it has a health check or restarts left.\<close>

definition may_restart :: "process_manager \<Rightarrow> string \<Rightarrow> bool" where
  "may_restart pm k \<longleftrightarrow>
     (\<forall>p. bt_get (pm_processes pm) k = Some p \<longrightarrow>
        sp_health_check_config p \<noteq> None \<or> sp_restart_count p < wo_max_restarts (wc_options (sp_config p)))"

lemma may_restart_static:
  assumes "same_static pm pm'"
  shows "may_restart pm' k = may_restart pm k"
  using same_static_get [OF assms, of k]
  by (cases "bt_get (pm_processes pm) k"; cases "bt_get (pm_processes pm') k") (auto simp: may_restart_def static_def)

definition has_check :: "process_manager \<Rightarrow> string \<Rightarrow> bool" where
  "has_check pm k \<longleftrightarrow> (\<exists>p. bt_get (pm_processes pm) k = Some p \<and> sp_health_check_config p \<noteq> None)"

lemma has_check_static:
  assumes "same_static pm pm'"
  shows "has_check pm' k = has_check pm k"
  using same_static_get [OF assms, of k]
  by (cases "bt_get (pm_processes pm) k"; cases "bt_get (pm_processes pm') k") (auto simp: has_check_def static_def)

lemma has_check_may_restart: "has_check pm k \<Longrightarrow> may_restart pm k"
  by (auto simp: has_check_def may_restart_def)

lemma scan_process_result:
  assumes "scan_process host k pm w = ((restarts, checks), pm', w')"
  shows "same_static pm pm'"
    and "restarts \<in> {[], [REMOVE_MARK @ k], [k]} \<and> (checks = [] \<or> restarts = [] \<and> (\<exists>h. checks = [(k, h)]))"
    and "restarts = [k] \<Longrightarrow> may_restart pm k" and "checks \<noteq> [] \<Longrightarrow> has_check pm k"
proof -
  have "same_static pm pm' \<and> restarts \<in> {[], [REMOVE_MARK @ k], [k]} \<and> (checks = [] \<or> restarts = [] \<and> (\<exists>h. checks = [(k, h)]))
    \<and> (restarts = [k] \<longrightarrow> may_restart pm k) \<and> (checks \<noteq> [] \<longrightarrow> has_check pm k)"
  proof (cases "bt_get (pm_processes pm) k")
    case None
    then show ?thesis using assms by (simp add: scan_process_def)
  next
    case (Some p)
    obtain b p1 w1 where p1: "is_running host p w = (b, p1, w1)" by (metis prod.exhaust)
    have st: "static p1 = static p" by (rule is_running_static [OF p1])
    let ?pm = "pm\<lparr>pm_processes := bt_insert k p1 (pm_processes pm)\<rparr>"
    have same: "same_static pm ?pm" by (rule same_static_insert [OF Some st])
    have fields: "sp_config p1 = sp_config p" "sp_restart_count p1 = sp_restart_count p"
      "sp_health_check_config p1 = sp_health_check_config p" using st by (simp_all add: static_def)
    show ?thesis
    proof (cases b)
      case True
      obtain u w2 where u: "wh_resources host (sp_pid p1) w1 = (u, w2)" by (metis prod.exhaust)
      show ?thesis
        using assms Some p1 True u same fields
        by (auto simp: scan_process_def Let_def has_check_def split: option.splits prod.splits)
    next
      case False
      obtain mark w2 where m: "crash_mark host k p1 w1 = (mark, w2)" by (metis prod.exhaust)
      have few: "may_restart pm k" if "\<not> wo_max_restarts (wc_options (sp_config p1)) \<le> sp_restart_count p1"
        using that Some fields by (auto simp: may_restart_def)
      show ?thesis
        using assms Some p1 False m same few
        by (auto simp: scan_process_def Let_def REMOVE_MARK_def split: if_splits)
    qed
  qed
  then show "same_static pm pm'" and "restarts \<in> {[], [REMOVE_MARK @ k], [k]} \<and> (checks = [] \<or> restarts = [] \<and> (\<exists>h. checks = [(k, h)]))"
    and "restarts = [k] \<Longrightarrow> may_restart pm k" and "checks \<noteq> [] \<Longrightarrow> has_check pm k"
    by blast+
qed

text \<open>The ids on the list that are not marked for removal.\<close>

definition unmarked :: "string list \<Rightarrow> string list" where
  "unmarked ks = filter (\<lambda>k. strip_prefix REMOVE_MARK k = None) ks"

lemma unmarked_append [simp]: "unmarked (xs @ ys) = unmarked xs @ unmarked ys"
  by (simp add: unmarked_def)

lemma unmarked_subset: "set (unmarked xs) \<subseteq> set xs"
  by (auto simp: unmarked_def)

lemma unmarked_scan: "restarts \<in> {[], [REMOVE_MARK @ k], [k]} \<Longrightarrow> unmarked restarts = [] \<or> unmarked restarts = [k] \<and> restarts = [k]"
  by (auto simp: unmarked_def split: if_splits)

lemma scan_each_result:
  "scan_each host probing ks pm w = ((restarts, checks), pm', w') \<Longrightarrow> distinct ks \<Longrightarrow>
     same_static pm pm' \<and> distinct (unmarked restarts @ map fst checks) \<and> set (unmarked restarts) \<union> fst ` set checks \<subseteq> set ks
     \<and> (\<forall>k \<in> set (unmarked restarts). may_restart pm k) \<and> (\<forall>k \<in> fst ` set checks. has_check pm k)"
proof (induction ks arbitrary: pm w restarts checks)
  case Nil
  then show ?case by (auto simp: unmarked_def)
next
  case (Cons k ks)
  show ?case
  proof (cases "k \<in> set probing")
    case True
    then show ?thesis using Cons.IH [of pm w restarts checks] Cons.prems by auto
  next
    case False
    obtain rs cs pm1 w1 where s: "scan_process host k pm w = ((rs, cs), pm1, w1)" by (metis prod.exhaust)
    obtain rss css where rest: "scan_each host probing ks pm1 w1 = ((rss, css), pm', w')" and eq: "restarts = rs @ rss" "checks = cs @ css"
      using Cons.prems(1) False s by (auto split: prod.splits)
    have head: "same_static pm pm1" "unmarked rs = [] \<or> unmarked rs = [k] \<and> rs = [k]"
        "cs = [] \<or> rs = [] \<and> (\<exists>h. cs = [(k, h)])" "rs = [k] \<Longrightarrow> may_restart pm k" "cs \<noteq> [] \<Longrightarrow> has_check pm k"
      using scan_process_result [OF s] unmarked_scan [of rs k] by auto
    have tail: "same_static pm1 pm'" "distinct (unmarked rss @ map fst css)" "set (unmarked rss) \<union> fst ` set css \<subseteq> set ks"
        "\<forall>k \<in> set (unmarked rss). may_restart pm k" "\<forall>k \<in> fst ` set css. has_check pm k"
      using Cons.IH [OF rest] Cons.prems(2) may_restart_static [OF head(1)] has_check_static [OF head(1)] by simp_all
    have k: "k \<notin> set (unmarked rss)" "\<forall>b. (k, b) \<notin> set css" using tail(3) Cons.prems(2) by force+
    show ?thesis
    proof (cases "cs = []")
      case True
      then show ?thesis using head tail k same_static_trans [OF head(1) tail(1)] by (auto simp: eq)
    next
      case False
      then obtain h where "cs = [(k, h)]" "rs = []" using head(3) by blast
      then show ?thesis using head tail k same_static_trans [OF head(1) tail(1)] by (auto simp: eq unmarked_def)
    qed
  qed
qed

lemma run_health_checks_result:
  "run_health_checks host cs pm w = (restarts, pm', w') \<Longrightarrow>
     same_static pm pm' \<and> (distinct (map fst cs) \<longrightarrow> distinct restarts) \<and> set restarts \<subseteq> fst ` set cs"
proof (induction cs arbitrary: pm w restarts)
  case (Cons c cs)
  obtain k h where c: "c = (k, h)" by (cases c)
  obtain b pm1 where claim: "claim_health_probe host k (hk_interval h) pm w = (b, pm1)" by (metis prod.exhaust)
  have same1: "same_static pm pm1" by (rule claim_static [OF claim])
  show ?case
  proof (cases b)
    case False
    then have "run_health_checks host cs pm1 w = (restarts, pm', w')" using Cons.prems claim by (simp add: c)
    from Cons.IH [OF this] show ?thesis using same1 by (auto simp: c intro: same_static_trans)
  next
    case True
    obtain st w1 where st: "perform_health_check host k h pm1 w = (st, w1)" by (metis prod.exhaust)
    let ?pm = "with_stats (update_health_check (wh_utc host w1) k st) pm1"
    obtain rs pm2 where count: "count_health k h st ?pm = (rs, pm2)" by (metis prod.exhaust)
    have same2: "same_static ?pm pm2" by (rule count_health_static [OF count])
    have "same_static pm1 ?pm" by simp
    then have same12: "same_static pm1 pm2" using same2 by (rule same_static_trans)
    have rs: "rs = [] \<or> rs = [k]" using count by (auto simp: count_health_def Let_def split: option.splits if_splits)
    obtain rss where rest: "run_health_checks host cs pm2 w1 = (rss, pm', w')" and eq: "restarts = rs @ rss"
      using Cons.prems claim True st count by (auto simp: c split: prod.splits)
    from Cons.IH [OF rest] rs show ?thesis
      using same_static_trans [OF same1 same12] by (auto simp: c eq intro: same_static_trans)
  qed
qed simp

section \<open>Restarts\<close>

lemma restart_process_inv:
  assumes run: "restart_process host k pm w = (r, pm', w')" and ok: "processes_ok pm" and may: "may_restart pm k"
  shows "processes_ok pm'"
proof (cases "bt_get (pm_processes pm) k")
  case None
  then show ?thesis using run ok by (simp add: restart_process_def)
next
  case (Some p)
  let ?pm = "with_stats (mark_restarting (wh_utc host w) k) (pm\<lparr>pm_processes := bt_remove k (pm_processes pm)\<rparr>)"
  have inv: "worker_inv k p" by (rule processes_okD [OF ok Some])
  obtain s pm1 w1 where s: "spawn_process host (sp_config p) ?pm (drop_spawned host p w) = (s, pm1, w1)" by (metis prod.exhaust)
  have "processes_ok ?pm" using processes_ok_remove [OF ok] by simp
  note spawned = spawn_process_result [OF s this]
  show ?thesis
  proof (cases s)
    case (Inl e)
    then show ?thesis using run Some s spawned(1) by (simp add: restart_process_def Let_def pm_then_def)
  next
    case (Inr u)
    then obtain q where q: "bt_get (pm_processes pm1) k = Some q" "sp_config q = sp_config p"
      using spawned(2) inv by (auto simp: worker_inv_def)
    let ?q = "q\<lparr>sp_restart_count := sp_restart_count p + 1, sp_last_restart := wh_now host w1\<rparr>"
    have "worker_inv k q" by (rule processes_okD [OF spawned(1) q(1)])
    moreover have "sp_restart_count p + 1 \<le> wo_max_restarts (wc_options (sp_config p))" if "sp_health_check_config p = None"
      using may Some that by (auto simp: may_restart_def intro: inc_le)
    ultimately have "worker_inv k ?q" using q(2) inv by (auto simp: worker_inv_def)
    moreover have "pm' = pm1\<lparr>pm_processes := bt_insert k ?q (pm_processes pm1)\<rparr>"
      using run Some s Inr q(1) by (auto simp: restart_process_def Let_def pm_then_def)
    ultimately show ?thesis using processes_ok_insert [OF spawned(1)] by simp
  qed
qed

lemma give_up_inv:
  assumes "give_up_process host k pm w = (pm', w')"
  shows "processes_ok pm \<Longrightarrow> processes_ok pm'" and "may_restart pm j \<Longrightarrow> may_restart pm' j"
  using assms by (auto simp: give_up_process_def may_restart_def bt_get_remove split: option.splits if_splits intro: processes_ok_remove)

lemma may_restart_slot_change: "slot_change k pm pm' \<Longrightarrow> j \<noteq> k \<Longrightarrow> may_restart pm' j = may_restart pm j"
  by (simp add: slot_change_def same_workers_def may_restart_def)

lemma restart_or_remove_inv:
  "restart_or_remove host n ks pm w = (r, pm', w') \<Longrightarrow> processes_ok pm \<Longrightarrow> distinct (unmarked ks) \<Longrightarrow>
     \<forall>k \<in> set (unmarked ks). may_restart pm k \<Longrightarrow> processes_ok pm' \<and> pm_generations pm' = pm_generations pm
       \<and> pm_probe_results pm' = pm_probe_results pm"
proof (induction ks arbitrary: n pm w)
  case (Cons k ks)
  show ?case
  proof (cases "strip_prefix REMOVE_MARK k")
    case (Some gone)
    obtain pm1 w1 where g: "give_up_process host gone pm w = (pm1, w1)" by (metis prod.exhaust)
    have rest: "restart_or_remove host n ks pm1 w1 = (r, pm', w')" using Cons.prems(1) Some g by simp
    have same: "unmarked (k # ks) = unmarked ks" using Some by (simp add: unmarked_def)
    have "processes_ok pm1" "\<forall>k \<in> set (unmarked ks). may_restart pm1 k"
      using give_up_inv [OF g] Cons.prems(2,4) by (simp_all add: same)
    from Cons.IH [OF rest this(1) _ this(2)] show ?thesis
      using Cons.prems(3) give_up_change [OF g] by (simp add: same slot_change_def)
  next
    case None
    then have list: "unmarked (k # ks) = k # unmarked ks" by (simp add: unmarked_def)
    show ?thesis
    proof (cases "n < MAX_RESTARTS_PER_CYCLE")
      case False
      then have rest: "restart_or_remove host n ks pm w = (r, pm', w')" using Cons.prems(1) None by simp
      show ?thesis using Cons.IH [OF rest Cons.prems(2)] Cons.prems(3,4) by (simp add: list)
    next
      case True
      obtain s pm1 w1 where s: "restart_process host k pm w = (s, pm1, w1)" by (metis prod.exhaust)
      have ok1: "processes_ok pm1" using restart_process_inv [OF s Cons.prems(2)] Cons.prems(4) by (simp add: list)
      have change: "slot_change k pm pm1"
        using restart_process_change [OF s] processes_okD [OF Cons.prems(2)] by (simp add: worker_inv_def)
      show ?thesis
      proof (cases s)
        case (Inl e)
        then show ?thesis using Cons.prems(1) None True s ok1 change by (simp add: pm_then_def slot_change_def)
      next
        case (Inr u)
        then have rest: "restart_or_remove host (n + 1) ks pm1 w1 = (r, pm', w')" using Cons.prems(1) None True s by (simp add: pm_then_def)
        have "\<forall>j \<in> set (unmarked ks). may_restart pm1 j"
        proof
          fix j assume j: "j \<in> set (unmarked ks)"
          then have "j \<noteq> k" "may_restart pm j" using Cons.prems(3,4) by (auto simp: list)
          then show "may_restart pm1 j" using may_restart_slot_change [OF change] by blast
        qed
        from Cons.IH [OF rest ok1 _ this] show ?thesis using Cons.prems(3) change by (simp add: list slot_change_def)
      qed
    qed
  qed
qed simp

lemma walk_distinct:
  assumes "fair_walk host" and "distinct ks"
  shows "distinct (wh_walk host ks w)"
  using assms mset_eq_imp_distinct_iff [of "wh_walk host ks w" ks] by (simp add: fair_walk_def)

lemma bt_keys_distinct: "bt_ok m \<Longrightarrow> distinct (bt_keys m)"
  by (simp add: bt_keys_def bt_ok_distinct)

lemma check_processes_inv:
  assumes run: "check_processes host pm w = (r, pm', w')" and ok: "manager_ok pm" and fair: "fair_walk host"
  shows "manager_ok pm' \<and> pm_generations pm' = pm_generations pm \<and> pm_probe_results pm' = pm_probe_results pm"
proof -
  obtain restarts checks pm1 w1 where scan: "scan_process_status host pm w = ((restarts, checks), pm1, w1)" by (metis prod.exhaust)
  obtain unhealthy pm2 w2 where health: "run_health_checks host checks pm1 w1 = (unhealthy, pm2, w2)" by (metis prod.exhaust)
  have rest: "restart_or_remove host 0 (restarts @ unhealthy) pm2 w2 = (r, pm', w')"
    using run scan health by (simp add: check_processes_def)
  have "bt_ok (pm_processes pm)" using ok by (simp add: manager_ok_def processes_ok_def)
  then have "distinct (wh_walk host (bt_keys (pm_processes pm)) w)" by (intro walk_distinct [OF fair] bt_keys_distinct)
  from scan_each_result [OF scan [unfolded scan_process_status_def] this]
  have s: "same_static pm pm1" "distinct (unmarked restarts @ map fst checks)" "\<forall>k \<in> set (unmarked restarts). may_restart pm k"
      "\<forall>k \<in> fst ` set checks. has_check pm k" by simp_all
  have h: "same_static pm1 pm2" "distinct unhealthy" "set unhealthy \<subseteq> fst ` set checks"
    using run_health_checks_result [OF health] s(2) by simp_all
  have same: "same_static pm pm2" by (rule same_static_trans [OF s(1) h(1)])
  have ok2: "manager_ok pm2" by (rule same_static_ok [OF same ok])
  have "distinct (unmarked (restarts @ unhealthy))"
    using s(2) h(2,3) unmarked_subset [of unhealthy] by (auto simp: unmarked_def)
  moreover have "\<forall>k \<in> set (unmarked (restarts @ unhealthy)). may_restart pm2 k"
  proof
    fix k assume "k \<in> set (unmarked (restarts @ unhealthy))"
    then have "k \<in> set (unmarked restarts) \<or> k \<in> fst ` set checks" using h(3) unmarked_subset [of unhealthy] by auto
    then have "may_restart pm k" using s(3,4) has_check_may_restart by blast
    then show "may_restart pm2 k" by (simp add: may_restart_static [OF same])
  qed
  ultimately have "processes_ok pm' \<and> pm_generations pm' = pm_generations pm2 \<and> pm_probe_results pm' = pm_probe_results pm2"
    using restart_or_remove_inv [OF rest] ok2 by (simp add: manager_ok_def)
  then show ?thesis
    using ok2 same gens_all_cong [of pm' pm2 shifted] by (simp add: manager_ok_def same_static_def)
qed

section \<open>Generations\<close>

lemma display_with_ordinal:
  assumes "worker_name_display u = worker_name_display v"
  shows "worker_name_display (with_ordinal n u) = worker_name_display (with_ordinal n v)"
proof -
  have "wn_app u @ [APP_SEPARATOR] @ wn_kind u = wn_app v @ [APP_SEPARATOR] @ wn_kind v"
    using assms display_split [of u] display_split [of v] by simp
  then show ?thesis by (simp add: worker_name_display_def with_ordinal_def)
qed

lemma with_ordinal_simps [simp]: "with_ordinal n (with_ordinal m u) = with_ordinal n u" "with_ordinal (wn_ordinal u) u = u"
  by (simp_all add: with_ordinal_def)

lemma fail_generation_inv:
  assumes "fail_generation host slot v reason pm w = (pm', w')" and "processes_ok pm"
  shows "processes_ok pm'"
proof -
  have "pm_processes pm' = pm_processes pm \<or> (\<exists>k. pm_processes pm' = bt_remove k (pm_processes pm))"
    using assms(1)
    by (auto simp: fail_generation_def Let_def with_stats_def push_event_def split: option.splits prod.splits)
  then show ?thesis using assms(2) processes_ok_cong processes_ok_remove [OF assms(2)] by (auto simp: processes_ok_def)
qed

lemma take_over_inv:
  assumes ok: "processes_ok pm" and gen: "shifted slot v (ag_temp_key g) (ag_canonical_ordinal g)"
  shows "processes_ok (take_over host slot g pm w)"
proof (cases "bt_get (pm_processes pm) (ag_temp_key g)")
  case None
  then show ?thesis using ok by (simp add: take_over_def)
next
  case (Some p)
  let ?c = "ag_canonical_ordinal g"
  let ?p = "p\<lparr>sp_config := config_with_ordinal ?c (sp_config p)\<rparr>"
  obtain u x where u: "slot = worker_name_display u" "?c = wn_ordinal u" "ag_temp_key g = worker_name_display (with_ordinal x u)"
    using gen by (auto simp: shifted_def)
  have inv: "worker_inv (ag_temp_key g) p" by (rule processes_okD [OF ok Some])
  then have "process_id_of (sp_config p) = worker_name_display (with_ordinal x u)" by (simp add: worker_inv_def u(3))
  from display_with_ordinal [OF this, of ?c] have "process_id_of (sp_config ?p) = slot" by (simp add: u(1,2))
  then have "worker_inv slot ?p" using inv by (simp add: worker_inv_def config_with_ordinal_def)
  then have "processes_ok (pm\<lparr>pm_processes := bt_insert slot ?p (bt_remove (ag_temp_key g) (pm_processes pm))\<rparr>)"
    using processes_ok_insert [OF processes_ok_remove [OF ok, of "ag_temp_key g"]] by simp
  then show ?thesis using Some by (simp add: take_over_def Let_def with_stats_def processes_ok_def)
qed

lemma promote_generation_inv:
  assumes run: "promote_generation host slot v pm w = (r, pm', w')" and ok: "manager_ok pm"
  shows "processes_ok pm'"
proof (cases "find (\<lambda>g. ag_version g = v \<and> ag_status g = Probing) (generations_of pm slot)")
  case None
  then show ?thesis using run ok by (simp add: promote_generation_def manager_ok_def)
next
  case (Some g)
  then have "g \<in> set (generations_of pm slot)" by (auto simp: find_Some_iff in_set_conv_nth)
  then have gen: "shifted slot (ag_version g) (ag_temp_key g) (ag_canonical_ordinal g)"
    using ok gens_allD [of shifted pm] by (simp add: manager_ok_def)
  obtain r1 pm1 w1 where stop: "(case bt_get (pm_processes pm) slot of None \<Rightarrow> (Inr (), pm, w)
      | Some old \<Rightarrow> (case stop_spawned host slot old w of
          (r, old, w') \<Rightarrow> (r, pm\<lparr>pm_processes := bt_remove slot (pm_processes pm)\<rparr>, drop_spawned host old w'))) = (r1, pm1, w1)"
    by (metis prod.exhaust)
  have ok1: "processes_ok pm1"
    using stop ok processes_ok_remove [of pm slot] by (auto simp: manager_ok_def split: option.splits prod.splits)
  have "pm_processes pm' = pm_processes pm1 \<or>
      pm_processes pm' = pm_processes (take_over host slot g (with_stats (remove_process slot) pm1) w1)"
    using run Some stop by (cases r1) (auto simp: promote_generation_def pm_then_def Let_def push_event_def)
  moreover have "processes_ok (take_over host slot g (with_stats (remove_process slot) pm1) w1)"
    by (rule take_over_inv [OF _ gen]) (simp add: ok1)
  ultimately show ?thesis using ok1 by (auto simp only: processes_ok_def)
qed

lemma fail_generation_ok:
  assumes "fail_generation host slot v reason pm w = (pm', w')" and "manager_ok pm"
  shows "manager_ok pm'"
  using fail_generation_inv [OF assms(1)] fail_generation_view [OF assms(1), of shifted "\<lambda>_. False"] assms(2)
  by (simp add: manager_ok_def)

lemma promote_generation_ok:
  assumes "promote_generation host slot v pm w = (r, pm', w')" and "manager_ok pm"
  shows "manager_ok pm'"
  using promote_generation_inv [OF assms] promote_generation_view [OF assms(1), of shifted "\<lambda>_. False"] assms(2)
  by (simp add: manager_ok_def)

lemma still_running_static: "still_running host k pm w = (b, pm', w') \<Longrightarrow> same_static pm pm'"
  by (auto simp: still_running_def intro: same_static_insert is_running_static split: option.splits prod.splits)

lemma crashed_canaries_static: "crashed_canaries host es pm w = (cs, pm', w') \<Longrightarrow> same_static pm pm'"
  by (induction host es pm w arbitrary: cs rule: crashed_canaries.induct)
     (auto split: prod.splits intro: same_static_trans still_running_static)

lemma fail_each_ok: "fail_each host cs pm w = (pm', w') \<Longrightarrow> manager_ok pm \<Longrightarrow> manager_ok pm'"
  by (induction host cs pm w rule: fail_each.induct) (auto split: prod.splits dest: fail_generation_ok)

lemma apply_outcomes_ok: "apply_outcomes host os pm w = (r, pm', w') \<Longrightarrow> manager_ok pm \<Longrightarrow> manager_ok pm'"
proof (induction os arbitrary: pm w)
  case (Cons out os)
  show ?case
  proof (cases "po_healthy out")
    case True
    then have "pm_then (promote_generation host (po_process_id out) (po_version out)) (\<lambda>_. apply_outcomes host os) pm w = (r, pm', w')"
      using Cons.prems(1) by simp
    then show ?thesis
    proof (cases rule: pm_then_cases)
      case (1 e)
      show ?thesis by (rule promote_generation_ok [OF 1(1) Cons.prems(2)])
    next
      case (2 a pm1 w1)
      show ?thesis by (rule Cons.IH [OF 2(2) promote_generation_ok [OF 2(1) Cons.prems(2)]])
    qed
  next
    case False
    obtain pm1 w1 where f: "fail_generation host (po_process_id out) (po_version out) (po_reason out) pm w = (pm1, w1)" by (metis prod.exhaust)
    show ?thesis by (rule Cons.IH [of pm1 w1]) (use Cons.prems False f fail_generation_ok [OF f] in simp_all)
  qed
qed simp

lemma worker_reconcile_ok:
  assumes "reconcile_generations host pm w = (r, pm', w')" and "manager_ok pm"
  shows "manager_ok pm'"
proof -
  let ?es = "probing_entries (wh_walk host (bt_keys (pm_generations pm)) w) pm"
  obtain crashed pm1 w1 where c: "crashed_canaries host ?es pm w = (crashed, pm1, w1)" by (metis prod.exhaust)
  obtain pm2 w2 where f: "fail_each host crashed pm1 w1 = (pm2, w2)" by (metis prod.exhaust)
  have "manager_ok pm2" by (rule fail_each_ok [OF f same_static_ok [OF crashed_canaries_static [OF c] assms(2)]])
  moreover have "manager_ok (pm2\<lparr>pm_probe_results := []\<rparr>) = manager_ok pm2" by (rule manager_ok_cong) simp_all
  ultimately have "manager_ok (pm2\<lparr>pm_probe_results := []\<rparr>)" by blast
  moreover have "apply_outcomes host (pm_probe_results pm2) (pm2\<lparr>pm_probe_results := []\<rparr>) w2 = (r, pm', w')"
    using assms(1) c f by (simp add: reconcile_generations_def)
  ultimately show ?thesis by (rule apply_outcomes_ok [rotated])
qed

lemma worker_tick_ok:
  assumes "worker_tick host streaming pm w = (events, pm', w')" and "manager_ok pm" and "fair_walk host"
  shows "manager_ok pm'"
proof -
  obtain r1 pm1 w1 where c: "check_processes host pm w = (r1, pm1, w1)" by (metis prod.exhaust)
  obtain r2 pm2 w2 where g: "reconcile_generations host pm1 w1 = (r2, pm2, w2)" by (metis prod.exhaust)
  have "manager_ok pm2" using worker_reconcile_ok [OF g] check_processes_inv [OF c assms(2,3)] by blast
  moreover have "pm' = pm2 \<or> pm' = pm2\<lparr>pm_deployment_events := []\<rparr>"
    using assms(1) c g by (auto simp: worker_tick_def drain_deployment_events_def split: if_splits)
  moreover have "manager_ok (pm2\<lparr>pm_deployment_events := []\<rparr>) = manager_ok pm2" by (rule manager_ok_cong) simp_all
  ultimately show ?thesis by blast
qed

end
