(* ===== verification/Worker_Safety.thy ===== *)
theory Worker_Safety
  imports Worker_Invariant
begin

text \<open>
  What the supervisor guarantees about worker processes: config files of one app never touch the workers of another, a failed
  canary never costs the running process, a worker without a health check is restarted within its limit, stopping comes to
  an end; and where the marks of the restart list break the separation of apps.
\<close>

section \<open>Config files\<close>

text \<open>The slots a config file stands for: its worker under any ordinal, since canaries run under a shifted one.\<close>

definition belongs :: "string \<Rightarrow> string \<Rightarrow> bool" where
  "belongs filename k \<longleftrightarrow>
     (\<exists>v n. (named_worker filename = Some v \<or> worker_file_name v = filename) \<and> k = worker_name_display (with_ordinal n v))"

lemma named_worker_file: "named_worker (worker_file_name v) = worker_name_parse (worker_name_display v)"
proof -
  have "worker_file_name v = (worker_name_display v @ ''.'') @ CONFIG_EXTENSION" by (simp add: worker_file_name_def)
  then show ?thesis by (simp only: named_worker_def strip_suffix_append Option.bind.bind_lunit)
qed

lemma belongs_app:
  assumes "named_worker filename = Some name" and "belongs filename k"
  shows "key_app k = Some (wn_app name)"
proof -
  obtain v n where v: "named_worker filename = Some v \<or> worker_file_name v = filename" "k = worker_name_display (with_ordinal n v)"
    using assms(2) by (auto simp: belongs_def)
  have "v = name"
    using v(1) assms(1) named_worker_file [of v] display_parsed [of v name] by auto
  moreover have "worker_ok name"
    using assms(1) worker_parse_ok by (auto simp: named_worker_def bind_eq_Some_conv)
  ultimately have "key_app k = key_app (worker_name_display name)" "key_app (worker_name_display name) = Some (wn_app name)"
    using worker_parse_display [of name] by (simp_all only: v(2) key_app_with_ordinal) (simp add: key_app_def)
  then show ?thesis by simp
qed

text \<open>An operation that keeps the invariant and all slots that do not belong to a file.\<close>

definition file_change :: "string \<Rightarrow> supervisor \<Rightarrow> supervisor \<Rightarrow> bool" where
  "file_change filename sv sv' \<longleftrightarrow>
     manager_ok (sv_manager sv) \<longrightarrow>
       manager_ok (sv_manager sv') \<and> same_workers (\<lambda>k. \<not> belongs filename k) (sv_manager sv) (sv_manager sv')"

lemma file_change_refl [simp, intro]: "file_change f sv sv"
  by (simp add: file_change_def)

lemma file_change_trans: "file_change f a b \<Longrightarrow> file_change f b c \<Longrightarrow> file_change f a c"
  by (auto simp: file_change_def intro: same_workers_trans)

lemma file_change_watched: "file_change f a b \<Longrightarrow> file_change f a (b\<lparr>sv_watched := ws\<rparr>)"
  by (simp add: file_change_def)

lemma file_change_stats: "file_change f sv (sv\<lparr>sv_manager := with_stats g (sv_manager sv)\<rparr>)"
proof -
  have "manager_ok (with_stats g (sv_manager sv)) = manager_ok (sv_manager sv)"
    by (rule manager_ok_cong) (simp_all add: with_stats_def)
  then show ?thesis by (simp add: file_change_def same_workers_def with_stats_def)
qed

lemma sv_then_change:
  assumes "sv_then m g sv w = (r, sv', w')"
    and "\<And>a sv1 w1. m sv w = (a, sv1, w1) \<Longrightarrow> file_change f sv sv1"
    and "\<And>a sv1 w1. m sv w = (Inr a, sv1, w1) \<Longrightarrow> g a sv1 w1 = (r, sv', w') \<Longrightarrow> file_change f sv1 sv'"
  shows "file_change f sv sv'"
proof -
  obtain a sv1 w1 where m: "m sv w = (a, sv1, w1)" by (metis prod.exhaust)
  have one: "file_change f sv sv1" by (rule assms(2) [OF m])
  show ?thesis
  proof (cases a)
    case (Inl e)
    then show ?thesis using assms(1) m one by (simp add: sv_then_def)
  next
    case (Inr x)
    then have "g x sv1 w1 = (r, sv', w')" using assms(1) m by (simp add: sv_then_def)
    then show ?thesis using assms(3) [of x sv1 w1] m Inr file_change_trans [OF one] by simp
  qed
qed

lemma on_manager_change:
  assumes "on_manager m sv w = (r, sv', w')"
    and "\<And>pm'. m (sv_manager sv) w = (r, pm', w') \<Longrightarrow> manager_ok (sv_manager sv) \<Longrightarrow>
      manager_ok pm' \<and> same_workers (\<lambda>k. \<not> belongs f k) (sv_manager sv) pm'"
  shows "file_change f sv sv'"
  using assms by (auto simp: on_manager_def file_change_def split: prod.splits)

lemma spawn_ok:
  assumes "spawn_process host config pm w = (r, pm', w')" and "manager_ok pm"
  shows "manager_ok pm'"
  using spawn_process_result(1) [OF assms(1)] gens_all_slot_change [OF spawn_process_change [OF assms(1)], of shifted] assms(2)
  by (simp add: manager_ok_def)

lemma stop_ok:
  assumes "stop_process_by_id host k pm w = (r, pm', w')" and "manager_ok pm"
  shows "manager_ok pm'"
  using stop_process_inv [OF assms(1)] gens_all_slot_change [OF stop_process_change [OF assms(1)], of shifted] assms(2)
  by (simp add: manager_ok_def)

lemma loadable_belongs:
  assumes "loadable_config ch filename w = (Inr (Some config), w')"
  shows "worker_file_name (info_name (wc_worker config)) = filename"
    and "belongs filename (worker_name_display (with_ordinal n (info_name (wc_worker config))))"
proof -
  show *: "worker_file_name (info_name (wc_worker config)) = filename"
    using assms by (auto simp: loadable_config_def split: prod.splits sum.splits if_splits)
  then show "belongs filename (worker_name_display (with_ordinal n (info_name (wc_worker config))))"
    unfolding belongs_def by blast
qed

lemma loadable_belongs_slot:
  assumes "loadable_config ch filename w = (Inr (Some config), w')"
  shows "belongs filename (process_id_of config)"
  using loadable_belongs(2) [OF assms, of "wn_ordinal (info_name (wc_worker config))"] by simp

lemma load_config_change:
  assumes "load_config_file ch filename sv w = (r, sv', w')"
  shows "file_change filename sv sv'"
  using assms unfolding load_config_file_def
proof (rule sv_then_change)
  show "file_change filename sv sv1" if "sv_outside (loadable_config ch filename) sv w = (a, sv1, w1)" for a sv1 w1
    using that by (auto simp: sv_outside_def split: prod.splits)
next
  fix loaded sv1 w1
  assume load: "sv_outside (loadable_config ch filename) sv w = (Inr loaded, sv1, w1)"
    and run: "(case loaded of None \<Rightarrow> (Inr (), sv1, w1)
      | Some config \<Rightarrow> (if is_cron (wi_kind (wc_worker config))
          then (Inr (), sv1, ch_load_cron ch (wi_app (wc_worker config)) (wo_working_dir (wc_options config)) w1)
          else on_manager (spawn_process (ch_host ch) config) sv1 w1)) = (r, sv', w')"
  show "file_change filename sv1 sv'"
  proof (cases loaded)
    case (Some config)
    then have slot: "belongs filename (process_id_of config)"
      using load loadable_belongs_slot [of ch filename w config] by (auto simp: sv_outside_def split: prod.splits)
    show ?thesis
    proof (cases "is_cron (wi_kind (wc_worker config))")
      case False
      then have "on_manager (spawn_process (ch_host ch) config) sv1 w1 = (r, sv', w')" using run Some by simp
      then show ?thesis
      proof (rule on_manager_change)
        fix pm' assume s: "spawn_process (ch_host ch) config (sv_manager sv1) w1 = (r, pm', w')" and ok: "manager_ok (sv_manager sv1)"
        show "manager_ok pm' \<and> same_workers (\<lambda>k. \<not> belongs filename k) (sv_manager sv1) pm'"
          using spawn_ok [OF s ok] slot_change_view [OF spawn_process_change [OF s]] slot by simp
      qed
    qed (use run Some in auto)
  qed (use run in auto)
qed

lemma stop_canaries_ok:
  assumes run: "stop_canaries host slot pm w = (r, pm', w')" and ok: "manager_ok pm"
  shows "manager_ok pm'"
proof -
  have "stop_temp_keys host ks q w = (r, q', w') \<Longrightarrow> processes_ok q \<Longrightarrow> processes_ok q'" for ks q q' w
  proof (induction ks arbitrary: q w)
    case (Cons k ks)
    from Cons.prems(1) have "pm_then (stop_process_by_id host k)
        (\<lambda>_ q w. stop_temp_keys host ks (with_stats (remove_process k) q) w) q w = (r, q', w')" by simp
    then show ?case
    proof (cases rule: pm_then_cases)
      case (1 e)
      show ?thesis by (rule stop_process_inv [OF 1(1) Cons.prems(2)])
    next
      case (2 a q1 w1)
      show ?thesis by (rule Cons.IH [OF 2(2)]) (simp add: stop_process_inv [OF 2(1) Cons.prems(2)])
    qed
  qed simp
  note this [OF run [unfolded stop_canaries_def]]
  then show ?thesis
    using ok stop_canaries_view [OF run, of shifted "\<lambda>_. False"] by (simp add: manager_ok_def processes_ok_def)
qed

lemma unload_config_change:
  assumes "unload_config ch filename sv w = (r, sv', w')"
  shows "file_change filename sv sv'"
proof (cases "named_worker filename")
  case None
  then show ?thesis using assms by (simp add: unload_config_def)
next
  case (Some name)
  let ?slot = "worker_name_display name"
  have slot: "belongs filename ?slot" "\<And>n. belongs filename (worker_name_display (with_ordinal n name))"
  proof -
    show all: "belongs filename (worker_name_display (with_ordinal n name))" for n using Some unfolding belongs_def by blast
    show "belongs filename ?slot" using all [of "wn_ordinal name"] by simp
  qed
  have temp: "belongs filename t" if sh: "shifted ?slot v t c" for v t c
  proof -
    obtain u n where "?slot = worker_name_display u" "t = worker_name_display (with_ordinal n u)" using sh by (auto simp: shifted_def)
    then show ?thesis using display_with_ordinal [of u name n] slot(2) [of n] by simp
  qed
  have stop: "manager_ok pm' \<and> same_workers (\<lambda>k. \<not> belongs filename k) pm pm'"
    if run: "pm_then (stop_canaries (ch_host ch) ?slot) (\<lambda>_. stop_process_by_id (ch_host ch) ?slot) pm w = (r, pm', w')"
      and ok: "manager_ok pm" for pm pm' r w w'
  proof -
    have one: "manager_ok pm1 \<and> same_workers (\<lambda>k. \<not> belongs filename k) pm pm1"
      if "stop_canaries (ch_host ch) ?slot pm w = (r1, pm1, w1)" for r1 pm1 w1
      using stop_canaries_ok [OF that ok] stop_canaries_view [OF that, of shifted "\<lambda>k. \<not> belongs filename k"] temp ok
      by (simp add: manager_ok_def)
    show ?thesis using run
    proof (cases rule: pm_then_cases)
      case (1 e)
      then show ?thesis using one by blast
    next
      case (2 a pm1 w1)
      have "same_workers (\<lambda>k. \<not> belongs filename k) pm1 pm'"
        using slot_change_view [OF stop_process_change [OF 2(2)]] slot(1) by simp
      then show ?thesis using one [OF 2(1)] stop_ok [OF 2(2)] by (blast intro: same_workers_trans)
    qed
  qed
  have purge: "file_change filename sv1 sv2" if "purge_if_gone ch (wn_app name) sv1 w1 = (r2, sv2, w2)" for sv1 w1 r2 sv2 w2
    using that by (auto simp: purge_if_gone_def intro: file_change_stats split: prod.splits sum.splits bool.splits)
  have run: "sv_then (if is_cron (wn_kind name) then (\<lambda>sv w. (Inr (), sv, ch_remove_cron ch (wn_app name) w))
      else on_manager (pm_then (stop_canaries (ch_host ch) ?slot) (\<lambda>_. stop_process_by_id (ch_host ch) ?slot)))
      (\<lambda>_. purge_if_gone ch (wn_app name)) sv w = (r, sv', w')"
    using assms Some by (simp add: unload_config_def)
  have first: "file_change filename sv sv1"
    if "on_manager (pm_then (stop_canaries (ch_host ch) ?slot) (\<lambda>_. stop_process_by_id (ch_host ch) ?slot)) sv w = (r1, sv1, w1)" for r1 sv1 w1
    using that by (rule on_manager_change) (rule stop)
  show ?thesis
    by (rule sv_then_change [OF run]) (auto intro: purge first split: if_splits)
qed

lemma deploy_ok:
  assumes run: "deploy_generation host (process_id_of config) config pm w = (r, pm', w')" and ok: "manager_ok pm"
  shows "manager_ok pm'"
proof -
  let ?temp = "\<lambda>v. config_with_ordinal (canary_ordinal (wi_ordinal (wc_worker config)) v) config"
  have new: "shifted (process_id_of config) v (process_id_of (?temp v)) (wi_ordinal (wc_worker config))" for v
  proof -
    have "wi_ordinal (wc_worker config) = wn_ordinal (info_name (wc_worker config))" by (simp add: info_name_def worker_name_new_def)
    then show ?thesis unfolding shifted_def by (intro exI [of _ "info_name (wc_worker config)"]) simp
  qed
  have gens: "gens_all shifted pm'"
    using deploy_generation_view [OF run, of shifted "\<lambda>_. False"] ok new by (simp add: manager_ok_def)
  have "processes_ok pm'"
  proof (cases "Option.bind (bt_get (wc_env config) ''PORT'') parse_u16")
    case None
    then show ?thesis using run ok by (simp add: deploy_generation_def manager_ok_def)
  next
    case (Some port)
    let ?c = "?temp (next_version pm (process_id_of config))"
    obtain s pm1 w1 where s: "spawn_process host ?c pm w = (s, pm1, w1)" by (metis prod.exhaust)
    have "processes_ok pm1" using spawn_process_result(1) [OF s] ok by (simp add: manager_ok_def)
    moreover have "pm_processes pm' = pm_processes pm1"
      using run Some s by (cases s) (auto simp: deploy_generation_def Let_def pm_then_def)
    ultimately show ?thesis by (simp add: processes_ok_def)
  qed
  then show ?thesis using gens by (simp add: manager_ok_def)
qed

lemma handle_modified_change:
  assumes "handle_modified_config ch filename sv w = (r, sv', w')"
  shows "file_change filename sv sv'"
  using assms unfolding handle_modified_config_def
proof (rule sv_then_change)
  show "file_change filename sv sv1" if "sv_outside (loadable_config ch filename) sv w = (a, sv1, w1)" for a sv1 w1
    using that by (auto simp: sv_outside_def split: prod.splits)
next
  fix loaded sv1 w1
  assume load: "sv_outside (loadable_config ch filename) sv w = (Inr loaded, sv1, w1)"
    and run: "(case loaded of None \<Rightarrow> (Inr (), sv1, w1)
      | Some config \<Rightarrow> (if is_cron (wi_kind (wc_worker config)) then load_config_file ch filename sv1 w1
          else if wo_health_check (wc_options config) \<noteq> None \<and> is_managed (sv_manager sv1) (process_id_of config)
          then on_manager (deploy_generation (ch_host ch) (process_id_of config) config) sv1 w1
          else sv_then (unload_config ch filename) (\<lambda>_. load_config_file ch filename) sv1 w1)) = (r, sv', w')"
  show "file_change filename sv1 sv'"
  proof (cases loaded)
    case None
    then show ?thesis using run by auto
  next
    case (Some config)
    have temp: "belongs filename (process_id_of (config_with_ordinal n config))" for n
      using load Some loadable_belongs(2) [of ch filename w config] by (auto simp: sv_outside_def split: prod.splits)
    consider "load_config_file ch filename sv1 w1 = (r, sv', w')"
      | "on_manager (deploy_generation (ch_host ch) (process_id_of config) config) sv1 w1 = (r, sv', w')"
      | "sv_then (unload_config ch filename) (\<lambda>_. load_config_file ch filename) sv1 w1 = (r, sv', w')"
      using run Some by (auto split: if_splits)
    then show ?thesis
    proof cases
      case 1
      then show ?thesis by (rule load_config_change)
    next
      case 2
      then show ?thesis
      proof (rule on_manager_change)
        fix pm' assume d: "deploy_generation (ch_host ch) (process_id_of config) config (sv_manager sv1) w1 = (r, pm', w')"
          and ok: "manager_ok (sv_manager sv1)"
        have "same_workers (\<lambda>k. \<not> belongs filename k) (sv_manager sv1) pm'"
          using deploy_generation_view [OF d, of "\<lambda>_ _ _ _. True" "\<lambda>k. \<not> belongs filename k"] temp by (simp add: gens_all_def)
        then show "manager_ok pm' \<and> same_workers (\<lambda>k. \<not> belongs filename k) (sv_manager sv1) pm'" using deploy_ok [OF d ok] by simp
      qed
    next
      case 3
      then show ?thesis by (rule sv_then_change) (erule unload_config_change load_config_change)+
    qed
  qed
qed

lemma reset_change: "file_change f sv (reset_process_restarts filename sv)"
  by (auto simp: reset_process_restarts_def intro: file_change_stats split: option.splits)

lemma watch_file_change: "file_change f a b \<Longrightarrow> file_change f a (watch_file filename t b)"
  by (auto simp: watch_file_def intro: file_change_watched split: option.splits)

lemma watch_now_change: "watch_now ch filename sv w = (r, sv', w') \<Longrightarrow> file_change f sv sv'"
  by (auto simp: watch_now_def intro: watch_file_change split: prod.splits)

lemma handle_path_change:
  assumes "handle_path ch kind filename sv w = (r, sv', w')"
  shows "file_change filename sv sv'"
proof -
  let ?reset = "reset_process_restarts filename sv"
  consider "sv' = sv"
    | "sv_then (load_config_file ch filename) (\<lambda>_. watch_now ch filename) ?reset w = (r, sv', w')"
    | t w1 where "sv_then (handle_modified_config ch filename) (\<lambda>_ sv w. (Inr (), watch_file filename (Some t) sv, w)) ?reset w1 = (r, sv', w')"
    | t w1 where "sv_then (load_config_file ch filename) (\<lambda>_ sv w. (Inr (), watch_file filename (Some t) sv, w)) ?reset w1 = (r, sv', w')"
    | "sv_then (unload_config ch filename) (\<lambda>_ sv w. (Inr (), sv\<lparr>sv_watched := bt_remove filename (sv_watched sv)\<rparr>, w)) sv w = (r, sv', w')"
    using assms unfolding handle_path_def by (auto split: if_splits file_event_kind.splits prod.splits option.splits)
  then show ?thesis
  proof cases
    case 2
    have "file_change filename ?reset sv'" by (rule sv_then_change [OF 2]) (erule load_config_change watch_now_change)+
    then show ?thesis by (rule file_change_trans [OF reset_change])
  next
    case (3 t w1)
    have "file_change filename ?reset sv'"
      by (rule sv_then_change [OF 3]) (auto intro: handle_modified_change watch_file_change)
    then show ?thesis by (rule file_change_trans [OF reset_change])
  next
    case (4 t w1)
    have "file_change filename ?reset sv'"
      by (rule sv_then_change [OF 4]) (auto intro: load_config_change watch_file_change)
    then show ?thesis by (rule file_change_trans [OF reset_change])
  next
    case 5
    show ?thesis by (rule sv_then_change [OF 5]) (auto intro: unload_config_change file_change_watched)
  qed simp
qed

section \<open>The running supervisor\<close>

definition supervisor_new :: "bool \<Rightarrow> supervisor" where
  "supervisor_new pid_dir = \<lparr>sv_manager = manager_new pid_dir, sv_watched = []\<rparr>"

definition push_outcome :: "probe_outcome \<Rightarrow> supervisor \<Rightarrow> supervisor" where
  "push_outcome out sv = sv\<lparr>sv_manager := (sv_manager sv)\<lparr>pm_probe_results := pm_probe_results (sv_manager sv) @ [out]\<rparr>\<rparr>"

text \<open>
  The event loop takes one of its actions at a time, while probe threads deliver their outcomes and the rest of the
  system does as it likes in between.
\<close>

inductive supervisor_step :: "'w config_host \<Rightarrow> supervisor \<times> 'w \<Rightarrow> supervisor \<times> 'w \<Rightarrow> bool" for ch :: "'w config_host" where
  Load: "load_initial_configs ch sv w = (r, sv', w') \<Longrightarrow> supervisor_step ch (sv, w) (sv', w')"
| Event: "handle_file_event ch kind files sv w = (r, sv', w') \<Longrightarrow> supervisor_step ch (sv, w) (sv', w')"
| Reload: "reload_all_configs ch sv w = (r, sv', w') \<Longrightarrow> supervisor_step ch (sv, w) (sv', w')"
| Tick: "worker_tick (ch_host ch) streaming (sv_manager sv) w = (events, pm', w') \<Longrightarrow>
    supervisor_step ch (sv, w) (sv\<lparr>sv_manager := pm'\<rparr>, w')"
| Outcome: "probe_generation (ch_host ch) process_id version url w = (Some out, w') \<Longrightarrow>
    supervisor_step ch (sv, w) (push_outcome out sv, w')"
| Elsewhere: "supervisor_step ch (sv, w) (sv, w')"

inductive_cases supervisor_stepE: "supervisor_step ch (sv, w) t"

abbreviation sv_ok :: "supervisor \<Rightarrow> bool" where
  "sv_ok sv \<equiv> manager_ok (sv_manager sv)"

lemma file_change_ok: "file_change f sv sv' \<Longrightarrow> sv_ok sv \<Longrightarrow> sv_ok sv'"
  by (simp add: file_change_def)

lemma sv_then_ok:
  assumes "sv_then m g sv w = (r, sv', w')" and "sv_ok sv"
    and "\<And>a sv1 w1. m sv w = (a, sv1, w1) \<Longrightarrow> sv_ok sv1"
    and "\<And>a sv1 w1. sv_ok sv1 \<Longrightarrow> g a sv1 w1 = (r, sv', w') \<Longrightarrow> sv_ok sv'"
  shows "sv_ok sv'"
proof -
  obtain a sv1 w1 where m: "m sv w = (a, sv1, w1)" by (metis prod.exhaust)
  have "sv_ok sv1" by (rule assms(3) [OF m])
  then show ?thesis using assms(1,4) m by (cases a) (auto simp: sv_then_def)
qed

lemma handle_file_event_ok: "handle_file_event ch kind files sv w = (r, sv', w') \<Longrightarrow> sv_ok sv \<Longrightarrow> sv_ok sv'"
proof (induction files arbitrary: sv w)
  case (Cons f fs)
  from Cons.prems(1) have "sv_then (handle_path ch kind f) (\<lambda>_. handle_file_event ch kind fs) sv w = (r, sv', w')" by simp
  then show ?case
  proof (rule sv_then_ok)
    show "sv_ok sv1" if "handle_path ch kind f sv w = (a, sv1, w1)" for a sv1 w1
      by (rule file_change_ok [OF handle_path_change [OF that] Cons.prems(2)])
  qed (rule Cons.prems(2), rule Cons.IH)
qed simp

lemma unload_each_ok: "unload_each ch files sv w = (r, sv', w') \<Longrightarrow> sv_ok sv \<Longrightarrow> sv_ok sv'"
proof (induction files arbitrary: sv w)
  case (Cons f fs)
  from Cons.prems(1) have "sv_then (unload_config ch f)
      (\<lambda>_ sv w. unload_each ch fs (sv\<lparr>sv_watched := bt_remove f (sv_watched sv)\<rparr>) w) sv w = (r, sv', w')" by simp
  then show ?case
  proof (rule sv_then_ok)
    show "sv_ok sv1" if "unload_config ch f sv w = (a, sv1, w1)" for a sv1 w1
      by (rule file_change_ok [OF unload_config_change [OF that] Cons.prems(2)])
    show "sv_ok sv'" if "sv_ok sv1" "unload_each ch fs (sv1\<lparr>sv_watched := bt_remove f (sv_watched sv1)\<rparr>) w1 = (r, sv', w')" for sv1 w1
      by (rule Cons.IH [OF that(2)]) (simp add: that(1))
  qed (rule Cons.prems(2))
qed simp

lemma load_or_log_run: "load_or_log m sv w = (sv', w') \<Longrightarrow> \<exists>r. m sv w = (r, sv', w')"
  unfolding load_or_log_def by (metis prod.collapse)

lemma reload_config_ok:
  assumes "reload_config ch f sv w = (sv', w')" and "sv_ok sv"
  shows "sv_ok sv'"
proof -
  have load: "sv_ok sv1" if "load_or_log (handle_modified_config ch f) sv w0 = (sv1, w1)" for w0 sv1 w1
    using load_or_log_run [OF that] by (auto intro: file_change_ok [OF handle_modified_change assms(2)])
  have fresh: "sv_ok sv1" if "load_or_log (load_config_file ch f) sv w0 = (sv1, w1)" for w0 sv1 w1
    using load_or_log_run [OF that] by (auto intro: file_change_ok [OF load_config_change assms(2)])
  have watch: "sv_ok (watch_file f t sv1) = sv_ok sv1" for t sv1 by (simp add: watch_file_def split: option.splits)
  show ?thesis
    using assms load fresh
    by (auto simp: reload_config_def watch_now_def watch split: option.splits prod.splits if_splits)
qed

lemma reload_each_ok: "reload_each ch files sv w = (sv', w') \<Longrightarrow> sv_ok sv \<Longrightarrow> sv_ok sv'"
proof (induction files arbitrary: sv w)
  case (Cons f fs)
  obtain sv1 w1 where one: "reload_config ch f sv w = (sv1, w1)" by (metis prod.exhaust)
  show ?case by (rule Cons.IH [of sv1 w1]) (use Cons.prems one reload_config_ok [OF one] in simp_all)
qed simp

lemma reload_all_ok:
  assumes "reload_all_configs ch sv w = (r, sv', w')" and "sv_ok sv"
  shows "sv_ok sv'"
  using assms(1) unfolding reload_all_configs_def
proof (rule sv_then_ok)
  show "sv_ok sv1" if "sv_outside (config_files ch) sv w = (a, sv1, w1)" for a sv1 w1
    using that assms(2) by (auto simp: sv_outside_def split: prod.splits)
next
  fix current sv1 w1
  assume ok: "sv_ok sv1"
    and run: "sv_then (unload_each ch (filter (\<lambda>k. k \<notin> set current) (wh_walk (ch_host ch) (bt_keys (sv_watched sv1)) w1)))
      (\<lambda>_ sv w. case reload_each ch (wh_walk (ch_host ch) current w) sv w of (sv, w) \<Rightarrow> (Inr (), sv, w)) sv1 w1 = (r, sv', w')"
  show "sv_ok sv'"
    using run by (rule sv_then_ok) (use ok unload_each_ok reload_each_ok in \<open>auto split: prod.splits\<close>)
qed (rule assms(2))

lemma load_each_ok: "load_each ch entries sv w = (r, sv', w') \<Longrightarrow> sv_ok sv \<Longrightarrow> sv_ok sv'"
proof (induction ch entries sv w rule: load_each.induct)
  case (3 ch f rest sv w)
  show ?case
  proof (cases "extension f = Some ''toml''")
    case False
    then show ?thesis using 3 by simp
  next
    case True
    then have "sv_then (load_config_file ch f) (\<lambda>_ sv w.
        case ch_modified ch f w of
          (None, w) \<Rightarrow> (Inl (ConfigIo f), sv, w)
        | (Some t, w) \<Rightarrow> load_each ch rest (watch_file f (Some t) sv) w) sv w = (r, sv', w')" using "3.prems"(1) by simp
    then show ?thesis
    proof (rule sv_then_ok)
      show "sv_ok sv1" if "load_config_file ch f sv w = (a, sv1, w1)" for a sv1 w1
        by (rule file_change_ok [OF load_config_change [OF that] "3.prems"(2)])
      show "sv_ok sv'" if "sv_ok sv1" and run: "(case ch_modified ch f w1 of
          (None, w) \<Rightarrow> (Inl (ConfigIo f), sv1, w)
        | (Some t, w) \<Rightarrow> load_each ch rest (watch_file f (Some t) sv1) w) = (r, sv', w')" for sv1 w1
      proof -
        obtain m w2 where m: "ch_modified ch f w1 = (m, w2)" by (metis prod.exhaust)
        have watch: "sv_ok (watch_file f t sv1)" for t using that(1) by (simp add: watch_file_def split: option.splits)
        show ?thesis
          using run m that(1) "3.IH"(2) [OF _ m [symmetric]] watch True by (cases m) auto
      qed
    qed (rule "3.prems"(2))
  qed
qed simp_all

lemma load_initial_ok: "load_initial_configs ch sv w = (r, sv', w') \<Longrightarrow> sv_ok sv \<Longrightarrow> sv_ok sv'"
  by (auto simp: load_initial_configs_def intro: load_each_ok split: prod.splits option.splits sum.splits)

lemma push_outcome_ok: "sv_ok (push_outcome out sv) = sv_ok sv"
  unfolding push_outcome_def by (simp, rule manager_ok_cong) simp_all

lemma supervisor_step_ok:
  assumes "supervisor_step ch s t" and "fair_walk (ch_host ch)" and "sv_ok (fst s)"
  shows "sv_ok (fst t)"
  using assms
proof (induction rule: supervisor_step.induct)
  case (Load sv w r sv' w')
  then show ?case using load_initial_ok [OF Load(1)] by simp
next
  case (Event kind files sv w r sv' w')
  then show ?case using handle_file_event_ok [OF Event(1)] by simp
next
  case (Reload sv w r sv' w')
  then show ?case using reload_all_ok [OF Reload(1)] by simp
next
  case (Tick streaming sv w events pm' w')
  then show ?case using worker_tick_ok [OF Tick(1)] by simp
qed (simp_all add: push_outcome_ok)

lemma supervisor_new_ok: "sv_ok (supervisor_new pid_dir)"
  by (simp add: supervisor_new_def manager_new_def manager_ok_def processes_ok_def bt_ok_def bt_get_def gens_all_def generations_of_def)

definition supervisor_start :: "supervisor \<times> 'w \<Rightarrow> bool" where
  "supervisor_start s \<longleftrightarrow> (\<exists>pid_dir. fst s = supervisor_new pid_dir)"

interpretation workers: stepwise_invariant supervisor_start "supervisor_step ch" "\<lambda>s. fair_walk (ch_host ch) \<longrightarrow> sv_ok (fst s)" for ch
proof
  fix s :: "supervisor \<times> 'a"
  assume "supervisor_start s"
  then show "fair_walk (ch_host ch) \<longrightarrow> sv_ok (fst s)" by (auto simp: supervisor_start_def supervisor_new_ok)
next
  fix s t :: "supervisor \<times> 'a"
  assume "fair_walk (ch_host ch) \<longrightarrow> sv_ok (fst s)" "supervisor_step ch s t"
  then show "fair_walk (ch_host ch) \<longrightarrow> sv_ok (fst t)" using supervisor_step_ok by blast
qed

lemma reachable_ok:
  assumes "(supervisor_step ch)\<^sup>*\<^sup>* (supervisor_new pid_dir, w0) (sv, w)" and "fair_walk (ch_host ch)"
  shows "sv_ok sv"
  using workers.inv_reachable [OF _ assms(1)] assms(2) by (auto simp: supervisor_start_def)

text \<open>
  Property C3.  Apps are kept apart: in every reachable state of the supervisor, whatever happens to a config file named after a
  worker of one app (created, modified with or without a health check, removed, failing half way), the worker processes of
  every other app stay exactly as they were.
\<close>

theorem config_file_isolated:
  assumes "(supervisor_step ch)\<^sup>*\<^sup>* (supervisor_new pid_dir, w0) (sv, w)" and "fair_walk (ch_host ch)"
    and "named_worker filename = Some name" and "handle_path ch kind filename sv w = (r, sv', w')"
    and "worker_name_parse k = Some other" and "wn_app other \<noteq> wn_app name"
  shows "bt_get (pm_processes (sv_manager sv')) k = bt_get (pm_processes (sv_manager sv)) k"
proof -
  have "\<not> belongs filename k" using belongs_app [OF assms(3), of k] assms(5,6) by (auto simp: key_app_def)
  then show ?thesis
    using handle_path_change [OF assms(4)] reachable_ok [OF assms(1,2)] by (simp add: file_change_def same_workers_def)
qed


section \<open>Rollback\<close>

definition small_generations :: "process_manager \<Rightarrow> bool" where
  "small_generations pm \<longleftrightarrow> gens_all (\<lambda>slot v t c. 1 \<le> unat v \<and> unat v < 2 ^ 30 \<and> unat c < 2 ^ 30) pm"

lemma canary_ordinal_high:
  assumes "1 \<le> unat v" and "unat v < 2 ^ 30" and "unat c < 2 ^ 30"
  shows "2 ^ 31 \<le> unat (canary_ordinal c v)"
proof -
  have offset: "unat CANARY_ORDINAL_OFFSET = 2147483647" by (simp add: CANARY_ORDINAL_OFFSET_def)
  have one: "unat (CANARY_ORDINAL_OFFSET + v) = 2147483647 + unat v" using assms offset by (simp add: unat_word_ariths)
  have "unat (canary_ordinal c v) = unat c + (2147483647 + unat v)"
    unfolding canary_ordinal_def using assms one by (simp add: unat_word_ariths(1) [of c])
  then show ?thesis using assms(1) by simp
qed

text \<open>
  Property C5.  The circuit breaker spares the running process: when the tick reconciles generations and no probe reported the new
  generation of a worker healthy, the process in the worker's slot stays exactly as it was, however many canaries crashed,
  failed their probes or could not be stopped, and whatever happened to the generations of other workers.
\<close>

theorem rollback_spares_running:
  assumes "(supervisor_step ch)\<^sup>*\<^sup>* (supervisor_new pid_dir, w0) (sv, w)" and "fair_walk (ch_host ch)"
    and "small_generations (sv_manager sv)" and "unat (wn_ordinal u) < 2 ^ 31"
    and "\<forall>out \<in> set (pm_probe_results (sv_manager sv)). po_process_id out = worker_name_display u \<longrightarrow> \<not> po_healthy out"
    and "reconcile_generations (ch_host ch) (sv_manager sv) w = (r, pm', w')"
  shows "bt_get (pm_processes pm') (worker_name_display u) = bt_get (pm_processes (sv_manager sv)) (worker_name_display u)"
proof -
  let ?Q = "\<lambda>slot v t c. shifted slot v t c \<and> 1 \<le> unat v \<and> unat v < 2 ^ 30 \<and> unat c < 2 ^ 30"
  have gens: "gens_all ?Q (sv_manager sv)"
    using reachable_ok [OF assms(1,2)] assms(3) by (simp add: manager_ok_def small_generations_def gens_all_def)
  have apart: "t \<noteq> worker_name_display u" if Q: "?Q slot v t c" for slot v t c
  proof
    assume t: "t = worker_name_display u"
    obtain x where "t = worker_name_display (with_ordinal (canary_ordinal c v) x)" using Q by (auto simp: shifted_def)
    then have "wn_ordinal u = canary_ordinal c v" using display_ordinal [of u "with_ordinal (canary_ordinal c v) x"] t by (simp add: with_ordinal_def)
    then show False using canary_ordinal_high [of v c] Q assms(4) by simp
  qed
  have "same_workers (\<lambda>k. k = worker_name_display u) (sv_manager sv) pm'"
    using reconcile_view [OF assms(6) gens, of "\<lambda>k. k = worker_name_display u"] apart assms(5) by blast
  then show ?thesis by (simp add: same_workers_def)
qed

section \<open>Marks and names\<close>

lemma give_up_gone: "give_up_process host k pm w = (pm', w') \<Longrightarrow> bt_get (pm_processes pm') k = None"
  by (auto simp: give_up_process_def bt_get_remove split: option.splits)

text \<open>
  The list of processes to restart marks those to give up by a prefix of their id, and that prefix is a valid
  beginning of an app name: when a worker of an app called \<open>__remove__shop\<close> is due for a restart, the supervisor instead
  drops the running worker of the app \<open>shop\<close> from supervision, and does not restart the one that crashed.
\<close>

lemma remove_mark_crosses_apps:
  "validate_app_name ''__remove__shop'' = Inr ''__remove__shop''
   \<and> (\<exists>pm' w'. restart_or_remove host 0 [worker_name_display (worker_name_new ''__remove__shop'' ''web'' 1)] pm w = (Inr (), pm', w')
        \<and> bt_get (pm_processes pm') (worker_name_display (worker_name_new ''shop'' ''web'' 1)) = None
        \<and> bt_get (pm_processes pm') (worker_name_display (worker_name_new ''__remove__shop'' ''web'' 1))
          = bt_get (pm_processes pm) (worker_name_display (worker_name_new ''__remove__shop'' ''web'' 1)))"
proof
  show "validate_app_name ''__remove__shop'' = Inr ''__remove__shop''" by code_simp
next
  let ?u = "worker_name_display (worker_name_new ''__remove__shop'' ''web'' 1)"
  let ?v = "worker_name_display (worker_name_new ''shop'' ''web'' 1)"
  have names: "strip_prefix REMOVE_MARK ?u = Some ?v" "?u \<noteq> ?v"
    by (simp_all add: strip_prefix_Some REMOVE_MARK_def worker_name_display_def worker_name_new_def)
  obtain pm' w' where g: "give_up_process host ?v pm w = (pm', w')" by (metis prod.exhaust)
  have "bt_get (pm_processes pm') ?u = bt_get (pm_processes pm) ?u"
    using give_up_change [OF g] names(2) by (simp add: slot_change_def same_workers_def)
  then show "\<exists>pm' w'. restart_or_remove host 0 [?u] pm w = (Inr (), pm', w') \<and> bt_get (pm_processes pm') ?v = None
      \<and> bt_get (pm_processes pm') ?u = bt_get (pm_processes pm) ?u"
    using give_up_gone [OF g] names(1) g by simp
qed

lemma filter_own_label: "distinct (map f xs) \<Longrightarrow> x \<in> set xs \<Longrightarrow> filter (\<lambda>y. f y = f x) xs = [x]"
proof (induction xs)
  case (Cons y ys)
  show ?case
  proof (cases "x = y")
    case True
    then show ?thesis using Cons.prems(1) by (auto simp: filter_empty_conv) (metis imageI)
  next
    case False
    then have "x \<in> set ys" "f y \<noteq> f x" using Cons.prems by auto
    then show ?thesis using Cons by simp
  qed
qed simp

lemma promote_generation_generations:
  assumes "promote_generation host slot v pm w = (Inr (), pm1, w1)" and "g \<in> set (generations_of pm slot)"
    and "ag_version g = v" and "ag_status g = Probing"
  shows "generations_of pm1 slot = stable_first (filter (\<lambda>g. ag_version g = v) (generations_of pm slot))"
proof -
  obtain a where found: "find (\<lambda>g. ag_version g = v \<and> ag_status g = Probing) (generations_of pm slot) = Some a"
    using assms(2-4) by (cases "find (\<lambda>g. ag_version g = v \<and> ag_status g = Probing) (generations_of pm slot)")
      (auto simp: find_None_iff)
  obtain r2 pm2 w2 where stop: "(case bt_get (pm_processes pm) slot of None \<Rightarrow> (Inr (), pm, w)
      | Some old \<Rightarrow> (case stop_spawned host slot old w of
          (r, old, w') \<Rightarrow> (r, pm\<lparr>pm_processes := bt_remove slot (pm_processes pm)\<rparr>, drop_spawned host old w'))) = (r2, pm2, w2)"
    by (metis prod.exhaust)
  have "slot_change slot pm pm2" using stop by (auto intro: slot_changes split: option.splits prod.splits)
  then have same: "pm_generations pm2 = pm_generations pm" by (simp add: slot_change_def)
  define pm3 where "pm3 = take_over host slot a (with_stats (remove_process slot) pm2) w2"
  have "pm_generations pm3 = pm_generations pm"
    by (simp add: pm3_def same take_over_view(2) [where P = "\<lambda>_. False"] with_stats_def)
  then have old: "generations_of pm3 slot = generations_of pm slot" by (simp add: generations_of_def)
  obtain u where r2: "r2 = Inr u" using assms(1) found stop by (cases r2) (auto simp: promote_generation_def pm_then_def)
  let ?gens = "stable_first (filter (\<lambda>g. ag_version g = v) (generations_of pm3 slot))"
  have "pm1 = push_event (''[DEPLOYMENT_PROMOTED] '' @ slot @ '' v'' @ show_u32 v @ '' is now stable'')
        (pm3\<lparr>pm_generations := bt_insert slot ?gens (pm_generations pm3)\<rparr>)"
    using assms(1) found stop r2 by (auto simp: promote_generation_def pm_then_def Let_def pm3_def)
  then show ?thesis using old by (simp add: push_event_def generations_of_def bt_get_insert)
qed

text \<open>
  Promoting one canary loses the others: when two canaries of a worker are probing, the promotion of one forgets the
  other, whose process runs on under its temporary key, and a later removal of the worker's config does not stop it.
\<close>

lemma promotion_orphans_canary:
  assumes "promote_generation host slot v pm w = (Inr (), pm1, w1)"
    and "g \<in> set (generations_of pm slot)" and "ag_version g = v" and "ag_status g = Probing"
    and "h \<in> set (generations_of pm slot)" and "ag_status h = Probing"
    and "distinct (map ag_version (generations_of pm slot))" and "distinct (slot # map ag_temp_key (generations_of pm slot))"
    and "g \<noteq> h" and "stop_canaries host slot pm1 w1 = (r, pm2, w2)"
  shows "bt_get (pm_processes pm2) (ag_temp_key h) = bt_get (pm_processes pm) (ag_temp_key h)"
proof -
  let ?gens = "generations_of pm slot"
  have only: "filter (\<lambda>x. ag_version x = v) ?gens = [g]" using filter_own_label [OF assms(7,2)] assms(3) by simp
  have same: "x = g" if x: "x \<in> set ?gens" and v: "ag_version x = v" for x
  proof -
    have "x \<in> set (filter (\<lambda>x. ag_version x = v) ?gens)" using x v by simp
    then show ?thesis using only by simp
  qed
  have key: "ag_temp_key h \<noteq> slot" using assms(5,8) by auto
  have other: "ag_temp_key h \<noteq> ag_temp_key g"
  proof
    assume eq: "ag_temp_key h = ag_temp_key g"
    have "filter (\<lambda>x. ag_temp_key x = ag_temp_key h) ?gens = [h]" using filter_own_label [OF _ assms(5), of ag_temp_key] assms(8) by simp
    moreover have "g \<in> set (filter (\<lambda>x. ag_temp_key x = ag_temp_key h) ?gens)" using assms(2) eq by simp
    ultimately show False using assms(9) by simp
  qed
  let ?Q = "\<lambda>s x t c. s = slot \<longrightarrow> x = v \<longrightarrow> t = ag_temp_key g"
  have Q: "gens_all ?Q pm" unfolding gens_all_def using same by blast
  have one: "same_workers (\<lambda>k. k = ag_temp_key h) pm pm1 \<and> gens_all ?Q pm1 \<and> pm_probe_results pm1 = pm_probe_results pm"
    by (rule promote_generation_view [OF assms(1) Q]) (use key other in auto)
  have "filter (\<lambda>g. ag_status g = Probing) (generations_of pm1 slot) = []"
    by (simp add: promote_generation_generations [OF assms(1-4)] only)
  then have "pm_processes pm2 = pm_processes pm1" using assms(10) by (auto simp: stop_canaries_def)
  then show ?thesis using one by (simp add: same_workers_def)
qed

section \<open>Stopping comes to an end\<close>

definition worker_clock :: "'w worker_host \<Rightarrow> bool" where
  "worker_clock host \<longleftrightarrow>
     sleeps (wh_now host) (wh_sleep host) \<and> (\<forall>pid. tick (wh_now host) (wh_try_wait host pid))
     \<and> (\<forall>pid. tick (wh_now host) (wh_probe_group host pid)) \<and> (\<forall>pid w. wh_now host w \<le> wh_now host (wh_reap_group host pid w))"

lemma wait_rounds_end:
  assumes "sleeps (wh_now host) (wh_sleep host)" and still: "\<And>s w. wh_now host w \<le> wh_now host (snd (snd (still s w)))"
  shows "deadline \<le> wh_now host w + n * STOP_POLL \<Longrightarrow> wait_rounds host still deadline (Suc n) s w \<noteq> None"
proof (induction n arbitrary: s w)
  case 0
  obtain b s' w' where step: "still s w = (b, s', w')" by (metis prod.exhaust)
  show ?case using 0 step still [of w s] by simp
next
  case (Suc n)
  obtain b s' w' where step: "still s w = (b, s', w')" by (metis prod.exhaust)
  have "wh_now host w + STOP_POLL \<le> wh_now host (wh_sleep host STOP_POLL w')"
  proof -
    have "wh_now host w' + STOP_POLL \<le> wh_now host (wh_sleep host STOP_POLL w')" using assms(1) by (simp add: sleeps_def)
    then show ?thesis using still [of w s] step by simp
  qed
  then have "deadline \<le> wh_now host (wh_sleep host STOP_POLL w') + n * STOP_POLL" using Suc.prems by simp
  from Suc.IH [OF this, of s'] show ?case using step by simp
qed

lemma wait_while_ends:
  assumes "sleeps (wh_now host) (wh_sleep host)" and "\<And>s w. wh_now host w \<le> wh_now host (snd (snd (still s w)))"
  shows "wait_while host limit still s w \<noteq> None"
proof -
  have "limit < Suc (limit div STOP_POLL) * STOP_POLL"
    using dividend_less_div_times [of STOP_POLL limit] by (simp add: STOP_POLL_def)
  then have "wh_now host w + limit \<le> wh_now host w + (limit div STOP_POLL + 1) * STOP_POLL" by simp
  from wait_rounds_end [OF assms this] show ?thesis by (simp add: wait_while_def)
qed

lemma is_running_time: "worker_clock host \<Longrightarrow> wh_now host w \<le> wh_now host (snd (snd (is_running host p w)))"
  by (cases "wh_try_wait host (sp_pid p) w")
    (fastforce simp: worker_clock_def tick_def is_running_def split: wait_status.splits dest: spec [of _ "sp_pid p"] spec [of _ w])

lemma group_waiting_time:
  assumes "worker_clock host"
  shows "wh_now host w \<le> wh_now host (snd (snd (group_waiting host p w)))"
proof -
  let ?w = "wh_reap_group host (sp_pid p) w"
  obtain r w' where probe: "wh_probe_group host (sp_pid p) ?w = (r, w')" by (metis prod.exhaust)
  have "wh_now host ?w \<le> wh_now host (snd (wh_probe_group host (sp_pid p) ?w))" using assms unfolding worker_clock_def tick_def by blast
  moreover have "wh_now host w \<le> wh_now host ?w" using assms unfolding worker_clock_def by blast
  ultimately show ?thesis by (simp add: group_waiting_def group_alive_def probe split: kill_result.splits)
qed

lemma stop_leftovers_end:
  assumes "worker_clock host"
  shows "fst (stop_group_leftovers host grace p w) \<noteq> Inl StopOutOfFuel"
proof -
  have waits: "wait_while host limit (group_waiting host) q v = None \<longleftrightarrow> False" for limit q v
    using assms wait_while_ends group_waiting_time [OF assms] by (metis worker_clock_def)
  show ?thesis by (auto simp: waits stop_group_leftovers_def signal_group_def split: prod.splits bool.splits option.splits sum.splits kill_result.splits)
qed


section \<open>What a failed respawn loses\<close>

lemma stop_temp_keys_generations: "stop_temp_keys host ks pm w = (r, pm', w') \<Longrightarrow> pm_generations pm' = pm_generations pm"
proof (induction ks arbitrary: pm w)
  case (Cons k ks)
  obtain r1 pm1 w1 where s: "stop_process_by_id host k pm w = (r1, pm1, w1)" by (metis prod.exhaust)
  have same: "pm_generations pm1 = pm_generations pm" using stop_process_change [OF s] by (simp add: slot_change_def)
  show ?case
  proof (cases r1)
    case (Inr u)
    then have "stop_temp_keys host ks (with_stats (remove_process k) pm1) w1 = (r, pm', w')" using Cons.prems s by (simp add: pm_then_def)
    from Cons.IH [OF this] show ?thesis using same by (simp add: with_stats_def)
  qed (use Cons.prems s same in \<open>simp add: pm_then_def\<close>)
qed simp

text \<open>
  A removed config forgets the versions it used: the next canary of the worker is version 1 again, so a probe outcome still
  on its way from an earlier version 1 is taken for an outcome of the new one.
\<close>

lemma versions_start_again:
  assumes "stop_canaries host slot pm w = (r, pm', w')"
  shows "next_version pm' slot = 1"
proof -
  have "pm_generations pm' = bt_remove slot (pm_generations pm)"
    using stop_temp_keys_generations assms by (fastforce simp: stop_canaries_def)
  then show ?thesis by (simp add: next_version_def generations_of_def bt_get_remove)
qed

text \<open>
  A worker is lost by a respawn that fails: when a process is to be restarted and its new child cannot be started,
  for a log file, a cgroup or a fork that fails for the moment, the worker is no longer supervised, no deployment event says
  so, and a later restart of it does nothing.
\<close>

lemma failed_respawn_unmanaged:
  assumes "bt_get (pm_processes pm) k = Some p" and "process_id_of (sp_config p) = k"
    and "start_child host (pm_pid_dir pm) k (sp_config p) (drop_spawned host p w) = (Inl e, w1)"
  shows "\<exists>pm'. restart_process host k pm w = (Inl e, pm', w1) \<and> \<not> is_managed pm' k
    \<and> restart_process host k pm' w2 = (Inr (), pm', w2) \<and> pm_deployment_events pm' = pm_deployment_events pm"
proof -
  let ?pm = "with_stats (mark_restarting (wh_utc host w) k) (pm\<lparr>pm_processes := bt_remove k (pm_processes pm)\<rparr>)"
  have gone: "bt_get (pm_processes ?pm) k = None" by (simp add: with_stats_def bt_get_remove)
  have "restart_process host k pm w = (Inl e, ?pm, w1)"
    using assms gone by (simp add: restart_process_def pm_then_def spawn_process_def is_managed_def Let_def with_stats_def)
  moreover have "restart_process host k ?pm w2 = (Inr (), ?pm, w2)" using gone by (simp add: restart_process_def)
  moreover have "pm_deployment_events ?pm = pm_deployment_events pm" by (simp add: with_stats_def)
  ultimately show ?thesis using gone unfolding is_managed_def by blast
qed

section \<open>A small host\<close>

text \<open>
  The world is a clock in seconds.  Every child exits at once, every request answers 500, and the config file of a worker holds
  its own name; the workers of \<open>shop\<close> have a health check.
\<close>

definition small_host :: "nat worker_host" where
  "small_host = \<lparr>wh_try_wait = (\<lambda>_. Pair (ExitedWith (Some 1))), wh_wait = (\<lambda>_. Pair (Inr ())), wh_killpg = (\<lambda>_ _. Pair Sent),
     wh_probe_group = (\<lambda>_. Pair NoSuchProcess), wh_reap_group = (\<lambda>_ w. w), wh_kill_child = (\<lambda>_ w. w),
     wh_provision = (\<lambda>_ _. Pair (Inl ''no cgroup'')), wh_kill_cgroup = (\<lambda>_. Pair (Inr ())), wh_oom_kills = (\<lambda>_. Pair None),
     wh_open_logs = (\<lambda>_. Pair (Inr ())), wh_clone_logs = (\<lambda>_. Pair (Inr ())), wh_capture_logs = (\<lambda>_ _ w. w),
     wh_user_id = (\<lambda>_. Pair None), wh_group_id = (\<lambda>_. Pair None), wh_current_exe = Pair (Inr ''riku''),
     wh_spawn = (\<lambda>_ w. (Inr (of_nat w), w + 100)), wh_create_marker = (\<lambda>_ _. Pair (Inr ())), wh_remove_marker = (\<lambda>_ _ w. w),
     wh_resources = (\<lambda>_. Pair None), wh_http = (\<lambda>_ _ w. (HttpStatus 500, w + 10)), wh_probe_thread = (\<lambda>_ _ _ w. w),
     wh_emit = (\<lambda>_ w. w), wh_now = from_secs, wh_utc = (\<lambda>w. w), wh_sleep = (\<lambda>d w. w + d), wh_walk = (\<lambda>ks _. ks)\<rparr>"

definition small_config :: "worker_name \<Rightarrow> worker_config" where
  "small_config n = create_worker_config (wn_app n) (wn_kind n) ''run'' (wn_ordinal n)
     (if wn_app n = ''shop'' then [(''PORT'', ''8000''), (''RIKU_HEALTH_CHECK_URL'', ''/up'')] else []) ''dir'' ''log''"

definition small_files :: "nat config_host" where
  "small_files = \<lparr>ch_host = small_host, ch_list = Pair None, ch_read = (\<lambda>f. Pair (Inr f)),
     ch_toml = (\<lambda>f. case named_worker f of Some n \<Rightarrow> Inr (small_config n) | None \<Rightarrow> Inl ''no worker''),
     ch_modified = (\<lambda>_ w. (Some w, w + 1)), ch_app_exists = (\<lambda>_. Pair (Inr True)), ch_remove_cron = (\<lambda>_ w. w),
     ch_load_cron = (\<lambda>_ _ w. w)\<rparr>"

definition small_event :: "file_event_kind \<Rightarrow> string \<Rightarrow> supervisor \<times> nat \<Rightarrow> supervisor \<times> nat" where
  "small_event kind filename s = snd (handle_file_event small_files kind [filename] (fst s) (snd s))"

lemma small_event_step: "supervisor_step small_files s (small_event kind filename s)"
proof -
  obtain r sv' w' where run: "handle_file_event small_files kind [filename] (fst s) (snd s) = (r, sv', w')" by (metis prod.exhaust)
  then show ?thesis using Event [OF run] by (simp add: small_event_def)
qed

lemma small_fair: "fair_walk (ch_host small_files)"
  by (simp add: small_files_def small_host_def fair_walk_def)

definition shop_web :: worker_name where
  "shop_web = worker_name_new ''shop'' ''web'' 1"

definition blog_web :: worker_name where
  "blog_web = worker_name_new ''blog'' ''web'' 1"

lemma small_oks: "worker_ok shop_web" "worker_ok blog_web"
  by code_simp+

lemma small_names:
  "worker_name_display shop_web = ''shop@web.1''" "worker_name_display blog_web = ''blog@web.1''"
  "worker_file_name shop_web = ''shop@web.1.toml''" "worker_file_name blog_web = ''blog@web.1.toml''"
  "extension ''shop@web.1.toml'' = Some ''toml''" "extension ''blog@web.1.toml'' = Some ''toml''"
  by code_simp+

lemma small_parses:
  "worker_name_parse ''shop@web.1'' = Some shop_web" "worker_name_parse ''blog@web.1'' = Some blog_web"
  "named_worker ''shop@web.1.toml'' = Some shop_web" "named_worker ''blog@web.1.toml'' = Some blog_web"
  using worker_parse_display [OF small_oks(1)] worker_parse_display [OF small_oks(2)] named_worker_file [of shop_web] named_worker_file [of blog_web]
  by (simp_all add: small_names)

text \<open>
  The ordinal of a file name need not be in its shortest form: a file that is never loaded for its name still stands for a
  worker, and removing it stops that worker.
\<close>

lemma misnamed_file_names_worker:
  "named_worker ''shop@web.01.toml'' = Some shop_web \<and> worker_file_name shop_web \<noteq> ''shop@web.01.toml''"
proof -
  have "strip_suffix CONFIG_EXTENSION ''shop@web.01.toml'' = Some ''shop@web.01.''" "strip_suffix ''.'' ''shop@web.01.'' = Some ''shop@web.01''"
    by code_simp+
  moreover have "parse_u32 ''01'' = Some 1" by (simp add: parse_u32_def parse_uint_def digits_value_def char_class_defs)
  moreover have "split_once APP_SEPARATOR ''shop@web.01'' = Some (''shop'', ''web.01'')" "rsplit_once (CHR ''.'') ''web.01'' = Some (''web'', ''01'')"
    "exact_app_name ''shop'' = Some ''shop''" "is_valid_kind ''web''" "list_all is_ascii_digit ''01''"
    by code_simp+
  ultimately show ?thesis by (simp add: named_worker_def worker_name_parse_def shop_web_def [symmetric] small_names)
qed

lemmas small_config_defs = small_config_def create_worker_config_def Let_def

lemma small_config_worker: "info_name (wc_worker (small_config n)) = n" "wi_kind (wc_worker (small_config n)) = wn_kind n"
  by (simp_all add: small_config_defs info_name_def worker_name_new_def)

lemma small_config_ids: "wo_uid (wc_options (small_config n)) = None" "wo_gid (wc_options (small_config n)) = None"
  by (simp_all add: small_config_defs)

lemma small_config_isolation: "wo_isolation (wc_options (small_config n)) = None"
  by (simp add: small_config_defs isolation_from_env_def bt_get_def)

lemma small_config_restarts: "wo_max_restarts (wc_options (small_config n)) = 5"
  by (simp add: small_config_defs parse_env_or_def parse_env_opt_def bt_get_def RIKU_MAX_RESTARTS_def)

lemma small_config_health:
  "wo_health_check (wc_options (small_config shop_web)) \<noteq> None" "wo_health_check (wc_options (small_config blog_web)) = None"
  by (simp_all add: small_config_defs health_from_env_def bt_get_def shop_web_def blog_web_def worker_name_new_def)

lemma small_config_port: "Option.bind (bt_get (wc_env (small_config shop_web)) ''PORT'') parse_u16 = Some 8000"
  by (simp add: small_config_defs bt_get_def shop_web_def worker_name_new_def parse_u16_def parse_uint_def digits_value_def char_class_defs)

lemmas small_configs = small_config_worker small_config_ids small_config_isolation

lemma small_kinds: "is_cron (wn_kind shop_web) = False" "is_cron (wn_kind blog_web) = False"
  by code_simp+

definition small_process :: "worker_name \<Rightarrow> nat \<Rightarrow> spawned_process" where
  "small_process n t = \<lparr>sp_pid = of_nat t, sp_config = small_config n, sp_restart_count = 0, sp_last_restart = from_secs (t + 100),
     sp_health_check_config = wo_health_check (wc_options (small_config n)), sp_consecutive_health_failures = 0,
     sp_last_health_probe = None, sp_cgroup = None, sp_last_exit_code = None, sp_pid_file = None, sp_stopped = False\<rparr>"

lemma small_start: "start_child small_host False k (small_config n) w = (Inr (small_process n w), w + 100)"
  by (simp add: start_child_def small_host_def resolve_id_def small_configs provision_cgroup_def base_command_def new_with_cgroup_def
      small_process_def)

definition small_state ::
  "(string, spawned_process) btree \<Rightarrow> (string, app_generation list) btree \<Rightarrow> (string, nat) btree \<Rightarrow> stats_manager \<Rightarrow> supervisor" where
  "small_state processes generations watched stats =
     \<lparr>sv_manager = \<lparr>pm_processes = processes, pm_stats = stats, pm_generations = generations, pm_probe_results = [],
        pm_deployment_events = [], pm_pid_dir = False\<rparr>, sv_watched = watched\<rparr>"

lemma small_create:
  assumes "named_worker f = Some n" "worker_file_name n = f" "is_cron (wn_kind n) = False" "extension f = Some ''toml''"
    and "bt_get ps (worker_name_display n) = None"
  shows "\<exists>st'. small_event FileCreate f (small_state ps gs ws st, w)
    = (small_state (bt_insert (worker_name_display n) (small_process n w) ps) gs (bt_insert f (w + 100) ws) st', w + 101)"
  using assms by (simp add: small_event_def handle_path_def reset_process_restarts_def small_state_def with_stats_def sv_then_def
    load_config_file_def sv_outside_def loadable_config_def parse_worker_config_def small_files_def small_configs on_manager_def
    spawn_process_def pm_then_def is_managed_def small_start Let_def watch_now_def watch_file_def)

definition small_canary :: "worker_name \<Rightarrow> u32 \<Rightarrow> worker_name" where
  "small_canary n v = with_ordinal (canary_ordinal (wn_ordinal n) v) n"

lemma small_canary_config: "config_with_ordinal (canary_ordinal (wn_ordinal n) v) (small_config n) = small_config (small_canary n v)"
  by (simp add: config_with_ordinal_def small_canary_def with_ordinal_def small_config_defs)

definition small_generation :: "u32 \<Rightarrow> nat \<Rightarrow> app_generation" where
  "small_generation v t = \<lparr>ag_version = v, ag_pids = [of_nat t], ag_status = Probing,
     ag_temp_key = worker_name_display (small_canary shop_web v), ag_canonical_ordinal = 1\<rparr>"

lemma small_deploy:
  assumes "bt_get ps (worker_name_display (small_canary shop_web v)) = None" "length (generations_of pm ''shop@web.1'') < 5"
    and "next_version pm ''shop@web.1'' = v" "ps = pm_processes pm" "pm_pid_dir pm = False"
  shows "\<exists>st'. deploy_generation small_host ''shop@web.1'' (small_config shop_web) pm w
    = (Inr (), pm\<lparr>pm_stats := st', pm_processes := bt_insert (worker_name_display (small_canary shop_web v)) (small_process (small_canary shop_web v) w) ps,
         pm_generations := bt_insert ''shop@web.1'' (generations_of pm ''shop@web.1'' @ [small_generation v w])
           (pm_generations pm)\<rparr>, w + 100)"
proof -
  have few: "prune_failed (generations_of pm ''shop@web.1'' @ [g]) = generations_of pm ''shop@web.1'' @ [g]" for g
    using assms(2) length_filter_le [of "\<lambda>g. ag_status g = Failed" "generations_of pm ''shop@web.1'' @ [g]"]
    by (auto simp: prune_failed_def MAX_FAILED_HISTORY_def Let_def)
  have ordinal: "wi_ordinal (wc_worker (small_config shop_web)) = 1" "wn_ordinal shop_web = 1"
    by (simp_all add: small_config_defs shop_web_def worker_name_new_def)
  have config: "config_with_ordinal (canary_ordinal 1 v) (small_config shop_web) = small_config (small_canary shop_web v)"
    using small_canary_config [of shop_web v] ordinal by simp
  have thread: "wh_probe_thread small_host a b c t = t" for a b c t by (simp add: small_host_def)
  have pid: "sp_pid (small_process n t) = of_nat t" for n t by (simp add: small_process_def)
  have spawn: "\<exists>st'. spawn_process small_host (small_config (small_canary shop_web v)) pm w
    = (Inr (), pm\<lparr>pm_stats := st', pm_processes := bt_insert (worker_name_display (small_canary shop_web v)) (small_process (small_canary shop_web v) w) ps\<rparr>, w + 100)"
    using assms by (auto simp: spawn_process_def pm_then_def is_managed_def small_start Let_def small_configs with_stats_def)
  then obtain st' where spawn: "spawn_process small_host (small_config (small_canary shop_web v)) pm w
    = (Inr (), pm\<lparr>pm_stats := st', pm_processes := bt_insert (worker_name_display (small_canary shop_web v)) (small_process (small_canary shop_web v) w) ps\<rparr>, w + 100)" by blast
  have same: "generations_of (pm\<lparr>pm_stats := b, pm_processes := a\<rparr>) k = generations_of pm k" for a b k by (simp add: generations_of_def)
  show ?thesis
    using assms(3,4) few by (intro exI [of _ st'])
      (simp add: deploy_generation_def small_config_port ordinal config pm_then_def spawn Let_def small_configs bt_get_insert pid
      small_generation_def same thread)
qed

lemma small_modify:
  assumes "bt_get ps ''shop@web.1'' \<noteq> None" "bt_get ws ''shop@web.1.toml'' = Some old" "old < w"
    and "bt_get ps (worker_name_display (small_canary shop_web v)) = None" "length gens < 5"
    and "gens = (case bt_get gs ''shop@web.1'' of Some g \<Rightarrow> g | None \<Rightarrow> [])" "fold max (map ag_version gens) 0 + 1 = v"
  shows "\<exists>st'. small_event FileModify ''shop@web.1.toml'' (small_state ps gs ws st, w)
    = (small_state (bt_insert (worker_name_display (small_canary shop_web v)) (small_process (small_canary shop_web v) (w + 1)) ps)
        (bt_insert ''shop@web.1'' (gens @ [small_generation v (w + 1)]) gs) (bt_insert ''shop@web.1.toml'' w ws) st', w + 101)"
proof -
  let ?sv = "reset_process_restarts ''shop@web.1.toml'' (small_state ps gs ws st)"
  have reset: "pm_processes (sv_manager ?sv) = ps" "pm_generations (sv_manager ?sv) = gs" "sv_watched ?sv = ws"
    "pm_pid_dir (sv_manager ?sv) = False" "pm_probe_results (sv_manager ?sv) = []" "pm_deployment_events (sv_manager ?sv) = []"
    by (simp_all add: reset_process_restarts_def small_parses small_state_def with_stats_def)
  have gens: "generations_of (sv_manager ?sv) ''shop@web.1'' = gens" by (simp add: generations_of_def reset assms(6))
  obtain st' where deploy: "deploy_generation small_host ''shop@web.1'' (small_config shop_web) (sv_manager ?sv) (w + 1)
    = (Inr (), (sv_manager ?sv)\<lparr>pm_stats := st', pm_processes := bt_insert (worker_name_display (small_canary shop_web v)) (small_process (small_canary shop_web v) (w + 1)) ps,
         pm_generations := bt_insert ''shop@web.1'' (gens @ [small_generation v (w + 1)]) gs\<rparr>, w + 101)"
    using small_deploy [of ps v "sv_manager ?sv" "w + 1"] assms(4,5,7) by (auto simp: gens reset next_version_def)
  have "handle_modified_config small_files ''shop@web.1.toml'' ?sv (w + 1) = (Inr (), ?sv\<lparr>sv_manager := 
       (sv_manager ?sv)\<lparr>pm_stats := st', pm_processes := bt_insert (worker_name_display (small_canary shop_web v)) (small_process (small_canary shop_web v) (w + 1)) ps,
         pm_generations := bt_insert ''shop@web.1'' (gens @ [small_generation v (w + 1)]) gs\<rparr>\<rparr>, w + 101)"
    using deploy assms(1) reset(1) small_config_health(1) small_kinds(1)
    by (simp add: handle_modified_config_def sv_then_def sv_outside_def loadable_config_def parse_worker_config_def small_files_def small_parses
      small_configs small_names on_manager_def is_managed_def)
  moreover have "ch_modified small_files f w = (Some w, w + 1)" for f by (simp add: small_files_def)
  ultimately have "small_event FileModify ''shop@web.1.toml'' (small_state ps gs ws st, w) = (watch_file ''shop@web.1.toml'' (Some w) (?sv\<lparr>sv_manager := 
       (sv_manager ?sv)\<lparr>pm_stats := st', pm_processes := bt_insert (worker_name_display (small_canary shop_web v)) (small_process (small_canary shop_web v) (w + 1)) ps,
         pm_generations := bt_insert ''shop@web.1'' (gens @ [small_generation v (w + 1)]) gs\<rparr>\<rparr>), w + 101)"
    using assms(2,3) by (simp add: small_event_def handle_path_def small_names sv_then_def small_state_def)
  then show ?thesis by (simp add: watch_file_def small_state_def reset_process_restarts_def small_parses with_stats_def)
qed


lemma small_canary_apart: "worker_name_display (small_canary n v) = worker_name_display m \<Longrightarrow> canary_ordinal (wn_ordinal n) v = wn_ordinal m"
  using display_ordinal [of m "small_canary n v"] by (simp add: small_canary_def with_ordinal_def)

lemma small_canary_keys:
  "worker_name_display (small_canary shop_web 1) \<noteq> ''shop@web.1''" "worker_name_display (small_canary shop_web 1) \<noteq> ''blog@web.1''"
  "worker_name_display (small_canary shop_web 2) \<noteq> ''shop@web.1''" "worker_name_display (small_canary shop_web 2) \<noteq> ''blog@web.1''"
  "worker_name_display (small_canary shop_web 2) \<noteq> worker_name_display (small_canary shop_web 1)"
proof -
  have ordinals: "wn_ordinal shop_web = 1" "wn_ordinal blog_web = 1" "canary_ordinal 1 1 = 2147483649" "canary_ordinal 1 2 = 2147483650"
      "wn_ordinal (small_canary shop_web 1) = 2147483649"
    by (simp_all add: canary_ordinal_def CANARY_ORDINAL_OFFSET_def shop_web_def blog_web_def worker_name_new_def small_canary_def with_ordinal_def)
  show "worker_name_display (small_canary shop_web 1) \<noteq> ''shop@web.1''" "worker_name_display (small_canary shop_web 1) \<noteq> ''blog@web.1''"
    using small_canary_apart [of shop_web 1 shop_web] small_canary_apart [of shop_web 1 blog_web] by (auto simp: small_names ordinals)
  show "worker_name_display (small_canary shop_web 2) \<noteq> ''shop@web.1''" "worker_name_display (small_canary shop_web 2) \<noteq> ''blog@web.1''"
    using small_canary_apart [of shop_web 2 shop_web] small_canary_apart [of shop_web 2 blog_web] by (auto simp: small_names ordinals)
  show "worker_name_display (small_canary shop_web 2) \<noteq> worker_name_display (small_canary shop_web 1)"
    using small_canary_apart [of shop_web 2 "small_canary shop_web 1"] by (auto simp: ordinals)
qed

definition two_apps :: "supervisor \<times> nat" where
  "two_apps = small_event FileCreate ''blog@web.1.toml'' (small_event FileCreate ''shop@web.1.toml'' (supervisor_new False, 0))"

definition one_canary :: "supervisor \<times> nat" where
  "one_canary = small_event FileModify ''shop@web.1.toml'' two_apps"

definition two_canaries :: "supervisor \<times> nat" where
  "two_canaries = small_event FileModify ''shop@web.1.toml'' one_canary"

lemma small_states_reachable:
  "(supervisor_step small_files)\<^sup>*\<^sup>* (supervisor_new False, 0) two_apps"
  "(supervisor_step small_files)\<^sup>*\<^sup>* (supervisor_new False, 0) one_canary"
  unfolding one_canary_def two_apps_def
  by (rule small_event_step rtranclp.rtrancl_refl rtranclp.rtrancl_into_rtrancl)+

abbreviation two_processes :: "(string, spawned_process) btree" where
  "two_processes \<equiv> bt_insert ''blog@web.1'' (small_process blog_web 101) (bt_insert ''shop@web.1'' (small_process shop_web 0) [])"

abbreviation canary_process :: "u32 \<Rightarrow> nat \<Rightarrow> (string, spawned_process) btree \<Rightarrow> (string, spawned_process) btree" where
  "canary_process v t \<equiv> bt_insert (worker_name_display (small_canary shop_web v)) (small_process (small_canary shop_web v) t)"

lemma two_apps_state:
  "\<exists>st. two_apps = (small_state two_processes [] (bt_insert ''blog@web.1.toml'' 201 (bt_insert ''shop@web.1.toml'' 100 [])) st, 202)"
proof -
  have new: "supervisor_new False = small_state [] [] [] stats_new" by (simp add: supervisor_new_def manager_new_def small_state_def)
  obtain st where one: "small_event FileCreate ''shop@web.1.toml'' (supervisor_new False, 0)
      = (small_state (bt_insert ''shop@web.1'' (small_process shop_web 0) []) [] (bt_insert ''shop@web.1.toml'' 100 []) st, 101)"
    using small_create [OF small_parses(3) small_names(3) small_kinds(1) small_names(5), of "[]" "[]" "[]" stats_new 0]
    by (auto simp: new small_names bt_get_def)
  show ?thesis
    using small_create [OF small_parses(4) small_names(4) small_kinds(2) small_names(6),
        of "bt_insert ''shop@web.1'' (small_process shop_web 0) []" "[]" "bt_insert ''shop@web.1.toml'' 100 []" st 101]
    by (auto simp: two_apps_def one small_names bt_get_def)
qed

lemma one_canary_state:
  "\<exists>ws st. one_canary = (small_state (canary_process 1 203 two_processes) [(''shop@web.1'', [small_generation 1 203])] ws st, 303)
    \<and> bt_get ws ''shop@web.1.toml'' = Some 202"
proof -
  obtain st where two: "two_apps = (small_state two_processes [] (bt_insert ''blog@web.1.toml'' 201 (bt_insert ''shop@web.1.toml'' 100 [])) st, 202)"
    using two_apps_state by blast
  show ?thesis
    using small_modify [of two_processes "bt_insert ''blog@web.1.toml'' 201 (bt_insert ''shop@web.1.toml'' 100 [])" 100 202 1 "[]" "[]" st] small_canary_keys
    by (auto simp: one_canary_def two bt_get_insert) (auto simp: bt_get_def)
qed

lemma two_canaries_state:
  "\<exists>ws st. two_canaries = (small_state (canary_process 2 304 (canary_process 1 203 two_processes))
      [(''shop@web.1'', [small_generation 1 203, small_generation 2 304])] ws st, 404)"
proof -
  obtain ws st where one: "one_canary = (small_state (canary_process 1 203 two_processes) [(''shop@web.1'', [small_generation 1 203])] ws st, 303)"
    "bt_get ws ''shop@web.1.toml'' = Some 202" using one_canary_state by blast
  have gens: "bt_get [(''shop@web.1'', [small_generation 1 203])] ''shop@web.1'' = Some [small_generation 1 203]"
    "bt_insert ''shop@web.1'' gs [(''shop@web.1'', hs)] = [(''shop@web.1'', gs)]" for gs hs :: "app_generation list"
    by (simp_all add: bt_get_def)
  have "fold max (map ag_version [small_generation 1 203]) 0 + 1 = 2" by (simp add: small_generation_def)
  moreover have "bt_get (canary_process 1 203 two_processes) ''shop@web.1'' \<noteq> None"
      "bt_get (canary_process 1 203 two_processes) (worker_name_display (small_canary shop_web 2)) = None"
    using small_canary_keys by (simp_all add: bt_get_insert bt_get_def)
  ultimately have "\<exists>st'. small_event FileModify ''shop@web.1.toml''
      (small_state (canary_process 1 203 two_processes) [(''shop@web.1'', [small_generation 1 203])] ws st, 303)
    = (small_state (canary_process 2 (303 + 1) (canary_process 1 203 two_processes))
        (bt_insert ''shop@web.1'' ([small_generation 1 203] @ [small_generation 2 (303 + 1)]) [(''shop@web.1'', [small_generation 1 203])])
        (bt_insert ''shop@web.1.toml'' 303 ws) st', 303 + 101)"
    by (intro small_modify [where old = 202]) (simp_all only: one(2) gens list.size option.case, simp_all)
  moreover have "(303 :: nat) + 1 = 304" "(303 :: nat) + 101 = 404" by simp_all
  ultimately show ?thesis unfolding two_canaries_def one(1) gens append.simps by metis
qed

section \<open>Instances\<close>

lemma small_event_path: "snd (handle_path small_files kind f sv w) = small_event kind f (sv, w)"
  by (auto simp: small_event_def sv_then_def split: prod.splits sum.splits)

lemma two_apps_blog: "bt_get (pm_processes (sv_manager (fst two_apps))) ''blog@web.1'' = Some (small_process blog_web 101)"
proof -
  obtain st where two: "two_apps = (small_state two_processes [] (bt_insert ''blog@web.1.toml'' 201 (bt_insert ''shop@web.1.toml'' 100 [])) st, 202)"
    using two_apps_state by blast
  show ?thesis by (simp add: two small_state_def bt_get_def)
qed

theorem config_file_isolated_witness:
  "bt_get (pm_processes (sv_manager (fst (small_event FileRemove ''shop@web.1.toml'' two_apps)))) ''blog@web.1'' = Some (small_process blog_web 101)"
proof -
  let ?sv = "fst two_apps"
  obtain r sv' w' where run: "handle_path small_files FileRemove ''shop@web.1.toml'' ?sv (snd two_apps) = (r, sv', w')" by (metis prod.exhaust)
  have reach: "(supervisor_step small_files)\<^sup>*\<^sup>* (supervisor_new False, 0) (?sv, snd two_apps)" using small_states_reachable(1) by simp
  have apps: "wn_app blog_web \<noteq> wn_app shop_web" by (simp add: blog_web_def shop_web_def worker_name_new_def)
  have "bt_get (pm_processes (sv_manager sv')) ''blog@web.1'' = bt_get (pm_processes (sv_manager ?sv)) ''blog@web.1''"
    by (rule config_file_isolated [OF reach small_fair small_parses(3) run small_parses(2) apps])
  moreover have "bt_get (pm_processes (sv_manager ?sv)) ''blog@web.1'' = Some (small_process blog_web 101)" by (rule two_apps_blog)
  moreover have "fst (small_event FileRemove ''shop@web.1.toml'' two_apps) = sv'"
    using small_event_path [of FileRemove "''shop@web.1.toml''" ?sv "snd two_apps"] unfolding run by (metis fst_conv prod.collapse snd_conv)
  ultimately show ?thesis by simp
qed


theorem rollback_spares_running_witness:
  "bt_get (pm_processes (fst (snd (reconcile_generations small_host (sv_manager (fst one_canary)) (snd one_canary))))) ''shop@web.1''
   = Some (small_process shop_web 0)"
proof -
  obtain ws st where one: "one_canary = (small_state (canary_process 1 203 two_processes) [(''shop@web.1'', [small_generation 1 203])] ws st, 303)"
    using one_canary_state by blast
  let ?pm = "sv_manager (fst one_canary)"
  obtain r pm' w' where run: "reconcile_generations (ch_host small_files) ?pm (snd one_canary) = (r, pm', w')" by (metis prod.exhaust)
  have reach: "(supervisor_step small_files)\<^sup>*\<^sup>* (supervisor_new False, 0) (fst one_canary, snd one_canary)" using small_states_reachable(2) by simp
  have gens: "generations_of ?pm slot = (if slot = ''shop@web.1'' then [small_generation 1 203] else [])" for slot
    by (simp add: generations_of_def one small_state_def bt_get_def)
  have small: "small_generations ?pm" by (simp add: small_generations_def gens_all_def gens small_generation_def)
  have "unat (wn_ordinal shop_web) < 2 ^ 31" by (simp add: shop_web_def worker_name_new_def)
  moreover have "\<forall>out \<in> set (pm_probe_results ?pm). po_process_id out = worker_name_display shop_web \<longrightarrow> \<not> po_healthy out"
    by (simp add: one small_state_def)
  ultimately have "bt_get (pm_processes pm') (worker_name_display shop_web) = bt_get (pm_processes ?pm) (worker_name_display shop_web)"
    by (rule rollback_spares_running [OF reach small_fair small _ _ run])
  moreover have "bt_get (pm_processes ?pm) ''shop@web.1'' = Some (small_process shop_web 0)"
    using small_canary_keys by (simp add: one small_state_def bt_get_def)
  ultimately show ?thesis using run by (simp add: small_files_def small_names)
qed

lemma small_clock: "worker_clock small_host"
  by (simp add: worker_clock_def small_host_def sleeps_def tick_def from_secs_def NANOS_PER_SEC_def)


definition full_host :: "nat worker_host" where
  "full_host = small_host\<lparr>wh_open_logs := (\<lambda>_. Pair (Inl ''no space left on device''))\<rparr>"

lemma wait_while_over: "still s w = (False, s', w') \<Longrightarrow> wait_while host limit still s w = Some (s', w')"
  by (simp add: wait_while_def)

lemma small_running: "is_running small_host p w = (False, p\<lparr>sp_last_exit_code := Some 1\<rparr>, w)"
  by (simp add: is_running_def small_host_def)

lemma small_stop: "stop_spawned small_host k p w = (Inr (), p\<lparr>sp_stopped := True, sp_last_exit_code := Some 1\<rparr>, w)"
proof -
  have leftovers: "stop_group_leftovers small_host grace q v = (Inr (), q, v)" for grace q v
    by (simp add: stop_group_leftovers_def group_alive_def small_host_def)
  have signals: "signal_group small_host sig q v = (Inr (), v)" for sig q v by (simp add: signal_group_def small_host_def)
  have reap: "wh_wait small_host pid v = (Inr (), v)" "wh_kill_cgroup small_host g v = (Inr (), v)" for pid g v
    by (simp_all add: small_host_def)
  show ?thesis
    by (simp add: stop_spawned_def stop_group_def signals wait_while_over [OF small_running] small_running reap leftovers kill_cgroup_def
        Let_def split: option.splits)
qed

end
