(* ===== verification/Web_Safety.thy ===== *)
theory Web_Safety
  imports Deploy_Frame Container_Safety Worker_Safety
begin

text \<open>
  What a deploy of a Procfile app promises: the rollout of web copies follows the abstract machine of \<open>Rolling_Safety\<close>, copies get
  ports of their own, other apps are left alone, and waits end.  The restart of one worker through its config file is compared
  with what the supervisor does on seeing the file.
\<close>

section \<open>The rollout of web copies\<close>

lemma process_live_copy_number: "process_live_copy wk config = Inr (Some c) \<Longrightarrow> copy_index_new (wi_ordinal (wc_worker config)) = Some (lc_copy c)"
  by (auto simp: process_live_copy_def split: option.splits sum.splits)

lemma dp_thenE:
  assumes "dp_then m f d = (Inr b, d')"
  obtains a d1 where "m d = (Inr a, d1)" and "f a d1 = (Inr b, d')"
  using assms by (auto simp: dp_then_def split: prod.splits sum.splits)

lemma write_worker_config_written:
  assumes "write_worker_config host paths app app_path kind command n env d = (Inr config, d')"
  shows "wc_worker config = \<lparr>wi_app = app, wi_kind = kind, wi_command = command, wi_ordinal = n\<rparr>"
    and "\<exists>working_dir log_file. config = create_worker_config app kind command n env working_dir log_file"
  using assms by (auto simp: write_worker_config_def Let_def dp_give_def create_worker_config_def split: sum.splits elim!: dp_thenE)

lemma process_startE:
  assumes "process_start host wk copy d = (Inr live, d')"
  obtains taken env written d1 d2 d3 where "enabled_ports host (wk_app wk) d = (Inr taken, d1)"
    and "build_worker_env host (wk_paths wk) (wk_app wk) (wk_kind wk) copy (wk_env wk) taken d1 = (Inr env, d2)"
    and "write_worker_config host (wk_paths wk) (wk_app wk) (wk_app_path wk) (wk_kind wk) (wk_command wk) (copy_get copy) env d2
      = (Inr written, d3)"
    and "process_live_copy wk written = Inr (Some live)"
  using assms unfolding process_start_def
  by (elim dp_thenE) (auto split: sum.splits option.splits)

interpretation web: copy_runtime_law "process_runtime host wk" routes
  for host :: "'w deploy_host" and wk routes
proof
  fix i d c d'
  assume "cr_start (process_runtime host wk) i d = (Inr c, d')"
  then have "process_start host wk i d = (Inr c, d')" by (simp add: process_runtime_def)
  then show "lc_copy c = i"
  proof (rule process_startE)
    fix env written d2 d3
    assume "write_worker_config host (wk_paths wk) (wk_app wk) (wk_app_path wk) (wk_kind wk) (wk_command wk) (copy_get i) env d2 = (Inr written, d3)"
      and live: "process_live_copy wk written = Inr (Some c)"
    then have "wi_ordinal (wc_worker written) = copy_get i" by (simp add: write_worker_config_written(1))
    then show ?thesis using process_live_copy_number [OF live] by (auto simp: copy_index_new_def split: if_splits)
  qed
qed

definition recorded_web_rollout ::
  "'w deploy_host \<Rightarrow> (deploy_error, 'w deploy_disk) route_sink \<Rightarrow> web_kind \<Rightarrow> replace_order_kind \<Rightarrow> u32 \<Rightarrow> 'w deploy_disk
     \<Rightarrow> (deploy_error roll_error, live_copy list) result \<times> 'w deploy_disk logged" where
  "recorded_web_rollout host routes wk order want d =
     replace_copies (log_runtime (process_runtime host wk)) (log_routes routes) order want (d, [])"

definition listed_web ::
  "'w deploy_host \<Rightarrow> (deploy_error, 'w deploy_disk) route_sink \<Rightarrow> web_kind \<Rightarrow> 'w deploy_disk \<Rightarrow> live_copy list \<Rightarrow> bool" where
  "listed_web host routes wk d live \<longleftrightarrow>
     fst (process_live host wk (snd (rs_check routes d))) = Inr live \<and> distinct (map lc_copy live) \<and> Suc (length live) < 2 ^ 32"

text \<open>
  Property C7.  The rollout of a web kind is a run of the same abstract machine as that of a container service: whatever fails on
  the way, config files are written and removed so that a copy is started only while there is room, becomes routed only
  once healthy, and is stopped only after the router confirmed the others and while enough of them remain.
\<close>

theorem web_rollout_refines_machine:
  assumes "listed_web host routes wk d live" and "web_order (wk_kind wk) (wk_env wk) = Inr order"
  shows "run (roll_floor order (unat want) (length live)) (roll_ceiling order (unat want) (length live)) (fleet_of live)
        (snd (snd (recorded_web_rollout host routes wk order want d))) \<noteq> None
    \<and> roll_web_kind host routes wk want d
        = apfst (\<lambda>r. map_err (RollFailed (wk_kind wk)) (and_then r (\<lambda>_. Inr ())))
            (apsnd fst (recorded_web_rollout host routes wk order want d))"
proof -
  let ?rt = "process_runtime host wk"
  obtain d1 where live: "cr_live ?rt (snd (rs_check routes d)) = (Inr live, d1)"
    and n: "distinct (map lc_copy live)" "Suc (length live) < 2 ^ 32"
    using assms(1) by (cases "process_live host wk (snd (rs_check routes d))") (auto simp: listed_web_def process_runtime_def)
  have safe: "achieves (roll_floor order (unat want) (length live)) (roll_ceiling order (unat want) (length live))
      (fleet_of live) [] (recorded_web_rollout host routes wk order want d)
      (\<lambda>copies t. length copies = unat want \<and> (\<forall>c \<in> set live. Stopped c True \<in> set t)
         \<and> tracks (roll_floor order (unat want) (length live)) (roll_ceiling order (unat want) (length live))
             (fleet_of live) {} copies t)"
    unfolding recorded_web_rollout_def by (rule web.replace_copies_achieves [OF live n])
  obtain t where logged: "recorded_web_rollout host routes wk order want d
      = (fst (replace_copies ?rt routes order want d), (snd (replace_copies ?rt routes order want d), t))"
    unfolding recorded_web_rollout_def using erases_replace_copies by (rule erasesE)
  then show ?thesis
    using safe assms(2)
    by (cases "replace_copies ?rt routes order want d")
       (auto simp: achieves_def replace_all_def bind_def and_then_def roll_web_kind_def dp_then_def dp_give_def split: sum.splits)
qed

text \<open>A web kind on the disk without faults, with no copy yet.\<close>

definition shop_kind :: web_kind where
  "shop_kind = \<lparr>wk_app = ''shop'', wk_app_path = components ''/apps/shop'', wk_kind = ''web'', wk_command = ''serve'', wk_env = [],
     wk_paths = \<lparr>rp_socket_root = components ''/run'', rp_log_root = components ''/log''\<rparr>\<rparr>"

lemma quiet_web_copies: "web_copies quiet_host app (env_disk content) = (Inr [], env_disk content)"
  by (simp add: web_copies_def dp_then_def no_faults_try [OF quiet_host_laws(1)] copy_order_def)
     (simp add: env_disk_def quiet_host_def bt_keys_def)

theorem web_rollout_refines_machine_witness:
  "run (roll_floor Overlap 2 0) (roll_ceiling Overlap 2 0) (fleet_of [])
      (snd (snd (recorded_web_rollout quiet_host no_routes shop_kind Overlap 2 (env_disk [])))) \<noteq> None
   \<and> roll_web_kind quiet_host no_routes shop_kind 2 (env_disk [])
      = apfst (\<lambda>r. map_err (RollFailed (wk_kind shop_kind)) (and_then r (\<lambda>_. Inr ())))
          (apsnd fst (recorded_web_rollout quiet_host no_routes shop_kind Overlap 2 (env_disk [])))"
proof -
  have "listed_web quiet_host no_routes shop_kind (env_disk []) []"
    by (simp add: listed_web_def no_routes_def process_live_def dp_then_def quiet_web_copies dp_give_def List.map_filter_def)
  moreover have "web_order (wk_kind shop_kind) (wk_env shop_kind) = Inr Overlap" by code_simp
  ultimately show ?thesis using web_rollout_refines_machine [of quiet_host no_routes shop_kind "env_disk []" "[]" Overlap 2] by simp
qed

section \<open>Ports of new copies\<close>

lemma unused_port_fresh: "unused_port host n taken w = (Inr port, w') \<Longrightarrow> port \<notin> set taken"
  by (induction n arbitrary: w) (auto split: prod.splits sum.splits if_splits)

lemma trim_show_u16: "trim (show_u16 n) = show_u16 n"
proof (rule trim_id)
  have "\<not> is_whitespace c" if "c \<in> set (show_u16 n)" for c
    using that show_nat_digits [of "unat n"] by (auto simp: show_u16_def list_all_iff char_class_defs)
  then show "show_u16 n = [] \<or> (\<not> is_whitespace (hd (show_u16 n)) \<and> \<not> is_whitespace (last (show_u16 n)))"
    by (cases "show_u16 n = []") auto
qed


definition writing_host :: "unit deploy_host" where
  "writing_host = quiet_host\<lparr>dp_to_toml := (\<lambda>config. Inr (wi_app (wc_worker config))), dp_owner := Some\<rparr>"

lemma writing_host_laws: "no_faults writing_host" "fair_disk_walk writing_host"
  using quiet_host_laws by (simp_all add: no_faults_def fair_disk_walk_def writing_host_def)


section \<open>Other apps\<close>

lemma worker_file_stem: "extension (worker_file_name v) = Some ''toml''" "file_stem (worker_file_name v) = worker_name_display v"
proof -
  have "rsplit_once (CHR ''.'') (worker_name_display v @ CHR ''.'' # ''toml'') = Some (worker_name_display v, ''toml'')" by simp
  then show ext: "extension (worker_file_name v) = Some ''toml''"
    by (simp add: extension_def worker_file_name_def CONFIG_EXTENSION_def worker_name_display_def)
  then show "file_stem (worker_file_name v) = worker_name_display v"
    by (simp add: file_stem_def) (simp add: worker_file_name_def CONFIG_EXTENSION_def)
qed

lemma other_app_file:
  assumes "worker_ok v" and "safe_app_name app" and "app_file app (worker_file_name v)"
  shows "wn_app v = app"
proof -
  obtain kind n where "worker_file_name v = worker_file_name (worker_name_new app kind n)" using assms(3) by (auto simp: app_file_def)
  then have "worker_name_display v = worker_name_display (worker_name_new app kind n)" by (simp add: worker_file_name_def)
  moreover have "split_once APP_SEPARATOR (worker_name_display v) = Some (wn_app v, wn_kind v @ ''.'' @ show_u32 (wn_ordinal v))"
    using assms(1) by (simp add: worker_name_display_def worker_ok_def safe_no_sep)
  moreover have "split_once APP_SEPARATOR (worker_name_display (worker_name_new app kind n)) = Some (app, kind @ ''.'' @ show_u32 n)"
    using assms(2) by (simp add: worker_name_display_def worker_name_new_def safe_no_sep)
  ultimately show ?thesis by simp
qed

text \<open>
  Property C6.  Deploying one app leaves every other app as it is, whatever fails on the way: the worker config of another app stays
  enabled with the same content, its \<open>ENV\<close> file is not touched, and no \<open>SCALING\<close> file changes.
\<close>

theorem deploy_spares_other_apps:
  assumes "routes_apart routes" and "safe_app_name (wd_app deploy)" and "worker_ok v" and "wn_app v \<noteq> wd_app deploy"
    and "bt_get (dd_enabled d) (worker_file_name v) = Some (LinkTo (worker_file_name v))"
    and "bt_get (dd_available d) (worker_file_name v) = Some content" and "dp_owner host content = Some (wn_app v)"
    and "create_workers_with host cron routes deploy procfile start_cmd d = (r, d')"
  shows "bt_get (dd_enabled d') (worker_file_name v) = Some (LinkTo (worker_file_name v))
    \<and> bt_get (dd_available d') (worker_file_name v) = Some content
    \<and> bt_get (dd_env d') (wn_app v) = bt_get (dd_env d) (wn_app v) \<and> dd_scaling d' = dd_scaling d"
proof -
  let ?app = "wd_app deploy"
  have own: "\<not> app_file ?app (worker_file_name v)" using other_app_file assms(2-4) by metis
  have "\<not> named_for (worker_file_name v) ?app"
    using assms(4) by (simp add: named_for_def worker_file_stem worker_parse_display [OF assms(3)])
  then have foreign: "foreign_config host ?app d (worker_file_name v)"
    using own assms(4-7) by (simp add: foreign_config_def enabled_text_def)
  have "kept host ?app e (snd (case parse_procfile cron procfile of
          Inl e' \<Rightarrow> (Inl (DeployProcfile e'), e)
        | Inr parsed \<Rightarrow> (case procfile_entries parsed start_cmd of
               None \<Rightarrow> (Inr (), e)
             | Some entries \<Rightarrow> run_entries host routes deploy start_cmd entries e)))" for e
    using within_run_entries [OF assms(1) refl, of host deploy]
    by (auto simp: within_def deploy.frame_refl split: sum.splits option.splits)
  then have "within (kept host ?app) (create_workers_with host cron routes deploy procfile start_cmd)"
    unfolding create_workers_with_def Let_def
    by (intro frames) (auto simp: within_def intro: kept_step [OF stale_configs_kept])
  then have "kept host ?app d d'" using assms(8) by (rule withinD)
  then show ?thesis using foreign own assms(4-6) by (simp add: kept_def)
qed

definition no_cron :: "unit cron_engine" where
  "no_cron = \<lparr>cn_parse = (\<lambda>_. Inl ''no cron''), cn_next = (\<lambda>_ _ _. Inl ''no cron''), cn_in_range = (\<lambda>_. True)\<rparr>"

definition shop_deploy :: web_deploy where
  "shop_deploy = \<lparr>wd_app = ''shop'', wd_app_path = components ''/apps/shop'', wd_env = [],
     wd_paths = \<lparr>rp_socket_root = components ''/run'', rp_log_root = components ''/log''\<rparr>\<rparr>"

definition linked_disk :: "worker_name \<Rightarrow> unit deploy_disk" where
  "linked_disk v = (env_disk [])\<lparr>dd_enabled := [(worker_file_name v, LinkTo (worker_file_name v))],
     dd_available := [(worker_file_name v, wn_app v)]\<rparr>"

lemma linked_disk_get:
  "bt_get (dd_enabled (linked_disk v)) (worker_file_name v) = Some (LinkTo (worker_file_name v))"
  "bt_get (dd_available (linked_disk v)) (worker_file_name v) = Some (wn_app v)"
  by (simp_all add: linked_disk_def bt_get_def)

theorem deploy_spares_other_apps_witness:
  "\<exists>r d'. create_workers_with writing_host no_cron no_routes shop_deploy ReadMissing (Some ''serve'') (linked_disk blog_web) = (r, d')
    \<and> bt_get (dd_enabled d') ''blog@web.1.toml'' = Some (LinkTo ''blog@web.1.toml'')
    \<and> bt_get (dd_available d') ''blog@web.1.toml'' = Some ''blog''"
proof -
  obtain r d' where run: "create_workers_with writing_host no_cron no_routes shop_deploy ReadMissing (Some ''serve'') (linked_disk blog_web) = (r, d')"
    by (metis prod.exhaust)
  have apart: "routes_apart (no_routes :: (deploy_error, unit deploy_disk) route_sink)"
    unfolding routes_apart_def no_routes_def by (auto intro: exI [of _ "()"])
  have names: "safe_app_name (wd_app shop_deploy)" "wn_app blog_web \<noteq> wd_app shop_deploy" "wn_app blog_web = ''blog''" by code_simp+
  have owner: "dp_owner writing_host (wn_app blog_web) = Some (wn_app blog_web)" by (simp add: writing_host_def)
  show ?thesis
    using deploy_spares_other_apps [OF apart names(1) small_oks(2) names(2) linked_disk_get owner run] run
    by (simp add: small_names names(3))
qed

section \<open>Restarting one worker\<close>

text \<open>
  Restarting one worker puts its link in place again, which leaves every enabled config with the content it had, and
  the supervisor, which compares the modification time of the config itself, then does nothing at all: neither on the event
  of the moved link nor on a reload.
\<close>

lemma worker_restart_ignored:
  assumes "checked_worker app kind n = Inr name" and "restart_worker host app kind n d = (Inr (), d')"
    and "bt_get (dd_enabled d) (worker_file_name name) = Some (LinkTo (worker_file_name name))"
    and "bt_get (sv_watched sv) (worker_file_name name) = Some t" and "ch_modified ch (worker_file_name name) w = (Some t, w')"
  shows "enabled_text d' = enabled_text d \<and> handle_file_event ch FileModify [worker_file_name name] sv w = (Inr (), sv, w')
    \<and> reload_config ch (worker_file_name name) sv w = (sv, w')"
proof -
  have "dd_available d' = dd_available d" "bt_get (dd_enabled d') = (bt_get (dd_enabled d))(worker_file_name name \<mapsto> LinkTo (worker_file_name name))"
    using assms(1,2) by (auto simp: restart_worker_def Let_def dp_then_def dp_give_def dp_try_def dp_outside_def bt_get_insert
      split: if_splits prod.splits option.splits)
  moreover have "(bt_get (dd_enabled d))(worker_file_name name \<mapsto> LinkTo (worker_file_name name)) = bt_get (dd_enabled d)"
    using assms(3) by auto
  ultimately have "enabled_text d' = enabled_text d" 
    by (intro ext) (simp add: enabled_text_def split: option.splits enabled_entry.splits)
  then show ?thesis
    using assms(4,5) by (simp add: handle_path_def sv_then_def worker_file_stem reload_config_def)
qed

section \<open>Waiting for a stop\<close>

definition marker_clock :: "'w deploy_host \<Rightarrow> bool" where
  "marker_clock host \<longleftrightarrow>
     sleeps (dp_now host) (dp_sleep host) \<and> tick (dp_now host) (dp_markers host) \<and> (\<forall>pid. tick (dp_now host) (dp_pid_exists host pid))"

lemma live_marker_time: "marker_clock host \<Longrightarrow> live_marker_in host pid_of entries w = (r, w') \<Longrightarrow> dp_now host w \<le> dp_now host w'"
proof (induction host pid_of entries w rule: live_marker_in.induct)
  case (3 host pid_of file_name rest w)
  then show ?case
  proof (cases "pid_of file_name")
    case (Some pid)
    obtain alive w1 where alive: "dp_pid_exists host pid w = (alive, w1)" by (metis prod.exhaust)
    then have "dp_now host w \<le> dp_now host w1" using 3(3) unfolding marker_clock_def tick_def by (metis snd_conv)
    then show ?thesis using 3 Some alive by (fastforce split: bool.splits)
  qed auto
qed auto

lemma live_worker_time:
  assumes "marker_clock host" and "process_has_live_worker host process_id w = (r, w')"
  shows "dp_now host w \<le> dp_now host w'"
proof -
  obtain found w1 where found: "dp_markers host w = (found, w1)" by (metis prod.exhaust)
  then have "dp_now host w \<le> dp_now host w1" using assms(1) unfolding marker_clock_def tick_def by (metis snd_conv)
  then show ?thesis
    using assms(2) found live_marker_time [OF assms(1)]
    by (fastforce simp: process_has_live_worker_def any_live_marker_def split: option.splits sum.splits)
qed

lemma stopped_rounds_end:
  assumes "marker_clock host"
  shows "deadline \<le> dp_now host w + n * STOPPED_POLL \<Longrightarrow> fst (stopped_rounds host process_id deadline (Suc n) w)"
proof (induction n arbitrary: w)
  case 0
  obtain r w1 where one: "process_has_live_worker host process_id w = (r, w1)" by (metis prod.exhaust)
  then show ?case using 0 live_worker_time [OF assms one] by (auto split: sum.splits bool.splits)
next
  case (Suc n)
  obtain r w1 where one: "process_has_live_worker host process_id w = (r, w1)" by (metis prod.exhaust)
  have "dp_now host w1 + STOPPED_POLL \<le> dp_now host (dp_sleep host STOPPED_POLL w1)"
    using assms by (simp add: marker_clock_def sleeps_def)
  then have "deadline \<le> dp_now host (dp_sleep host STOPPED_POLL w1) + n * STOPPED_POLL"
    using Suc.prems live_worker_time [OF assms one] by simp
  from Suc.IH [OF this] show ?case using one by (auto split: sum.splits bool.splits)
qed

text \<open>
  Waiting for a worker to stop comes to an end on every host whose clock moves while it sleeps, even if the worker
  never stops.
\<close>

lemma wait_stopped_ends:
  assumes "marker_clock host"
  shows "fst (wait_stopped host process_id limit w)"
proof -
  have "limit < Suc (limit div STOPPED_POLL) * STOPPED_POLL"
    using dividend_less_div_times [of STOPPED_POLL limit] by (simp add: STOPPED_POLL_def)
  then have "dp_now host w + limit \<le> dp_now host w + (limit div STOPPED_POLL + 1) * STOPPED_POLL" by simp
  from stopped_rounds_end [OF assms this] show ?thesis by (simp add: wait_stopped_def)
qed

definition stuck_host :: "duration deploy_host" where
  "stuck_host = \<lparr>dp_fault = (\<lambda>_. Pair None), dp_walk = (\<lambda>ks _. ks), dp_toml = (\<lambda>_. Inl ''no reader''),
     dp_to_toml = (\<lambda>_. Inl ''no writer''), dp_owner = (\<lambda>_. None), dp_markers = Pair (Some (Inr [Inr ''shop@web.1.7''])),
     dp_pid_exists = (\<lambda>_. Pair True), dp_pick_port = Pair (Inr 5000), dp_port_busy = (\<lambda>_. Pair False), dp_socket_root = Pair (Inr ()),
     dp_remove_socket = (\<lambda>_. Pair (Inr ())), dp_notify = (\<lambda>w. w), dp_probes = clock_probes, dp_now = (\<lambda>w. w), dp_sleep = (\<lambda>d w. w + d)\<rparr>"

lemma wait_stopped_ends_instance: "fst (wait_stopped stuck_host ''shop@web.1'' (from_secs 35) 0)"
  by (rule wait_stopped_ends) (simp add: marker_clock_def stuck_host_def sleeps_def tick_def)

end
