(* ===== verification/Cron_Tasks.thy ===== *)
theory Cron_Tasks
  imports Web_Copies
begin

text \<open>
  The cron jobs the supervisor runs, \<open>riku-supervisor/src/daemon/cron_tasks.rs\<close>: loading them from the Procfile of an app, finding
  the directory and the environment of the app, and starting the jobs that are due.

  A command is handed to a thread pool and runs on its own; \<open>check_cron_jobs\<close> returns what it hands over, in order.  The clock is
  read once for every job.
\<close>

section \<open>cron\_tasks.rs\<close>

record cron_run =
  jr_id :: string
  jr_app :: string
  jr_command :: string
  jr_dir :: "string option"
  jr_env :: env_map

record ('c, 'w) cron_host =
  ct_disk :: "'w deploy_host"
  ct_cron :: "'c cron_engine"
  ct_now :: "'w \<Rightarrow> system_time \<times> 'w"

fun due_jobs :: "('c, 'w) cron_host \<Rightarrow> cron_scheduler \<Rightarrow> string list \<Rightarrow> 'w \<Rightarrow> (string \<times> cron_job) list \<times> 'w" where
  "due_jobs host jobs [] w = ([], w)"
| "due_jobs host jobs (jid # rest) w =
     (case bt_get jobs jid of
        None \<Rightarrow> due_jobs host jobs rest w
      | Some job \<Rightarrow>
          (case ct_now host w of
             (now, w) \<Rightarrow>
               (case due_jobs host jobs rest w of (due, w) \<Rightarrow> ((if should_run_now now job then (jid, job) # due else due), w))))"

fun app_context_in :: "'w deploy_host \<Rightarrow> string list \<Rightarrow> 'w deploy_disk \<Rightarrow> (string option \<times> env_map) \<times> 'w deploy_disk" where
  "app_context_in host [] d = ((None, []), d)"
| "app_context_in host (name # rest) d =
     (case read_enabled host name d of
        (None, d) \<Rightarrow> app_context_in host rest d
      | (Some content, d) \<Rightarrow>
          (case dp_toml host content of
             Inr cfg \<Rightarrow> ((Some (wo_working_dir (wc_options cfg)), wc_env cfg), d)
           | Inl _ \<Rightarrow> app_context_in host rest d))"

definition get_app_context :: "'w deploy_host \<Rightarrow> string \<Rightarrow> 'w deploy_disk \<Rightarrow> (string option \<times> env_map) \<times> 'w deploy_disk" where
  "get_app_context host app d = (case app_worker_configs host app d of (names, d) \<Rightarrow> app_context_in host names d)"

text \<open>\<open>rsplit('-').next()\<close> as a number.\<close>

definition job_index :: "string \<Rightarrow> nat option" where
  "job_index jid = parse_u64 (case rsplit_once (CHR ''-'') jid of Some (_, index) \<Rightarrow> index | None \<Rightarrow> jid)"

text \<open>A job whose next run cannot be found is logged and stays as it is.\<close>

definition advance_job :: "'c cron_engine \<Rightarrow> string \<Rightarrow> string \<Rightarrow> cron_scheduler \<Rightarrow> cron_scheduler" where
  "advance_job cron jid app jobs =
     (case job_index jid of
        None \<Rightarrow> jobs
      | Some index \<Rightarrow> (case mark_job_run cron app index jobs of Inr jobs' \<Rightarrow> jobs' | Inl _ \<Rightarrow> jobs))"

fun run_jobs ::
  "('c, 'w) cron_host \<Rightarrow> (string \<times> cron_job) list \<Rightarrow> cron_scheduler \<Rightarrow> 'w deploy_disk
     \<Rightarrow> cron_run list \<times> cron_scheduler \<times> 'w deploy_disk" where
  "run_jobs host [] jobs d = ([], jobs, d)"
| "run_jobs host ((jid, job) # rest) jobs d =
     (case get_app_context (ct_disk host) (cj_app job) d of
        ((working_dir, env_vars), d) \<Rightarrow>
          (case run_jobs host rest (advance_job (ct_cron host) jid (cj_app job) jobs) d of
             (runs, jobs, d) \<Rightarrow>
               (\<lparr>jr_id = jid, jr_app = cj_app job, jr_command = cj_command job, jr_dir = working_dir, jr_env = env_vars\<rparr> # runs, jobs, d)))"

definition check_cron_jobs ::
  "('c, 'w) cron_host \<Rightarrow> cron_scheduler \<Rightarrow> 'w deploy_disk \<Rightarrow> cron_run list \<times> cron_scheduler \<times> 'w deploy_disk" where
  "check_cron_jobs host jobs d =
     (case dp_outside (due_jobs host jobs (dp_walk (ct_disk host) (bt_keys jobs) (dd_outer d))) d of
        (due, d) \<Rightarrow> run_jobs host due jobs d)"

text \<open>The schedule and the command of a line of the Procfile, if it is a cron line that can be run.\<close>

definition cron_line :: "'c cron_engine \<Rightarrow> string \<Rightarrow> (string \<times> string) option" where
  "cron_line cron raw =
     (let line = trim raw
      in if line = [] \<or> starts_with ''#'' line then None
         else case split_once (CHR '':'') line of
                None \<Rightarrow> None
              | Some (kind, command) \<Rightarrow>
                  (if \<not> starts_with ''cron'' (trim kind) then None
                   else let parts = split_whitespace (trim command); schedule = join '' '' (take 5 parts)
                        in if 5 \<le> length parts \<and> validate_cron_expression cron schedule
                           then Some (schedule, join '' '' (drop 5 parts)) else None))"

fun load_lines ::
  "('c, 'w) cron_host \<Rightarrow> string \<Rightarrow> nat \<Rightarrow> string list \<Rightarrow> cron_scheduler \<Rightarrow> 'w
     \<Rightarrow> (cron_error, unit) result \<times> cron_scheduler \<times> 'w" where
  "load_lines host app cron_index [] jobs w = (Inr (), jobs, w)"
| "load_lines host app cron_index (line # rest) jobs w =
     (case cron_line (ct_cron host) line of
        None \<Rightarrow> load_lines host app cron_index rest jobs w
      | Some (schedule, command) \<Rightarrow>
          (case ct_now host w of
             (now, w) \<Rightarrow>
               (case add_job (ct_cron host) now app cron_index schedule command jobs of
                  Inl e \<Rightarrow> (Inl e, jobs, w)
                | Inr jobs \<Rightarrow> load_lines host app (cron_index + 1) rest jobs w)))"

definition load_cron_jobs ::
  "('c, 'w) cron_host \<Rightarrow> string \<Rightarrow> file_read \<Rightarrow> cron_scheduler \<Rightarrow> 'w \<Rightarrow> (cron_error, unit) result \<times> cron_scheduler \<times> 'w" where
  "load_cron_jobs host app procfile jobs w =
     (let jobs = remove_app_jobs app jobs
      in case procfile of
           ReadMissing \<Rightarrow> (Inr (), jobs, w)
         | file_read.ReadFailed e \<Rightarrow> (Inl (ProcfileUnread e), jobs, w)
         | ReadText t \<Rightarrow> load_lines host app 0 (lines t) jobs w)"

end
