(* ===== verification/Cron_Safety.thy ===== *)
theory Cron_Safety
  imports Cron_Tasks Settings_Safety
begin

text \<open>
  What the cron scheduler of the supervisor promises: ids of jobs never collide, a check starts each due job exactly once and
  moves it to a later time, and loading the Procfile of one app keeps the jobs of all others.
\<close>

section \<open>Job ids\<close>

lemma cron_job_id_split: "rsplit_once (CHR ''-'') (cron_job_id app n) = Some (app @ ''-cron'', show_nat n)"
  using rsplit_once_append [of "CHR ''-''" "show_nat n" "app @ ''-cron''"] by (simp add: cron_job_id_def show_nat_no)

lemma cron_job_id_inj: "cron_job_id app n = cron_job_id app' m \<Longrightarrow> app = app' \<and> n = m"
  using cron_job_id_split [of app n] cron_job_id_split [of app' m] by (auto dest: show_nat_inj)

lemma job_index_id: "n < 2 ^ 64 \<Longrightarrow> job_index (cron_job_id app n) = Some n"
  by (simp add: job_index_def cron_job_id_split parse_u64_def parse_uint_show_nat)

text \<open>Every job is filed under an id of its own app.\<close>

definition filed :: "cron_scheduler \<Rightarrow> bool" where
  "filed jobs \<longleftrightarrow> bt_ok jobs \<and> (\<forall>jid job. bt_get jobs jid = Some job \<longrightarrow> (\<exists>n < 2 ^ 64. jid = cron_job_id (cj_app job) n))"

lemma filedE:
  assumes "filed jobs" and "bt_get jobs jid = Some job"
  obtains n where "n < 2 ^ 64" and "jid = cron_job_id (cj_app job) n"
  using assms unfolding filed_def by blast

definition advanced :: "'c cron_engine \<Rightarrow> cron_job \<Rightarrow> cron_job" where
  "advanced cron job =
     (case calculate_next_run_after cron (cj_schedule job) (cj_next_run job) of Inr t \<Rightarrow> job\<lparr>cj_next_run := t\<rparr> | Inl _ \<Rightarrow> job)"

lemma advance_job_get:
  assumes "filed jobs" and "bt_get jobs jid = Some job"
  shows "filed (advance_job cron jid (cj_app job) jobs)"
    and "bt_get (advance_job cron jid (cj_app job) jobs) = (bt_get jobs)(jid \<mapsto> advanced cron job)"
proof -
  obtain n where n: "n < 2 ^ 64" "jid = cron_job_id (cj_app job) n" using assms by (rule filedE)
  have run: "advance_job cron jid (cj_app job) jobs = (case calculate_next_run_after cron (cj_schedule job) (cj_next_run job) of
      Inr t \<Rightarrow> bt_insert jid (job\<lparr>cj_next_run := t\<rparr>) jobs | Inl _ \<Rightarrow> jobs)"
    using assms(2) by (simp add: advance_job_def n(2) job_index_id [OF n(1)] mark_job_run_def and_then_def split: sum.splits)
  show get: "bt_get (advance_job cron jid (cj_app job) jobs) = (bt_get jobs)(jid \<mapsto> advanced cron job)"
    using assms(2) by (auto simp: run advanced_def bt_get_insert split: sum.splits)
  have "bt_ok (advance_job cron jid (cj_app job) jobs)"
    unfolding run using assms(1) by (simp add: filed_def bt_ok_insert split: sum.splits)
  moreover have "\<exists>m < 2 ^ 64. k = cron_job_id (cj_app j) m" if "bt_get (advance_job cron jid (cj_app job) jobs) k = Some j" for k j
  proof (cases "k = jid")
    case True
    then have "cj_app j = cj_app job" using that unfolding get by (auto simp: advanced_def split: sum.splits)
    then show ?thesis using n True by auto
  next
    case False
    then show ?thesis using that assms(1) unfolding get filed_def by simp
  qed
  ultimately show "filed (advance_job cron jid (cj_app job) jobs)" unfolding filed_def by blast
qed

section \<open>A check\<close>

lemma run_jobs_result:
  assumes "filed jobs" and "distinct (map fst due)" and "\<forall>(jid, job) \<in> set due. bt_get jobs jid = Some job"
    and "run_jobs host due jobs d = (runs, jobs', d')"
  shows "filed jobs' \<and> map (\<lambda>r. (jr_id r, jr_app r, jr_command r)) runs = map (\<lambda>(jid, job). (jid, cj_app job, cj_command job)) due
    \<and> bt_get jobs' = (\<lambda>jid. if jid \<in> fst ` set due then map_option (advanced (ct_cron host)) (bt_get jobs jid) else bt_get jobs jid)"
  using assms
proof (induction due arbitrary: jobs d runs jobs' d')
  case (Cons entry rest)
  obtain jid job where entry: "entry = (jid, job)" by (metis prod.exhaust)
  let ?jobs = "advance_job (ct_cron host) jid (cj_app job) jobs"
  have job: "bt_get jobs jid = Some job" using Cons.prems(3) entry by simp
  note step = advance_job_get [OF Cons.prems(1) job, of "ct_cron host"]
  obtain dir env d1 where found: "get_app_context (ct_disk host) (cj_app job) d = ((dir, env), d1)" by (metis prod.exhaust)
  obtain runs1 jobs1 d2 where rest: "run_jobs host rest ?jobs d1 = (runs1, jobs1, d2)" by (metis prod.exhaust)
  have "\<forall>(k, j) \<in> set rest. bt_get ?jobs k = Some j"
    using Cons.prems(2,3) entry by (force simp: step(2))
  from Cons.IH [OF step(1) _ this rest] Cons.prems(2)
  have IH: "filed jobs1" "map (\<lambda>r. (jr_id r, jr_app r, jr_command r)) runs1 = map (\<lambda>(jid, job). (jid, cj_app job, cj_command job)) rest"
    "bt_get jobs1 = (\<lambda>k. if k \<in> fst ` set rest then map_option (advanced (ct_cron host)) (bt_get ?jobs k) else bt_get ?jobs k)" by simp_all
  have "jid \<notin> fst ` set rest" using Cons.prems(2) entry by simp
  then show ?case
    using IH Cons.prems(4) job by (auto simp: entry found rest step(2) fun_eq_iff)
qed (auto simp: fun_eq_iff)

definition steady_clock :: "('c, 'w) cron_host \<Rightarrow> bool" where
  "steady_clock host \<longleftrightarrow> (\<forall>w. fst (ct_now host w) \<le> fst (ct_now host (snd (ct_now host w))))"

definition later_runs :: "'c cron_engine \<Rightarrow> bool" where
  "later_runs cron \<longleftrightarrow> (\<forall>parsed t next_run. cn_next cron parsed t False = Inr next_run \<longrightarrow> t < next_run)"

lemma due_jobs_result:
  assumes "due_jobs host jobs ids w = (due, w')"
  shows "distinct ids \<Longrightarrow> distinct (map fst due)" and "\<forall>(jid, job) \<in> set due. jid \<in> set ids \<and> bt_get jobs jid = Some job"
    and "steady_clock host \<Longrightarrow> jid \<in> set ids \<Longrightarrow> bt_get jobs jid = Some job \<Longrightarrow> cj_next_run job \<le> fst (ct_now host w) \<Longrightarrow> jid \<in> fst ` set due"
proof -
  have mine: "\<forall>(jid, job) \<in> set due. jid \<in> set ids \<and> bt_get jobs jid = Some job" if "due_jobs host jobs ids w = (due, w')" for ids due w w'
    using that by (induction ids arbitrary: due w) (fastforce split: option.splits prod.splits if_splits)+
  then show "\<forall>(jid, job) \<in> set due. jid \<in> set ids \<and> bt_get jobs jid = Some job" using assms .
  have "distinct (map fst due)" if "due_jobs host jobs ids w = (due, w')" "distinct ids" for ids due w w'
    using that
  proof (induction ids arbitrary: due w)
    case (Cons k rest)
    then show ?case using mine by (fastforce split: option.splits prod.splits if_splits)
  qed simp
  then show "distinct ids \<Longrightarrow> distinct (map fst due)" using assms by blast
  have "jid \<in> fst ` set due"
    if "steady_clock host" "due_jobs host jobs ids w = (due, w')" "jid \<in> set ids" "bt_get jobs jid = Some job" "cj_next_run job \<le> fst (ct_now host w)"
    for ids due w w'
    using that(2-5)
  proof (induction ids arbitrary: due w)
    case (Cons k rest)
    obtain now w1 where now: "ct_now host w = (now, w1)" by (metis prod.exhaust)
    have "fst (ct_now host w) \<le> fst (ct_now host w1)" using that(1) now unfolding steady_clock_def by (metis snd_conv)
    then have late: "cj_next_run job \<le> fst (ct_now host w1)" using Cons.prems(4) by simp
    show ?case
      using Cons.prems now Cons.IH [of w] Cons.IH [of w1] late
      by (auto simp: should_run_now_def split: option.splits prod.splits if_splits)
  qed simp
  then show "steady_clock host \<Longrightarrow> jid \<in> set ids \<Longrightarrow> bt_get jobs jid = Some job \<Longrightarrow> cj_next_run job \<le> fst (ct_now host w) \<Longrightarrow> jid \<in> fst ` set due"
    using assms by blast
qed

lemma next_run_later:
  assumes "later_runs cron" and "calculate_next_run_after cron schedule t = Inr t'"
  shows "t < t'"
proof -
  obtain secs where secs: "t' = secs * SYSTEM_SECOND" "t div SYSTEM_SECOND < secs"
    using assms by (auto simp: calculate_next_run_after_def and_then_def system_time_to_utc_def utc_to_system_time_def later_runs_def
        Let_def map_err_def split: sum.splits if_splits)
  then show ?thesis by (simp add: SYSTEM_SECOND_def)
qed


section \<open>Loading the Procfile\<close>

definition cron_entries :: "'c cron_engine \<Rightarrow> string \<Rightarrow> (string \<times> string) list" where
  "cron_entries cron content = List.map_filter (cron_line cron) (lines content)"

lemma bt_get_filter_entries: "distinct (map fst m) \<Longrightarrow> bt_get (filter (\<lambda>(k, v). P v) m) k = Option.bind (bt_get m k) (\<lambda>v. if P v then Some v else None)"
  unfolding bt_get_def by (induction m) (auto simp: map_of_eq_None_iff image_iff split: if_splits)

lemma remove_app_jobs_get:
  assumes "filed jobs"
  shows "filed (remove_app_jobs app jobs)" and "bt_get (remove_app_jobs app jobs) jid = Some job \<longleftrightarrow> bt_get jobs jid = Some job \<and> cj_app job \<noteq> app"
proof -
  have "distinct (map fst jobs)" using assms by (simp add: filed_def bt_ok_distinct)
  then show get: "bt_get (remove_app_jobs app jobs) jid = Some job \<longleftrightarrow> bt_get jobs jid = Some job \<and> cj_app job \<noteq> app" for jid job
    unfolding remove_app_jobs_def
    using bt_get_filter_entries [of jobs "\<lambda>job. cj_app job \<noteq> app" jid] by (auto simp: bind_eq_Some_conv split: if_splits)
  have "bt_ok (remove_app_jobs app jobs)"
    using assms unfolding filed_def bt_ok_def remove_app_jobs_def by (auto intro: sorted_wrt_filter simp: sorted_wrt_map)
  then show "filed (remove_app_jobs app jobs)" using assms unfolding filed_def get by blast
qed

lemma load_lines_result:
  assumes "load_lines host app n ls jobs w = (r, jobs', w')" and "filed jobs" and "n + length ls < 2 ^ 64"
  shows "filed jobs' \<and> (\<forall>jid. (\<forall>i \<ge> n. jid \<noteq> cron_job_id app i) \<longrightarrow> bt_get jobs' jid = bt_get jobs jid)
    \<and> (r = Inr () \<longrightarrow> (\<forall>i < length (List.map_filter (cron_line (ct_cron host)) ls). \<exists>job. bt_get jobs' (cron_job_id app (n + i)) = Some job
         \<and> cj_app job = app \<and> (cj_schedule job, cj_command job) = List.map_filter (cron_line (ct_cron host)) ls ! i))"
  using assms
proof (induction ls arbitrary: n jobs w)
  case (Cons line rest)
  show ?case
  proof (cases "cron_line (ct_cron host) line")
    case None
    then have skip: "List.map_filter (cron_line (ct_cron host)) (line # rest) = List.map_filter (cron_line (ct_cron host)) rest"
      by (simp add: List.map_filter_def)
    show ?thesis unfolding skip using Cons.IH [of n jobs w] Cons.prems None by simp
  next
    case (Some entry)
    obtain schedule command where entry: "entry = (schedule, command)" by (metis prod.exhaust)
    obtain now w1 where now: "ct_now host w = (now, w1)" by (metis prod.exhaust)
    show ?thesis
    proof (cases "add_job (ct_cron host) now app n schedule command jobs")
      case (Inl e)
      then show ?thesis using Cons.prems Some entry now by auto
    next
      case (Inr jobs1)
      then obtain t where added: "jobs1 = bt_insert (cron_job_id app n)
          \<lparr>cj_app = app, cj_schedule = schedule, cj_command = command, cj_next_run = t\<rparr> jobs"
        by (auto simp: add_job_def cron_job_new_def and_then_def split: sum.splits)
      have ok: "filed jobs1"
        using Cons.prems(2,3) unfolding added filed_def by (auto simp: bt_ok_insert bt_get_insert intro: exI [of _ n])
      have run: "load_lines host app (n + 1) rest jobs1 w1 = (r, jobs', w')" using Cons.prems(1) Some entry now Inr by simp
      have "n + 1 + length rest < 2 ^ 64" using Cons.prems(3) by simp
      note result = Cons.IH [OF run ok this]
      note IH = result [THEN conjunct1] result [THEN conjunct2, THEN conjunct1] result [THEN conjunct2, THEN conjunct2]
      have "\<forall>i \<ge> n + 1. cron_job_id app n \<noteq> cron_job_id app i" by (auto dest: cron_job_id_inj)
      then have "bt_get jobs' (cron_job_id app n) = bt_get jobs1 (cron_job_id app n)" using IH(2) by blast
      then have first: "bt_get jobs' (cron_job_id app n) = Some \<lparr>cj_app = app, cj_schedule = schedule, cj_command = command, cj_next_run = t\<rparr>"
        by (simp add: added bt_get_insert)
      have others: "bt_get jobs' jid = bt_get jobs jid" if "\<forall>i \<ge> n. jid \<noteq> cron_job_id app i" for jid
        using IH(2) that by (simp add: added bt_get_insert)
      have found: "List.map_filter (cron_line (ct_cron host)) (line # rest) = (schedule, command) # List.map_filter (cron_line (ct_cron host)) rest"
        using Some entry by (simp add: List.map_filter_def)
      have "\<exists>job. bt_get jobs' (cron_job_id app (n + i)) = Some job \<and> cj_app job = app
          \<and> (cj_schedule job, cj_command job) = List.map_filter (cron_line (ct_cron host)) (line # rest) ! i"
        if "r = Inr ()" "i < length (List.map_filter (cron_line (ct_cron host)) (line # rest))" for i
        using that IH(3) first unfolding found by (cases i) auto
      then show ?thesis using IH(1) others by blast
    qed
  qed
qed (simp add: List.map_filter_def)

text \<open>
  Loading the Procfile of one app keeps the jobs of every other app as they are, on every path, and a load that succeeds
  leaves one job for every cron line of the Procfile, lines of the same kind included.
\<close>

lemma cron_load_keeps_others:
  assumes "filed jobs" and "load_cron_jobs host app (ReadText content) jobs w = (r, jobs', w')" and "length (lines content) < 2 ^ 64"
  shows "filed jobs' \<and> (\<forall>jid job. cj_app job \<noteq> app \<longrightarrow> (bt_get jobs' jid = Some job) = (bt_get jobs jid = Some job))
    \<and> (r = Inr () \<longrightarrow> (\<forall>i < length (cron_entries (ct_cron host) content). \<exists>job. bt_get jobs' (cron_job_id app i) = Some job
         \<and> cj_app job = app \<and> (cj_schedule job, cj_command job) = cron_entries (ct_cron host) content ! i))"
proof -
  have run: "load_lines host app 0 (lines content) (remove_app_jobs app jobs) w = (r, jobs', w')" using assms(2) by (simp add: load_cron_jobs_def)
  note res = load_lines_result [OF run remove_app_jobs_get(1) [OF assms(1)]]
  have kept: "bt_get jobs' jid = bt_get (remove_app_jobs app jobs) jid" if "\<forall>i. jid \<noteq> cron_job_id app i" for jid
    using res assms(3) that by simp
  have "(bt_get jobs' jid = Some job) = (bt_get jobs jid = Some job)" if "cj_app job \<noteq> app" for jid job
  proof (cases "\<exists>i. jid = cron_job_id app i")
    case True
    then have "bt_get jobs'' jid \<noteq> Some job" if "filed jobs''" for jobs''
      using that \<open>cj_app job \<noteq> app\<close> cron_job_id_inj by (fastforce simp: filed_def)
    then show ?thesis using res assms(1,3) by simp
  next
    case False
    then show ?thesis using kept remove_app_jobs_get(2) [OF assms(1)] that by simp
  qed
  then show ?thesis using res assms(3) by (simp add: cron_entries_def)
qed

section \<open>A scheduler of every minute\<close>

definition minute_cron :: "unit cron_engine" where
  "minute_cron = \<lparr>cn_parse = (\<lambda>_. Inr ()), cn_next = (\<lambda>_ t _. Inr ((t div 60 + 1) * 60)), cn_in_range = (\<lambda>_. True)\<rparr>"

definition minute_host :: "(unit, unit) cron_host" where
  "minute_host = \<lparr>ct_disk = quiet_host, ct_cron = minute_cron, ct_now = Pair (90 * SYSTEM_SECOND)\<rparr>"

definition minute_job :: "string \<Rightarrow> int \<Rightarrow> cron_job" where
  "minute_job app secs = \<lparr>cj_app = app, cj_schedule = ''* * * * *'', cj_command = ''true'', cj_next_run = secs * SYSTEM_SECOND\<rparr>"

definition two_jobs :: cron_scheduler where
  "two_jobs = [(''blog-cron-0'', minute_job ''blog'' 120), (''shop-cron-0'', minute_job ''shop'' 60)]"

lemma minute_ids: "cron_job_id ''shop'' 0 = ''shop-cron-0''" "cron_job_id ''blog'' 0 = ''blog-cron-0''"
  by code_simp+

lemma two_jobs_filed: "filed two_jobs"
  using minute_ids
  by (auto simp: filed_def two_jobs_def bt_ok_def bt_get_def minute_job_def split: if_splits intro!: exI [of _ "0::nat"])

lemma minute_later: "later_runs minute_cron"
  by (simp add: later_runs_def minute_cron_def) presburger


definition twice_content :: string where
  "twice_content = ''cron: * * * * * a'' @ [NEWLINE] @ ''cron: * * * * * b''"

text \<open>The parser of the Procfile warns that only the last of two lines of a kind is used; the scheduler runs both.\<close>

lemma cron_lines_all_run:
  "parse_procfile minute_cron (ReadText twice_content) = Inr (Some [(''cron'', ''* * * * * b'')])"
  "cron_entries minute_cron twice_content = [(''* * * * *'', ''a''), (''* * * * *'', ''b'')]"
  by code_simp+

text \<open>A command is put together from its words, so that blanks inside quotes are lost.\<close>

lemma cron_command_respaced:
  "cron_entries minute_cron (''cron: * * * * * echo '' @ [CHR 34] @ ''a  b'' @ [CHR 34])
   = [(''* * * * *'', ''echo '' @ [CHR 34] @ ''a b'' @ [CHR 34])]"
  by code_simp

end
