(* ===== verification/Route_Gate.thy ===== *)
theory Route_Gate
  imports Rolling Engine_Streams
begin

text \<open>
  The route an app asks a router for and the gate it passes before root renders it: the domains and flags of
  \<open>riku-util/src/domain.rs\<close> and \<open>flag.rs\<close>, the deny-list of \<open>riku-nginx/src/sanitize.rs\<close> and \<open>template.rs\<close>, the schema,
  the checks and the TLS pair of \<open>riku-route/src/schema.rs\<close>, \<open>check.rs\<close>, \<open>check_text.rs\<close> and \<open>check_tls.rs\<close>.

  The PEM parser, the base64 encoder and rustls are the parameter \<open>tls_library\<close>.  Bytes are the characters of a \<open>string\<close>.
\<close>

named_theorems gate_simps \<open>what a check that passes says\<close>

section \<open>domain.rs\<close>

definition MAX_DOMAIN_LEN :: nat where
  "MAX_DOMAIN_LEN = 253"

definition MAX_LABEL_LEN :: nat where
  "MAX_LABEL_LEN = 63"

definition WILDCARD :: string where
  "WILDCARD = ''*''"

datatype domain = Domain (domain_str: string)

datatype domain_error = DomainLength string | NotAHostname string

definition label_char :: "char \<Rightarrow> bool" where
  "label_char c \<longleftrightarrow> is_ascii_lowercase c \<or> is_ascii_digit c \<or> c = CHR ''-''"

definition valid_label :: "string \<Rightarrow> bool" where
  "valid_label label \<longleftrightarrow>
     label \<noteq> [] \<and> str_len label \<le> MAX_LABEL_LEN \<and> list_all label_char label
     \<and> \<not> starts_with ''-'' label \<and> \<not> ends_with ''-'' label"

definition valid_labels :: "string list \<Rightarrow> bool" where
  "valid_labels labels \<longleftrightarrow>
     (case labels of [] \<Rightarrow> True | l # ls \<Rightarrow> (l = WILDCARD \<or> valid_label l) \<and> list_all valid_label ls)"

definition domain_try_from :: "string \<Rightarrow> (domain_error, domain) result" where
  "domain_try_from raw =
     (let host = to_ascii_lowercase raw
      in if host = [] \<or> MAX_DOMAIN_LEN < str_len host then Inl (DomainLength raw)
         else if \<not> valid_labels (split_on (CHR ''.'') host) then Inl (NotAHostname raw)
         else Inr (Domain host))"

definition domain_separator :: "char \<Rightarrow> bool" where
  "domain_separator c \<longleftrightarrow> c = CHR '','' \<or> is_whitespace c"

definition parse_domains :: "string \<Rightarrow> (domain_error \<times> string, domain list) result" where
  "parse_domains raw =
     map_err (\<lambda>e. (e, raw)) (traverse domain_try_from (filter (\<lambda>entry. entry \<noteq> []) (split_by domain_separator raw)))"

section \<open>flag.rs\<close>

definition HTTPS_ONLY_KEY :: string where
  "HTTPS_ONLY_KEY = ''RIKU_HTTPS_ONLY''"

definition ON_VALUES :: "string list" where
  "ON_VALUES = [''1'', ''true'', ''yes'', ''on'']"

definition OFF_VALUES :: "string list" where
  "OFF_VALUES = ['''', ''0'', ''false'', ''no'', ''off'']"

definition flag_normalized :: "string \<Rightarrow> string" where
  "flag_normalized v = to_ascii_lowercase (trim v)"

definition is_on :: "string \<Rightarrow> bool" where
  "is_on v \<longleftrightarrow> flag_normalized v \<in> set ON_VALUES"

definition https_only :: "env_map \<Rightarrow> bool" where
  "https_only env \<longleftrightarrow> (case bt_get env HTTPS_ONLY_KEY of Some v \<Rightarrow> is_on v | None \<Rightarrow> False)"

definition https_only_warning :: "env_map \<Rightarrow> string option" where
  "https_only_warning env =
     (case bt_get env HTTPS_ONLY_KEY of
        None \<Rightarrow> None
      | Some v \<Rightarrow>
          if flag_normalized v \<in> set ON_VALUES \<or> flag_normalized v \<in> set OFF_VALUES then None
          else Some (''Warning: '' @ HTTPS_ONLY_KEY @ ''='' @ v
                     @ '' is not a recognized value and is treated as off. Use true or false.''))"

section \<open>Addresses and backends\<close>

text \<open>\<open>IpAddr::is_loopback\<close> and \<open>is_unspecified\<close>, and the \<open>Display\<close> of the standard library: the longest run of two or more
  zero segments of an IPv6 address is written as a double colon, an IPv4-mapped address with its dotted part.\<close>

fun ip_is_loopback :: "ip_addr \<Rightarrow> bool" where
  "ip_is_loopback (V4 a b c d) = (a = 127)"
| "ip_is_loopback (V6 gs) = (gs = [0, 0, 0, 0, 0, 0, 0, 1])"

fun ip_is_unspecified :: "ip_addr \<Rightarrow> bool" where
  "ip_is_unspecified (V4 a b c d) = (a = 0 \<and> b = 0 \<and> c = 0 \<and> d = 0)"
| "ip_is_unspecified (V6 gs) = (gs = [0, 0, 0, 0, 0, 0, 0, 0])"

definition hex_char :: "nat \<Rightarrow> char" where
  "hex_char n = (if n < 10 then char_of (48 + n) else char_of (87 + n))"

fun show_hex :: "nat \<Rightarrow> string" where
  "show_hex n = (if n < 16 then [hex_char n] else show_hex (n div 16) @ [hex_char (n mod 16)])"

text \<open>The search for the longest run of zeros: (start, length) of the longest and of the current run.\<close>

fun zero_runs :: "nat \<Rightarrow> nat \<times> nat \<Rightarrow> nat \<times> nat \<Rightarrow> u16 list \<Rightarrow> nat \<times> nat" where
  "zero_runs i longest current [] = longest"
| "zero_runs i longest current (g # gs) =
     (if g = 0
      then let run = (if snd current = 0 then (i, 1) else (fst current, Suc (snd current)))
           in zero_runs (Suc i) (if snd longest < snd run then run else longest) run gs
      else zero_runs (Suc i) longest (0, 0) gs)"

definition show_v4 :: "8 word \<Rightarrow> 8 word \<Rightarrow> 8 word \<Rightarrow> 8 word \<Rightarrow> string" where
  "show_v4 a b c d = join ''.'' (map (show_nat \<circ> unat) [a, b, c, d])"

definition show_segments :: "u16 list \<Rightarrow> string" where
  "show_segments gs = join '':'' (map (show_hex \<circ> unat) gs)"

definition show_v6 :: "u16 list \<Rightarrow> string" where
  "show_v6 gs =
     (if length gs = 8 \<and> take 6 gs = [0, 0, 0, 0, 0, 0xFFFF]
      then ''::ffff:'' @ show_v4 (ucast (drop_bit 8 (gs ! 6))) (ucast (gs ! 6)) (ucast (drop_bit 8 (gs ! 7))) (ucast (gs ! 7))
      else case zero_runs 0 (0, 0) (0, 0) gs of
             (start, len) \<Rightarrow>
               if 1 < len then show_segments (take start gs) @ ''::'' @ show_segments (drop (start + len) gs)
               else show_segments gs)"

fun backend_display :: "backend \<Rightarrow> string" where
  "backend_display (BackendTcp (V6 gs) port) = ''['' @ show_v6 gs @ '']:'' @ show_u16 port"
| "backend_display (BackendTcp (V4 a b c d) port) = show_v4 a b c d @ '':'' @ show_u16 port"
| "backend_display (BackendUnix p) = ''unix:'' @ path_text p"

section \<open>sanitize.rs and template.rs\<close>

definition breaks_directive :: "char \<Rightarrow> bool" where
  "breaks_directive c \<longleftrightarrow>
     is_control c \<or> c \<in> {CHR '';'', CHR ''{'', CHR ''}'', CHR ''#'', CHR 0x22, CHR 0x27, CHR ''$'', CHR 0x60, CHR 0x5C}"

datatype nginx_error =
    UnsafeValue string
  | SocketWhitespace string
  | BadDomains nginx_error
  | RefusingBackend nginx_error
  | BadStaticPath nat nginx_error
  | StaticFiles nginx_error
  | NoTemplates string
  | NoContext nginx_error
  | RenderFailed string string string

definition sanitize_nginx_value :: "string \<Rightarrow> string \<Rightarrow> (nginx_error, string) result" where
  "sanitize_nginx_value key v = (if list_ex breaks_directive v then Inl (UnsafeValue key) else Inr v)"

definition is_ascii_whitespace :: "char \<Rightarrow> bool" where
  "is_ascii_whitespace c \<longleftrightarrow> c \<in> {CHR '' '', CHR 0x09, CHR 0x0A, CHR 0x0C, CHR 0x0D}"

definition backend_address :: "backend \<Rightarrow> (nginx_error, string) result" where
  "backend_address backend =
     (let address = backend_display backend
      in if (case backend of BackendUnix _ \<Rightarrow> True | _ \<Rightarrow> False) \<and> list_ex is_ascii_whitespace address
         then Inl (SocketWhitespace address)
         else sanitize_nginx_value ''RIKU_BACKENDS'' address)"

section \<open>schema.rs\<close>

datatype https_policy = Only | AlsoPlainHttp

datatype site_kind = Plain | Portmap | Wsgi | Static

datatype route_backend = Tcp ip_addr u16 | UnixCopy u32 | UnixDefault

record tls_pair =
  tls_cert_pem :: string
  tls_key_pem :: string

definition DEFAULT_LISTEN :: u16 where
  "DEFAULT_LISTEN = 80"

record route =
  ro_domains :: "string list"
  ro_https :: https_policy
  ro_backends :: "route_backend list"
  ro_listen :: u16
  ro_tls :: "tls_pair option"
  ro_static_paths :: "string list"
  ro_kind :: site_kind
  ro_allow_git_folders :: bool

section \<open>check\_tls.rs\<close>

datatype section_kind = SectionCertificate | SectionOther string

datatype private_key_der = Pkcs1 string | Sec1 string | OtherKey string

fun secret_der :: "private_key_der \<Rightarrow> string" where
  "secret_der (Pkcs1 der) = der"
| "secret_der (Sec1 der) = der"
| "secret_der (OtherKey der) = der"

record tls_library =
  tl_sections :: "string \<Rightarrow> (string, (section_kind \<times> string) list) result"
  tl_encode :: "string \<Rightarrow> string"
  tl_key_from_pem :: "section_kind \<Rightarrow> string \<Rightarrow> private_key_der option"
  tl_supported :: "private_key_der \<Rightarrow> (string, unit) result"
  tl_keys_match :: "string list \<Rightarrow> private_key_der \<Rightarrow> (string, unit) result"

datatype tls_error =
    CertNotPem string
  | NoCertificate
  | NotACertificate
  | KeyNotPem string
  | NotOneKey nat
  | NotAPrivateKey
  | BadCertificate tls_error
  | BadKey tls_error
  | UnusableKey string
  | KeyMismatch string

definition LINE_WIDTH :: nat where
  "LINE_WIDTH = 64"

text \<open>\<open>slice::chunks\<close> for a positive width.\<close>

function chunks :: "nat \<Rightarrow> 'a list \<Rightarrow> 'a list list" where
  "chunks w xs = (if xs = [] \<or> w = 0 then [] else take w xs # chunks w (drop w xs))"
  by pat_completeness auto
termination by (relation "measure (\<lambda>(w, xs). length xs)") auto

declare chunks.simps [simp del]

definition armor :: "tls_library \<Rightarrow> string \<Rightarrow> string \<Rightarrow> string" where
  "armor lib label der =
     ''-----BEGIN '' @ label @ ''-----'' @ [NEWLINE]
     @ concat (map (\<lambda>line. line @ [NEWLINE]) (chunks LINE_WIDTH (tl_encode lib der)))
     @ ''-----END '' @ label @ ''-----'' @ [NEWLINE]"

definition certificate_chain :: "tls_library \<Rightarrow> string \<Rightarrow> (tls_error, string list) result" where
  "certificate_chain lib pem =
     (case tl_sections lib pem of
        Inl e \<Rightarrow> Inl (CertNotPem e)
      | Inr found \<Rightarrow>
          if found = [] then Inl NoCertificate
          else traverse (\<lambda>(kind, der). case kind of SectionCertificate \<Rightarrow> Inr der | _ \<Rightarrow> Inl NotACertificate) found)"

definition private_key :: "tls_library \<Rightarrow> string \<Rightarrow> (tls_error, private_key_der) result" where
  "private_key lib pem =
     (case tl_sections lib pem of
        Inl e \<Rightarrow> Inl (KeyNotPem e)
      | Inr [(kind, der)] \<Rightarrow>
          (case tl_key_from_pem lib kind der of Some key \<Rightarrow> Inr key | None \<Rightarrow> Inl NotAPrivateKey)
      | Inr found \<Rightarrow> Inl (NotOneKey (length found)))"

fun key_label :: "private_key_der \<Rightarrow> string" where
  "key_label (Pkcs1 _) = ''RSA PRIVATE KEY''"
| "key_label (Sec1 _) = ''EC PRIVATE KEY''"
| "key_label (OtherKey _) = ''PRIVATE KEY''"

definition check_tls :: "tls_library \<Rightarrow> tls_pair \<Rightarrow> (tls_error, tls_pair) result" where
  "check_tls lib tls =
     (case certificate_chain lib (tls_cert_pem tls) of
        Inl e \<Rightarrow> Inl (BadCertificate e)
      | Inr chain \<Rightarrow>
          (case private_key lib (tls_key_pem tls) of
             Inl e \<Rightarrow> Inl (BadKey e)
           | Inr key \<Rightarrow>
               (case tl_supported lib key of
                  Inl e \<Rightarrow> Inl (UnusableKey e)
                | Inr _ \<Rightarrow>
                    (case tl_keys_match lib chain key of
                       Inl e \<Rightarrow> Inl (KeyMismatch e)
                     | Inr _ \<Rightarrow>
                         Inr \<lparr>tls_cert_pem = concat (map (armor lib ''CERTIFICATE'') chain),
                              tls_key_pem = armor lib (key_label key) (secret_der key)\<rparr>))))"

section \<open>check\_text.rs and check.rs\<close>

datatype route_error =
    NoDomain
  | NotLowercase string
  | BadDomain domain_error
  | NotLoopback ip_addr
  | BackendPortZero
  | NotACopyNumber u32
  | NoBackend
  | PrivilegedListen u16
  | BadLocation string string
  | BadTls tls_error
  | OnlyWithoutTls
  | CaddyCannotTake string
  | RouteFor string route_error

definition HTTP_PORT :: u16 where
  "HTTP_PORT = 80"

definition FIRST_UNPRIVILEGED_PORT :: u16 where
  "FIRST_UNPRIVILEGED_PORT = 1024"

definition CATCH_ALL_NAME :: string where
  "CATCH_ALL_NAME = ''_''"

definition plain_char :: "char \<Rightarrow> bool" where
  "plain_char c \<longleftrightarrow> \<not> is_whitespace c \<and> \<not> breaks_directive c"

definition check_location :: "string \<Rightarrow> string \<Rightarrow> (route_error, unit) result" where
  "check_location field v =
     (if \<not> starts_with ''/'' v \<or> \<not> list_all plain_char v then Inl (BadLocation field v) else Inr ())"

definition gate_domain :: "string \<Rightarrow> (route_error, unit) result" where
  "gate_domain raw =
     (if raw = CATCH_ALL_NAME then Inr ()
      else case domain_try_from raw of
             Inr domain \<Rightarrow> (if domain_str domain = raw then Inr () else Inl (NotLowercase raw))
           | Inl e \<Rightarrow> Inl (BadDomain e))"

definition gate_domains :: "route \<Rightarrow> (route_error, unit) result" where
  "gate_domains route =
     (if ro_domains route = [] then Inl NoDomain else check_each gate_domain (ro_domains route))"

fun gate_backend :: "route_backend \<Rightarrow> (route_error, unit) result" where
  "gate_backend (Tcp host port) =
     (if \<not> ip_is_loopback host then Inl (NotLoopback host)
      else if port = 0 then Inl BackendPortZero else Inr ())"
| "gate_backend (UnixCopy copy) = (if copy_index_new copy = None then Inl (NotACopyNumber copy) else Inr ())"
| "gate_backend UnixDefault = Inr ()"

definition gate_backends :: "route \<Rightarrow> (route_error, unit) result" where
  "gate_backends route =
     (if ro_backends route = [] \<and> \<not> (ro_kind route = Static \<and> ro_https route \<noteq> Only) then Inl NoBackend
      else check_each gate_backend (ro_backends route))"

definition gate_listen :: "route \<Rightarrow> (route_error, unit) result" where
  "gate_listen route =
     (let port = ro_listen route
      in if port \<noteq> HTTP_PORT \<and> port < FIRST_UNPRIVILEGED_PORT then Inl (PrivilegedListen port) else Inr ())"

definition gate_locations :: "route \<Rightarrow> (route_error, unit) result" where
  "gate_locations route = check_each (check_location ''static_paths entry'') (ro_static_paths route)"

definition gate_common :: "route \<Rightarrow> (route_error, unit) result" where
  "gate_common route = check_each (\<lambda>check. check route) [gate_domains, gate_backends, gate_listen, gate_locations]"

definition normalized_tls :: "tls_library \<Rightarrow> route \<Rightarrow> (route_error, tls_pair option) result" where
  "normalized_tls lib route =
     (case ro_tls route of
        Some given \<Rightarrow> (case check_tls lib given of Inr tls \<Rightarrow> Inr (Some tls) | Inl e \<Rightarrow> Inl (BadTls e))
      | None \<Rightarrow> Inr None)"

datatype checked_route = CheckedRoute (checked_of: route)

definition checked :: "route \<Rightarrow> tls_pair option \<Rightarrow> checked_route" where
  "checked route tls = CheckedRoute (route\<lparr>ro_tls := tls\<rparr>)"

definition check_nginx_route :: "tls_library \<Rightarrow> app_name \<Rightarrow> route \<Rightarrow> (route_error, checked_route) result" where
  "check_nginx_route lib app route =
     (let tls = and_then (gate_common route) (\<lambda>_.
                and_then (normalized_tls lib route) (\<lambda>tls.
                case (ro_https route, tls) of (Only, None) \<Rightarrow> Inl OnlyWithoutTls | _ \<Rightarrow> Inr tls))
      in case tls of Inr tls \<Rightarrow> Inr (checked route tls) | Inl e \<Rightarrow> Inl (RouteFor (app_str app) e))"

fun is_unix_backend :: "route_backend \<Rightarrow> bool" where
  "is_unix_backend (Tcp _ _) = False"
| "is_unix_backend (UnixCopy _) = True"
| "is_unix_backend UnixDefault = True"

definition caddy_cannot_take :: "route \<Rightarrow> string option" where
  "caddy_cannot_take route =
     (let refused =
        [(ro_tls route \<noteq> None, ''a tls pair''),
         (ro_allow_git_folders route, ''allow_git_folders''),
         (ro_listen route \<noteq> DEFAULT_LISTEN, ''a custom listen''),
         (ro_kind route = Wsgi \<or> list_ex is_unix_backend (ro_backends route), ''unix socket backends''),
         (ro_kind route = Portmap, ''port mappings''),
         (ro_kind route = Static \<or> ro_static_paths route \<noteq> [], ''static sites''),
         (list_ex (\<lambda>d. d = CATCH_ALL_NAME) (ro_domains route), ''the _ name'')]
      in map_option snd (find fst refused))"

definition check_caddy_route :: "app_name \<Rightarrow> route \<Rightarrow> (route_error, checked_route) result" where
  "check_caddy_route app route =
     (let outcome = (case caddy_cannot_take route of Some what \<Rightarrow> Inl (CaddyCannotTake what) | None \<Rightarrow> gate_common route)
      in case outcome of Inr _ \<Rightarrow> Inr (checked route None) | Inl e \<Rightarrow> Inl (RouteFor (app_str app) e))"

section \<open>What the checks leave\<close>

lemma lowercase_char_again: "char_to_ascii_lowercase (char_to_ascii_lowercase c) = char_to_ascii_lowercase c"
  by (auto simp: char_to_ascii_lowercase_def is_ascii_uppercase_def)

lemma lowercase_again [simp]: "to_ascii_lowercase (to_ascii_lowercase s) = to_ascii_lowercase s"
  by (simp add: to_ascii_lowercase_def lowercase_char_again)

lemma split_by_covers: "c \<in> set s \<Longrightarrow> P c \<or> (\<exists>p \<in> set (split_by P s). c \<in> set p)"
  by (induction s) (auto split: list.splits)

lemma domain_again: "domain_try_from raw = Inr d \<Longrightarrow> domain_try_from (domain_str d) = Inr d"
  by (auto simp: domain_try_from_def Let_def split: if_splits)

lemma valid_label_chars: "valid_label l \<Longrightarrow> c \<in> set l \<Longrightarrow> label_char c"
  by (simp add: valid_label_def list_all_iff)

lemma valid_labels_chars:
  "valid_labels ls \<Longrightarrow> l \<in> set ls \<Longrightarrow> c \<in> set l \<Longrightarrow> label_char c \<or> c = CHR ''*''"
  by (auto simp: valid_labels_def WILDCARD_def list_all_iff split: list.splits dest: valid_label_chars)

lemma domain_chars:
  assumes "domain_try_from raw = Inr d" and "c \<in> set (domain_str d)"
  shows "label_char c \<or> c = CHR ''.'' \<or> c = CHR ''*''"
proof -
  have "valid_labels (split_on (CHR ''.'') (domain_str d))"
    using assms(1) by (auto simp: domain_try_from_def Let_def split: if_splits)
  then show ?thesis
    using split_by_covers [OF assms(2), of "\<lambda>x. x = CHR ''.''"] valid_labels_chars
    by (auto simp: split_on_def)
qed

lemma domain_nonempty: "domain_try_from raw = Inr d \<Longrightarrow> domain_str d \<noteq> [] \<and> str_len (domain_str d) \<le> MAX_DOMAIN_LEN"
  by (auto simp: domain_try_from_def Let_def split: if_splits)

definition directive_safe :: "string \<Rightarrow> bool" where
  "directive_safe s \<longleftrightarrow> list_all plain_char s"

lemma directive_safe_simps [simp]:
  "directive_safe []" "directive_safe (c # s) \<longleftrightarrow> plain_char c \<and> directive_safe s"
  "directive_safe (s @ t) \<longleftrightarrow> directive_safe s \<and> directive_safe t"
  by (auto simp: directive_safe_def)

lemma directive_safe_sub: "directive_safe s \<Longrightarrow> c \<in> set s \<Longrightarrow> plain_char c"
  by (simp add: directive_safe_def list_all_iff)

lemma digit_plain_char: "is_ascii_digit c \<Longrightarrow> plain_char c"
  by (auto simp: plain_char_def breaks_directive_def char_class_defs)

lemma label_char_plain: "label_char c \<Longrightarrow> plain_char c"
  by (auto simp: label_char_def plain_char_def breaks_directive_def char_class_defs)

lemma alphanumeric_plain_char: "is_ascii_alphanumeric c \<Longrightarrow> plain_char c"
  by (auto simp: plain_char_def breaks_directive_def char_class_defs)

lemma plain_chars [simp]:
  "plain_char CHR ''.''" "plain_char CHR ''*''" "plain_char CHR ''_''" "plain_char CHR '':''"
  "plain_char CHR ''[''" "plain_char CHR '']''" "plain_char CHR ''/''" "plain_char CHR ''-''" "plain_char CHR ''@''"
  by (simp_all add: plain_char_def breaks_directive_def char_class_defs)

lemma domain_safe: "domain_try_from raw = Inr d \<Longrightarrow> directive_safe (domain_str d)"
  unfolding directive_safe_def list_all_iff using domain_chars label_char_plain plain_chars by blast

lemma show_nat_safe: "directive_safe (show_nat n)"
  using show_nat_digits by (auto simp: directive_safe_def list_all_iff intro: digit_plain_char)

lemma show_u16_safe: "directive_safe (show_u16 n)"
  by (simp add: show_u16_def show_nat_safe)

lemma show_v4_safe: "directive_safe (show_v4 a b c d)"
  by (simp add: show_v4_def show_nat_safe)

lemma gate_domain_Inr [gate_simps]:
  "gate_domain raw = Inr u \<longleftrightarrow> raw = CATCH_ALL_NAME \<or> domain_try_from raw = Inr (Domain raw)"
  unfolding gate_domain_def by (auto split: sum.splits)

lemma gate_domains_Inr [gate_simps]:
  "gate_domains route = Inr u \<longleftrightarrow> ro_domains route \<noteq> [] \<and> (\<forall>d \<in> set (ro_domains route). gate_domain d = Inr ())"
  by (simp add: gate_domains_def check_each_Inr)

lemma gate_backend_Inr [gate_simps]:
  "gate_backend b = Inr u \<longleftrightarrow>
     (case b of Tcp host port \<Rightarrow> ip_is_loopback host \<and> port \<noteq> 0 | UnixCopy n \<Rightarrow> n \<noteq> 0 | UnixDefault \<Rightarrow> True)"
  by (cases b) (auto simp: copy_index_new_def)

lemma gate_backends_Inr [gate_simps]:
  "gate_backends route = Inr u \<longleftrightarrow>
     (ro_backends route \<noteq> [] \<or> ro_kind route = Static \<and> ro_https route \<noteq> Only)
     \<and> (\<forall>b \<in> set (ro_backends route). gate_backend b = Inr ())"
  by (auto simp: gate_backends_def check_each_Inr)

lemma gate_listen_Inr [gate_simps]:
  "gate_listen route = Inr u \<longleftrightarrow> ro_listen route = HTTP_PORT \<or> FIRST_UNPRIVILEGED_PORT \<le> ro_listen route"
  by (auto simp: gate_listen_def Let_def)

lemma gate_locations_Inr [gate_simps]:
  "gate_locations route = Inr u \<longleftrightarrow>
     (\<forall>l \<in> set (ro_static_paths route). (\<exists>r. l = CHR ''/'' # r) \<and> directive_safe l)"
  by (auto simp: gate_locations_def check_each_Inr check_location_def directive_safe_def starts_with_iff)

lemma gate_common_Inr [gate_simps]:
  "gate_common route = Inr u \<longleftrightarrow>
     gate_domains route = Inr () \<and> gate_backends route = Inr () \<and> gate_listen route = Inr () \<and> gate_locations route = Inr ()"
  unfolding gate_common_def check_each_Inr by simp

lemma check_nginx_route_Inr [gate_simps]:
  "check_nginx_route lib app route = Inr c \<longleftrightarrow>
     (\<exists>tls. gate_common route = Inr () \<and> normalized_tls lib route = Inr tls \<and> (ro_https route = Only \<longrightarrow> tls \<noteq> None)
            \<and> c = CheckedRoute (route\<lparr>ro_tls := tls\<rparr>))"
proof (cases "gate_common route")
  case (Inr u)
  show ?thesis
  proof (cases "normalized_tls lib route")
    case (Inr tls)
    with \<open>gate_common route = Inr u\<close> show ?thesis
      by (cases tls; cases "ro_https route") (auto simp: check_nginx_route_def checked_def)
  qed (use Inr in \<open>auto simp: check_nginx_route_def checked_def\<close>)
qed (auto simp: check_nginx_route_def)

lemma caddy_cannot_take_None [gate_simps]:
  "caddy_cannot_take route = None \<longleftrightarrow>
     ro_tls route = None \<and> \<not> ro_allow_git_folders route \<and> ro_listen route = DEFAULT_LISTEN
     \<and> ro_kind route = Plain \<and> (\<forall>b \<in> set (ro_backends route). \<not> is_unix_backend b)
     \<and> ro_static_paths route = [] \<and> CATCH_ALL_NAME \<notin> set (ro_domains route)"
  by (cases "ro_kind route") (auto simp: caddy_cannot_take_def Let_def list_ex_iff)

lemma check_caddy_route_Inr [gate_simps]:
  "check_caddy_route app route = Inr c \<longleftrightarrow>
     caddy_cannot_take route = None \<and> gate_common route = Inr () \<and> c = CheckedRoute (route\<lparr>ro_tls := None\<rparr>)"
  by (auto simp: check_caddy_route_def checked_def split: option.splits sum.splits)

end
