(* ===== verification/Route_Render.thy ===== *)
theory Route_Render
  imports Route_Gate
begin

text \<open>
  From a checked route to router config: \<open>riku-route/src/nginx_roots.rs\<close> and \<open>nginx_render.rs\<close>, \<open>riku-nginx/src/route_site.rs\<close>
  with the names of \<open>backends.rs\<close> and \<open>static_site.rs\<close>, and \<open>riku-caddy/src/site.rs\<close> with \<open>plan_of\<close> of
  \<open>riku-route/src/caddy_apply.rs\<close>.

  An nginx site is a Tera template over the values inserted into its context; the context is the record \<open>nginx_context\<close> and
  Tera itself is a parameter.  A Caddy site is text the program builds, modelled character by character.
\<close>

section \<open>nginx\_roots.rs\<close>

datatype reload_method = Systemctl path | Signal

record nginx_roots =
  ng_site_root :: path
  ng_cert_root :: path
  ng_socket_root :: path
  ng_static_root :: path
  ng_acme_root :: path
  ng_nginx :: path
  ng_reload :: reload_method
  ng_ipv6 :: bool
  ng_owner_uid :: u32

text \<open>The constants of \<open>riku-config\<close> and the roots of a real host: the programs found on the search path, whether systemd runs and
  whether the host has IPv6 are arguments.\<close>

definition NGINX_SITE_ROOT :: string where
  "NGINX_SITE_ROOT = ''/etc/riku/nginx''"

definition CERT_ROOT :: string where
  "CERT_ROOT = ''/etc/riku/certs''"

definition SOCKET_ROOT :: string where
  "SOCKET_ROOT = ''/run/riku-sockets''"

definition STATIC_ROOT :: string where
  "STATIC_ROOT = ''/var/lib/riku/static''"

definition ACME_WEBROOT :: string where
  "ACME_WEBROOT = ''/var/lib/riku/acme''"

definition CADDY_SITE_ROOT :: string where
  "CADDY_SITE_ROOT = ''/etc/riku/caddy''"

definition ROOT_UID :: u32 where
  "ROOT_UID = 0"

record reload_programs =
  rg_systemctl :: path
  rg_caddy :: path
  rg_nginx :: path

definition production_nginx :: "reload_programs \<Rightarrow> bool \<Rightarrow> bool \<Rightarrow> nginx_roots" where
  "production_nginx programs systemd ipv6 =
     \<lparr>ng_site_root = components NGINX_SITE_ROOT, ng_cert_root = components CERT_ROOT,
      ng_socket_root = components SOCKET_ROOT, ng_static_root = components STATIC_ROOT,
      ng_acme_root = components ACME_WEBROOT, ng_nginx = rg_nginx programs,
      ng_reload = (if systemd then Systemctl (rg_systemctl programs) else Signal),
      ng_ipv6 = ipv6, ng_owner_uid = ROOT_UID\<rparr>"

definition site_file :: "nginx_roots \<Rightarrow> app_name \<Rightarrow> path" where
  "site_file roots app = path_join (ng_site_root roots) (components (app_str app @ ''.conf''))"

definition cert_dir :: "nginx_roots \<Rightarrow> app_name \<Rightarrow> path" where
  "cert_dir roots app = path_join (ng_cert_root roots) (components (app_str app))"

section \<open>backends.rs and static\_site.rs\<close>

text \<open>\<open>str::bytes\<close>: the UTF-8 bytes of the code points below U+0100.\<close>

definition char_bytes :: "char \<Rightarrow> nat list" where
  "char_bytes c =
     (if code_point c < 128 then [code_point c] else [192 + code_point c div 64, 128 + code_point c mod 64])"

definition hex_byte :: "nat \<Rightarrow> string" where
  "hex_byte b = [hex_char (b div 16), hex_char (b mod 16)]"

definition upstream_name :: "string \<Rightarrow> string" where
  "upstream_name app = ''riku_'' @ concat (map hex_byte (concat (map char_bytes app)))"

definition document_root_in :: "path \<Rightarrow> string \<Rightarrow> path" where
  "document_root_in static_root app = path_join (path_join static_root (components app)) [Normal ''root'']"

definition static_path_dir_in :: "path \<Rightarrow> string \<Rightarrow> nat \<Rightarrow> path" where
  "static_path_dir_in static_root app index =
     path_join (path_join (path_join static_root (components app)) [Normal ''paths'']) [Normal (show_nat index)]"

section \<open>route\_site.rs\<close>

datatype site_shape = ShapePlain | ShapePortmap | ShapeWsgi | ShapeStatic

record site_files =
  sf_certificate :: path
  sf_certificate_key :: path
  sf_acme_root :: path
  sf_static_root :: path

record route_site =
  si_app :: string
  si_domains :: "string list"
  si_shape :: site_shape
  si_https_only :: bool
  si_port :: u16
  si_backends :: "backend list"
  si_static_locations :: "string list"
  si_allow_git_folders :: bool
  si_ipv6 :: bool
  si_files :: site_files

record nginx_context =
  nx_ipv6 :: bool
  nx_app :: string
  nx_app_upstream :: string
  nx_domains :: string
  nx_backends :: "string list"
  nx_external_port :: string
  nx_allow_git_folders :: string
  nx_ssl_certificate :: string
  nx_ssl_certificate_key :: string
  nx_acme_www :: string
  nx_wsgi :: "string option"
  nx_static_aliases :: "(string \<times> string) list"
  nx_document_root :: string

record tera_engine =
  te_register :: "(string, unit) result"
  te_render :: "string \<Rightarrow> nginx_context \<Rightarrow> (string, string) result"

definition template_name :: "route_site \<Rightarrow> string" where
  "template_name site =
     (if si_https_only site then ''nginx_https_only.conf.tera''
      else case si_shape site of
             ShapeWsgi \<Rightarrow> ''nginx_wsgi.conf.tera''
           | ShapePortmap \<Rightarrow> ''nginx_portmap.conf.tera''
           | ShapeStatic \<Rightarrow> ''nginx_static.conf.tera''
           | ShapePlain \<Rightarrow> ''nginx.conf.tera'')"

definition static_alias :: "route_site \<Rightarrow> nat \<times> string \<Rightarrow> (nginx_error, string \<times> string) result" where
  "static_alias site entry =
     (case entry of (index, location) \<Rightarrow>
        case sanitize_nginx_value ''static location'' location of
          Inl e \<Rightarrow> Inl (BadStaticPath index e)
        | Inr location \<Rightarrow>
            Inr (location, path_text (static_path_dir_in (sf_static_root (si_files site)) (si_app site) index)))"

definition insert_static :: "nginx_context \<Rightarrow> route_site \<Rightarrow> (nginx_error, nginx_context) result" where
  "insert_static ctx site =
     and_then (traverse (static_alias site) (enumerate 0 (si_static_locations site))) (\<lambda>aliases.
     Inr (ctx\<lparr>nx_static_aliases := aliases,
             nx_document_root := path_text (document_root_in (sf_static_root (si_files site)) (si_app site))\<rparr>))"

definition build_context :: "route_site \<Rightarrow> (nginx_error, nginx_context) result" where
  "build_context site =
     and_then (map_err BadDomains (sanitize_nginx_value ''domains'' (join '' '' (si_domains site)))) (\<lambda>domains.
     and_then (map_err RefusingBackend (traverse backend_address (si_backends site))) (\<lambda>addresses.
     map_err StaticFiles (insert_static
       \<lparr>nx_ipv6 = si_ipv6 site, nx_app = si_app site, nx_app_upstream = upstream_name (si_app site),
        nx_domains = domains, nx_backends = addresses, nx_external_port = show_u16 (si_port site),
        nx_allow_git_folders = bool_text (si_allow_git_folders site),
        nx_ssl_certificate = path_text (sf_certificate (si_files site)),
        nx_ssl_certificate_key = path_text (sf_certificate_key (si_files site)),
        nx_acme_www = path_text (sf_acme_root (si_files site)),
        nx_wsgi = (if si_shape site = ShapeWsgi then Some ''true'' else None),
        nx_static_aliases = [], nx_document_root = []\<rparr> site)))"

definition render_route_site :: "tera_engine \<Rightarrow> route_site \<Rightarrow> (nginx_error, string) result" where
  "render_route_site tera site =
     (case te_register tera of
        Inl e \<Rightarrow> Inl (NoTemplates e)
      | Inr _ \<Rightarrow>
          and_then (map_err NoContext (build_context site)) (\<lambda>ctx.
          map_err (RenderFailed (template_name site) (si_app site)) (te_render tera (template_name site) ctx)))"

section \<open>nginx\_render.rs\<close>

definition CERTIFICATE_FILE :: string where
  "CERTIFICATE_FILE = ''fullchain.pem''"

definition KEY_FILE :: string where
  "KEY_FILE = ''key.pem''"

fun shape_of :: "site_kind \<Rightarrow> site_shape" where
  "shape_of Plain = ShapePlain"
| "shape_of Portmap = ShapePortmap"
| "shape_of Wsgi = ShapeWsgi"
| "shape_of Static = ShapeStatic"

fun nginx_backend :: "nginx_roots \<Rightarrow> app_name \<Rightarrow> route_backend \<Rightarrow> backend" where
  "nginx_backend roots app (Tcp host port) = BackendTcp host port"
| "nginx_backend roots app (UnixCopy copy) =
     BackendUnix (path_join (ng_socket_root roots) (components (copy_socket_file_name (app_str app) copy)))"
| "nginx_backend roots app UnixDefault =
     BackendUnix (path_join (ng_socket_root roots) (components (app_str app @ ''.sock'')))"

definition site_files_of :: "nginx_roots \<Rightarrow> app_name \<Rightarrow> site_files" where
  "site_files_of roots app =
     \<lparr>sf_certificate = path_join (cert_dir roots app) [Normal CERTIFICATE_FILE],
      sf_certificate_key = path_join (cert_dir roots app) [Normal KEY_FILE],
      sf_acme_root = ng_acme_root roots, sf_static_root = ng_static_root roots\<rparr>"

definition route_site_of :: "nginx_roots \<Rightarrow> app_name \<Rightarrow> route \<Rightarrow> route_site" where
  "route_site_of roots app route =
     \<lparr>si_app = app_str app, si_domains = ro_domains route, si_shape = shape_of (ro_kind route),
      si_https_only = (ro_https route = Only), si_port = ro_listen route,
      si_backends = map (nginx_backend roots app) (ro_backends route),
      si_static_locations = ro_static_paths route, si_allow_git_folders = ro_allow_git_folders route,
      si_ipv6 = ng_ipv6 roots, si_files = site_files_of roots app\<rparr>"

definition render_nginx :: "tera_engine \<Rightarrow> nginx_roots \<Rightarrow> app_name \<Rightarrow> route \<Rightarrow> (nginx_error, string) result" where
  "render_nginx tera roots app route = render_route_site tera (route_site_of roots app route)"

section \<open>site.rs of Caddy\<close>

record route_plan =
  rpl_domains :: "domain list"
  rpl_https :: https_policy
  rpl_backends :: "backend list"

datatype caddy_error = NoPlanBackend | TcpOnly | PlanDomain domain_error

definition PLAIN_HTTP_SCHEME :: string where
  "PLAIN_HTTP_SCHEME = ''http://''"

definition site_addresses :: "route_plan \<Rightarrow> string list" where
  "site_addresses plan =
     (let bare = map domain_str (rpl_domains plan)
      in case rpl_https plan of
           Only \<Rightarrow> bare
         | AlsoPlainHttp \<Rightarrow> bare @ map (\<lambda>d. PLAIN_HTTP_SCHEME @ d) bare)"

definition upstreams :: "route_plan \<Rightarrow> (caddy_error, string) result" where
  "upstreams plan =
     (if rpl_backends plan = [] then Inl NoPlanBackend
      else if list_ex (\<lambda>b. case b of BackendUnix _ \<Rightarrow> True | _ \<Rightarrow> False) (rpl_backends plan) then Inl TcpOnly
      else Inr (join '' '' (map backend_display (rpl_backends plan))))"

definition render_site :: "string \<Rightarrow> route_plan \<Rightarrow> (caddy_error, string) result" where
  "render_site app plan =
     and_then (upstreams plan) (\<lambda>targets.
     Inr (''# riku app: '' @ app @ [NEWLINE] @ join '', '' (site_addresses plan) @ '' {'' @ [NEWLINE]
          @ [CHR 0x09] @ ''reverse_proxy '' @ targets @ [NEWLINE] @ ''}'' @ [NEWLINE]))"

fun caddy_backend :: "route_backend \<Rightarrow> (caddy_error, backend) result" where
  "caddy_backend (Tcp host port) = Inr (BackendTcp host port)"
| "caddy_backend (UnixCopy _) = Inl TcpOnly"
| "caddy_backend UnixDefault = Inl TcpOnly"

definition plan_of :: "route \<Rightarrow> (caddy_error, route_plan) result" where
  "plan_of route =
     (case (map_err PlanDomain (traverse domain_try_from (ro_domains route)), traverse caddy_backend (ro_backends route)) of
        (Inr domains, Inr backends) \<Rightarrow> Inr \<lparr>rpl_domains = domains, rpl_https = ro_https route, rpl_backends = backends\<rparr>
      | (Inl e, _) \<Rightarrow> Inl e
      | (_, Inl e) \<Rightarrow> Inl e)"

end
