(* ===== verification/Site_Files.thy ===== *)
theory Site_Files
  imports Route_Render
begin

text \<open>
  Writing and restoring the files of one app's router config: \<open>riku-route/src/site_files.rs\<close>, \<open>nginx_run.rs\<close> and
  \<open>check_write_dir\<close> of \<open>riku-util/src/write_dir.rs\<close>.

  The record \<open>site_disk\<close> holds the entries of the disk by path and the rest of the world.  An entry is a file with its mode and
  content, a directory with its owner and mode, or something else, such as a symbolic link.  No directory on the way to a path is a
  link.  The record \<open>route_host\<close> stands for the system: \<open>rh_fault\<close> says whether a system call fails, without effect; a write that
  fails leaves the part \<open>rh_short\<close> tells; following an entry that is neither file nor directory and running a program,
  which sees the disk, are functions of their own.  Asking whether a path exists does not fail.
\<close>

section \<open>The disk\<close>

datatype node = FileNode u32 string | DirNode u32 u32 | OtherNode

record 'w site_disk =
  dk_nodes :: "(path \<times> node) list"
  dk_world :: 'w

datatype site_syscall =
    SysStat path
  | SysRead path
  | SysUnlink path
  | SysCreate path
  | SysChmod path
  | SysWrite path
  | SysSync path
  | SysRename path path
  | SysMkdir path
  | SysRmdir path

datatype io_error = IoNotFound | IoExists | IoOther string

datatype program = NginxCheck path | SystemctlReload path | NginxSignal path | CaddyReload path path string

datatype program_output = CannotRun string | Exited bool string

record 'w route_host =
  rh_fault :: "site_syscall \<Rightarrow> 'w \<Rightarrow> string option \<times> 'w"
  rh_short :: "path \<Rightarrow> 'w \<Rightarrow> nat"
  rh_other_read :: "path \<Rightarrow> 'w \<Rightarrow> (string, string) result"
  rh_other_is_dir :: "path \<Rightarrow> 'w \<Rightarrow> bool option"
  rh_run :: "program \<Rightarrow> (path \<times> node) list \<Rightarrow> 'w \<Rightarrow> program_output \<times> 'w"
  rh_euid :: u32

type_synonym ('e, 'w, 'a) site_call = "'w site_disk \<Rightarrow> ('e, 'a) result \<times> 'w site_disk"

text \<open>A file mode written as its three octal digits.\<close>

definition octal :: "u32 \<Rightarrow> u32 \<Rightarrow> u32 \<Rightarrow> u32" where
  "octal u g others = 64 * u + 8 * g + others"

definition node_at :: "'w site_disk \<Rightarrow> path \<Rightarrow> node option" where
  "node_at d p = map_of (dk_nodes d) p"

definition put_node :: "path \<Rightarrow> node \<Rightarrow> 'w site_disk \<Rightarrow> 'w site_disk" where
  "put_node p n d = d\<lparr>dk_nodes := (p, n) # filter (\<lambda>e. fst e \<noteq> p) (dk_nodes d)\<rparr>"

definition drop_node :: "path \<Rightarrow> 'w site_disk \<Rightarrow> 'w site_disk" where
  "drop_node p d = d\<lparr>dk_nodes := filter (\<lambda>e. fst e \<noteq> p) (dk_nodes d)\<rparr>"

text \<open>One system call: it fails by itself, or acts on the entries.\<close>

definition syscall ::
  "'w route_host \<Rightarrow> site_syscall \<Rightarrow> ('w site_disk \<Rightarrow> (io_error, 'a) result \<times> 'w site_disk) \<Rightarrow> (io_error, 'w, 'a) site_call" where
  "syscall h call act d =
     (case rh_fault h call (dk_world d) of
        (Some e, w) \<Rightarrow> (Inl (IoOther e), d\<lparr>dk_world := w\<rparr>)
      | (None, w) \<Rightarrow> act (d\<lparr>dk_world := w\<rparr>))"

definition site_then :: "('e, 'w, 'a) site_call \<Rightarrow> ('a \<Rightarrow> ('e, 'w, 'b) site_call) \<Rightarrow> ('e, 'w, 'b) site_call" where
  "site_then m f d = (case m d of (Inl e, d') \<Rightarrow> (Inl e, d') | (Inr a, d') \<Rightarrow> f a d')"

definition site_err :: "('e \<Rightarrow> 'f) \<Rightarrow> ('e, 'w, 'a) site_call \<Rightarrow> ('f, 'w, 'a) site_call" where
  "site_err err m d = apfst (map_err err) (m d)"

definition is_dir_node :: "node option \<Rightarrow> bool" where
  "is_dir_node n = (case n of Some (DirNode _ _) \<Rightarrow> True | _ \<Rightarrow> False)"

definition in_directory :: "'w site_disk \<Rightarrow> path \<Rightarrow> bool" where
  "in_directory d p = (case path_parent p of Some dir \<Rightarrow> is_dir_node (node_at d dir) | None \<Rightarrow> False)"

definition sys_read :: "'w route_host \<Rightarrow> path \<Rightarrow> (io_error, 'w, string) site_call" where
  "sys_read h p = syscall h (SysRead p) (\<lambda>d.
     (case node_at d p of
        None \<Rightarrow> Inl IoNotFound
      | Some (FileNode _ content) \<Rightarrow> Inr content
      | Some (DirNode _ _) \<Rightarrow> Inl (IoOther ''Is a directory'')
      | Some OtherNode \<Rightarrow> map_err IoOther (rh_other_read h p (dk_world d)), d))"

definition sys_unlink :: "'w route_host \<Rightarrow> path \<Rightarrow> (io_error, 'w, unit) site_call" where
  "sys_unlink h p = syscall h (SysUnlink p) (\<lambda>d.
     case node_at d p of
       None \<Rightarrow> (Inl IoNotFound, d)
     | Some (DirNode _ _) \<Rightarrow> (Inl (IoOther ''Is a directory''), d)
     | Some _ \<Rightarrow> (Inr (), drop_node p d))"

definition sys_create_new :: "'w route_host \<Rightarrow> path \<Rightarrow> u32 \<Rightarrow> (io_error, 'w, unit) site_call" where
  "sys_create_new h p mode = syscall h (SysCreate p) (\<lambda>d.
     if node_at d p \<noteq> None then (Inl IoExists, d)
     else if \<not> in_directory d p then (Inl IoNotFound, d)
     else (Inr (), put_node p (FileNode mode []) d))"

definition sys_fchmod :: "'w route_host \<Rightarrow> path \<Rightarrow> u32 \<Rightarrow> (io_error, 'w, unit) site_call" where
  "sys_fchmod h p mode = syscall h (SysChmod p) (\<lambda>d.
     case node_at d p of Some (FileNode _ content) \<Rightarrow> (Inr (), put_node p (FileNode mode content) d) | _ \<Rightarrow> (Inr (), d))"

definition sys_write_all :: "'w route_host \<Rightarrow> path \<Rightarrow> string \<Rightarrow> (io_error, 'w, unit) site_call" where
  "sys_write_all h p content d =
     (case (rh_fault h (SysWrite p) (dk_world d), node_at d p) of
        ((Some e, w), Some (FileNode mode old)) \<Rightarrow>
          (Inl (IoOther e), (put_node p (FileNode mode (old @ take (rh_short h p w) content)) d)\<lparr>dk_world := w\<rparr>)
      | ((Some e, w), _) \<Rightarrow> (Inl (IoOther e), d\<lparr>dk_world := w\<rparr>)
      | ((None, w), Some (FileNode mode old)) \<Rightarrow> (Inr (), (put_node p (FileNode mode (old @ content)) d)\<lparr>dk_world := w\<rparr>)
      | ((None, w), _) \<Rightarrow> (Inr (), d\<lparr>dk_world := w\<rparr>))"

definition sys_sync :: "'w route_host \<Rightarrow> path \<Rightarrow> (io_error, 'w, unit) site_call" where
  "sys_sync h p = syscall h (SysSync p) (\<lambda>d. (Inr (), d))"

definition sys_rename :: "'w route_host \<Rightarrow> path \<Rightarrow> path \<Rightarrow> (io_error, 'w, unit) site_call" where
  "sys_rename h from to = syscall h (SysRename from to) (\<lambda>d.
     case node_at d from of
       None \<Rightarrow> (Inl IoNotFound, d)
     | Some n \<Rightarrow>
         if is_dir_node (node_at d to) then (Inl (IoOther ''Is a directory''), d)
         else (Inr (), put_node to n (drop_node from d)))"

definition sys_mkdir :: "'w route_host \<Rightarrow> path \<Rightarrow> u32 \<Rightarrow> (io_error, 'w, unit) site_call" where
  "sys_mkdir h p mode = syscall h (SysMkdir p) (\<lambda>d.
     if node_at d p \<noteq> None then (Inl IoExists, d)
     else if \<not> in_directory d p then (Inl IoNotFound, d)
     else (Inr (), put_node p (DirNode (rh_euid h) mode) d))"

definition sys_rmdir :: "'w route_host \<Rightarrow> path \<Rightarrow> (io_error, 'w, unit) site_call" where
  "sys_rmdir h p = syscall h (SysRmdir p) (\<lambda>d.
     if node_at d p = None then (Inl IoNotFound, d)
     else if \<not> is_dir_node (node_at d p) then (Inl (IoOther ''Not a directory''), d)
     else if list_ex (\<lambda>e. path_parent (fst e) = Some p) (dk_nodes d) then (Inl (IoOther ''Directory not empty''), d)
     else (Inr (), drop_node p d))"

section \<open>write\_dir.rs\<close>

datatype site_error =
    CannotInspectDir path io_error
  | NotADirectory path
  | WrongOwner path u32 u32
  | WritableByOthers path u32
  | CannotCreateDir path io_error
  | CannotSetMode path io_error
  | CannotWrite path io_error
  | CannotMove path io_error
  | CannotRemove path io_error
  | CannotRead path io_error
  | RestoreFailures "site_error list"

definition check_write_dir :: "'w route_host \<Rightarrow> path \<Rightarrow> u32 \<Rightarrow> (site_error, 'w, unit) site_call" where
  "check_write_dir h dir owner =
     site_then (site_err (CannotInspectDir dir) (syscall h (SysStat dir) (\<lambda>d.
       (case node_at d dir of None \<Rightarrow> Inl IoNotFound | Some n \<Rightarrow> Inr n, d)))) (\<lambda>meta d.
     ((case meta of
         DirNode uid mode \<Rightarrow>
           if uid \<noteq> owner then Inl (WrongOwner dir uid owner)
           else if and mode (octal 0 2 2) \<noteq> 0 then Inl (WritableByOthers dir (and mode (octal 7 7 7)))
           else Inr ()
       | _ \<Rightarrow> Inl (NotADirectory dir)), d))"

section \<open>site\_files.rs\<close>

definition PUBLIC_FILE :: u32 where
  "PUBLIC_FILE = octal 6 4 4"

definition PRIVATE_FILE :: u32 where
  "PRIVATE_FILE = octal 6 0 0"

definition PUBLIC_DIR :: u32 where
  "PUBLIC_DIR = octal 7 5 5"

definition PRIVATE_DIR :: u32 where
  "PRIVATE_DIR = octal 7 0 0"

text \<open>The mode of a directory created under the umask 0177.\<close>

definition NEW_DIR :: u32 where
  "NEW_DIR = octal 6 0 0"

definition set_mode :: "'w route_host \<Rightarrow> path \<Rightarrow> u32 \<Rightarrow> (site_error, 'w, unit) site_call" where
  "set_mode h dir mode = site_err (CannotSetMode dir) (syscall h (SysChmod dir) (\<lambda>d.
     case node_at d dir of
       None \<Rightarrow> (Inl IoNotFound, d)
     | Some (DirNode uid _) \<Rightarrow> (Inr (), put_node dir (DirNode uid mode) d)
     | Some (FileNode _ content) \<Rightarrow> (Inr (), put_node dir (FileNode mode content) d)
     | Some OtherNode \<Rightarrow> (Inr (), d)))"

text \<open>\<open>Path::ancestors\<close>, the path itself first, and \<open>Path::exists\<close>, which follows a link.\<close>

function ancestors :: "path \<Rightarrow> path list" where
  "ancestors p = p # (case path_parent p of None \<Rightarrow> [] | Some q \<Rightarrow> ancestors q)"
  by pat_completeness auto
termination by (relation "measure length") (auto simp: path_parent_def split: if_splits)

declare ancestors.simps [simp del]

definition path_exists :: "'w route_host \<Rightarrow> 'w site_disk \<Rightarrow> path \<Rightarrow> bool" where
  "path_exists h d p =
     (case node_at d p of None \<Rightarrow> False | Some OtherNode \<Rightarrow> rh_other_is_dir h p (dk_world d) \<noteq> None | Some _ \<Rightarrow> True)"

definition path_is_dir :: "'w route_host \<Rightarrow> 'w site_disk \<Rightarrow> path \<Rightarrow> bool" where
  "path_is_dir h d p =
     (case node_at d p of
        Some (DirNode _ _) \<Rightarrow> True | Some OtherNode \<Rightarrow> rh_other_is_dir h p (dk_world d) = Some True | _ \<Rightarrow> False)"

text \<open>\<open>fs::create_dir_all\<close>: make the directory, and its parents first when one is missing.\<close>

function create_dir_all :: "'w route_host \<Rightarrow> path \<Rightarrow> (io_error, 'w, unit) site_call" where
  "create_dir_all h p d =
     (if p = [] then (Inr (), d)
      else case sys_mkdir h p NEW_DIR d of
             (Inr _, d) \<Rightarrow> (Inr (), d)
           | (Inl e, d) \<Rightarrow>
               if e = IoNotFound
               then case path_parent p of
                      None \<Rightarrow> (Inl (IoOther ''failed to create whole tree''), d)
                    | Some q \<Rightarrow>
                        (case create_dir_all h q d of
                           (Inl e, d) \<Rightarrow> (Inl e, d)
                         | (Inr _, d) \<Rightarrow>
                             (case sys_mkdir h p NEW_DIR d of
                                (Inr _, d) \<Rightarrow> (Inr (), d)
                              | (Inl e, d) \<Rightarrow> (if path_is_dir h d p then Inr () else Inl e, d)))
               else (if path_is_dir h d p then Inr () else Inl e, d))"
  by pat_completeness auto
termination by (relation "measure (\<lambda>(h, p, d). length p)") (auto simp: path_parent_def split: if_splits)

declare create_dir_all.simps [simp del]

fun site_each :: "('a \<Rightarrow> ('e, 'w, unit) site_call) \<Rightarrow> 'a list \<Rightarrow> ('e, 'w, unit) site_call" where
  "site_each f [] d = (Inr (), d)"
| "site_each f (x # xs) d = site_then (f x) (\<lambda>_. site_each f xs) d"

definition ensure_dir :: "'w route_host \<Rightarrow> path \<Rightarrow> u32 \<Rightarrow> u32 \<Rightarrow> (site_error, 'w, unit) site_call" where
  "ensure_dir h dir mode owner d =
     (let created = takeWhile (\<lambda>each. \<not> path_exists h d each) (ancestors dir);
          parents = tl created
      in site_then (site_err (CannotCreateDir dir) (create_dir_all h dir)) (\<lambda>_.
         site_then (site_each (\<lambda>each. check_write_dir h each owner)
                     (parents @ (case path_parent dir of Some p \<Rightarrow> [p] | None \<Rightarrow> []) @ [dir])) (\<lambda>_.
         site_then (site_each (\<lambda>parent. set_mode h parent PUBLIC_DIR) parents) (\<lambda>_.
         set_mode h dir mode))) d)"

definition staged :: "path \<Rightarrow> path" where
  "staged p = (if p = [] then [Normal ''.new'']
               else case last p of Normal n \<Rightarrow> butlast p @ [Normal (n @ ''.new'')] | _ \<Rightarrow> p @ [Normal ''.new''])"

definition create_staged :: "'w route_host \<Rightarrow> path \<Rightarrow> u32 \<Rightarrow> (io_error, 'w, unit) site_call" where
  "create_staged h p mode d =
     (case sys_unlink h p d of
        (Inl e, d') \<Rightarrow>
          if e \<noteq> IoNotFound then (Inl e, d')
          else site_then (sys_create_new h p PRIVATE_FILE) (\<lambda>_. sys_fchmod h p mode) d'
      | (Inr _, d') \<Rightarrow> site_then (sys_create_new h p PRIVATE_FILE) (\<lambda>_. sys_fchmod h p mode) d')"

definition fill_staged :: "'w route_host \<Rightarrow> path \<Rightarrow> string \<Rightarrow> u32 \<Rightarrow> (io_error, 'w, unit) site_call" where
  "fill_staged h p content mode =
     site_then (create_staged h p mode) (\<lambda>_. site_then (sys_write_all h p content) (\<lambda>_. sys_sync h p))"

definition write_file :: "'w route_host \<Rightarrow> path \<Rightarrow> string \<Rightarrow> u32 \<Rightarrow> (site_error, 'w, unit) site_call" where
  "write_file h p content mode d =
     (let temp = staged p
      in case fill_staged h temp content mode d of
           (Inl e, d') \<Rightarrow> (Inl (CannotWrite temp e), snd (sys_unlink h temp d'))
         | (Inr _, d') \<Rightarrow>
             (case sys_rename h temp p d' of
                (Inr _, d'') \<Rightarrow> (Inr (), d'')
              | (Inl e, d'') \<Rightarrow> (Inl (CannotMove p e), snd (sys_unlink h temp d''))))"

definition remove_file :: "'w route_host \<Rightarrow> path \<Rightarrow> (site_error, 'w, unit) site_call" where
  "remove_file h p d =
     (case sys_unlink h p d of
        (Inr _, d') \<Rightarrow> (Inr (), d')
      | (Inl e, d') \<Rightarrow> (if e = IoNotFound then Inr () else Inl (CannotRemove p e), d'))"

record planned =
  pn_path :: path
  pn_mode :: u32
  pn_contents :: "string option"

type_synonym snapshot = "(path \<times> u32 \<times> string option) list"

fun snapshot_take :: "'w route_host \<Rightarrow> planned list \<Rightarrow> (site_error, 'w, snapshot) site_call" where
  "snapshot_take h [] d = (Inr [], d)"
| "snapshot_take h (f # fs) d =
     (case sys_read h (pn_path f) d of
        (Inl e, d') \<Rightarrow>
          if e = IoNotFound
          then site_then (snapshot_take h fs) (\<lambda>rest d. (Inr ((pn_path f, pn_mode f, None) # rest), d)) d'
          else (Inl (CannotRead (pn_path f) e), d')
      | (Inr content, d') \<Rightarrow>
          site_then (snapshot_take h fs) (\<lambda>rest d. (Inr ((pn_path f, pn_mode f, Some content) # rest), d)) d')"

definition snapshot_is_empty :: "snapshot \<Rightarrow> bool" where
  "snapshot_is_empty snapshot = list_all (\<lambda>(_, _, old). old = None) snapshot"

text \<open>Put a content or its absence at a path, through the two operations on a file.\<close>

definition put_content ::
  "(path \<Rightarrow> string \<Rightarrow> u32 \<Rightarrow> ('e, 'w, unit) site_call) \<Rightarrow> (path \<Rightarrow> ('e, 'w, unit) site_call)
     \<Rightarrow> path \<Rightarrow> u32 \<Rightarrow> string option \<Rightarrow> ('e, 'w, unit) site_call" where
  "put_content put_file remove p mode old =
     (case old of Some content \<Rightarrow> put_file p content mode | None \<Rightarrow> remove p)"

fun restore_failures ::
  "(path \<Rightarrow> string \<Rightarrow> u32 \<Rightarrow> ('e, 'w, unit) site_call) \<Rightarrow> (path \<Rightarrow> ('e, 'w, unit) site_call)
     \<Rightarrow> snapshot \<Rightarrow> 'w site_disk \<Rightarrow> 'e list \<times> 'w site_disk" where
  "restore_failures put_file remove [] d = ([], d)"
| "restore_failures put_file remove ((p, mode, old) # rest) d =
     (case put_content put_file remove p mode old d of
        (Inl e, d') \<Rightarrow> apfst (Cons e) (restore_failures put_file remove rest d')
      | (Inr _, d') \<Rightarrow> restore_failures put_file remove rest d')"

definition snapshot_restore :: "'w route_host \<Rightarrow> snapshot \<Rightarrow> (site_error, 'w, unit) site_call" where
  "snapshot_restore h snapshot d =
     (case restore_failures (write_file h) (remove_file h) snapshot d of
        ([], d') \<Rightarrow> (Inr (), d')
      | (failures, d') \<Rightarrow> (Inl (RestoreFailures failures), d'))"

fun install_with ::
  "(path \<Rightarrow> string \<Rightarrow> u32 \<Rightarrow> ('e, 'w, unit) site_call) \<Rightarrow> (path \<Rightarrow> ('e, 'w, unit) site_call)
     \<Rightarrow> planned list \<Rightarrow> ('e, 'w, unit) site_call" where
  "install_with put_file remove [] d = (Inr (), d)"
| "install_with put_file remove (f # fs) d =
     (case put_content put_file remove (pn_path f) (pn_mode f) (pn_contents f) d of
        (Inl e, d') \<Rightarrow> (Inl e, d')
      | (Inr _, d') \<Rightarrow> install_with put_file remove fs d')"

definition install :: "'w route_host \<Rightarrow> planned list \<Rightarrow> (site_error, 'w, unit) site_call" where
  "install h = install_with (write_file h) (remove_file h)"

section \<open>nginx\_run.rs\<close>

datatype run_error = CouldNotRun string string | ProgramFailed string string

definition run_program :: "'w route_host \<Rightarrow> program \<Rightarrow> string \<Rightarrow> (run_error, 'w, unit) site_call" where
  "run_program h program what d =
     (case rh_run h program (dk_nodes d) (dk_world d) of
        (CannotRun e, w) \<Rightarrow> (Inl (CouldNotRun what e), d\<lparr>dk_world := w\<rparr>)
      | (Exited success stderr, w) \<Rightarrow>
          (if success then Inr () else Inl (ProgramFailed what (trim stderr)), d\<lparr>dk_world := w\<rparr>))"

definition check_config :: "'w route_host \<Rightarrow> nginx_roots \<Rightarrow> (run_error, 'w, unit) site_call" where
  "check_config h roots = run_program h (NginxCheck (ng_nginx roots)) ''nginx -t''"

definition nginx_reload :: "'w route_host \<Rightarrow> nginx_roots \<Rightarrow> (run_error, 'w, unit) site_call" where
  "nginx_reload h roots =
     (case ng_reload roots of
        Systemctl systemctl \<Rightarrow> run_program h (SystemctlReload systemctl) ''systemctl reload nginx''
      | Signal \<Rightarrow> run_program h (NginxSignal (ng_nginx roots)) ''nginx -s reload'')"

section \<open>Entries and system calls\<close>

named_theorems disk_simps \<open>entries after the operations on the disk\<close>

lemma map_of_filter_key: "map_of (filter (\<lambda>e. fst e \<noteq> p) xs) q = (if q = p then None else map_of xs q)"
  by (induction xs) auto

lemma node_at_simps [simp, disk_simps]:
  "node_at (put_node p n d) q = (if q = p then Some n else node_at d q)"
  "node_at (drop_node p d) q = (if q = p then None else node_at d q)"
  "node_at (d\<lparr>dk_world := w\<rparr>) q = node_at d q"
  by (auto simp: node_at_def put_node_def drop_node_def map_of_filter_key)

lemma syscall_cases:
  assumes "syscall h call act d = (r, d')"
  obtains e w where "r = Inl (IoOther e)" "d' = d\<lparr>dk_world := w\<rparr>" "rh_fault h call (dk_world d) = (Some e, w)"
    | w where "act (d\<lparr>dk_world := w\<rparr>) = (r, d')" "rh_fault h call (dk_world d) = (None, w)"
  using assms by (auto simp: syscall_def split: prod.splits option.splits)

lemma staged_differs [simp]: "staged p \<noteq> p" "p \<noteq> staged p"
proof -
  have "staged p \<noteq> p"
  proof (cases "p = []")
    case False
    then obtain q x where "p = q @ [x]" by (metis rev_exhaust)
    then show ?thesis by (cases x) (auto simp: staged_def)
  qed (simp add: staged_def)
  then show "staged p \<noteq> p" "p \<noteq> staged p" by auto
qed

lemma sys_unlink_nodes:
  assumes "sys_unlink h p d = (r, d')"
  shows "q \<noteq> p \<Longrightarrow> node_at d' q = node_at d q" and "r = Inr u \<Longrightarrow> node_at d' p = None"
    and "r = Inl e \<Longrightarrow> node_at d' p = node_at d p" and "r = Inl IoNotFound \<Longrightarrow> node_at d p = None"
  using assms unfolding sys_unlink_def
  by (auto elim!: syscall_cases split: option.splits node.splits)

lemma sys_create_new_nodes:
  assumes "sys_create_new h p mode d = (r, d')"
  shows "q \<noteq> p \<Longrightarrow> node_at d' q = node_at d q" and "r = Inr u \<Longrightarrow> node_at d' p = Some (FileNode mode [])"
    and "r = Inl e \<Longrightarrow> node_at d' p = node_at d p"
  using assms unfolding sys_create_new_def by (auto elim!: syscall_cases split: if_splits)

lemma sys_fchmod_nodes:
  assumes "sys_fchmod h p mode d = (r, d')"
  shows "q \<noteq> p \<Longrightarrow> node_at d' q = node_at d q"
    and "r = Inr u \<Longrightarrow> node_at d p = Some (FileNode m c) \<Longrightarrow> node_at d' p = Some (FileNode mode c)"
    and "r = Inl e \<Longrightarrow> node_at d' p = node_at d p"
  using assms unfolding sys_fchmod_def by (auto elim!: syscall_cases split: option.splits node.splits)

lemma sys_write_all_nodes:
  assumes "sys_write_all h p content d = (r, d')"
  shows "q \<noteq> p \<Longrightarrow> node_at d' q = node_at d q"
    and "node_at d p = Some (FileNode m c) \<Longrightarrow> \<exists>c'. node_at d' p = Some (FileNode m c')"
    and "r = Inr u \<Longrightarrow> node_at d p = Some (FileNode m c) \<Longrightarrow> node_at d' p = Some (FileNode m (c @ content))"
  using assms unfolding sys_write_all_def by (auto split: prod.splits option.splits node.splits)

lemma sys_sync_nodes: "sys_sync h p d = (r, d') \<Longrightarrow> node_at d' q = node_at d q"
  unfolding sys_sync_def by (auto elim!: syscall_cases)

lemma map_err_other [simp]: "map_err IoOther r \<noteq> Inl IoNotFound"
  by (cases r) auto

lemma sys_read_nodes:
  assumes "sys_read h p d = (r, d')"
  shows "node_at d' q = node_at d q" and "r = Inl IoNotFound \<Longrightarrow> node_at d p = None"
    and "r = Inr c \<Longrightarrow> node_at d p = Some OtherNode \<or> (\<exists>m. node_at d p = Some (FileNode m c))"
  using assms unfolding sys_read_def
  by (auto elim!: syscall_cases split: option.splits node.splits)

lemma sys_rename_nodes:
  assumes "sys_rename h from to d = (r, d')"
  shows "q \<noteq> from \<Longrightarrow> q \<noteq> to \<Longrightarrow> node_at d' q = node_at d q"
    and "r = Inr u \<Longrightarrow> node_at d' to = node_at d from" and "r = Inl e \<Longrightarrow> node_at d' q = node_at d q"
  using assms unfolding sys_rename_def by (auto elim!: syscall_cases split: option.splits if_splits)

section \<open>The contract of the file operations\<close>

lemma create_staged_nodes:
  assumes "create_staged h p mode d = (r, d')"
  shows "q \<noteq> p \<Longrightarrow> node_at d' q = node_at d q" and "r = Inr u \<Longrightarrow> node_at d' p = Some (FileNode mode [])"
proof -
  obtain r1 d1 where unlink: "sys_unlink h p d = (r1, d1)" by (metis prod.exhaust)
  obtain r2 d2 where create: "sys_create_new h p PRIVATE_FILE d1 = (r2, d2)" by (metis prod.exhaust)
  obtain r3 d3 where chmod: "sys_fchmod h p mode d2 = (r3, d3)" by (metis prod.exhaust)
  note facts = sys_unlink_nodes [OF unlink] sys_create_new_nodes [OF create] sys_fchmod_nodes [OF chmod]
  show "q \<noteq> p \<Longrightarrow> node_at d' q = node_at d q"
    using assms facts(1,5,8) by (auto simp: create_staged_def site_then_def unlink create chmod split: sum.splits if_splits)
  show "r = Inr u \<Longrightarrow> node_at d' p = Some (FileNode mode [])"
    using assms facts(6,9) by (auto simp: create_staged_def site_then_def unlink create chmod split: sum.splits if_splits)
qed

lemma fill_staged_nodes:
  assumes "fill_staged h p content mode d = (r, d')"
  shows "q \<noteq> p \<Longrightarrow> node_at d' q = node_at d q" and "r = Inr u \<Longrightarrow> node_at d' p = Some (FileNode mode content)"
proof -
  obtain r1 d1 where create: "create_staged h p mode d = (r1, d1)" by (metis prod.exhaust)
  obtain r2 d2 where fill: "sys_write_all h p content d1 = (r2, d2)" by (metis prod.exhaust)
  obtain r3 d3 where sync: "sys_sync h p d2 = (r3, d3)" by (metis prod.exhaust)
  note facts = create_staged_nodes [OF create] sys_write_all_nodes [OF fill] sys_sync_nodes [OF sync]
  show "q \<noteq> p \<Longrightarrow> node_at d' q = node_at d q"
    using assms facts(1,3,6) by (auto simp: fill_staged_def site_then_def create fill sync split: sum.splits)
  show "r = Inr u \<Longrightarrow> node_at d' p = Some (FileNode mode content)"
    using assms facts(2,5,6) by (fastforce simp: fill_staged_def site_then_def create fill sync split: sum.splits)
qed

lemma write_file_nodes:
  assumes "write_file h p content mode d = (r, d')"
  shows "q \<noteq> p \<Longrightarrow> q \<noteq> staged p \<Longrightarrow> node_at d' q = node_at d q"
    and "r = Inr u \<Longrightarrow> node_at d' p = Some (FileNode mode content)" and "r = Inl e \<Longrightarrow> node_at d' p = node_at d p"
proof -
  obtain r1 d1 where fill: "fill_staged h (staged p) content mode d = (r1, d1)" by (metis prod.exhaust)
  obtain r2 d2 where rename: "sys_rename h (staged p) p d1 = (r2, d2)" by (metis prod.exhaust)
  have unlink: "q \<noteq> staged p \<Longrightarrow> node_at (snd (sys_unlink h (staged p) d0)) q = node_at d0 q" for q d0
    by (metis prod.collapse sys_unlink_nodes(1))
  note facts = fill_staged_nodes [OF fill] sys_rename_nodes [OF rename]
  show "q \<noteq> p \<Longrightarrow> q \<noteq> staged p \<Longrightarrow> node_at d' q = node_at d q"
    using assms facts(1,3) unlink by (auto simp: write_file_def Let_def fill rename split: sum.splits)
  show "r = Inr u \<Longrightarrow> node_at d' p = Some (FileNode mode content)"
    using assms facts(2,4) by (auto simp: write_file_def Let_def fill rename split: sum.splits)
  show "r = Inl e \<Longrightarrow> node_at d' p = node_at d p"
    using assms facts(1,5) unlink by (auto simp: write_file_def Let_def fill rename split: sum.splits)
qed

lemma remove_file_nodes:
  assumes "remove_file h p d = (r, d')"
  shows "q \<noteq> p \<Longrightarrow> node_at d' q = node_at d q" and "r = Inr u \<Longrightarrow> node_at d' p = None"
    and "r = Inl e \<Longrightarrow> node_at d' p = node_at d p"
proof -
  obtain r1 d1 where unlink: "sys_unlink h p d = (r1, d1)" by (metis prod.exhaust)
  note facts = sys_unlink_nodes [OF unlink]
  show "q \<noteq> p \<Longrightarrow> node_at d' q = node_at d q"
    using assms facts(1) by (auto simp: remove_file_def unlink split: sum.splits if_splits)
  show "r = Inr u \<Longrightarrow> node_at d' p = None"
    using assms facts(2-4) by (auto simp: remove_file_def unlink split: sum.splits if_splits)
  show "r = Inl e \<Longrightarrow> node_at d' p = node_at d p"
    using assms facts(3) by (auto simp: remove_file_def unlink split: sum.splits if_splits)
qed

text \<open>What a change of several files needs of the two operations on one file: a write that succeeds leaves exactly the content and the
  mode asked for, one that fails leaves the file as it was, and nothing but the file and its staged sibling is touched.\<close>

locale site_store =
  fixes put_file :: "path \<Rightarrow> string \<Rightarrow> u32 \<Rightarrow> ('e, 'w, unit) site_call"
    and remove :: "path \<Rightarrow> ('e, 'w, unit) site_call"
  assumes put_frame: "put_file p c m d = (r, d') \<Longrightarrow> q \<noteq> p \<Longrightarrow> q \<noteq> staged p \<Longrightarrow> node_at d' q = node_at d q"
    and put_ok: "put_file p c m d = (Inr u, d') \<Longrightarrow> node_at d' p = Some (FileNode m c)"
    and put_failed: "put_file p c m d = (Inl e, d') \<Longrightarrow> node_at d' p = node_at d p"
    and remove_frame: "remove p d = (r, d') \<Longrightarrow> q \<noteq> p \<Longrightarrow> node_at d' q = node_at d q"
    and remove_ok: "remove p d = (Inr u, d') \<Longrightarrow> node_at d' p = None"
    and remove_failed: "remove p d = (Inl e, d') \<Longrightarrow> node_at d' p = node_at d p"
begin

lemma put_content_frame:
  "put_content put_file remove p m c d = (r, d') \<Longrightarrow> q \<noteq> p \<Longrightarrow> q \<noteq> staged p \<Longrightarrow> node_at d' q = node_at d q"
  by (cases c) (auto simp: put_content_def dest: put_frame remove_frame)

lemma put_content_ok:
  "put_content put_file remove p m c d = (Inr u, d') \<Longrightarrow> node_at d' p = map_option (FileNode m) c"
  by (cases c) (auto simp: put_content_def dest: put_ok remove_ok)

lemma put_content_failed:
  "put_content put_file remove p m c d = (Inl e, d') \<Longrightarrow> node_at d' p = node_at d p"
  by (cases c) (auto simp: put_content_def dest: put_failed remove_failed)

lemma install_frame:
  "install_with put_file remove fs d = (r, d') \<Longrightarrow> q \<notin> pn_path ` set fs \<Longrightarrow> q \<notin> staged ` pn_path ` set fs
     \<Longrightarrow> node_at d' q = node_at d q"
proof (induction fs arbitrary: d)
  case (Cons f fs)
  obtain r1 d1 where one: "put_content put_file remove (pn_path f) (pn_mode f) (pn_contents f) d = (r1, d1)"
    by (metis prod.exhaust)
  have "node_at d1 q = node_at d q" using put_content_frame [OF one] Cons.prems(2,3) by simp
  then show ?case using Cons.prems Cons.IH [of d1] by (auto simp: one split: sum.splits)
qed simp

lemma install_ok:
  assumes "install_with put_file remove fs d = (Inr u, d')" and "distinct (map pn_path fs)"
    and "\<And>f g. f \<in> set fs \<Longrightarrow> g \<in> set fs \<Longrightarrow> pn_path f \<noteq> staged (pn_path g)" and "f \<in> set fs"
  shows "node_at d' (pn_path f) = map_option (FileNode (pn_mode f)) (pn_contents f)"
  using assms
proof (induction fs arbitrary: d)
  case (Cons g fs)
  obtain r1 d1 where one: "put_content put_file remove (pn_path g) (pn_mode g) (pn_contents g) d = (r1, d1)"
    by (metis prod.exhaust)
  then have rest: "install_with put_file remove fs d1 = (Inr u, d')" and "r1 = Inr ()"
    using Cons.prems(1) by (auto split: sum.splits)
  show ?case
  proof (cases "f \<in> set fs")
    case True
    show ?thesis
    proof (rule Cons.IH [OF rest])
      show "distinct (map pn_path fs)" using Cons.prems(2) by simp
      show "f \<in> set fs" by fact
      show "pn_path a \<noteq> staged (pn_path b)" if "a \<in> set fs" "b \<in> set fs" for a b using Cons.prems(3) that by simp
    qed
  next
    case False
    then have "f = g" using Cons.prems(4) by simp
    moreover have "node_at d' (pn_path g) = node_at d1 (pn_path g)"
      using Cons.prems(2,3) by (intro install_frame [OF rest]) (auto simp: image_iff)
    ultimately show ?thesis using put_content_ok one \<open>r1 = Inr ()\<close> by simp
  qed
qed simp

lemma restore_frame:
  "restore_failures put_file remove sn d = (es, d') \<Longrightarrow> q \<notin> fst ` set sn \<Longrightarrow> q \<notin> staged ` fst ` set sn
     \<Longrightarrow> node_at d' q = node_at d q"
proof (induction sn arbitrary: d es d')
  case (Cons entry sn)
  obtain p m c where entry: "entry = (p, m, c)" by (metis prod_cases3)
  obtain r1 d1 where one: "put_content put_file remove p m c d = (r1, d1)" by (metis prod.exhaust)
  obtain es1 d2 where more_entries: "restore_failures put_file remove sn d1 = (es1, d2)" by (metis prod.exhaust)
  have "node_at d1 q = node_at d q" using put_content_frame [OF one] Cons.prems(2,3) entry by simp
  then show ?case
    using Cons.prems Cons.IH [OF more_entries] entry by (auto simp: one more_entries split: sum.splits)
qed simp

lemma restore_ok:
  assumes "restore_failures put_file remove sn d = ([], d')" and "distinct (map fst sn)"
    and "\<And>a b. a \<in> set sn \<Longrightarrow> b \<in> set sn \<Longrightarrow> fst a \<noteq> staged (fst b)" and "(p, m, c) \<in> set sn"
  shows "node_at d' p = map_option (FileNode m) c"
  using assms
proof (induction sn arbitrary: d)
  case (Cons entry sn)
  obtain p1 m1 c1 where entry: "entry = (p1, m1, c1)" by (metis prod_cases3)
  obtain r1 d1 where one: "put_content put_file remove p1 m1 c1 d = (r1, d1)" by (metis prod.exhaust)
  obtain es1 d2 where more_entries: "restore_failures put_file remove sn d1 = (es1, d2)" by (metis prod.exhaust)
  have done1: "r1 = Inr ()" "es1 = []" "d2 = d'"
    using Cons.prems(1) entry by (auto simp: one more_entries split: sum.splits)
  show ?case
  proof (cases "(p, m, c) \<in> set sn")
    case True
    show ?thesis
    proof (rule Cons.IH)
      show "restore_failures put_file remove sn d1 = ([], d')" using more_entries done1 by simp
      show "distinct (map fst sn)" using Cons.prems(2) by simp
      show "fst a \<noteq> staged (fst b)" if "a \<in> set sn" "b \<in> set sn" for a b using Cons.prems(3) that by simp
    qed (rule True)
  next
    case False
    then have here: "(p, m, c) = entry" using Cons.prems(4) by simp
    have "p \<notin> fst ` set sn" using Cons.prems(2) by (simp flip: here)
    moreover have "p \<notin> staged ` fst ` set sn" using Cons.prems(3) [of entry] here by force
    ultimately have "node_at d' p = node_at d1 p" using restore_frame [OF more_entries] done1 by simp
    then show ?thesis using put_content_ok one done1 here entry by auto
  qed
qed simp

end

interpretation site_disk_store: site_store "write_file h" "remove_file h"
  by unfold_locales (auto dest: write_file_nodes remove_file_nodes)

end
