(* ===== verification/Route_Apply.thy ===== *)
theory Route_Apply
  imports Site_Files
begin

text \<open>
  The router helper, which runs as root: installing and removing an app's nginx or Caddy config
  (\<open>riku-route/src/nginx_apply.rs\<close>, \<open>caddy_apply.rs\<close>), the messages it takes (\<open>protocol.rs\<close>, \<open>bounded.rs\<close>), the answer to one
  request (\<open>answer.rs\<close>), one connection (\<open>server.rs\<close>) and the loop over connections (\<open>listen.rs\<close>).

  JSON is the parameter \<open>json_codec\<close>.  A connection is what the kernel tells of it: the uid of the peer, and what each wait and read
  gives until the deadline.
\<close>

section \<open>protocol.rs\<close>

definition PROTOCOL_VERSION :: nat where
  "PROTOCOL_VERSION = 1"

datatype router_kind = KindNginx | KindCaddy

datatype request = RequestApply string router_kind route | RequestRemove string router_kind | RequestStatus

datatype stage = StageSchema | StageRender | StageCheck | StageReload

datatype request_error =
    MalformedRequest string
  | WrongVersion "nat option"
  | RequestTimeout
  | WaitFailed string
  | RequestTooLarge nat
  | ReadFailed string
  | RequestNotRead request_error

datatype reply_error =
    ErrorApp type_error
  | ErrorRoute route_error
  | ErrorRender nginx_error
  | ErrorCaddySite caddy_error
  | ErrorFiles site_error
  | ErrorRun run_error
  | ErrorRequest request_error
  | AlsoNotRestored reply_error site_error

datatype helper_reply = ReplyOk bool | ReplyFailed stage reply_error | ReplyStatus string

record json_codec =
  jc_object :: "string \<Rightarrow> (string, (string, json) btree) result"
  jc_u64 :: "json \<Rightarrow> nat option"
  jc_request :: "(string, json) btree \<Rightarrow> (string, request) result"
  jc_reply :: "helper_reply \<Rightarrow> (string, string) result"

definition parse_request :: "json_codec \<Rightarrow> string \<Rightarrow> (request_error, request) result" where
  "parse_request codec bytes =
     (case jc_object codec bytes of
        Inl e \<Rightarrow> Inl (MalformedRequest e)
      | Inr object \<Rightarrow>
          (let version = (case bt_get object ''v'' of Some v \<Rightarrow> jc_u64 codec v | None \<Rightarrow> None)
           in if version \<noteq> Some PROTOCOL_VERSION then Inl (WrongVersion version)
              else map_err MalformedRequest (jc_request codec (bt_remove ''v'' object))))"

section \<open>bounded.rs\<close>

definition MAX_MESSAGE_BYTES :: nat where
  "MAX_MESSAGE_BYTES = 1024 * 1024"

text \<open>What one turn of the loop meets: the wait fails, or a read gives bytes (none at the end of the message), is interrupted, finds
  the peer gone or fails.  When no turn is left the deadline has passed.\<close>

datatype read_turn = TurnWaitFailed string | TurnBytes string | TurnInterrupted | TurnGone | TurnFailed string

fun read_turns :: "nat \<Rightarrow> string \<Rightarrow> read_turn list \<Rightarrow> (request_error, string) result" where
  "read_turns limit message [] = Inl RequestTimeout"
| "read_turns limit message (t # ts) =
     (case t of
        TurnWaitFailed e \<Rightarrow> Inl (WaitFailed e)
      | TurnBytes chunk \<Rightarrow>
          if chunk = [] then Inr message
          else if limit < length (message @ chunk) then Inl (RequestTooLarge limit)
          else read_turns limit (message @ chunk) ts
      | TurnInterrupted \<Rightarrow> read_turns limit message ts
      | TurnGone \<Rightarrow> Inr message
      | TurnFailed e \<Rightarrow> Inl (ReadFailed e))"

definition read_bounded :: "read_turn list \<Rightarrow> nat \<Rightarrow> (request_error, string) result" where
  "read_bounded turns limit = read_turns limit [] turns"

section \<open>nginx\_apply.rs\<close>

definition nginx_plan :: "nginx_roots \<Rightarrow> app_name \<Rightarrow> string option \<Rightarrow> tls_pair option \<Rightarrow> planned list" where
  "nginx_plan roots app config tls =
     [\<lparr>pn_path = path_join (cert_dir roots app) [Normal KEY_FILE], pn_mode = PRIVATE_FILE,
       pn_contents = map_option tls_key_pem tls\<rparr>,
      \<lparr>pn_path = path_join (cert_dir roots app) [Normal CERTIFICATE_FILE], pn_mode = PUBLIC_FILE,
       pn_contents = map_option tls_cert_pem tls\<rparr>,
      \<lparr>pn_path = site_file roots app, pn_mode = PUBLIC_FILE, pn_contents = config\<rparr>]"

definition prepare_dirs :: "'w route_host \<Rightarrow> nginx_roots \<Rightarrow> app_name \<Rightarrow> bool \<Rightarrow> (site_error, 'w, unit) site_call" where
  "prepare_dirs h roots app tls =
     site_each (\<lambda>(dir, mode). ensure_dir h dir mode (ng_owner_uid roots))
       ((ng_site_root roots, PUBLIC_DIR)
        # (if tls then [(ng_cert_root roots, PRIVATE_DIR), (cert_dir roots app, PRIVATE_DIR)] else []))"

definition check_and_reload :: "'w route_host \<Rightarrow> nginx_roots \<Rightarrow> (stage \<times> run_error, 'w, unit) site_call" where
  "check_and_reload h roots =
     site_then (site_err (Pair StageCheck) (check_config h roots)) (\<lambda>_.
     site_err (Pair StageReload) (nginx_reload h roots))"

definition rolled_back ::
  "'w route_host \<Rightarrow> snapshot \<Rightarrow> stage \<Rightarrow> reply_error \<Rightarrow> 'w site_disk \<Rightarrow> helper_reply \<times> 'w site_disk" where
  "rolled_back h snapshot stage cause d =
     (case snapshot_restore h snapshot d of
        (Inr _, d') \<Rightarrow> (ReplyFailed stage cause, d')
      | (Inl e, d') \<Rightarrow> (ReplyFailed stage (AlsoNotRestored cause e), d'))"

text \<open>Both routers write a plan the same way and differ in how they are asked to take it.\<close>

definition commit_with ::
  "'w route_host \<Rightarrow> (stage \<times> run_error, 'w, unit) site_call \<Rightarrow> planned list \<Rightarrow> 'w site_disk \<Rightarrow> helper_reply \<times> 'w site_disk" where
  "commit_with h ask fs d =
     (case snapshot_take h fs d of
        (Inl e, d) \<Rightarrow> (ReplyFailed StageRender (ErrorFiles e), d)
      | (Inr snapshot, d) \<Rightarrow>
          (case install h fs d of
             (Inl e, d) \<Rightarrow> rolled_back h snapshot StageRender (ErrorFiles e) d
           | (Inr _, d) \<Rightarrow>
               (case ask d of
                  (Inr _, d) \<Rightarrow> (ReplyOk True, d)
                | (Inl (stage, cause), d) \<Rightarrow> rolled_back h snapshot stage (ErrorRun cause) d)))"

definition commit_nginx ::
  "'w route_host \<Rightarrow> nginx_roots \<Rightarrow> planned list \<Rightarrow> 'w site_disk \<Rightarrow> helper_reply \<times> 'w site_disk" where
  "commit_nginx h roots fs = commit_with h (check_and_reload h roots) fs"

definition apply_nginx ::
  "'w route_host \<Rightarrow> tls_library \<Rightarrow> tera_engine \<Rightarrow> nginx_roots \<Rightarrow> app_name \<Rightarrow> route \<Rightarrow> 'w site_disk
     \<Rightarrow> helper_reply \<times> 'w site_disk" where
  "apply_nginx h lib tera roots app route d =
     (case check_nginx_route lib app route of
        Inl e \<Rightarrow> (ReplyFailed StageSchema (ErrorRoute e), d)
      | Inr (CheckedRoute route) \<Rightarrow>
          (case render_nginx tera roots app route of
             Inl e \<Rightarrow> (ReplyFailed StageRender (ErrorRender e), d)
           | Inr config \<Rightarrow>
               (let tls = (if ro_https route = Only then ro_tls route else None)
                in case prepare_dirs h roots app (tls \<noteq> None) d of
                     (Inl e, d) \<Rightarrow> (ReplyFailed StageRender (ErrorFiles e), d)
                   | (Inr _, d) \<Rightarrow> commit_nginx h roots (nginx_plan roots app (Some config) tls) d)))"

definition remove_nginx ::
  "'w route_host \<Rightarrow> nginx_roots \<Rightarrow> app_name \<Rightarrow> 'w site_disk \<Rightarrow> helper_reply \<times> 'w site_disk" where
  "remove_nginx h roots app d =
     (let fs = nginx_plan roots app None None
      in case snapshot_take h fs d of
           (Inl e, d) \<Rightarrow> (ReplyFailed StageRender (ErrorFiles e), d)
         | (Inr snapshot, d) \<Rightarrow>
             if snapshot_is_empty snapshot then (ReplyOk False, d)
             else (case commit_nginx h roots fs d of
                     (ReplyOk reloaded, d) \<Rightarrow> (ReplyOk reloaded, snd (sys_rmdir h (cert_dir roots app) d))
                   | (reply, d) \<Rightarrow> (reply, d)))"

section \<open>caddy\_apply.rs\<close>

definition SITE_FILE :: u32 where
  "SITE_FILE = octal 6 4 0"

record caddy_roots =
  cy_site_root :: path
  cy_caddy :: path
  cy_caddyfile :: path
  cy_admin_address :: string
  cy_owner_uid :: u32

definition SYSTEM_CADDYFILE :: string where
  "SYSTEM_CADDYFILE = ''/etc/caddy/Caddyfile''"

definition ADMIN_ADDRESS :: string where
  "ADMIN_ADDRESS = ''unix//run/caddy/admin.sock''"

definition production_caddy :: "reload_programs \<Rightarrow> caddy_roots" where
  "production_caddy programs =
     \<lparr>cy_site_root = components CADDY_SITE_ROOT, cy_caddy = rg_caddy programs,
      cy_caddyfile = components SYSTEM_CADDYFILE, cy_admin_address = ADMIN_ADDRESS, cy_owner_uid = ROOT_UID\<rparr>"

definition caddy_site_file :: "caddy_roots \<Rightarrow> app_name \<Rightarrow> path" where
  "caddy_site_file roots app = path_join (cy_site_root roots) (components (app_str app @ ''.caddy''))"

definition caddy_reload :: "'w route_host \<Rightarrow> caddy_roots \<Rightarrow> (run_error, 'w, unit) site_call" where
  "caddy_reload h roots =
     run_program h (CaddyReload (cy_caddy roots) (cy_caddyfile roots) (cy_admin_address roots)) ''caddy reload''"

definition commit_caddy ::
  "'w route_host \<Rightarrow> caddy_roots \<Rightarrow> planned list \<Rightarrow> 'w site_disk \<Rightarrow> helper_reply \<times> 'w site_disk" where
  "commit_caddy h roots fs = commit_with h (site_err (Pair StageReload) (caddy_reload h roots)) fs"

definition caddy_plan :: "caddy_roots \<Rightarrow> app_name \<Rightarrow> string option \<Rightarrow> planned list" where
  "caddy_plan roots app site = [\<lparr>pn_path = caddy_site_file roots app, pn_mode = SITE_FILE, pn_contents = site\<rparr>]"

definition apply_caddy ::
  "'w route_host \<Rightarrow> caddy_roots \<Rightarrow> app_name \<Rightarrow> route \<Rightarrow> 'w site_disk \<Rightarrow> helper_reply \<times> 'w site_disk" where
  "apply_caddy h roots app route d =
     (case check_caddy_route app route of
        Inl e \<Rightarrow> (ReplyFailed StageSchema (ErrorRoute e), d)
      | Inr (CheckedRoute route) \<Rightarrow>
          (case and_then (plan_of route) (render_site (app_str app)) of
             Inl e \<Rightarrow> (ReplyFailed StageRender (ErrorCaddySite e), d)
           | Inr site \<Rightarrow>
               (case check_write_dir h (cy_site_root roots) (cy_owner_uid roots) d of
                  (Inl e, d) \<Rightarrow> (ReplyFailed StageRender (ErrorFiles e), d)
                | (Inr _, d) \<Rightarrow> commit_caddy h roots (caddy_plan roots app (Some site)) d)))"

definition remove_caddy ::
  "'w route_host \<Rightarrow> caddy_roots \<Rightarrow> app_name \<Rightarrow> 'w site_disk \<Rightarrow> helper_reply \<times> 'w site_disk" where
  "remove_caddy h roots app d =
     (let fs = caddy_plan roots app None
      in case snapshot_take h fs d of
           (Inl e, d) \<Rightarrow> (ReplyFailed StageRender (ErrorFiles e), d)
         | (Inr snapshot, d) \<Rightarrow>
             if snapshot_is_empty snapshot then (ReplyOk False, d)
             else (case check_write_dir h (cy_site_root roots) (cy_owner_uid roots) d of
                     (Inl e, d) \<Rightarrow> (ReplyFailed StageRender (ErrorFiles e), d)
                   | (Inr _, d) \<Rightarrow> commit_caddy h roots fs d))"

section \<open>answer.rs, server.rs and listen.rs\<close>

record 'w helper =
  hp_host :: "'w route_host"
  hp_tls :: tls_library
  hp_tera :: tera_engine
  hp_codec :: json_codec
  hp_nginx :: nginx_roots
  hp_caddy :: caddy_roots
  hp_version :: string
  hp_deploy_uid :: u32

definition app_checked :: "string \<Rightarrow> helper_reply + app_name" where
  "app_checked app =
     (case app_name_try_from app of Inr app \<Rightarrow> Inr app | Inl e \<Rightarrow> Inl (ReplyFailed StageSchema (ErrorApp e)))"

definition answer :: "'w helper \<Rightarrow> request \<Rightarrow> 'w site_disk \<Rightarrow> helper_reply \<times> 'w site_disk" where
  "answer hp request d =
     (case request of
        RequestApply app router route \<Rightarrow>
          (case app_checked app of
             Inr app \<Rightarrow>
               (case router of
                  KindNginx \<Rightarrow> apply_nginx (hp_host hp) (hp_tls hp) (hp_tera hp) (hp_nginx hp) app route d
                | KindCaddy \<Rightarrow> apply_caddy (hp_host hp) (hp_caddy hp) app route d)
           | Inl reply \<Rightarrow> (reply, d))
      | RequestRemove app router \<Rightarrow>
          (case app_checked app of
             Inr app \<Rightarrow>
               (case router of
                  KindNginx \<Rightarrow> remove_nginx (hp_host hp) (hp_nginx hp) app d
                | KindCaddy \<Rightarrow> remove_caddy (hp_host hp) (hp_caddy hp) app d)
           | Inl reply \<Rightarrow> (reply, d))
      | RequestStatus \<Rightarrow> (ReplyStatus (hp_version hp), d))"

record connection =
  co_peer :: "(string, u32) result"
  co_turns :: "read_turn list"
  co_write :: "(string, unit) result"

datatype serve_error =
    UnknownPeer string
  | RefusedPeer u32
  | CannotAnswer string
  | CannotSend string

text \<open>Serving a connection gives the reply, when all of it was sent, and whether it failed.\<close>

definition send_reply :: "'w helper \<Rightarrow> connection \<Rightarrow> helper_reply \<Rightarrow> string option \<times> (serve_error, unit) result" where
  "send_reply hp conn reply =
     (case jc_reply (hp_codec hp) reply of
        Inl e \<Rightarrow> (None, Inl (CannotAnswer e))
      | Inr bytes \<Rightarrow> (case co_write conn of Inr _ \<Rightarrow> (Some bytes, Inr ()) | Inl e \<Rightarrow> (None, Inl (CannotSend e))))"

definition read_request :: "'w helper \<Rightarrow> connection \<Rightarrow> (request_error, request) result" where
  "read_request hp conn =
     (case read_bounded (co_turns conn) MAX_MESSAGE_BYTES of
        Inl e \<Rightarrow> Inl (RequestNotRead e)
      | Inr body \<Rightarrow> parse_request (hp_codec hp) body)"

definition serve_one ::
  "'w helper \<Rightarrow> connection \<Rightarrow> 'w site_disk \<Rightarrow> (string option \<times> (serve_error, unit) result) \<times> 'w site_disk" where
  "serve_one hp conn d =
     (case co_peer conn of
        Inl e \<Rightarrow> ((None, Inl (UnknownPeer e)), d)
      | Inr peer \<Rightarrow>
          if peer \<noteq> 0 \<and> peer \<noteq> hp_deploy_uid hp then ((None, Inl (RefusedPeer peer)), d)
          else case read_request hp conn of
                 Inr request \<Rightarrow> (case answer hp request d of (reply, d') \<Rightarrow> (send_reply hp conn reply, d'))
               | Inl e \<Rightarrow> (send_reply hp conn (ReplyFailed StageSchema (ErrorRequest e)), d))"

text \<open>The loop serves the connections one after the other and goes on after a failure; it ends when accepting fails.\<close>

fun run_helper :: "'w helper \<Rightarrow> (string, connection) result list \<Rightarrow> 'w site_disk \<Rightarrow> string option \<times> 'w site_disk" where
  "run_helper hp [] d = (None, d)"
| "run_helper hp (Inl e # rest) d = (Some e, d)"
| "run_helper hp (Inr conn # rest) d = run_helper hp rest (snd (serve_one hp conn d))"

end
