(* ===== verification/Route_Build.thy ===== *)
theory Route_Build
  imports Route_Apply Web_Copies
begin

text \<open>
  The deploy's side of the routers: the backends of an app (\<open>default_backends\<close> of \<open>riku-nginx/src/backends.rs\<close>, \<open>router/fallback.rs\<close>,
  \<open>backends_for\<close> of \<open>riku-deploy/src/router.rs\<close>), the route built from its \<open>ENV\<close> file, its backends and its certificates
  (\<open>router/route_build.rs\<close>, \<open>route_env.rs\<close>, \<open>static_locations\<close> of \<open>riku-nginx/src/static_site.rs\<close>), and the requests to the router
  helper (\<open>router/nginx_site.rs\<close>, \<open>router/caddy.rs\<close>).

  What a deploy does with the world is the record \<open>router_host\<close>: reading a file, publishing static files, obtaining
  certificates, deleting the deploy user's own leftovers and sending one request over the helper's socket.
\<close>

section \<open>Paths, routers and errors\<close>

record router_paths = riku_paths +
  rp_nginx_root :: path

datatype router = RouterNginx | RouterCaddy | RouterPlugin string

definition router_from :: "string \<Rightarrow> router" where
  "router_from raw =
     (let name = to_ascii_lowercase (trim raw)
      in if name = [] \<or> name = ''nginx'' then RouterNginx
         else if name = ''caddy'' then RouterCaddy else RouterPlugin name)"

datatype router_error =
    RemovedKey string
  | RefusedKey string string
  | BadDomains domain_error
  | BadDomainList "domain_error \<times> string"
  | NotOwnSocket path string path
  | BadListenPort string
  | CannotReadPem path io_error
  | HalfPair string path
  | RouteOf string router_error
  | GateRefused route_error
  | BadName string
  | NoBackends string
  | CannotPublish string string
  | NoCertificate string string
  | NoNginxRoute string
  | HelperFailed string stage reply_error
  | HelperStatus string
  | NotAStatus helper_reply
  | NotSent string
  | CannotCleanUp string
  | BadBindAddress string
  | BadUpstreamPort string string
  | ThroughNginx string router_error
  | ThroughPlugin string string router_error

record 'w router_host =
  rt_read :: "path \<Rightarrow> (io_error, 'w, string) call"
  rt_publish :: "string \<Rightarrow> path \<Rightarrow> env_map \<Rightarrow> (string, 'w, unit) call"
  rt_certificates :: "string \<Rightarrow> string list \<Rightarrow> (string, 'w, unit) call"
  rt_clean_up :: "string \<Rightarrow> (string, 'w, unit) call"
  rt_send :: "request \<Rightarrow> (string, 'w, helper_reply) call"

type_synonym ('w, 'a) router_call = "(router_error, 'w, 'a) call"

definition rt_then :: "('e, 'w, 'a) call \<Rightarrow> ('a \<Rightarrow> ('e, 'w, 'b) call) \<Rightarrow> ('e, 'w, 'b) call" where
  "rt_then m f w = (case m w of (Inl e, w') \<Rightarrow> (Inl e, w') | (Inr a, w') \<Rightarrow> f a w')"

definition rt_give :: "('e, 'a) result \<Rightarrow> ('e, 'w, 'a) call" where
  "rt_give r w = (r, w)"

definition rt_err :: "('e \<Rightarrow> 'f) \<Rightarrow> ('e, 'w, 'a) call \<Rightarrow> ('f, 'w, 'a) call" where
  "rt_err err f w = apfst (map_err err) (f w)"

definition has_key :: "env_map \<Rightarrow> string \<Rightarrow> bool" where
  "has_key env key \<longleftrightarrow> bt_get env key \<noteq> None"

section \<open>Backends of an app without web copies\<close>

definition upstream_port_entry :: "env_map \<Rightarrow> string \<times> string" where
  "upstream_port_entry env =
     (case bt_get env ''RIKU_UPSTREAM_PORT'' of
        Some v \<Rightarrow> (''RIKU_UPSTREAM_PORT'', v)
      | None \<Rightarrow> (case bt_get env ''PORT'' of Some v \<Rightarrow> (''PORT'', v) | None \<Rightarrow> (''PORT'', ''8080'')))"

definition upstream_port_number :: "env_map \<Rightarrow> (router_error, u16) result" where
  "upstream_port_number env =
     (case upstream_port_entry env of
        (key, v) \<Rightarrow> (case parse_u16 (trim v) of Some port \<Rightarrow> Inr port | None \<Rightarrow> Inl (BadUpstreamPort key v)))"

definition socket_path :: "string \<Rightarrow> env_map \<Rightarrow> router_paths \<Rightarrow> string" where
  "socket_path app env paths =
     (case bt_get env ''RIKU_NGINX_SOCKET'' of
        Some socket \<Rightarrow> socket
      | None \<Rightarrow> path_text (path_join (rp_socket_root paths) (components (app @ ''.sock''))))"

definition bound_backend :: "env_map \<Rightarrow> (router_error, backend) result" where
  "bound_backend env =
     and_then (map_err BadBindAddress (bind_address env)) (\<lambda>host.
     and_then (upstream_port_number env) (\<lambda>port. Inr (BackendTcp host port)))"

definition default_backends :: "string \<Rightarrow> env_map \<Rightarrow> router_paths \<Rightarrow> (router_error, backend list) result" where
  "default_backends app env paths =
     (if has_key env ''RIKU_NGINX_PORTMAP'' then and_then (bound_backend env) (\<lambda>b. Inr [b])
      else Inr [BackendUnix (components (socket_path app env paths))])"

definition port_backend :: "env_map \<Rightarrow> ip_addr \<Rightarrow> (router_error, backend list) result" where
  "port_backend env host = and_then (upstream_port_number env) (\<lambda>port. Inr [BackendTcp host port])"

definition fallback_backends :: "router \<Rightarrow> string \<Rightarrow> env_map \<Rightarrow> router_paths \<Rightarrow> (router_error, backend list) result" where
  "fallback_backends router app env paths =
     (case router of
        RouterNginx \<Rightarrow> map_err (ThroughNginx app) (default_backends app env paths)
      | RouterCaddy \<Rightarrow> port_backend env LoopbackV4
      | RouterPlugin name \<Rightarrow>
          and_then (map_err (\<lambda>e. ThroughPlugin app name (BadBindAddress e)) (bind_address env)) (port_backend env))"

definition backends_for :: "router \<Rightarrow> backend list \<Rightarrow> backend list" where
  "backends_for router backends =
     (if router \<noteq> RouterCaddy then backends
      else map (\<lambda>b. case b of BackendTcp host port \<Rightarrow> backend_loopback port | BackendUnix p \<Rightarrow> BackendUnix p) backends)"

section \<open>static\_site.rs and route\_env.rs\<close>

definition static_path_entry :: "string \<Rightarrow> (string \<times> string) option" where
  "static_path_entry mapping =
     (case split_on (CHR '':'') mapping of
        [location, source] \<Rightarrow>
          (if trim location \<noteq> [] \<and> trim source \<noteq> [] then Some (trim location, trim source) else None)
      | _ \<Rightarrow> None)"

definition static_paths :: "env_map \<Rightarrow> (string \<times> string) list" where
  "static_paths env =
     (case bt_get env ''RIKU_NGINX_STATIC_PATHS'' of
        None \<Rightarrow> []
      | Some v \<Rightarrow> List.map_filter static_path_entry (split_on (CHR '','') v))"

definition static_locations :: "env_map \<Rightarrow> string list" where
  "static_locations env = map fst (static_paths env)"

definition EXTERNAL_PORT_KEY :: string where
  "EXTERNAL_PORT_KEY = ''RIKU_NGINX_EXTERNAL_PORT''"

definition DEFAULT_HTTP_PORT :: u16 where
  "DEFAULT_HTTP_PORT = 80"

definition route_listen :: "env_map \<Rightarrow> site_kind \<Rightarrow> bool \<Rightarrow> (router_error, u16) result" where
  "route_listen env kind only_https =
     (let maps_port = (kind = Wsgi \<or> kind = Portmap)
      in case (bt_get env EXTERNAL_PORT_KEY, maps_port \<and> \<not> only_https) of
           (Some v, True) \<Rightarrow> (case parse_u16 (trim v) of Some port \<Rightarrow> Inr port | None \<Rightarrow> Inl (BadListenPort v))
         | _ \<Rightarrow> Inr DEFAULT_HTTP_PORT)"

definition read_pem :: "'w router_host \<Rightarrow> path \<Rightarrow> ('w, string option) router_call" where
  "read_pem host p w =
     (case rt_read host p w of
        (Inr text, w') \<Rightarrow> (Inr (Some text), w')
      | (Inl IoNotFound, w') \<Rightarrow> (Inr None, w')
      | (Inl e, w') \<Rightarrow> (Inl (CannotReadPem p e), w'))"

definition pem_file :: "router_paths \<Rightarrow> app_name \<Rightarrow> string \<Rightarrow> path" where
  "pem_file paths app suffix = components (path_text (path_join (rp_nginx_root paths) (components (app_str app))) @ suffix)"

definition route_tls :: "'w router_host \<Rightarrow> app_name \<Rightarrow> router_paths \<Rightarrow> ('w, tls_pair option) router_call" where
  "route_tls host app paths =
     rt_then (read_pem host (pem_file paths app ''.fullchain.crt'')) (\<lambda>chain.
     rt_then (case chain of Some c \<Rightarrow> rt_give (Inr (Some c)) | None \<Rightarrow> read_pem host (pem_file paths app ''.crt'')) (\<lambda>chain.
     rt_then (read_pem host (pem_file paths app ''.key'')) (\<lambda>key.
     rt_give (case (chain, key) of
                (Some cert_pem, Some key_pem) \<Rightarrow> Inr (Some \<lparr>tls_cert_pem = cert_pem, tls_key_pem = key_pem\<rparr>)
              | (None, None) \<Rightarrow> Inr None
              | _ \<Rightarrow> Inl (HalfPair (app_str app) (rp_nginx_root paths))))))"

section \<open>route\_build.rs\<close>

definition REFUSED_KEYS :: "(string \<times> string) list" where
  "REFUSED_KEYS = [(''RIKU_NGINX_SOCKET'', ''the helper picks socket paths'')]"

definition REMOVED_KEYS :: "string list" where
  "REMOVED_KEYS =
     [''RIKU_NGINX_CLOUDFLARE_ACL'', ''RIKU_NGINX_CACHE_PATH'', ''RIKU_NGINX_CACHE_PREFIXES'', ''RIKU_NGINX_CACHE_SIZE'',
      ''RIKU_NGINX_CACHE_TIME'', ''RIKU_NGINX_CACHE_EXPIRY'', ''RIKU_NGINX_CACHE_REDIRECTS'', ''RIKU_NGINX_CACHE_ANY'',
      ''RIKU_NGINX_CACHE_CONTROL'', ''RIKU_NGINX_CATCH_ALL'', ''RIKU_NGINX_CSP'', ''RIKU_NGINX_INCLUDE_FILE'',
      ''RIKU_NGINX_IPV4_ADDRESS'', ''RIKU_NGINX_IPV6_ADDRESS'', ''RIKU_DISABLE_IPV6'']"

definition refused_key :: "env_map \<Rightarrow> router_error option" where
  "refused_key env =
     (case find (has_key env) REMOVED_KEYS of
        Some key \<Rightarrow> Some (RemovedKey key)
      | None \<Rightarrow> map_option (\<lambda>(key, why). RefusedKey key why) (find (\<lambda>(key, _). has_key env key) REFUSED_KEYS))"

definition nginx_domain :: "string \<Rightarrow> (router_error, string) result" where
  "nginx_domain entry =
     (if entry = CATCH_ALL_NAME then Inr entry
      else case domain_try_from entry of Inr domain \<Rightarrow> Inr (domain_str domain) | Inl e \<Rightarrow> Inl (BadDomains e))"

definition nginx_domains :: "app_name \<Rightarrow> env_map \<Rightarrow> (router_error, string list) result" where
  "nginx_domains app env =
     (case bt_get env ''RIKU_DOMAINS'' of
        None \<Rightarrow> Inr [app_str app @ ''.example.com'']
      | Some raw \<Rightarrow> traverse nginx_domain (filter (\<lambda>entry. entry \<noteq> []) (split_by domain_separator raw)))"

definition caddy_domains :: "env_map \<Rightarrow> (router_error, string list) result" where
  "caddy_domains env =
     (let raw = (case bt_get env ''RIKU_DOMAINS'' of Some raw \<Rightarrow> raw | None \<Rightarrow> [])
      in case parse_domains raw of Inr domains \<Rightarrow> Inr (map domain_str domains) | Inl e \<Rightarrow> Inl (BadDomainList e))"

definition site_kind_of :: "env_map \<Rightarrow> router \<Rightarrow> site_kind" where
  "site_kind_of env router =
     (if has_key env ''RIKU_NGINX_WSGI'' then Wsgi
      else if has_key env ''RIKU_NGINX_PORTMAP'' \<and> router \<noteq> RouterCaddy then Portmap
      else if has_key env ''RIKU_NGINX_STATIC'' then Static else Plain)"

text \<open>\<open>Path::file_name\<close> and \<open>Path::parent\<close>.\<close>

definition last_name :: "path \<Rightarrow> string option" where
  "last_name p = (case rev p of Normal name # _ \<Rightarrow> Some name | _ \<Rightarrow> None)"

definition parent_of :: "path \<Rightarrow> path option" where
  "parent_of p = (case rev p of [] \<Rightarrow> None | RootDir # _ \<Rightarrow> None | _ # rest \<Rightarrow> Some (rev rest))"

definition socket_backend :: "app_name \<Rightarrow> path \<Rightarrow> router_paths \<Rightarrow> (router_error, route_backend) result" where
  "socket_backend app socket paths =
     (let name = last_name socket;
          refused = Inl (NotOwnSocket socket (app_str app) (rp_socket_root paths))
      in if parent_of socket = Some (rp_socket_root paths)
         then if name = Some (app_str app @ ''.sock'') then Inr UnixDefault
              else case Option.bind name copy_socket_parse of
                     Some (owner, copy) \<Rightarrow> if owner = app_str app then Inr (UnixCopy copy) else refused
                   | None \<Rightarrow> refused
         else refused)"

fun local_host :: "ip_addr \<Rightarrow> ip_addr" where
  "local_host (V4 a b c d) = (if ip_is_unspecified (V4 a b c d) then LoopbackV4 else V4 a b c d)"
| "local_host (V6 segments) = V6 segments"

fun route_backend_of :: "app_name \<Rightarrow> router_paths \<Rightarrow> backend \<Rightarrow> (router_error, route_backend) result" where
  "route_backend_of app paths (BackendTcp host port) = Inr (Tcp (local_host host) port)"
| "route_backend_of app paths (BackendUnix socket) = socket_backend app socket paths"

definition route_backends :: "app_name \<Rightarrow> backend list \<Rightarrow> router_paths \<Rightarrow> (router_error, route_backend list) result" where
  "route_backends app backends paths = traverse (route_backend_of app paths) backends"

definition env_flag :: "env_map \<Rightarrow> string \<Rightarrow> bool" where
  "env_flag env key = (case bt_get env key of Some v \<Rightarrow> is_on v | None \<Rightarrow> False)"

definition caddy_route :: "string list \<Rightarrow> https_policy \<Rightarrow> route_backend list \<Rightarrow> site_kind \<Rightarrow> route" where
  "caddy_route domains https backends kind =
     \<lparr>ro_domains = domains, ro_https = https, ro_backends = backends, ro_listen = DEFAULT_LISTEN, ro_tls = None,
      ro_static_paths = [], ro_kind = kind, ro_allow_git_folders = False\<rparr>"

definition nginx_route :: "'w router_host \<Rightarrow> app_name \<Rightarrow> env_map \<Rightarrow> route \<Rightarrow> router_paths \<Rightarrow> ('w, route) router_call" where
  "nginx_route host app env base paths =
     (let only_https = (ro_https base = Only)
      in rt_then (rt_give (route_listen env (ro_kind base) only_https)) (\<lambda>listen.
         rt_then (if only_https then route_tls host app paths else rt_give (Inr None)) (\<lambda>tls.
         rt_give (Inr (base\<lparr>ro_listen := listen, ro_tls := tls, ro_static_paths := static_locations env,
           ro_allow_git_folders := env_flag env ''RIKU_NGINX_ALLOW_GIT_FOLDERS''\<rparr>)))))"

definition build_route ::
  "'w router_host \<Rightarrow> app_name \<Rightarrow> env_map \<Rightarrow> backend list \<Rightarrow> router_paths \<Rightarrow> router \<Rightarrow> ('w, route option) router_call" where
  "build_route host app env backends paths router =
     (let caddy = (router = RouterCaddy);
          domains = (if caddy then caddy_domains env else nginx_domains app env);
          kind = site_kind_of env router;
          https = (if https_only env then Only else AlsoPlainHttp)
      in case refused_key env of
           Some reason \<Rightarrow> rt_give (Inl (RouteOf (app_str app) reason))
         | None \<Rightarrow>
             (case domains of
                Inl e \<Rightarrow> rt_give (Inl (RouteOf (app_str app) e))
              | Inr domains \<Rightarrow>
                  if caddy \<and> domains = [] \<and> kind = Plain then rt_give (Inr None)
                  else case route_backends app backends paths of
                         Inl e \<Rightarrow> rt_give (Inl (RouteOf (app_str app) e))
                       | Inr backends \<Rightarrow>
                           (let base = caddy_route domains https backends kind
                            in if caddy
                               then rt_give (case check_caddy_route app base of
                                               Inr accepted \<Rightarrow> Inr (Some (checked_of accepted))
                                             | Inl e \<Rightarrow> Inl (GateRefused e))
                               else rt_then (rt_err (RouteOf (app_str app)) (nginx_route host app env base paths))
                                      (\<lambda>route. rt_give (Inr (Some route))))))"

section \<open>nginx\_site.rs and caddy.rs\<close>

definition STAND_IN_PORT :: u16 where
  "STAND_IN_PORT = 1"

definition site_app_name :: "string \<Rightarrow> (router_error, app_name) result" where
  "site_app_name app = (case app_name_try_from app of Inr name \<Rightarrow> Inr name | Inl e \<Rightarrow> Inl (BadName app))"

definition helper_outcome :: "string \<Rightarrow> helper_reply \<Rightarrow> (router_error, bool) result" where
  "helper_outcome action reply =
     (case reply of
        ReplyOk reloaded \<Rightarrow> Inr reloaded
      | ReplyFailed stage e \<Rightarrow> Inl (HelperFailed action stage e)
      | ReplyStatus _ \<Rightarrow> Inl (HelperStatus action))"

definition ask_helper :: "'w router_host \<Rightarrow> string \<Rightarrow> request \<Rightarrow> ('w, bool) router_call" where
  "ask_helper host action request =
     rt_then (rt_err NotSent (rt_send host request)) (\<lambda>reply. rt_give (helper_outcome action reply))"

definition certificate_domains :: "app_name \<Rightarrow> env_map \<Rightarrow> (router_error, string list) result" where
  "certificate_domains app env = and_then (nginx_domains app env) (\<lambda>domains. Inr (filter (\<lambda>d. d \<noteq> CATCH_ALL_NAME) domains))"

definition ensure_certificates :: "'w router_host \<Rightarrow> app_name \<Rightarrow> env_map \<Rightarrow> ('w, unit) router_call" where
  "ensure_certificates host app env =
     (if \<not> https_only env \<or> \<not> has_key env ''RIKU_DOMAINS'' then rt_give (Inr ())
      else rt_then (rt_give (certificate_domains app env)) (\<lambda>domains.
           if domains = [] then rt_give (Inr ())
           else rt_err (NoCertificate (app_str app)) (rt_certificates host (app_str app) domains)))"

definition site_route :: "'w router_host \<Rightarrow> app_name \<Rightarrow> env_map \<Rightarrow> backend list \<Rightarrow> router_paths \<Rightarrow> ('w, route) router_call" where
  "site_route host app env backends paths =
     rt_then (build_route host app env backends paths RouterNginx) (\<lambda>route.
     rt_give (case route of Some route \<Rightarrow> Inr route | None \<Rightarrow> Inl (NoNginxRoute (app_str app))))"

definition apply_nginx_site ::
  "'w router_host \<Rightarrow> string \<Rightarrow> path \<Rightarrow> env_map \<Rightarrow> backend list \<Rightarrow> router_paths \<Rightarrow> ('w, unit) router_call" where
  "apply_nginx_site host app app_path env backends paths =
     rt_then (rt_give (site_app_name app)) (\<lambda>name.
     if backends = [] then rt_give (Inl (NoBackends app))
     else rt_then (rt_err (CannotPublish app) (rt_publish host app app_path env)) (\<lambda>_.
          rt_then (ensure_certificates host name env) (\<lambda>_.
          rt_then (site_route host name env backends paths) (\<lambda>route.
          rt_then (ask_helper host ''install the site'' (RequestApply (app_str name) KindNginx route)) (\<lambda>_.
          rt_give (Inr ()))))))"

definition check_nginx_site :: "'w router_host \<Rightarrow> string \<Rightarrow> env_map \<Rightarrow> router_paths \<Rightarrow> ('w, unit) router_call" where
  "check_nginx_site host app env paths =
     rt_then (rt_give (site_app_name app)) (\<lambda>name.
     rt_then (site_route host name env [backend_loopback STAND_IN_PORT] paths) (\<lambda>_.
     rt_then (rt_err NotSent (rt_send host RequestStatus)) (\<lambda>reply.
     rt_give (case reply of ReplyStatus _ \<Rightarrow> Inr () | other \<Rightarrow> Inl (NotAStatus other)))))"

definition remove_nginx_site :: "'w router_host \<Rightarrow> string \<Rightarrow> ('w, bool) router_call" where
  "remove_nginx_site host app =
     rt_then (rt_give (site_app_name app)) (\<lambda>name.
     rt_then (ask_helper host ''remove the site'' (RequestRemove (app_str name) KindNginx)) (\<lambda>reloaded.
     rt_then (rt_err CannotCleanUp (rt_clean_up host app)) (\<lambda>_. rt_give (Inr reloaded))))"

definition remove_caddy_site :: "'w router_host \<Rightarrow> string \<Rightarrow> ('w, bool) router_call" where
  "remove_caddy_site host app =
     rt_then (rt_give (site_app_name app)) (\<lambda>name.
     ask_helper host ''remove the site'' (RequestRemove (app_str name) KindCaddy))"

definition apply_caddy_site ::
  "'w router_host \<Rightarrow> string \<Rightarrow> env_map \<Rightarrow> backend list \<Rightarrow> router_paths \<Rightarrow> ('w, unit) router_call" where
  "apply_caddy_site host app env backends paths =
     rt_then (rt_give (site_app_name app)) (\<lambda>name.
     rt_then (build_route host name env backends paths RouterCaddy) (\<lambda>route.
     case route of
       Some route \<Rightarrow>
         rt_then (ask_helper host ''install the site'' (RequestApply (app_str name) KindCaddy route)) (\<lambda>_. rt_give (Inr ()))
     | None \<Rightarrow> rt_then (remove_caddy_site host app) (\<lambda>_. rt_give (Inr ()))))"

end
