(* ===== verification/Route_Frame.thy ===== *)
theory Route_Frame
  imports Route_Apply Frames
begin

text \<open>
  What the router helper can do to the disk.  The locale \<open>site_frame\<close> states a relation on disks that the entries an operation may
  leave at a path keep; every operation of \<open>Site_Files\<close> and \<open>Route_Apply\<close>, and so a run of the helper, stays within it once its plans
  and directories are allowed.
\<close>

section \<open>Directories\<close>

lemma check_write_dir_nodes:
  assumes "check_write_dir h p owner d = (r, d')"
  shows "node_at d' q = node_at d q"
    and "r = Inr u \<Longrightarrow> \<exists>m. node_at d p = Some (DirNode owner m) \<and> and m (octal 0 2 2) = 0"
proof -
  obtain r1 d1 where stat:
    "syscall h (SysStat p) (\<lambda>d. (case node_at d p of None \<Rightarrow> Inl IoNotFound | Some n \<Rightarrow> Inr n, d)) d = (r1, d1)"
    by (metis prod.exhaust)
  then have nodes: "node_at d1 q = node_at d q" and found: "r1 = Inr n \<Longrightarrow> node_at d p = Some n" for q n
    by (auto elim!: syscall_cases split: option.splits)
  show "node_at d' q = node_at d q"
    using assms nodes by (cases r1) (auto simp: check_write_dir_def site_then_def site_err_def stat)
  show "r = Inr u \<Longrightarrow> \<exists>m. node_at d p = Some (DirNode owner m) \<and> and m (octal 0 2 2) = 0"
    using assms found by (cases r1) (auto simp: check_write_dir_def site_then_def site_err_def stat split: node.splits if_splits)
qed

lemma each_check_nodes:
  assumes "site_each (\<lambda>each. check_write_dir h each owner) ps d = (r, d')"
  shows "node_at d' q = node_at d q" and "r = Inr u \<Longrightarrow> p \<in> set ps \<Longrightarrow> is_dir_node (node_at d p)"
proof -
  have "(\<forall>q. node_at d' q = node_at d q) \<and> (r = Inr () \<longrightarrow> (\<forall>p \<in> set ps. is_dir_node (node_at d p)))"
    using assms
  proof (induction ps arbitrary: d)
    case (Cons p ps)
    obtain r1 d1 where one: "check_write_dir h p owner d = (r1, d1)" by (metis prod.exhaust)
    have "site_each (\<lambda>each. check_write_dir h each owner) ps d1 = (r, d') \<Longrightarrow>
      (\<forall>q. node_at d' q = node_at d1 q) \<and> (r = Inr () \<longrightarrow> (\<forall>p \<in> set ps. is_dir_node (node_at d1 p)))"
      by (rule Cons.IH)
    then show ?case
      using Cons.prems check_write_dir_nodes [OF one]
      by (cases r1) (auto simp: site_then_def one is_dir_node_def)
  qed simp
  then show "node_at d' q = node_at d q" and "r = Inr u \<Longrightarrow> p \<in> set ps \<Longrightarrow> is_dir_node (node_at d p)" by auto
qed

lemma set_mode_dir:
  assumes "set_mode h p m d = (r, d')" and "is_dir_node (node_at d p)"
  obtains w where "d' = d\<lparr>dk_world := w\<rparr>" | w u where "d' = put_node p (DirNode u m) (d\<lparr>dk_world := w\<rparr>)"
proof -
  obtain u m0 where dir: "node_at d p = Some (DirNode u m0)"
    using assms(2) by (auto simp: is_dir_node_def split: option.splits node.splits)
  obtain e w where fault: "rh_fault h (SysChmod p) (dk_world d) = (e, w)" by (metis prod.exhaust)
  show thesis
    using assms(1) that dir by (cases e) (auto simp: set_mode_def site_err_def syscall_def fault)
qed

lemma set_mode_dirs:
  assumes "set_mode h p m d = (r, d')" and "is_dir_node (node_at d p)"
  shows "is_dir_node (node_at d' q) = is_dir_node (node_at d q)"
  by (rule set_mode_dir [OF assms]) (use assms(2) in \<open>simp_all add: is_dir_node_def\<close>)

section \<open>Operations within a relation on the disk\<close>

lemma snapshot_paths:
  "snapshot_take h fs d = (Inr sn, d') \<Longrightarrow> map (\<lambda>(p, m, c). (p, m)) sn = map (\<lambda>f. (pn_path f, pn_mode f)) fs"
  by (induction fs arbitrary: d sn) (auto simp: site_then_def split: prod.splits sum.splits if_splits)

locale site_frame = frame R for R :: "'w site_disk \<Rightarrow> 'w site_disk \<Rightarrow> bool" +
  fixes allowed :: "path \<Rightarrow> node option \<Rightarrow> bool"
  assumes R_world: "R d (d\<lparr>dk_world := w\<rparr>)"
    and R_put: "allowed p (Some n) \<Longrightarrow> R d (put_node p n d)"
    and R_drop: "allowed p None \<Longrightarrow> R d (drop_node p d)"
begin

lemma R_put_world: "allowed p (Some n) \<Longrightarrow> R d ((put_node p n d)\<lparr>dk_world := w\<rparr>)"
  by (rule frame_trans [OF R_put R_world])

lemma within_then: "within R m \<Longrightarrow> (\<And>a. within R (f a)) \<Longrightarrow> within R (site_then m f)"
  unfolding within_def site_then_def
  by (auto split: prod.splits sum.splits) (metis frame_trans snd_conv)+

lemma within_err: "within R m \<Longrightarrow> within R (site_err err m)"
  by (simp add: within_def site_err_def)

lemma within_each: "(\<And>x. x \<in> set xs \<Longrightarrow> within R (f x)) \<Longrightarrow> within R (site_each f xs)"
proof (induction xs)
  case (Cons x xs)
  then have "within R (site_then (f x) (\<lambda>_. site_each f xs))" by (intro within_then) auto
  then show ?case by (simp add: within_def)
qed (simp add: within_def frame_refl)

lemma within_syscall: "within R act \<Longrightarrow> within R (syscall h call act)"
  by (rule withinI) (auto elim!: syscall_cases intro: R_world dest: withinD [of R act] frame_trans [OF R_world])

lemma within_unlink: "allowed p None \<Longrightarrow> within R (sys_unlink h p)"
  unfolding sys_unlink_def
  by (rule within_syscall) (auto simp: within_def frame_refl R_drop split: option.splits node.splits)

lemma within_read: "within R (sys_read h p)"
  unfolding sys_read_def by (rule within_syscall) (simp add: within_def frame_refl)

lemma within_create: "allowed p (Some (FileNode m [])) \<Longrightarrow> within R (sys_create_new h p m)"
  unfolding sys_create_new_def by (rule within_syscall) (auto simp: within_def frame_refl R_put)

lemma within_fchmod: "(\<And>c. allowed p (Some (FileNode m c))) \<Longrightarrow> within R (sys_fchmod h p m)"
  unfolding sys_fchmod_def by (rule within_syscall) (auto simp: within_def frame_refl R_put split: option.splits node.splits)

lemma within_sync: "within R (sys_sync h p)"
  unfolding sys_sync_def by (intro within_syscall within_give)

lemma within_mkdir: "(\<And>u. allowed p (Some (DirNode u m))) \<Longrightarrow> within R (sys_mkdir h p m)"
  unfolding sys_mkdir_def by (rule within_syscall) (auto simp: within_def frame_refl R_put)

lemma within_rmdir: "allowed p None \<Longrightarrow> within R (sys_rmdir h p)"
  unfolding sys_rmdir_def by (rule within_syscall) (auto simp: within_def frame_refl R_drop)

lemma within_run: "within R (run_program h program what)"
  by (auto simp: within_def run_program_def R_world split: prod.splits program_output.splits)

lemma within_reload: "within R (check_and_reload h roots)" "within R (caddy_reload h croots)"
  unfolding check_and_reload_def check_config_def nginx_reload_def caddy_reload_def
  by (intro within_then within_err within_run; cases "ng_reload roots"; simp add: within_run)+

text \<open>The entries a write to a path may leave at the path and at its staged sibling.\<close>

definition may_write :: "path \<Rightarrow> u32 \<Rightarrow> bool" where
  "may_write p m \<longleftrightarrow> (\<forall>q \<in> {p, staged p}. allowed q None \<and> (\<forall>c. allowed q (Some (FileNode m c))))
     \<and> (\<forall>c. allowed (staged p) (Some (FileNode PRIVATE_FILE c)))"

lemma within_create_staged:
  assumes "may_write p m"
  shows "within R (create_staged h (staged p) m)"
proof (rule withinI)
  fix d r d'
  assume step: "create_staged h (staged p) m d = (r, d')"
  obtain r1 d1 where unlink: "sys_unlink h (staged p) d = (r1, d1)" by (metis prod.exhaust)
  have "R d d1" using withinD [OF within_unlink unlink] assms by (simp add: may_write_def)
  moreover have "within R (site_then (sys_create_new h (staged p) PRIVATE_FILE) (\<lambda>_. sys_fchmod h (staged p) m))"
    using assms by (intro within_then within_create within_fchmod) (auto simp: may_write_def)
  ultimately show "R d d'"
    using step frame_refl frame_trans by (auto simp: create_staged_def unlink within_def split: sum.splits if_splits) (metis snd_conv)+
qed

lemma within_write_all: "(\<And>m c. node_at d p = Some (FileNode m c) \<Longrightarrow> \<forall>c. allowed p (Some (FileNode m c))) \<Longrightarrow> R d (snd (sys_write_all h p content d))"
  unfolding sys_write_all_def by (auto split: prod.splits option.splits node.splits intro: R_world R_put_world)

lemma within_fill:
  assumes "may_write p m"
  shows "within R (fill_staged h (staged p) content m)"
proof (rule withinI)
  fix d r d'
  assume step: "fill_staged h (staged p) content m d = (r, d')"
  obtain r1 d1 where create: "create_staged h (staged p) m d = (r1, d1)" by (metis prod.exhaust)
  obtain r2 d2 where fill: "sys_write_all h (staged p) content d1 = (r2, d2)" by (metis prod.exhaust)
  obtain r3 d3 where sync: "sys_sync h (staged p) d2 = (r3, d3)" by (metis prod.exhaust)
  have "R d d1" using withinD [OF within_create_staged [OF assms] create] .
  moreover have "R d1 d2" if "r1 = Inr ()"
    using within_write_all [of d1 "staged p" h content] create_staged_nodes(2) [OF create that] fill assms
    by (auto simp: may_write_def)
  moreover have "R d2 d3" using withinD [OF within_sync sync] .
  ultimately show "R d d'"
    using step by (auto simp: fill_staged_def site_then_def create fill sync split: sum.splits intro: frame_trans)
qed

lemma within_write_file:
  assumes "may_write p m"
  shows "within R (write_file h p content m)"
proof (rule withinI)
  fix d r d'
  assume step: "write_file h p content m d = (r, d')"
  obtain r1 d1 where fill: "fill_staged h (staged p) content m d = (r1, d1)" by (metis prod.exhaust)
  obtain r2 d2 where rename: "sys_rename h (staged p) p d1 = (r2, d2)" by (metis prod.exhaust)
  have unlink: "R d0 (snd (sys_unlink h (staged p) d0))" for d0
    using within_unlink assms by (simp add: may_write_def within_def)
  have "R d d1" using withinD [OF within_fill [OF assms] fill] .
  moreover have "R d1 d2" if "r1 = Inr ()"
  proof -
    have "node_at d1 (staged p) = Some (FileNode m content)" using fill_staged_nodes(2) [OF fill that] .
    moreover have "R d0 (put_node p (FileNode m content) (drop_node (staged p) d0))" for d0
      using assms by (intro frame_trans [OF R_drop R_put]) (auto simp: may_write_def)
    then have "R d1 (put_node p (FileNode m content) (drop_node (staged p) (d1\<lparr>dk_world := w\<rparr>)))" for w
      by (rule frame_trans [OF R_world])
    ultimately show ?thesis
      using rename R_world unfolding sys_rename_def by (auto elim!: syscall_cases split: if_splits)
  qed
  ultimately show "R d d'"
    using step unlink by (auto simp: write_file_def Let_def fill rename split: sum.splits intro: frame_trans)
qed

lemma within_remove_file: "may_write p m \<Longrightarrow> within R (remove_file h p)"
  using within_unlink [of p h] by (auto simp: may_write_def within_def remove_file_def split: prod.splits sum.splits) (metis snd_conv)+

lemma within_put_content: "may_write p m \<Longrightarrow> within R (put_content (write_file h) (remove_file h) p m c)"
  by (cases c) (auto simp: put_content_def intro: within_write_file within_remove_file)

lemma within_install: "(\<And>f. f \<in> set fs \<Longrightarrow> may_write (pn_path f) (pn_mode f)) \<Longrightarrow> within R (install h fs)"
proof (induction fs)
  case (Cons f fs)
  show ?case
  proof (rule withinI)
    fix d r d'
    assume step: "install h (f # fs) d = (r, d')"
    obtain r1 d1 where one: "put_content (write_file h) (remove_file h) (pn_path f) (pn_mode f) (pn_contents f) d = (r1, d1)"
      by (metis prod.exhaust)
    have "R d d1" using withinD [OF within_put_content one] Cons.prems by simp
    moreover have "within R (install h fs)" using Cons by simp
    ultimately show "R d d'"
      using step frame_trans by (auto simp: install_def one split: sum.splits dest: withinD)
  qed
qed (simp add: within_def install_def frame_refl)

lemma within_restore: "(\<And>p m c. (p, m, c) \<in> set sn \<Longrightarrow> may_write p m) \<Longrightarrow> R d (snd (snapshot_restore h sn d))"
proof -
  assume ok: "\<And>p m c. (p, m, c) \<in> set sn \<Longrightarrow> may_write p m"
  then have "R d (snd (restore_failures (write_file h) (remove_file h) sn d))"
  proof (induction sn arbitrary: d)
    case (Cons entry sn)
    obtain p m c where entry: "entry = (p, m, c)" by (metis prod_cases3)
    obtain r1 d1 where one: "put_content (write_file h) (remove_file h) p m c d = (r1, d1)" by (metis prod.exhaust)
    have "may_write p m" using Cons.prems [of p m c] entry by simp
    then have "R d d1" using withinD [OF within_put_content one] by simp
    moreover have "R d1 (snd (restore_failures (write_file h) (remove_file h) sn d1))"
      by (rule Cons.IH) (use Cons.prems in auto)
    ultimately show ?case using entry by (auto simp: one split: sum.splits intro: frame_trans)
  qed (simp add: frame_refl)
  then show ?thesis by (auto simp: snapshot_restore_def split: prod.splits list.splits)
qed

lemma within_snapshot: "within R (snapshot_take h fs)"
proof (induction fs)
  case (Cons f fs)
  show ?case
  proof (rule withinI)
    fix d r d'
    assume step: "snapshot_take h (f # fs) d = (r, d')"
    obtain r1 d1 where read: "sys_read h (pn_path f) d = (r1, d1)" by (metis prod.exhaust)
    have "R d d1" using withinD [OF within_read read] .
    have rest: "site_then (snapshot_take h fs) (\<lambda>rest d. (Inr (g rest), d)) d1 = (r2, d2) \<Longrightarrow> R d1 d2"
      for g :: "snapshot \<Rightarrow> snapshot" and r2 :: "(site_error, snapshot) result" and d2
      by (rule withinD [OF within_then [OF Cons.IH within_give]])
    show "R d d'"
      using step \<open>R d d1\<close> by (auto simp: read split: sum.splits if_splits dest!: rest intro: frame_trans)
  qed
qed (simp add: within_def frame_refl)

lemma within_rolled_back:
  assumes ok: "\<And>f. f \<in> set fs \<Longrightarrow> may_write (pn_path f) (pn_mode f)" and sn: "snapshot_take h fs d0 = (Inr sn, d1)"
  shows "R d (snd (rolled_back h sn st cause d))"
proof -
  have "may_write p m" if "(p, m, c) \<in> set sn" for p m c
  proof -
    have "(p, m) \<in> set (map (\<lambda>(p, m, c). (p, m)) sn)" using that by force
    then show ?thesis using ok unfolding snapshot_paths [OF sn] by auto
  qed
  then have "R d (snd (snapshot_restore h sn d))" by (rule within_restore)
  then show ?thesis by (auto simp: rolled_back_def split: prod.splits sum.splits)
qed

lemma within_commit_with:
  assumes ok: "\<And>f. f \<in> set fs \<Longrightarrow> may_write (pn_path f) (pn_mode f)" and ask: "within R ask"
  shows "within R (commit_with h ask fs)"
  unfolding within_def
proof
  fix d
  obtain r1 d1 where take1: "snapshot_take h fs d = (r1, d1)" by (metis prod.exhaust)
  obtain r2 d2 where inst: "install h fs d1 = (r2, d2)" by (metis prod.exhaust)
  obtain r3 d3 where asked: "ask d2 = (r3, d3)" by (metis prod.exhaust)
  have "R d d1" "R d1 d2" "R d2 d3"
    using withinD [OF within_snapshot take1] withinD [OF within_install inst] withinD [OF ask asked] ok by simp_all
  then have steps: "R d d1" "R d d2" "R d d3" by (blast intro: frame_trans)+
  show "R d (snd (commit_with h ask fs d))"
  proof (cases r1)
    case (Inr sn)
    note undone = within_rolled_back [OF ok take1 [unfolded Inr]]
    show ?thesis
      using steps frame_trans [OF steps(2) undone] frame_trans [OF steps(3) undone]
      by (cases r2; cases r3) (simp_all add: commit_with_def take1 inst asked Inr split: prod.splits)
  qed (simp add: commit_with_def take1 steps)
qed

lemma within_commit:
  assumes "\<And>f. f \<in> set fs \<Longrightarrow> may_write (pn_path f) (pn_mode f)"
  shows "within R (commit_nginx h roots fs)" and "within R (commit_caddy h croots fs)"
  unfolding commit_nginx_def commit_caddy_def
  by (intro within_commit_with within_reload within_err assms; assumption)+

text \<open>Directories may be made along a path when a directory is allowed at the path and at all its parents.\<close>

definition may_make :: "path \<Rightarrow> bool" where
  "may_make p \<longleftrightarrow> (\<forall>q \<in> set (ancestors p). \<forall>u m. allowed q (Some (DirNode u m)))"

lemma may_make_parent: "may_make p \<Longrightarrow> path_parent p = Some q \<Longrightarrow> may_make q"
  unfolding may_make_def by (subst (asm) ancestors.simps) simp

lemma may_make_self: "may_make p \<Longrightarrow> allowed p (Some (DirNode u m))"
  unfolding may_make_def by (subst (asm) ancestors.simps) simp

lemma may_make_ancestor: "may_make p \<Longrightarrow> q \<in> set (ancestors p) \<Longrightarrow> may_make q"
proof (induction "length p" arbitrary: p rule: less_induct)
  case less
  consider "q = p" | r where "path_parent p = Some r" "q \<in> set (ancestors r)"
    using less.prems(2) ancestors.simps [of p] by (auto split: option.splits)
  then show ?case
  proof cases
    case 2
    have "length r < length p" using 2(1) by (auto simp: path_parent_def split: if_splits)
    then show ?thesis using less.hyps 2 may_make_parent [OF less.prems(1) 2(1)] by blast
  qed (use less.prems in simp)
qed

lemma within_create_dir_all: "may_make p \<Longrightarrow> R d (snd (create_dir_all h p d))"
proof (induction "length p" arbitrary: p d rule: less_induct)
  case less
  have mkdir: "R d (snd (sys_mkdir h p NEW_DIR d))" for d
    using within_mkdir may_make_self [OF less.prems] by (simp add: within_def)
  have parent: "R d (snd (create_dir_all h q d))" if "path_parent p = Some q" for q d
    using less.hyps [of q d] may_make_parent [OF less.prems that] that by (auto simp: path_parent_def split: if_splits)
  obtain r1 d1 where one: "sys_mkdir h p NEW_DIR d = (r1, d1)" by (metis prod.exhaust)
  have step: "R d d1" using mkdir [of d] one by simp
  show ?case
  proof (cases "path_parent p")
    case None
    then show ?thesis using step frame_refl by (subst create_dir_all.simps) (auto simp: one split: sum.splits)
  next
    case (Some q)
    obtain r2 d2 where up: "create_dir_all h q d1 = (r2, d2)" by (metis prod.exhaust)
    obtain r3 d3 where again: "sys_mkdir h p NEW_DIR d2 = (r3, d3)" by (metis prod.exhaust)
    have "R d d2" "R d d3"
      using step parent [OF Some, of d1] mkdir [of d2] up again frame_trans by (metis snd_conv)+
    then show ?thesis
      using step frame_refl Some by (subst create_dir_all.simps) (auto simp: one up again split: sum.splits)
  qed
qed

lemma within_check_dir: "within R (check_write_dir h p owner)"
  unfolding check_write_dir_def
  by (intro within_then within_err within_syscall within_give) (simp add: within_def frame_refl)

lemma within_set_mode:
  assumes "set_mode h p m d = (r, d')" and "is_dir_node (node_at d p)" and "may_make p"
  shows "R d d'"
  by (rule set_mode_dir [OF assms(1,2)]) (use may_make_self [OF assms(3)] R_world in \<open>auto intro: frame_trans [OF R_world R_put]\<close>)

lemma within_set_modes:
  assumes "site_each (\<lambda>p. set_mode h p m) ps d = (r, d')" and "\<And>p. p \<in> set ps \<Longrightarrow> is_dir_node (node_at d p) \<and> may_make p"
  shows "R d d' \<and> (\<forall>q. is_dir_node (node_at d' q) = is_dir_node (node_at d q))"
  using assms
proof (induction ps arbitrary: d)
  case (Cons p ps)
  obtain r1 d1 where one: "set_mode h p m d = (r1, d1)" by (metis prod.exhaust)
  have here: "R d d1" "\<And>q. is_dir_node (node_at d1 q) = is_dir_node (node_at d q)"
    using within_set_mode [OF one] set_mode_dirs [OF one] Cons.prems(2) by simp_all
  have "site_each (\<lambda>p. set_mode h p m) ps d1 = (r, d') \<Longrightarrow>
    R d1 d' \<and> (\<forall>q. is_dir_node (node_at d' q) = is_dir_node (node_at d1 q))"
    by (rule Cons.IH) (use Cons.prems(2) here(2) in auto)
  then show ?case using Cons.prems(1) here frame_trans by (cases r1) (auto simp: site_then_def one)
qed (simp add: frame_refl)

lemma within_ensure_dir:
  assumes "may_make dir"
  shows "within R (ensure_dir h dir mode owner)"
proof (rule withinI)
  fix d r d'
  assume step: "ensure_dir h dir mode owner d = (r, d')"
  define parents where "parents = tl (takeWhile (\<lambda>each. \<not> path_exists h d each) (ancestors dir))"
  define checked where "checked = parents @ (case path_parent dir of Some p \<Rightarrow> [p] | None \<Rightarrow> []) @ [dir]"
  obtain r1 d1 where make: "create_dir_all h dir d = (r1, d1)" by (metis prod.exhaust)
  obtain r2 d2 where check: "site_each (\<lambda>each. check_write_dir h each owner) checked d1 = (r2, d2)" by (metis prod.exhaust)
  obtain r3 d3 where modes: "site_each (\<lambda>parent. set_mode h parent PUBLIC_DIR) parents d2 = (r3, d3)" by (metis prod.exhaust)
  obtain r4 d4 where own: "set_mode h dir mode d3 = (r4, d4)" by (metis prod.exhaust)
  have "set (tl ps) \<subseteq> set ps" for ps :: "path list" by (cases ps) auto
  then have "set parents \<subseteq> set (ancestors dir)" unfolding parents_def by (blast dest: set_takeWhileD)
  then have make_parents: "may_make p" if "p \<in> set parents" for p using assms that by (auto intro: may_make_ancestor)
  have "R d d1" using within_create_dir_all [OF assms, of d h] make by simp
  moreover have "R d1 d2" by (rule withinD [OF within_each [OF within_check_dir] check])
  moreover have "R d2 d3 \<and> R d3 d4" if ok: "r2 = Inr ()"
  proof -
    have dirs: "is_dir_node (node_at d2 p)" if "p \<in> set checked" for p
      using each_check_nodes [OF check] ok that by auto
    have "R d2 d3 \<and> (\<forall>q. is_dir_node (node_at d3 q) = is_dir_node (node_at d2 q))"
      by (rule within_set_modes [OF modes]) (use dirs make_parents checked_def in auto)
    moreover from this have "R d3 d4" using within_set_mode [OF own] dirs [of dir] assms by (simp add: checked_def)
    ultimately show ?thesis by blast
  qed
  ultimately show "R d d'"
    using step unfolding ensure_dir_def Let_def parents_def [symmetric] checked_def [symmetric]
    by (auto simp: site_then_def site_err_def make check modes own split: sum.splits intro: frame_trans)
qed

text \<open>What the two routers need for an app.\<close>

definition nginx_ok :: "nginx_roots \<Rightarrow> app_name \<Rightarrow> bool" where
  "nginx_ok roots app \<longleftrightarrow>
     may_make (ng_site_root roots) \<and> may_make (ng_cert_root roots) \<and> may_make (cert_dir roots app)
     \<and> allowed (cert_dir roots app) None \<and> may_write (site_file roots app) PUBLIC_FILE
     \<and> may_write (path_join (cert_dir roots app) [Normal KEY_FILE]) PRIVATE_FILE
     \<and> may_write (path_join (cert_dir roots app) [Normal CERTIFICATE_FILE]) PUBLIC_FILE"

definition caddy_ok :: "caddy_roots \<Rightarrow> app_name \<Rightarrow> bool" where
  "caddy_ok roots app \<longleftrightarrow> may_write (caddy_site_file roots app) SITE_FILE"

lemma within_nginx:
  assumes "nginx_ok roots app"
  shows "within R (apply_nginx h lib tera roots app route)" and "within R (remove_nginx h roots app)"
proof -
  have commit: "within R (commit_nginx h roots (nginx_plan roots app config tls))" for config tls
    by (rule within_commit(1)) (use assms in \<open>auto simp: nginx_plan_def nginx_ok_def\<close>)
  have dirs: "within R (prepare_dirs h roots app tls)" for tls
    unfolding prepare_dirs_def using assms
    by (intro within_each) (auto simp: nginx_ok_def split: if_splits intro: within_ensure_dir)
  show "within R (apply_nginx h lib tera roots app route)"
    by (rule withinI) (auto simp: apply_nginx_def Let_def frame_refl split: sum.splits checked_route.splits prod.splits
        dest!: withinD [OF dirs] dest: withinD [OF commit] intro: frame_trans)
  have rmdir: "R d (snd (sys_rmdir h (cert_dir roots app) d))" for d
    using within_rmdir assms by (simp add: nginx_ok_def within_def)
  show "within R (remove_nginx h roots app)"
  proof (rule withinI)
    fix d r d'
    assume step: "remove_nginx h roots app d = (r, d')"
    obtain r1 d1 where take1: "snapshot_take h (nginx_plan roots app None None) d = (r1, d1)" by (metis prod.exhaust)
    obtain r2 d2 where com: "commit_nginx h roots (nginx_plan roots app None None) d1 = (r2, d2)" by (metis prod.exhaust)
    have "R d d1" "R d1 d2" using withinD [OF within_snapshot take1] withinD [OF commit com] .
    then have "R d d1" "R d d2" "R d (snd (sys_rmdir h (cert_dir roots app) d2))"
      using rmdir frame_trans by blast+
    then show "R d d'"
      using step by (cases r2) (auto simp: remove_nginx_def Let_def take1 com split: sum.splits if_splits)
  qed
qed

lemma within_caddy:
  assumes "caddy_ok roots app"
  shows "within R (apply_caddy h roots app route)" and "within R (remove_caddy h roots app)"
proof -
  have commit: "within R (commit_caddy h roots (caddy_plan roots app site))" for site
    by (rule within_commit(2)) (use assms in \<open>auto simp: caddy_plan_def caddy_ok_def\<close>)
  note check = within_check_dir [of h "cy_site_root roots" "cy_owner_uid roots"]
  show "within R (apply_caddy h roots app route)"
    by (rule withinI) (auto simp: apply_caddy_def frame_refl split: sum.splits checked_route.splits prod.splits
        dest!: withinD [OF check] dest: withinD [OF commit] intro: frame_trans)
  show "within R (remove_caddy h roots app)"
  proof (rule withinI)
    fix d r d'
    assume step: "remove_caddy h roots app d = (r, d')"
    obtain r1 d1 where take1: "snapshot_take h (caddy_plan roots app None) d = (r1, d1)" by (metis prod.exhaust)
    obtain r2 d2 where dir: "check_write_dir h (cy_site_root roots) (cy_owner_uid roots) d1 = (r2, d2)" by (metis prod.exhaust)
    obtain r3 d3 where com: "commit_caddy h roots (caddy_plan roots app None) d2 = (r3, d3)" by (metis prod.exhaust)
    have "R d d1" "R d1 d2" "R d2 d3"
      using withinD [OF within_snapshot take1] withinD [OF check dir] withinD [OF commit com] .
    then have "R d d1" "R d d2" "R d d3" using frame_trans by blast+
    then show "R d d'"
      using step by (auto simp: remove_caddy_def Let_def take1 dir com split: sum.splits if_splits)
  qed
qed

text \<open>A run of the helper stays within the relation when both routers may act for every app whose name passes the check.\<close>

lemma within_answer:
  assumes "\<And>raw app. app_name_try_from raw = Inr app \<Longrightarrow> nginx_ok (hp_nginx hp) app \<and> caddy_ok (hp_caddy hp) app"
  shows "R d (snd (answer hp request d))"
  using assms within_nginx within_caddy
  by (auto simp: answer_def app_checked_def within_def frame_refl split: request.splits sum.splits router_kind.splits)

lemma within_run_helper:
  assumes ok: "\<And>raw app. app_name_try_from raw = Inr app \<Longrightarrow> nginx_ok (hp_nginx hp) app \<and> caddy_ok (hp_caddy hp) app"
  shows "R d (snd (run_helper hp conns d))"
proof (induction conns arbitrary: d)
  case (Cons conn rest)
  have "R d (snd (answer hp request d))" for request by (rule within_answer [OF ok])
  then have "R d (snd (serve_one hp c d))" for c
    using frame_refl
    by (auto simp: serve_one_def split: sum.splits prod.splits) (metis snd_conv)+
  then show ?case using Cons.IH by (cases conn) (auto simp: frame_refl intro: frame_trans)
qed (simp add: frame_refl)

end

end
