(* ===== verification/Route_Safety.thy ===== *)
theory Route_Safety
  imports Route_Frame
begin

text \<open>
  What the router helper guarantees: which text of an accepted route reaches a router config, that a change is all or nothing, that
  private keys stay private, and that a request touches the files of its own app only.
\<close>

section \<open>App names as file names\<close>

lemma app_name_Inr: "app_name_try_from raw = Inr app \<longleftrightarrow> app = AppName raw \<and> check_app_name raw = Inr ()"
  by (auto simp: app_name_try_from_def split: sum.splits)

lemma app_name_chars:
  assumes "app_name_try_from raw = Inr app"
  shows "raw \<noteq> []" and "is_ascii_alphanumeric (hd raw)" and "list_all engine_char raw"
proof -
  have "is_engine_safe raw"
    using assms by (auto simp: app_name_Inr check_app_name_def split: sum.splits if_splits)
  then show "raw \<noteq> []" "is_ascii_alphanumeric (hd raw)" "list_all engine_char raw"
    by (cases raw; simp add: engine_char_def)+
qed

lemma components_name:
  assumes "s \<noteq> []" and "is_ascii_alphanumeric (hd s)" and "CHR ''/'' \<notin> set s"
  shows "components s = [Normal s]"
proof -
  have "split_on (CHR ''/'') s = [s]" unfolding split_on_def by (rule split_by_none) (use assms(3) in \<open>auto simp: list_all_iff\<close>)
  moreover have "\<not> starts_with ''/'' s" using assms(3) by (auto simp: starts_with_iff)
  moreover have "s \<noteq> ''.''" "s \<noteq> ''..''" using assms(2) by (auto simp: char_class_defs)
  ultimately show ?thesis using assms(1) by (simp add: components_def Let_def part_component_def)
qed

lemma app_name_components:
  assumes "app_name_try_from raw = Inr app" and "CHR ''/'' \<notin> set suffix"
  shows "components (raw @ suffix) = [Normal (raw @ suffix)]"
proof (rule components_name)
  show "is_ascii_alphanumeric (hd (raw @ suffix))" using app_name_chars [OF assms(1)] by (simp add: hd_append)
  show "CHR ''/'' \<notin> set (raw @ suffix)"
    using app_name_chars(3) [OF assms(1)] assms(2) by (auto simp: list_all_iff engine_char_def char_class_defs)
qed (use app_name_chars(1) [OF assms(1)] in simp)

lemma app_name_safe: "app_name_try_from raw = Inr app \<Longrightarrow> directive_safe raw"
  using app_name_chars(3) [of raw app] alphanumeric_plain_char
  by (auto simp: directive_safe_def list_all_iff engine_char_def)

section \<open>The context of an nginx site\<close>

lemma path_text_append:
  assumes "p = RootDir # cs"
  shows "path_text (p @ [Normal n]) = path_text p @ (if cs = [] then [] else ''/'') @ n"
proof -
  have "join ''/'' (xs @ [n]) = join ''/'' xs @ (if xs = [] then [] else ''/'') @ n" for xs :: "string list"
    by (induction "''/''" xs rule: join.induct) auto
  from this [of "map component_text cs"] show ?thesis using assms by (simp add: path_text_def)
qed

text \<open>A root directory whose text is safe in a directive and which is absolute.\<close>

definition safe_root :: "path \<Rightarrow> bool" where
  "safe_root p \<longleftrightarrow> is_absolute p \<and> directive_safe (path_text p)"

lemma safe_root_join:
  assumes "safe_root p" and "directive_safe n"
  shows "safe_root (path_join p [Normal n])"
proof -
  obtain cs where p: "p = RootDir # cs" using assms(1) by (cases p) (auto simp: safe_root_def is_absolute_def)
  then have "path_join p [Normal n] = p @ [Normal n]" by (simp add: path_join_def is_absolute_def)
  then show ?thesis using assms p path_text_append [OF p] by (auto simp: safe_root_def is_absolute_def)
qed

lemma production_roots_safe:
  "list_all safe_root [ng_socket_root (production_nginx g s i), ng_static_root (production_nginx g s i),
     ng_acme_root (production_nginx g s i), ng_cert_root (production_nginx g s i)]"
  unfolding production_nginx_def by simp code_simp

lemma hex_char_plain: "n < 16 \<Longrightarrow> plain_char (hex_char n)"
  by (rule label_char_plain) (auto simp: hex_char_def label_char_def char_class_defs)

lemma char_bytes_less: "b \<in> set (char_bytes c) \<Longrightarrow> b < 256"
proof -
  have "code_point c div 64 < 4" by (rule less_mult_imp_div_less) simp
  then show "b \<in> set (char_bytes c) \<Longrightarrow> b < 256" by (auto simp: char_bytes_def split: if_splits)
qed

lemma upstream_name_safe: "directive_safe (upstream_name app)"
proof -
  have "directive_safe (hex_byte b)" if "b < 256" for b
    using that hex_char_plain [of "b div 16"] hex_char_plain [of "b mod 16"] by (simp add: hex_byte_def)
  then have "directive_safe (concat (map hex_byte bs))" if "set bs \<subseteq> set (concat (map char_bytes app))" for bs
    using that by (induction bs) (auto dest: char_bytes_less)
  then have "directive_safe (concat (map hex_byte (concat (map char_bytes app))))" by blast
  moreover have "directive_safe ''riku_''" by (simp add: plain_char_def breaks_directive_def char_class_defs)
  ultimately show ?thesis by (simp add: upstream_name_def)
qed

lemma backend_address_safe:
  assumes "directive_safe (backend_display b)"
  shows "backend_address b = Inr (backend_display b)"
proof -
  have "\<not> is_ascii_whitespace c \<and> \<not> breaks_directive c" if "c \<in> set (backend_display b)" for c
    using directive_safe_sub [OF assms that] by (auto simp: plain_char_def is_ascii_whitespace_def is_whitespace_def)
  then show ?thesis
    by (auto simp: backend_address_def sanitize_nginx_value_def Let_def list_ex_iff)
qed

lemma sanitize_directive_safe: "directive_safe v \<Longrightarrow> sanitize_nginx_value key v = Inr v"
  by (auto simp: sanitize_nginx_value_def directive_safe_def list_all_iff list_ex_iff plain_char_def)

lemma safe_no_break: "directive_safe s \<Longrightarrow> \<not> list_ex breaks_directive s"
  by (auto simp: directive_safe_def list_all_iff list_ex_iff plain_char_def)

lemma loopback_display_safe:
  assumes "ip_is_loopback host"
  shows "directive_safe (backend_display (BackendTcp host port))"
proof (cases host)
  case (V6 gs)
  have "show_v6 [0, 0, 0, 0, 0, 0, 0, 1] = ''::1''" by code_simp
  then show ?thesis using assms V6 show_u16_safe digit_plain_char
    by (simp add: plain_char_def breaks_directive_def char_class_defs)
qed (simp add: show_v4_safe show_u16_safe)

lemma socket_name_safe:
  assumes "app_name_try_from raw = Inr app"
  shows "directive_safe (copy_socket_file_name raw n)" and "directive_safe (raw @ ''.sock'')"
  using app_name_safe [OF assms] show_nat_safe
  by (simp_all add: copy_socket_file_name_def APP_SEPARATOR_def SOCKET_EXTENSION_def show_u32_def
      plain_char_def breaks_directive_def char_class_defs)

lemma accepted_backend_safe:
  assumes app: "app_name_try_from raw = Inr app" and root: "safe_root (ng_socket_root roots)" and ok: "gate_backend b = Inr ()"
  shows "directive_safe (backend_display (nginx_backend roots app b))"
proof -
  have raw: "app_str app = raw" using app by (simp add: app_name_Inr)
  have socket: "directive_safe (''unix:'' @ path_text (path_join (ng_socket_root roots) (components (raw @ suffix))))"
    if "CHR ''/'' \<notin> set suffix" "directive_safe (raw @ suffix)" for suffix
    using safe_root_join [OF root that(2)] app_name_components [OF app that(1)]
    by (simp add: safe_root_def plain_char_def breaks_directive_def char_class_defs)
  have number: "CHR ''/'' \<notin> set (show_u32 n)" for n
    using show_nat_digits [of "unat n"] by (auto simp: show_u32_def list_all_iff char_class_defs)
  show ?thesis
  proof (cases b)
    case (UnixCopy n)
    obtain suffix where "copy_socket_file_name raw n = raw @ suffix" and "CHR ''/'' \<notin> set suffix"
      using number [of n] by (auto simp: copy_socket_file_name_def APP_SEPARATOR_def SOCKET_EXTENSION_def)
    then show ?thesis using socket [of suffix] socket_name_safe(1) [OF app, of n] UnixCopy raw by simp
  next
    case UnixDefault
    then show ?thesis using socket [of "''.sock''"] socket_name_safe(2) [OF app] raw by simp
  next
    case (Tcp host port)
    then show ?thesis using ok loopback_display_safe by (auto split: if_splits)
  qed
qed

lemma split_join_words:
  assumes "list_all (\<lambda>w. w \<noteq> [] \<and> list_all (\<lambda>c. \<not> P c) w) ws" and "list_all P sep" and "sep \<noteq> []"
  shows "filter (\<lambda>w. w \<noteq> []) (split_by P (join sep ws)) = ws"
proof -
  have skip: "filter (\<lambda>w. w \<noteq> []) (split_by P (t @ s)) = filter (\<lambda>w. w \<noteq> []) (split_by P s)" if "list_all P t" for t s
    using that by (induction t) auto
  have step: "filter (\<lambda>w. w \<noteq> []) (split_by P (p @ sep @ s)) = p # filter (\<lambda>w. w \<noteq> []) (split_by P s)"
    if "p \<noteq> []" "list_all (\<lambda>c. \<not> P c) p" for p s
    using assms(2,3) that skip [of "tl sep" s] split_by_append [OF that(2), of "hd sep" "tl sep @ s"]
    by (cases sep) auto
  show ?thesis
    using assms(1) by (induction ws rule: induct_list012) (auto simp: split_by_none step)
qed

text \<open>The texts an nginx template can write besides the domains.\<close>

definition context_texts :: "nginx_context \<Rightarrow> string list" where
  "context_texts ctx =
     [nx_app ctx, nx_app_upstream ctx, nx_external_port ctx, nx_allow_git_folders ctx, nx_ssl_certificate ctx,
      nx_ssl_certificate_key ctx, nx_acme_www ctx, nx_document_root ctx]
     @ nx_backends ctx @ map fst (nx_static_aliases ctx) @ map snd (nx_static_aliases ctx)
     @ (case nx_wsgi ctx of Some v \<Rightarrow> [v] | None \<Rightarrow> [])"

lemma traverse_Inr_map: "(\<And>x. x \<in> set xs \<Longrightarrow> f x = Inr (g x)) \<Longrightarrow> traverse f xs = Inr (map g xs)"
  by (induction xs) auto

lemma bool_text_safe: "directive_safe (bool_text b)"
  by (simp add: bool_text_def plain_char_def breaks_directive_def char_class_defs)

lemma gate_domain_word:
  assumes "gate_domain d = Inr u"
  shows "d \<noteq> []" and "directive_safe d"
  using assms domain_safe [of d "Domain d"] domain_nonempty [of d "Domain d"]
  by (auto simp: gate_domain_Inr CATCH_ALL_NAME_def)

lemma static_alias_safe:
  assumes app: "app_name_try_from raw = Inr app" and root: "safe_root (sf_static_root (si_files site))" and "si_app site = raw"
    and "directive_safe location"
  shows "\<exists>dir. static_alias site (i, location) = Inr (location, dir) \<and> directive_safe dir"
    and "directive_safe (path_text (document_root_in (sf_static_root (si_files site)) (si_app site)))"
proof -
  have "components raw = [Normal raw]" using app_name_components [OF app, of "[]"] by simp
  moreover have base: "safe_root (path_join (sf_static_root (si_files site)) [Normal raw])"
    by (rule safe_root_join [OF root app_name_safe [OF app]])
  moreover have "directive_safe ''paths''" "directive_safe ''root''"
    by (simp_all add: plain_char_def breaks_directive_def char_class_defs)
  ultimately show "\<exists>dir. static_alias site (i, location) = Inr (location, dir) \<and> directive_safe dir"
    and "directive_safe (path_text (document_root_in (sf_static_root (si_files site)) (si_app site)))"
    using safe_root_join [OF safe_root_join [OF base, of "''paths''"] show_nat_safe] safe_root_join [OF base, of "''root''"] assms(3)
    by (simp_all add: static_alias_def sanitize_directive_safe [OF assms(4)] static_path_dir_in_def document_root_in_def safe_root_def)
qed

lemma insert_static_safe:
  assumes app: "app_name_try_from raw = Inr app" and root: "safe_root (sf_static_root (si_files site))" and "si_app site = raw"
    and locations: "\<And>l. l \<in> set (si_static_locations site) \<Longrightarrow> directive_safe l"
  obtains aliases root_text where
    "\<And>ctx. insert_static ctx site = Inr (ctx\<lparr>nx_static_aliases := aliases, nx_document_root := root_text\<rparr>)"
    "directive_safe root_text" "map fst aliases = si_static_locations site" "list_all directive_safe (map snd aliases)"
proof -
  define dir where "dir = (\<lambda>entry. SOME t. static_alias site entry = Inr (snd entry, t) \<and> directive_safe t)"
  have made: "static_alias site entry = Inr (snd entry, dir entry) \<and> directive_safe (dir entry)"
    if "entry \<in> set (enumerate 0 (si_static_locations site))" for entry
  proof -
    have "snd entry \<in> set (si_static_locations site)"
      using that by (metis enumerate_eq_zip in_set_zipE prod.collapse)
    then have "\<exists>t. static_alias site entry = Inr (snd entry, t) \<and> directive_safe t"
      using static_alias_safe(1) [OF app root assms(3) locations, of "snd entry" "fst entry"] by simp
    then show ?thesis unfolding dir_def by (rule someI_ex)
  qed
  let ?aliases = "map (\<lambda>entry. (snd entry, dir entry)) (enumerate 0 (si_static_locations site))"
  have "traverse (static_alias site) (enumerate 0 (si_static_locations site)) = Inr ?aliases"
    by (rule traverse_Inr_map) (use made in simp)
  moreover have "map fst ?aliases = si_static_locations site"
    by (simp add: comp_def)
  moreover have "list_all directive_safe (map snd ?aliases)" using made by (simp add: list_all_iff)
  ultimately show thesis
    using that static_alias_safe(2) [OF app root assms(3), of "[]"] by (simp add: insert_static_def)
qed

lemma accepted_context:
  assumes app: "app_name_try_from raw = Inr app" and common: "gate_common route = Inr ()"
    and roots: "list_all safe_root [ng_socket_root roots, ng_static_root roots, ng_acme_root roots, ng_cert_root roots]"
  shows "\<exists>ctx. build_context (route_site_of roots app route) = Inr ctx \<and> list_all directive_safe (context_texts ctx)
    \<and> nx_domains ctx = join '' '' (ro_domains route) \<and> nx_backends ctx = map (backend_display \<circ> nginx_backend roots app) (ro_backends route)"
proof -
  have raw: "app_str app = raw" using app by (simp add: app_name_Inr)
  have gates: "\<And>d. d \<in> set (ro_domains route) \<Longrightarrow> gate_domain d = Inr ()"
    "\<And>b. b \<in> set (ro_backends route) \<Longrightarrow> gate_backend b = Inr ()"
    "\<And>l. l \<in> set (ro_static_paths route) \<Longrightarrow> directive_safe l"
    using common by (auto simp: gate_simps)
  have "list_ex breaks_directive (join '' '' ds) \<Longrightarrow> set ds \<subseteq> set (ro_domains route) \<Longrightarrow> False" for ds
  proof (induction "'' ''" ds rule: join.induct)
    case (2 p)
    then show ?case using safe_no_break [OF gate_domain_word(2) [OF gates(1)]] by simp
  next
    case (3 p q ps)
    have "\<not> breaks_directive (CHR '' '')" by (simp add: breaks_directive_def is_control_def)
    then show ?case using 3 safe_no_break [OF gate_domain_word(2) [OF gates(1)], of p] by simp
  qed simp
  then have domains: "sanitize_nginx_value ''domains'' (join '' '' (ro_domains route)) = Inr (join '' '' (ro_domains route))"
    by (auto simp: sanitize_nginx_value_def)
  have addresses: "directive_safe (backend_display (nginx_backend roots app b))" if "b \<in> set (ro_backends route)" for b
    using accepted_backend_safe [OF app _ gates(2) [OF that]] roots by simp
  have backends: "traverse backend_address (map (nginx_backend roots app) (ro_backends route))
      = Inr (map (backend_display \<circ> nginx_backend roots app) (ro_backends route))"
    using traverse_Inr_map [of "map (nginx_backend roots app) (ro_backends route)" backend_address backend_display]
      addresses backend_address_safe by auto
  have "directive_safe ''key.pem''" "directive_safe ''fullchain.pem''" "directive_safe ''true''"
    by (simp_all add: plain_char_def breaks_directive_def char_class_defs)
  moreover have "safe_root (cert_dir roots app)"
    using safe_root_join [of "ng_cert_root roots" raw] roots app_name_safe [OF app] app_name_components [OF app, of "[]"] raw
    by (simp add: cert_dir_def)
  ultimately have files: "directive_safe (path_text (path_join (cert_dir roots app) [Normal ''key.pem'']))"
    "directive_safe (path_text (path_join (cert_dir roots app) [Normal ''fullchain.pem'']))" "directive_safe ''true''"
    using safe_root_join by (simp_all add: safe_root_def)
  have site: "safe_root (sf_static_root (si_files (route_site_of roots app route)))" "si_app (route_site_of roots app route) = raw"
    "si_static_locations (route_site_of roots app route) = ro_static_paths route"
    using roots raw by (simp_all add: route_site_of_def site_files_of_def)
  obtain aliases root_text where static:
    "\<And>ctx. insert_static ctx (route_site_of roots app route) = Inr (ctx\<lparr>nx_static_aliases := aliases, nx_document_root := root_text\<rparr>)"
    "directive_safe root_text" "map fst aliases = ro_static_paths route" "list_all directive_safe (map snd aliases)"
    by (rule insert_static_safe [OF app site(1,2)]) (use gates(3) site(3) in auto)
  have locations: "\<forall>l \<in> fst ` set aliases. directive_safe l" using static(3) gates(3) by (metis image_set)
  show ?thesis
    using domains backends files static locations addresses gates(3) roots raw app_name_safe [OF app] upstream_name_safe show_u16_safe bool_text_safe
    by (simp add: build_context_def route_site_of_def site_files_of_def context_texts_def list_all_iff safe_root_def ball_Un
        KEY_FILE_def CERTIFICATE_FILE_def)
qed


text \<open>A TLS library without a certificate, for sites on plain HTTP.\<close>

definition no_tls :: tls_library where
  "no_tls = \<lparr>tl_sections = (\<lambda>_. Inl ''no PEM''), tl_encode = (\<lambda>s. s), tl_key_from_pem = (\<lambda>_ _. None),
             tl_supported = (\<lambda>_. Inl ''no key''), tl_keys_match = (\<lambda>_ _. Inl ''no key'')\<rparr>"

definition shop_route :: route where
  "shop_route = \<lparr>ro_domains = [''a.io'', ''*.b.io''], ro_https = AlsoPlainHttp,
     ro_backends = [Tcp LoopbackV4 5000, UnixCopy 2], ro_listen = 80, ro_tls = None, ro_static_paths = [''/assets/''],
     ro_kind = Plain, ro_allow_git_folders = False\<rparr>"

lemma shop_app: "app_name_try_from ''shop'' = Inr (AppName ''shop'')"
  by code_simp

lemma shop_domains: "gate_domain ''a.io'' = Inr ()" "gate_domain ''*.b.io'' = Inr ()"
  by code_simp+

lemma shop_route_accepted: "check_nginx_route no_tls (AppName ''shop'') shop_route = Inr (CheckedRoute shop_route)"
  using shop_domains
  by (simp add: check_nginx_route_Inr gate_common_Inr gate_domains_Inr gate_backends_Inr gate_listen_Inr gate_locations_Inr
      copy_index_new_def LoopbackV4_def HTTP_PORT_def normalized_tls_def shop_route_def
      plain_char_def breaks_directive_def char_class_defs)


section \<open>The text of a Caddy site\<close>

lemma not_newline_plain: "directive_safe s \<Longrightarrow> NEWLINE \<notin> set s \<and> CHR 0x0D \<notin> set s"
  using directive_safe_sub [of s NEWLINE] directive_safe_sub [of s "CHR 0x0D"] by (auto simp: plain_char_def is_whitespace_def)

lemma safe_words:
  "directive_safe w \<Longrightarrow> list_all (\<lambda>c. \<not> is_whitespace c) w"
  "directive_safe w \<Longrightarrow> CHR '','' \<notin> set w \<Longrightarrow> list_all (\<lambda>c. \<not> domain_separator c) w"
  by (auto simp: directive_safe_def list_all_iff plain_char_def domain_separator_def)

lemma set_join: "c \<in> set (join sep ws) \<Longrightarrow> c \<in> set sep \<or> (\<exists>w \<in> set ws. c \<in> set w)"
  by (induction ws rule: induct_list012) auto

lemma lines_of_lines:
  assumes "list_all (\<lambda>l. NEWLINE \<notin> set l \<and> CHR 0x0D \<notin> set l) ls"
  shows "lines (concat (map (\<lambda>l. l @ [NEWLINE]) ls)) = ls"
  using assms
proof (induction ls)
  case (Cons l ls)
  then have "strip_cr l = l" by (auto simp: strip_cr_def ends_with_iff)
  then show ?case using Cons lines_Cons [of l] by simp
qed (simp add: lines_def split_on_def)

lemma domain_no_comma: "domain_try_from raw = Inr d \<Longrightarrow> CHR '','' \<notin> set (domain_str d)"
  using domain_chars by (fastforce simp: label_char_def char_class_defs)

text \<open>What the gate accepts for Caddy becomes a plan: the same domains and TCP backends.\<close>

lemma accepted_plan:
  assumes "check_caddy_route app route = Inr (CheckedRoute accepted)"
  obtains targets where "plan_of accepted = Inr \<lparr>rpl_domains = map Domain (ro_domains route), rpl_https = ro_https route, rpl_backends = targets\<rparr>"
    and "targets \<noteq> []" and "list_all (\<lambda>b. \<exists>host port. b = BackendTcp host port \<and> ip_is_loopback host \<and> port \<noteq> 0) targets"
    and "list_all (\<lambda>d. domain_try_from d = Inr (Domain d)) (ro_domains route)"
    and "ro_backends route = map (\<lambda>b. case b of BackendTcp host port \<Rightarrow> Tcp host port | BackendUnix _ \<Rightarrow> UnixDefault) targets"
proof -
  have gate: "caddy_cannot_take route = None" "gate_common route = Inr ()" and accepted: "accepted = route\<lparr>ro_tls := None\<rparr>"
    using assms by (auto simp: check_caddy_route_Inr)
  have "domain_try_from d = Inr (Domain d)" if "d \<in> set (ro_domains route)" for d
    using gate that by (auto simp: gate_simps)
  then have domains: "traverse domain_try_from (ro_domains route) = Inr (map Domain (ro_domains route))"
    "list_all (\<lambda>d. domain_try_from d = Inr (Domain d)) (ro_domains route)"
    by (auto intro: traverse_Inr_map simp: list_all_iff)
  define target where "target = (\<lambda>b. case b of Tcp host port \<Rightarrow> BackendTcp host port | _ \<Rightarrow> BackendUnix [])"
  have tcp: "\<exists>host port. b = Tcp host port \<and> ip_is_loopback host \<and> port \<noteq> 0" if "b \<in> set (ro_backends route)" for b
  proof -
    have "gate_backend b = Inr ()" "\<not> is_unix_backend b" using gate that by (auto simp: gate_simps)
    then show ?thesis by (cases b) (auto split: if_splits)
  qed
  then have "traverse caddy_backend (ro_backends route) = Inr (map target (ro_backends route))"
    by (intro traverse_Inr_map) (force simp: target_def)
  then have plan: "plan_of accepted = Inr \<lparr>rpl_domains = map Domain (ro_domains route), rpl_https = ro_https route,
      rpl_backends = map target (ro_backends route)\<rparr>"
    using domains accepted by (simp add: plan_of_def)
  have nonempty: "map target (ro_backends route) \<noteq> []" using gate by (auto simp: gate_simps)
  have targets: "list_all (\<lambda>b. \<exists>host port. b = BackendTcp host port \<and> ip_is_loopback host \<and> port \<noteq> 0) (map target (ro_backends route))"
    using tcp by (fastforce simp: list_all_iff target_def)
  have same: "ro_backends route
      = map (\<lambda>b. case b of BackendTcp host port \<Rightarrow> Tcp host port | BackendUnix _ \<Rightarrow> UnixDefault) (map target (ro_backends route))"
    unfolding map_map by (rule sym, rule map_idI) (use tcp in \<open>force simp: target_def\<close>)
  show thesis by (rule that [OF plan nonempty targets domains(2) same])
qed

lemma address_word:
  assumes "list_all (\<lambda>d. domain_try_from d = Inr (Domain d)) ds"
    and "w \<in> set (ds @ (if https = AlsoPlainHttp then map (\<lambda>d. ''http://'' @ d) ds else []))"
  shows "w \<noteq> [] \<and> directive_safe w \<and> CHR '','' \<notin> set w"
proof -
  have domain_word: "d \<noteq> [] \<and> directive_safe d \<and> CHR '','' \<notin> set d" if "d \<in> set ds" for d
    using assms(1) that domain_nonempty [of d "Domain d"] domain_safe [of d "Domain d"] domain_no_comma [of d "Domain d"]
    by (auto simp: list_all_iff)
  have "directive_safe ''http://''" by (simp add: plain_char_def breaks_directive_def char_class_defs)
  then have plain_http: "directive_safe (''http://'' @ d)" if "directive_safe d" for d using that by simp
  show ?thesis
  proof (cases "w \<in> set ds")
    case False
    then obtain d where "w = ''http://'' @ d" "d \<in> set ds" using assms(2) by (auto split: if_splits)
    then show ?thesis using domain_word [of d] plain_http [of d] by simp
  qed (rule domain_word)
qed

lemma target_word:
  assumes "list_all (\<lambda>b. \<exists>host port. b = BackendTcp host port \<and> ip_is_loopback host \<and> port \<noteq> 0) targets" and "b \<in> set targets"
  shows "backend_display b \<noteq> [] \<and> directive_safe (backend_display b)"
  using assms loopback_display_safe
  by (auto simp: list_all_iff) (metis backend_display.simps(1,2) ip_addr.exhaust append_is_Nil_conv list.distinct(1))

text \<open>
  Property C26.  The site file of a route the gate accepts for Caddy has exactly four lines: the comment with the app name, one line of
  addresses with the opening brace, one \<open>reverse_proxy\<close> line and the closing brace.  Split at commas and spaces the address line gives
  back exactly the route's domains, then the same domains over plain HTTP when asked for; split at spaces the proxy line gives back
  exactly the route's backends.
\<close>

theorem caddy_site_reads_back:
  assumes "app_name_try_from raw = Inr app" and "check_caddy_route app route = Inr (CheckedRoute accepted)"
  shows "\<exists>site addresses targets. and_then (plan_of accepted) (render_site raw) = Inr site
    \<and> lines site = [''# riku app: '' @ raw, addresses @ '' {'', CHR 0x09 # ''reverse_proxy '' @ targets, ''}'']
    \<and> filter (\<lambda>w. w \<noteq> []) (split_by domain_separator addresses)
        = ro_domains route @ (if ro_https route = AlsoPlainHttp then map (\<lambda>d. ''http://'' @ d) (ro_domains route) else [])
    \<and> split_whitespace targets = map (\<lambda>b. case b of Tcp host port \<Rightarrow> backend_display (BackendTcp host port) | _ \<Rightarrow> []) (ro_backends route)"
proof -
  obtain targets where plan:
    "plan_of accepted = Inr \<lparr>rpl_domains = map Domain (ro_domains route), rpl_https = ro_https route, rpl_backends = targets\<rparr>"
    "targets \<noteq> []" "list_all (\<lambda>b. \<exists>host port. b = BackendTcp host port \<and> ip_is_loopback host \<and> port \<noteq> 0) targets"
    "list_all (\<lambda>d. domain_try_from d = Inr (Domain d)) (ro_domains route)"
    "ro_backends route = map (\<lambda>b. case b of BackendTcp host port \<Rightarrow> Tcp host port | BackendUnix _ \<Rightarrow> UnixDefault) targets"
    by (rule accepted_plan [OF assms(2)])
  let ?plan = "\<lparr>rpl_domains = map Domain (ro_domains route), rpl_https = ro_https route, rpl_backends = targets\<rparr>"
  let ?words = "ro_domains route @ (if ro_https route = AlsoPlainHttp then map (\<lambda>d. ''http://'' @ d) (ro_domains route) else [])"
  have addresses: "site_addresses ?plan = ?words"
    by (cases "ro_https route") (simp_all add: site_addresses_def PLAIN_HTTP_SCHEME_def comp_def Let_def)
  note word = address_word [OF plan(4), of _ "ro_https route"]
  have "list_all (\<lambda>w. w \<noteq> [] \<and> list_all (\<lambda>c. \<not> domain_separator c) w) ?words"
    by (rule list_all_iff [THEN iffD2], rule ballI) (blast dest: word intro: safe_words(2))
  then have words: "filter (\<lambda>w. w \<noteq> []) (split_by domain_separator (join '', '' ?words)) = ?words"
    by (rule split_join_words) (simp_all add: domain_separator_def is_whitespace_def)
  note display = target_word [OF plan(3)]
  then have "list_all (\<lambda>w. w \<noteq> [] \<and> list_all (\<lambda>c. \<not> is_whitespace c) w) (map backend_display targets)"
    using safe_words(1) by (auto simp: list_all_iff)
  then have proxied: "split_whitespace (join '' '' (map backend_display targets)) = map backend_display targets"
    unfolding split_whitespace_def by (rule split_join_words) (simp_all add: is_whitespace_def)
  have breaks: "NEWLINE \<notin> set (join sep ws) \<and> CHR 0x0D \<notin> set (join sep ws)"
    if "\<And>w. w \<in> set ws \<Longrightarrow> directive_safe w" "NEWLINE \<notin> set sep" "CHR 0x0D \<notin> set sep" for sep ws
    using that not_newline_plain by (meson set_join)
  let ?lines = "[''# riku app: '' @ raw, join '', '' ?words @ '' {'', CHR 0x09 # ''reverse_proxy '' @ join '' '' (map backend_display targets), ''}'']"
  have "list_all (\<lambda>l. NEWLINE \<notin> set l \<and> CHR 0x0D \<notin> set l) ?lines"
    using breaks [of ?words "'', ''"] breaks [of "map backend_display targets" "'' ''"] word display
      not_newline_plain [OF app_name_safe [OF assms(1)]] by auto
  then have split: "lines (concat (map (\<lambda>l. l @ [NEWLINE]) ?lines)) = ?lines" by (rule lines_of_lines)
  have "\<not> list_ex (\<lambda>b. case b of BackendUnix _ \<Rightarrow> True | _ \<Rightarrow> False) targets"
    using plan(3) by (auto simp: list_all_iff list_ex_iff)
  then have "render_site raw ?plan = Inr (concat (map (\<lambda>l. l @ [NEWLINE]) ?lines))"
    using plan(2) addresses by (simp add: render_site_def upstreams_def)
  moreover have "map backend_display targets
      = map (\<lambda>b. case b of Tcp host port \<Rightarrow> backend_display (BackendTcp host port) | _ \<Rightarrow> []) (ro_backends route)"
    using plan(3,5) by (auto simp: list_all_iff)
  ultimately have proxy: "map backend_display targets
      = map (\<lambda>b. case b of Tcp host port \<Rightarrow> backend_display (BackendTcp host port) | _ \<Rightarrow> []) (ro_backends route)"
    and site: "and_then (plan_of accepted) (render_site raw) = Inr (concat (map (\<lambda>l. l @ [NEWLINE]) ?lines))"
    using plan(1) by auto
  show ?thesis using site split words proxied unfolding proxy [symmetric] by (intro exI conjI)
qed

theorem caddy_site_reads_back_witness:
  "\<exists>site addresses targets.
     and_then (plan_of (shop_route\<lparr>ro_backends := [Tcp LoopbackV4 5000], ro_static_paths := []\<rparr>)) (render_site ''shop'') = Inr site
     \<and> lines site = [''# riku app: shop'', addresses @ '' {'', CHR 0x09 # ''reverse_proxy '' @ targets, ''}'']
     \<and> split_whitespace targets = [backend_display (BackendTcp LoopbackV4 5000)]"
proof -
  let ?route = "shop_route\<lparr>ro_backends := [Tcp LoopbackV4 5000], ro_static_paths := []\<rparr>"
  have "check_caddy_route (AppName ''shop'') ?route = Inr (CheckedRoute ?route)"
    using shop_domains
    by (simp add: check_caddy_route_Inr caddy_cannot_take_None gate_common_Inr gate_domains_Inr gate_backends_Inr gate_listen_Inr
        gate_locations_Inr LoopbackV4_def HTTP_PORT_def DEFAULT_LISTEN_def CATCH_ALL_NAME_def shop_route_def)
  from caddy_site_reads_back [OF shop_app this] show ?thesis by auto
qed

section \<open>Upstream names\<close>

lemma code_point_hex_char: "n < 16 \<Longrightarrow> code_point (hex_char n) = (if n < 10 then 48 + n else 87 + n)"
  by (simp add: hex_char_def)

lemma hex_char_inj:
  assumes "m < 16" and "n < 16" and "hex_char m = hex_char n"
  shows "m = n"
proof -
  have "(if m < 10 then 48 + m else 87 + m) = (if n < 10 then 48 + n else 87 + n)"
    using arg_cong [OF assms(3), of code_point] by (simp only: code_point_hex_char [OF assms(1)] code_point_hex_char [OF assms(2)])
  then show ?thesis by (simp split: if_splits)
qed

lemma hex_byte_inj:
  assumes "a < 256" and "b < 256" and "hex_byte a = hex_byte b"
  shows "a = b"
proof -
  have "a div 16 < 16" "b div 16 < 16" using assms(1,2) by auto
  then have "a div 16 = b div 16" "a mod 16 = b mod 16"
    using assms(3) hex_char_inj [of "a div 16" "b div 16"] hex_char_inj [of "a mod 16" "b mod 16"] by (simp_all add: hex_byte_def)
  then show ?thesis by (metis div_mult_mod_eq)
qed

lemma hex_bytes_inj:
  "concat (map hex_byte as) = concat (map hex_byte bs) \<Longrightarrow> list_all (\<lambda>b. b < 256) as \<Longrightarrow> list_all (\<lambda>b. b < 256) bs \<Longrightarrow> as = bs"
proof (induction as arbitrary: bs)
  case (Cons a as)
  then obtain b bs' where bs: "bs = b # bs'" by (cases bs) (auto simp: hex_byte_def)
  have "length (hex_byte a) = length (hex_byte b)" by (simp add: hex_byte_def)
  then have "hex_byte a = hex_byte b" "concat (map hex_byte as) = concat (map hex_byte bs')"
    using Cons.prems(1) bs by simp_all
  then show ?case using Cons bs hex_byte_inj by auto
qed (case_tac bs; simp add: hex_byte_def)

lemma char_bytes_inj: "concat (map char_bytes s) = concat (map char_bytes t) \<Longrightarrow> s = t"
proof (induction s arbitrary: t)
  case Nil
  then show ?case by (cases t) (auto simp: char_bytes_def split: if_splits)
next
  case (Cons c s)
  then obtain d t' where t: "t = d # t'" by (cases t) (auto simp: char_bytes_def split: if_splits)
  have joined: "char_bytes c @ concat (map char_bytes s) = char_bytes d @ concat (map char_bytes t')"
    using Cons.prems t by simp
  then have "code_point c = code_point d" and rest: "concat (map char_bytes s) = concat (map char_bytes t')"
    by (auto simp: char_bytes_def split: if_splits) (metis div_mult_mod_eq of_char_eq_iff)
  then show ?case using Cons.IH [OF rest] t by simp
qed

lemma upstream_name_lowercase: "to_ascii_lowercase (upstream_name app) = upstream_name app"
proof -
  have "char_to_ascii_lowercase (hex_char n) = hex_char n" if "n < 16" for n
    using code_point_hex_char [OF that] by (auto simp: char_to_ascii_lowercase_def is_ascii_uppercase_def)
  then have "map char_to_ascii_lowercase (hex_byte b) = hex_byte b" if "b < 256" for b
    using that by (simp add: hex_byte_def)
  then have "map char_to_ascii_lowercase (concat (map hex_byte bs)) = concat (map hex_byte bs)"
    if "set bs \<subseteq> set (concat (map char_bytes app))" for bs
    using that by (induction bs) (auto dest: char_bytes_less)
  then show ?thesis
    by (simp add: upstream_name_def to_ascii_lowercase_def char_to_ascii_lowercase_def is_ascii_uppercase_def)
qed

text \<open>
  Property C27.  nginx compares the names of upstream blocks without regard to case, over the sites of all apps: two apps whose upstream
  names agree up to case are the same app.
\<close>

theorem upstream_names_differ:
  "to_ascii_lowercase (upstream_name a) = to_ascii_lowercase (upstream_name b) \<longleftrightarrow> a = b"
proof
  assume "to_ascii_lowercase (upstream_name a) = to_ascii_lowercase (upstream_name b)"
  then have "concat (map hex_byte (concat (map char_bytes a))) = concat (map hex_byte (concat (map char_bytes b)))"
    by (simp only: upstream_name_lowercase) (simp add: upstream_name_def)
  then have "concat (map char_bytes a) = concat (map char_bytes b)"
    by (rule hex_bytes_inj) (auto simp: list_all_iff dest: char_bytes_less)
  then show "a = b" by (rule char_bytes_inj)
qed simp

end
