(* ===== verification/Helper_Safety.thy ===== *)
theory Helper_Safety
  imports Route_Safety
begin

text \<open>
  What the router helper does to the disk, over \<open>Route_Frame\<close>: a change of an app's config is all or nothing, a request touches
  files of its own app only, private keys are readable by root only, and nobody but root and the deploy user is answered.
\<close>

section \<open>All or nothing\<close>

definition plan_ok :: "planned list \<Rightarrow> bool" where
  "plan_ok fs \<longleftrightarrow> distinct (map pn_path fs) \<and> (\<forall>f \<in> set fs. \<forall>g \<in> set fs. pn_path f \<noteq> staged (pn_path g))"

text \<open>A planned file is absent, or is a file with the mode the helper gives it.\<close>

definition entry_settled :: "u32 \<Rightarrow> node option \<Rightarrow> bool" where
  "entry_settled mode n = (case n of Some (FileNode m _) \<Rightarrow> m = mode | Some OtherNode \<Rightarrow> False | _ \<Rightarrow> True)"

definition settled :: "planned list \<Rightarrow> 'w site_disk \<Rightarrow> bool" where
  "settled fs d = list_all (\<lambda>f. entry_settled (pn_mode f) (node_at d (pn_path f))) fs"

lemma snapshot_take_nodes:
  assumes "snapshot_take h fs d = (r, d')"
  shows "node_at d' q = node_at d q"
    and "r = Inr sn \<Longrightarrow> settled fs d \<Longrightarrow> (p, m, c) \<in> set sn \<Longrightarrow> node_at d p = map_option (FileNode m) c"
proof -
  have "(\<forall>q. node_at d' q = node_at d q)
    \<and> (\<forall>sn p m c. r = Inr sn \<longrightarrow> settled fs d \<longrightarrow> (p, m, c) \<in> set sn \<longrightarrow> node_at d p = map_option (FileNode m) c)"
    using assms
  proof (induction fs arbitrary: d r d')
    case (Cons f fs)
    obtain r1 d1 where read: "sys_read h (pn_path f) d = (r1, d1)" by (metis prod.exhaust)
    obtain r2 d2 where rest: "snapshot_take h fs d1 = (r2, d2)" by (metis prod.exhaust)
    note nodes = sys_read_nodes [OF read]
    have same: "node_at d1 q = node_at d q" for q using nodes(1) .
    have settled1: "settled (f # fs) d \<Longrightarrow> settled fs d1" by (simp add: settled_def same)
    have found: "r1 = Inr c \<Longrightarrow> settled (f # fs) d \<Longrightarrow> node_at d (pn_path f) = Some (FileNode (pn_mode f) c)" for c
      using nodes(3) by (fastforce simp: settled_def entry_settled_def)
    note IH = Cons.IH [OF rest]
    show ?case
      using Cons.prems IH same settled1 found nodes(2)
      by (cases r1; cases r2) (auto simp: read rest site_then_def split: if_splits)
  qed (auto simp: settled_def)
  then show "node_at d' q = node_at d q"
    and "r = Inr sn \<Longrightarrow> settled fs d \<Longrightarrow> (p, m, c) \<in> set sn \<Longrightarrow> node_at d p = map_option (FileNode m) c"
    by blast+
qed

text \<open>Nothing but the entries at some paths changes.\<close>

definition touching :: "path set \<Rightarrow> 'w site_disk \<Rightarrow> 'w site_disk \<Rightarrow> bool" where
  "touching S d d' \<longleftrightarrow> (\<forall>q. q \<notin> S \<longrightarrow> node_at d' q = node_at d q)"

interpretation touch: site_frame "touching S" "\<lambda>p _. p \<in> S"
  by unfold_locales (auto simp: touching_def)

lemma ask_within:
  "within (touching {}) (check_and_reload h roots)" "within (touching {}) (site_err err (caddy_reload h croots))"
  by (intro touch.within_reload touch.within_err)+

text \<open>A failure that says the previous files could not be put back.\<close>

definition unrestored :: "reply_error \<Rightarrow> bool" where
  "unrestored e \<longleftrightarrow> (case e of AlsoNotRestored _ _ \<Rightarrow> True | _ \<Rightarrow> False)"

lemma unrestored_simps [simp]: "unrestored (AlsoNotRestored c e)" "\<not> unrestored (ErrorFiles x)" "\<not> unrestored (ErrorRun y)"
  "\<not> unrestored (ErrorRoute z)"
  by (simp_all add: unrestored_def)

text \<open>The reply of a change says what the disk holds.\<close>

lemma commit_with_outcome:
  assumes ok: "plan_ok fs" and settled: "settled fs d" and ask: "within (touching {}) ask"
    and run: "commit_with h ask fs d = (reply, d')" and f: "f \<in> set fs"
  shows "reply = ReplyOk b \<Longrightarrow> node_at d' (pn_path f) = map_option (FileNode (pn_mode f)) (pn_contents f)"
    and "reply = ReplyFailed st e \<Longrightarrow> \<not> unrestored e \<Longrightarrow> node_at d' (pn_path f) = node_at d (pn_path f)"
    and "reply \<noteq> ReplyStatus v"
proof -
  obtain r1 d1 where take1: "snapshot_take h fs d = (r1, d1)" by (metis prod.exhaust)
  obtain r2 d2 where inst: "install h fs d1 = (r2, d2)" by (metis prod.exhaust)
  obtain r3 d3 where asked: "ask d2 = (r3, d3)" by (metis prod.exhaust)
  note before = snapshot_take_nodes [OF take1]
  have restored: "node_at d'' (pn_path f) = node_at d (pn_path f)"
    if sn: "r1 = Inr sn" and undo: "restore_failures (write_file h) (remove_file h) sn d0 = ([], d'')" for sn d0 d''
  proof -
    have paths: "map (\<lambda>(p, m, c). (p, m)) sn = map (\<lambda>f. (pn_path f, pn_mode f)) fs"
      using snapshot_paths take1 sn by blast
    have "map fst (map (\<lambda>(p, m, c). (p, m)) sn) = map fst sn" by (simp add: comp_def case_prod_unfold)
    moreover have "map fst (map (\<lambda>f. (pn_path f, pn_mode f)) fs) = map pn_path fs" by (simp add: comp_def)
    ultimately have firsts: "map fst sn = map pn_path fs" using paths by simp
    have "distinct (map fst sn)" using ok firsts by (simp add: plan_ok_def)
    moreover have "fst a \<noteq> staged (fst b)" if "a \<in> set sn" "b \<in> set sn" for a b
    proof -
      have "fst a \<in> set (map pn_path fs)" "fst b \<in> set (map pn_path fs)" using that firsts by (metis image_eqI set_map)+
      then obtain f1 g1 where "f1 \<in> set fs" "g1 \<in> set fs" "fst a = pn_path f1" "fst b = pn_path g1" by auto
      then show ?thesis using ok by (simp add: plan_ok_def)
    qed
    moreover obtain c where entry: "(pn_path f, pn_mode f, c) \<in> set sn"
    proof -
      have "(pn_path f, pn_mode f) \<in> set (map (\<lambda>(p, m, c). (p, m)) sn)" unfolding paths using f by auto
      then show thesis using that by auto
    qed
    ultimately have "node_at d'' (pn_path f) = map_option (FileNode (pn_mode f)) c"
      using site_disk_store.restore_ok [OF undo] by blast
    then show ?thesis using before(2) [OF sn settled entry] by simp
  qed
  have undone: "node_at d'' (pn_path f) = node_at d (pn_path f)"
    if "r1 = Inr sn" "rolled_back h sn st cause d0 = (ReplyFailed st' e, d'')" "\<not> unrestored e" for sn st cause d0 st' e d''
    using that restored by (auto simp: rolled_back_def snapshot_restore_def split: prod.splits list.splits)
  have failed: "\<exists>st' e d''. rolled_back h sn st cause d0 = (ReplyFailed st' e, d'')" for sn st cause d0
    by (auto simp: rolled_back_def split: prod.splits sum.splits)
  show "reply = ReplyOk b \<Longrightarrow> node_at d' (pn_path f) = map_option (FileNode (pn_mode f)) (pn_contents f)"
  proof -
    assume "reply = ReplyOk b"
    moreover obtain sn where "r1 = Inr sn" using run calculation by (cases r1) (auto simp: commit_with_def take1)
    moreover have "rolled_back h sn st cause d0 \<noteq> (ReplyOk b, d')" for st cause d0 using failed [of sn st cause d0] by auto
    ultimately have "r2 = Inr ()" "r3 = Inr ()" "d' = d3"
      using run by (auto simp: commit_with_def take1 inst asked split: sum.splits prod.splits)
    moreover from this have "node_at d2 (pn_path f) = map_option (FileNode (pn_mode f)) (pn_contents f)"
      using site_disk_store.install_ok [of h fs d1 "()" d2 f] inst ok f by (simp add: install_def plan_ok_def)
    ultimately show ?thesis using withinD [OF ask asked] by (simp add: touching_def)
  qed
  show "reply = ReplyFailed st e \<Longrightarrow> \<not> unrestored e \<Longrightarrow> node_at d' (pn_path f) = node_at d (pn_path f)"
    using run before(1) undone
    by (cases r1; cases r2; cases r3) (auto simp: commit_with_def take1 inst asked split: prod.splits)
  show "reply \<noteq> ReplyStatus v"
    using run failed by (cases r1; cases r2; cases r3) (auto simp: commit_with_def take1 inst asked split: prod.splits, (metis fst_conv helper_reply.distinct(5))+)
qed

section \<open>The paths of an app\<close>

definition etc_riku :: "string \<Rightarrow> path" where
  "etc_riku dir = [RootDir, Normal ''etc'', Normal ''riku'', Normal dir]"

lemma production_dirs:
  "ng_site_root (production_nginx g s i) = etc_riku ''nginx''" "ng_cert_root (production_nginx g s i) = etc_riku ''certs''"
  "cy_site_root (production_caddy g) = etc_riku ''caddy''"
  unfolding production_nginx_def production_caddy_def by simp_all code_simp+

lemma etc_riku_join: "path_join (etc_riku dir) [Normal n] = etc_riku dir @ [Normal n]"
  "path_join (etc_riku dir @ [Normal m]) [Normal n] = etc_riku dir @ [Normal m, Normal n]"
  by (simp_all add: etc_riku_def path_join_def is_absolute_def)

lemma staged_etc_riku: "staged (etc_riku dir @ ns @ [Normal n]) = etc_riku dir @ ns @ [Normal (n @ ''.new'')]"
  by (simp add: staged_def etc_riku_def)

lemma app_paths:
  assumes "app_name_try_from raw = Inr app"
  shows "site_file (production_nginx g s i) app = etc_riku ''nginx'' @ [Normal (raw @ ''.conf'')]"
    and "cert_dir (production_nginx g s i) app = etc_riku ''certs'' @ [Normal raw]"
    and "caddy_site_file (production_caddy g) app = etc_riku ''caddy'' @ [Normal (raw @ ''.caddy'')]"
  using assms app_name_components [OF assms, of "''.conf''"] app_name_components [OF assms, of "[]"]
    app_name_components [OF assms, of "''.caddy''"]
  by (simp_all add: site_file_def cert_dir_def caddy_site_file_def production_dirs etc_riku_join app_name_Inr)

text \<open>The files the helper keeps for an app, and the directories above them.\<close>

definition app_files :: "string \<Rightarrow> path list" where
  "app_files raw =
     [etc_riku ''certs'' @ [Normal raw, Normal ''key.pem''], etc_riku ''certs'' @ [Normal raw, Normal ''fullchain.pem''],
      etc_riku ''nginx'' @ [Normal (raw @ ''.conf'')], etc_riku ''caddy'' @ [Normal (raw @ ''.caddy'')]]"

definition app_dirs :: "string \<Rightarrow> path list" where
  "app_dirs raw = ancestors (etc_riku ''nginx'') @ ancestors (etc_riku ''certs'' @ [Normal raw])"

lemma nginx_plan_paths:
  assumes "app_name_try_from raw = Inr app"
  shows "map pn_path (nginx_plan (production_nginx g s i) app config tls) = take 3 (app_files raw)"
    and "map pn_path (caddy_plan (production_caddy g) app site) = drop 3 (app_files raw)"
  by (simp_all add: nginx_plan_def caddy_plan_def app_paths [OF assms] etc_riku_join app_files_def KEY_FILE_def CERTIFICATE_FILE_def)

lemma staged_app_files:
  "map staged (app_files raw) =
     [etc_riku ''certs'' @ [Normal raw, Normal ''key.pem.new''], etc_riku ''certs'' @ [Normal raw, Normal ''fullchain.pem.new''],
      etc_riku ''nginx'' @ [Normal (raw @ ''.conf.new'')], etc_riku ''caddy'' @ [Normal (raw @ ''.caddy.new'')]]"
  using staged_etc_riku [of _ "[]"] staged_etc_riku [of _ "[Normal raw]"] by (simp add: app_files_def)

lemma app_plans_ok:
  assumes "app_name_try_from raw = Inr app"
  shows "plan_ok (nginx_plan (production_nginx g s i) app config tls)" and "plan_ok (caddy_plan (production_caddy g) app site)"
proof -
  have "distinct (app_files raw)" "set (app_files raw) \<inter> staged ` set (app_files raw) = {}"
    using arg_cong [OF staged_app_files, of set raw] by (auto simp: app_files_def etc_riku_def)
  then have ok: "plan_ok fs" if "map pn_path fs = take 3 (app_files raw) \<or> map pn_path fs = drop 3 (app_files raw)" for fs
  proof -
    have "set (map pn_path fs) \<subseteq> set (app_files raw)" using that set_take_subset set_drop_subset by metis
    moreover have "distinct (map pn_path fs)" using that \<open>distinct (app_files raw)\<close> by (metis distinct_take distinct_drop)
    ultimately show ?thesis using \<open>set (app_files raw) \<inter> _ = {}\<close> unfolding plan_ok_def by fastforce
  qed
  show "plan_ok (nginx_plan (production_nginx g s i) app config tls)" "plan_ok (caddy_plan (production_caddy g) app site)"
    using ok nginx_plan_paths [OF assms] by simp_all
qed

lemma ancestors_etc_riku:
  "ancestors (etc_riku dir) = [etc_riku dir, [RootDir, Normal ''etc'', Normal ''riku''], [RootDir, Normal ''etc''], [RootDir]]"
  "ancestors (etc_riku dir @ [Normal n]) = (etc_riku dir @ [Normal n]) # ancestors (etc_riku dir)"
  by (simp_all add: ancestors.simps [of "[RootDir]"] ancestors.simps [of "[RootDir, Normal x]" for x]
      ancestors.simps [of "[RootDir, Normal x, Normal y]" for x y] ancestors.simps [of "[RootDir, Normal x, Normal y, Normal z]" for x y z]
      ancestors.simps [of "[RootDir, Normal x, Normal y, Normal z, Normal w]" for x y z w] path_parent_def etc_riku_def)

lemma app_files_not_dirs: "p \<in> set (app_files other) \<Longrightarrow> p \<notin> set (app_dirs raw)"
  unfolding app_files_def app_dirs_def ancestors_etc_riku by (auto simp: etc_riku_def)

lemma touch_ensure_dir: "set (ancestors p) \<subseteq> S \<Longrightarrow> within (touching S) (ensure_dir h p m owner)"
  by (rule touch.within_ensure_dir) (auto simp: touch.may_make_def)

lemma prepare_dirs_nodes:
  assumes app: "app_name_try_from raw = Inr app" and run: "prepare_dirs h (production_nginx g s i) app tls d = (r, d')"
  shows "touching (set (app_dirs raw)) d d'"
proof -
  have "within (touching (set (app_dirs raw))) (prepare_dirs h (production_nginx g s i) app tls)"
    unfolding prepare_dirs_def
    by (intro touch.within_each)
      (auto split: if_splits intro!: touch_ensure_dir simp: production_dirs app_paths [OF app] app_dirs_def ancestors_etc_riku)
  then show ?thesis using run by (rule withinD)
qed

definition app_settled :: "string \<Rightarrow> 'w site_disk \<Rightarrow> bool" where
  "app_settled raw d =
     list_all (\<lambda>(p, mode). entry_settled mode (node_at d p))
       (zip (app_files raw) [PRIVATE_FILE, PUBLIC_FILE, PUBLIC_FILE, SITE_FILE])"

lemma app_settled_plans:
  assumes app: "app_name_try_from raw = Inr app" and "app_settled raw d"
  shows "settled (nginx_plan (production_nginx g s i) app config tls) d" and "settled (caddy_plan (production_caddy g) app site) d"
  using assms(2)
  by (auto simp: app_settled_def settled_def app_files_def nginx_plan_def caddy_plan_def app_paths [OF app] etc_riku_join
      KEY_FILE_def CERTIFICATE_FILE_def)

lemma app_settled_cong:
  assumes "app_settled raw d" and "\<And>p. p \<in> set (app_files raw) \<Longrightarrow> node_at d' p = node_at d p"
  shows "app_settled raw d'"
  using assms by (simp add: app_settled_def app_files_def)

lemma apply_nginx_cases:
  assumes app: "app_name_try_from raw = Inr app" and run: "apply_nginx h lib tera (production_nginx g s i) app route d = (reply, d')"
  obtains st e where "reply = ReplyFailed st e" "touching (set (app_dirs raw)) d d'"
  | accepted config d1 where "check_nginx_route lib app route = Inr (CheckedRoute accepted)"
      "render_nginx tera (production_nginx g s i) app accepted = Inr config" "touching (set (app_dirs raw)) d d1"
      "commit_nginx h (production_nginx g s i) (nginx_plan (production_nginx g s i) app (Some config)
         (if ro_https accepted = Only then ro_tls accepted else None)) d1 = (reply, d')"
proof -
  note dirs = prepare_dirs_nodes [OF app]
  have same: "touching S d d" for S by (simp add: touching_def)
  show thesis
  proof (cases "check_nginx_route lib app route")
    case (Inl e)
    then show thesis using run same by (intro that(1)) (auto simp: apply_nginx_def)
  next
    case (Inr c)
    obtain accepted where c: "c = CheckedRoute accepted" by (cases c)
    let ?tls = "if ro_https accepted = Only then ro_tls accepted else None"
    obtain r1 d1 where made: "prepare_dirs h (production_nginx g s i) app (?tls \<noteq> None) d = (r1, d1)" by (metis prod.exhaust)
    show thesis
      using run that same Inr c made dirs [OF made]
      by (cases r1; cases "render_nginx tera (production_nginx g s i) app accepted") (auto simp: apply_nginx_def Let_def)
  qed
qed

lemma nginx_outcome:
  assumes app: "app_name_try_from raw = Inr app" and settled: "app_settled raw d"
    and run: "apply_nginx h lib tera (production_nginx g s i) app route d = (reply, d')"
  shows "reply = ReplyFailed st e \<Longrightarrow> \<not> unrestored e \<Longrightarrow> p \<in> set (take 3 (app_files raw)) \<Longrightarrow> node_at d' p = node_at d p"
    and "reply = ReplyOk b \<Longrightarrow> \<exists>accepted config tls. check_nginx_route lib app route = Inr (CheckedRoute accepted)
      \<and> render_nginx tera (production_nginx g s i) app accepted = Inr config
      \<and> tls = (if ro_https accepted = Only then ro_tls accepted else None)
      \<and> node_at d' (etc_riku ''nginx'' @ [Normal (raw @ ''.conf'')]) = Some (FileNode PUBLIC_FILE config)
      \<and> node_at d' (etc_riku ''certs'' @ [Normal raw, Normal ''key.pem'']) = map_option (FileNode PRIVATE_FILE \<circ> tls_key_pem) tls
      \<and> node_at d' (etc_riku ''certs'' @ [Normal raw, Normal ''fullchain.pem'']) = map_option (FileNode PUBLIC_FILE \<circ> tls_cert_pem) tls"
proof -
  let ?roots = "production_nginx g s i"
  have outcome: "(\<forall>st e. reply = ReplyFailed st e \<longrightarrow> \<not> unrestored e \<longrightarrow> (\<forall>p \<in> set (take 3 (app_files raw)). node_at d' p = node_at d p))
    \<and> (\<forall>b. reply = ReplyOk b \<longrightarrow> (\<forall>f \<in> set plan. node_at d' (pn_path f) = map_option (FileNode (pn_mode f)) (pn_contents f)))"
    if dirs: "touching (set (app_dirs raw)) d d1" and com: "commit_nginx h ?roots plan d1 = (reply, d')"
      and plan: "plan = nginx_plan ?roots app (Some config) tls" for d1 plan config tls
  proof -
    have same: "node_at d1 p = node_at d p" if "p \<in> set (app_files raw)" for p
      using dirs app_files_not_dirs [OF that] by (simp add: touching_def)
    have "app_settled raw d1" using settled same by (rule app_settled_cong)
    then have ok: "plan_ok plan" "settled plan d1"
      unfolding plan by (simp_all add: app_plans_ok [OF app] app_settled_plans [OF app])
    note result = commit_with_outcome [OF ok ask_within(1) com [unfolded commit_nginx_def]]
    have paths: "pn_path ` set plan = set (take 3 (app_files raw))"
      using nginx_plan_paths(1) [OF app, of g s i "Some config" tls] unfolding plan by (metis list.set_map)
    have "node_at d' p = node_at d p"
      if p: "p \<in> set (take 3 (app_files raw))" and failed: "reply = ReplyFailed st e" "\<not> unrestored e" for p st e
    proof -
      obtain f where "f \<in> set plan" "p = pn_path f" using p unfolding paths [symmetric] by blast
      then show ?thesis using result(2) [OF _ failed] same [OF in_set_takeD [OF p]] by simp
    qed
    then show ?thesis using result(1) by blast
  qed
  show "reply = ReplyFailed st e \<Longrightarrow> \<not> unrestored e \<Longrightarrow> p \<in> set (take 3 (app_files raw)) \<Longrightarrow> node_at d' p = node_at d p"
  proof -
    assume failed: "reply = ReplyFailed st e" "\<not> unrestored e" and p: "p \<in> set (take 3 (app_files raw))"
    have untouched: "touching (set (app_dirs raw)) d d' \<Longrightarrow> node_at d' p = node_at d p"
      using app_files_not_dirs [OF in_set_takeD [OF p]] by (simp add: touching_def)
    show ?thesis
    proof (rule apply_nginx_cases [OF app run])
      fix accepted config d1
      let ?plan = "nginx_plan ?roots app (Some config) (if ro_https accepted = Only then ro_tls accepted else None)"
      assume "touching (set (app_dirs raw)) d d1" "commit_nginx h ?roots ?plan d1 = (reply, d')"
      from outcome [OF this refl] show ?thesis using failed p by blast
    qed (rule untouched)
  qed
  show "reply = ReplyOk b \<Longrightarrow> \<exists>accepted config tls. check_nginx_route lib app route = Inr (CheckedRoute accepted)
      \<and> render_nginx tera ?roots app accepted = Inr config
      \<and> tls = (if ro_https accepted = Only then ro_tls accepted else None)
      \<and> node_at d' (etc_riku ''nginx'' @ [Normal (raw @ ''.conf'')]) = Some (FileNode PUBLIC_FILE config)
      \<and> node_at d' (etc_riku ''certs'' @ [Normal raw, Normal ''key.pem'']) = map_option (FileNode PRIVATE_FILE \<circ> tls_key_pem) tls
      \<and> node_at d' (etc_riku ''certs'' @ [Normal raw, Normal ''fullchain.pem'']) = map_option (FileNode PUBLIC_FILE \<circ> tls_cert_pem) tls"
  proof -
    assume reply: "reply = ReplyOk b"
    obtain accepted config d1 where steps: "check_nginx_route lib app route = Inr (CheckedRoute accepted)"
      "render_nginx tera ?roots app accepted = Inr config" "touching (set (app_dirs raw)) d d1"
      "commit_nginx h ?roots (nginx_plan ?roots app (Some config) (if ro_https accepted = Only then ro_tls accepted else None)) d1 = (reply, d')"
      by (rule apply_nginx_cases [OF app run]) (use reply in auto)
    then show ?thesis
      using outcome [OF steps(3,4) refl] reply
      by (intro exI [of _ accepted] exI [of _ config] exI [of _ "if ro_https accepted = Only then ro_tls accepted else None"])
        (auto simp: nginx_plan_def app_paths [OF app] etc_riku_join KEY_FILE_def CERTIFICATE_FILE_def option.map_comp)
  qed
qed

lemma remove_nginx_outcome:
  assumes app: "app_name_try_from raw = Inr app" and settled: "app_settled raw d"
    and run: "remove_nginx h (production_nginx g s i) app d = (reply, d')" and p: "p \<in> set (take 3 (app_files raw))"
  shows "reply = ReplyFailed st e \<Longrightarrow> \<not> unrestored e \<Longrightarrow> node_at d' p = node_at d p"
    and "reply = ReplyOk b \<Longrightarrow> node_at d' p = None"
proof -
  let ?roots = "production_nginx g s i"
  let ?plan = "nginx_plan ?roots app None None"
  obtain r1 d1 where take1: "snapshot_take h ?plan d = (r1, d1)" by (metis prod.exhaust)
  obtain r2 d2 where com: "commit_nginx h ?roots ?plan d1 = (r2, d2)" by (metis prod.exhaust)
  have "p \<in> set (map pn_path ?plan)" unfolding nginx_plan_paths [OF app] by (rule p)
  moreover have "\<forall>f \<in> set ?plan. pn_contents f = None" by (simp add: nginx_plan_def)
  ultimately obtain f where f: "f \<in> set ?plan" "p = pn_path f" "pn_contents f = None" by auto
  note before = snapshot_take_nodes [OF take1]
  have "app_settled raw d1" using app_settled_cong [OF settled] before(1) by blast
  then have ok: "plan_ok ?plan" "settled ?plan d1" by (simp_all add: app_plans_ok [OF app] app_settled_plans [OF app])
  note result = commit_with_outcome [OF ok ask_within(1) com [unfolded commit_nginx_def] f(1)]
  have absent: "node_at d p = None" if "r1 = Inr sn" "snapshot_is_empty sn" for sn
  proof -
    have "(pn_path f, pn_mode f) \<in> set (map (\<lambda>(p, m, c). (p, m)) sn)"
      unfolding snapshot_paths [OF take1 [unfolded that(1)]] using f(1) by auto
    then obtain c where "(p, pn_mode f, c) \<in> set sn" using f(2) by auto
    moreover from this have "c = None" using that(2) by (auto simp: snapshot_is_empty_def list_all_iff)
    ultimately show ?thesis using before(2) [OF that(1) app_settled_plans(1) [OF app settled]] by fastforce
  qed
  have rmdir: "node_at (snd (sys_rmdir h dir d0)) p = node_at d0 p" if "p \<noteq> dir" for dir d0
    using that touch.within_rmdir [where S = "{dir}"] by (auto simp: within_def touching_def)
  have "p \<noteq> cert_dir ?roots app" using p by (auto simp: app_files_def app_paths [OF app] etc_riku_def)
  note rmdir = rmdir [OF this]
  show "reply = ReplyFailed st e \<Longrightarrow> \<not> unrestored e \<Longrightarrow> node_at d' p = node_at d p"
    using run result(2) before(1) f(2) com
    by (cases r2) (auto simp: remove_nginx_def Let_def take1 com split: sum.splits if_splits)
  show "reply = ReplyOk b \<Longrightarrow> node_at d' p = None"
    using run result(1) before(1) f(2,3) absent rmdir
    by (cases r2) (auto simp: remove_nginx_def Let_def take1 com split: sum.splits if_splits)
qed

lemma caddy_outcome:
  assumes app: "app_name_try_from raw = Inr app" and settled: "app_settled raw d"
    and run: "apply_caddy h (production_caddy g) app route d = (reply, d') \<or> remove_caddy h (production_caddy g) app d = (reply, d')"
  shows "reply = ReplyFailed st e \<Longrightarrow> \<not> unrestored e
    \<Longrightarrow> node_at d' (etc_riku ''caddy'' @ [Normal (raw @ ''.caddy'')]) = node_at d (etc_riku ''caddy'' @ [Normal (raw @ ''.caddy'')])"
proof -
  let ?roots = "production_caddy g" and ?file = "etc_riku ''caddy'' @ [Normal (raw @ ''.caddy'')]"
  assume failed: "reply = ReplyFailed st e" "\<not> unrestored e"
  have commit: "node_at d' ?file = node_at d ?file"
    if same: "\<And>q. node_at d1 q = node_at d q" and com: "commit_caddy h ?roots (caddy_plan ?roots app site) d1 = (reply, d')" for d1 site
  proof -
    have "app_settled raw d1" using app_settled_cong [OF settled] same by blast
    then have ok: "plan_ok (caddy_plan ?roots app site)" "settled (caddy_plan ?roots app site) d1"
      by (simp_all add: app_plans_ok [OF app] app_settled_plans [OF app])
    show ?thesis
      using commit_with_outcome(2) [OF ok ask_within(2) com [unfolded commit_caddy_def], of "hd (caddy_plan ?roots app site)"] failed same
      by (simp add: caddy_plan_def app_paths [OF app])
  qed
  note dir = check_write_dir_nodes(1)
  show ?thesis
    using run
  proof
    assume step: "apply_caddy h ?roots app route d = (reply, d')"
    obtain r2 d2 where check: "check_write_dir h (cy_site_root ?roots) (cy_owner_uid ?roots) d = (r2, d2)" by (metis prod.exhaust)
    have same: "node_at d2 q = node_at d q" for q using dir [OF check] .
    show ?thesis using step commit [OF same] failed same
      by (auto simp: apply_caddy_def check split: sum.splits checked_route.splits)
  next
    assume step: "remove_caddy h ?roots app d = (reply, d')"
    obtain r1 d1 where take1: "snapshot_take h (caddy_plan ?roots app None) d = (r1, d1)" by (metis prod.exhaust)
    obtain r2 d2 where check: "check_write_dir h (cy_site_root ?roots) (cy_owner_uid ?roots) d1 = (r2, d2)" by (metis prod.exhaust)
    have "node_at d1 q = node_at d q" "node_at d2 q = node_at d q" for q
      using snapshot_take_nodes(1) [OF take1] dir [OF check] by simp_all
    then show ?thesis using step commit [of d2 None] failed
      by (auto simp: remove_caddy_def Let_def take1 check split: sum.splits if_splits)
  qed
qed

lemma nginx_asked:
  assumes "check_and_reload h roots d = (Inr u, d')"
  shows "dk_nodes d' = dk_nodes d"
    and "\<exists>w err w'. rh_run h (NginxCheck (ng_nginx roots)) (dk_nodes d') w = (Exited True err, w')"
    and "\<exists>w err w'. rh_run h (case ng_reload roots of Systemctl p \<Rightarrow> SystemctlReload p | Signal \<Rightarrow> NginxSignal (ng_nginx roots))
           (dk_nodes d') w = (Exited True err, w')"
proof -
  have one: "dk_nodes d2 = dk_nodes d1 \<and> (r = Inr () \<longrightarrow> (\<exists>err w'. rh_run h program (dk_nodes d1) (dk_world d1) = (Exited True err, w')))"
    if "run_program h program what d1 = (r, d2)" for program what d1 r d2
    using that by (auto simp: run_program_def split: prod.splits program_output.splits if_splits)
  obtain r1 d1 where check: "check_config h roots d = (r1, d1)" by (metis prod.exhaust)
  obtain r2 d2 where reload: "nginx_reload h roots d1 = (r2, d2)" by (metis prod.exhaust)
  have both: "r1 = Inr ()" "r2 = Inr ()" "d2 = d'"
    using assms by (cases r1; cases r2; auto simp: check_and_reload_def site_then_def site_err_def check reload)+
  have first: "dk_nodes d1 = dk_nodes d" "\<exists>err w'. rh_run h (NginxCheck (ng_nginx roots)) (dk_nodes d) (dk_world d) = (Exited True err, w')"
    using one check both(1) unfolding check_config_def by blast+
  have second: "dk_nodes d' = dk_nodes d1"
    "\<exists>err w'. rh_run h (case ng_reload roots of Systemctl p \<Rightarrow> SystemctlReload p | Signal \<Rightarrow> NginxSignal (ng_nginx roots))
       (dk_nodes d1) (dk_world d1) = (Exited True err, w')"
    using reload both unfolding nginx_reload_def by (cases "ng_reload roots"; simp; use one in blast)+
  show "dk_nodes d' = dk_nodes d" using first(1) second(1) by simp
  show "\<exists>w err w'. rh_run h (NginxCheck (ng_nginx roots)) (dk_nodes d') w = (Exited True err, w')"
    using first second(1) by auto
  show "\<exists>w err w'. rh_run h (case ng_reload roots of Systemctl p \<Rightarrow> SystemctlReload p | Signal \<Rightarrow> NginxSignal (ng_nginx roots))
      (dk_nodes d') w = (Exited True err, w')"
    using second by auto
qed

lemma commit_nginx_asked:
  assumes "commit_nginx h roots fs d = (ReplyOk b, d')"
  obtains d2 where "check_and_reload h roots d2 = (Inr (), d')"
  using assms
  by (auto simp: commit_nginx_def commit_with_def rolled_back_def split: prod.splits sum.splits)

text \<open>A small host for the examples: no system call fails and every program exits as told.\<close>

definition calm_host :: "bool \<Rightarrow> unit route_host" where
  "calm_host accepts = \<lparr>rh_fault = (\<lambda>_ w. (None, w)), rh_short = (\<lambda>_ _. 0), rh_other_read = (\<lambda>_ _. Inl []),
     rh_other_is_dir = (\<lambda>_ _. None), rh_run = (\<lambda>_ _ w. (Exited accepts [], w)), rh_euid = 0\<rparr>"

definition shop_disk :: "unit site_disk" where
  "shop_disk = \<lparr>dk_nodes =
     [([RootDir], DirNode 0 PUBLIC_DIR), ([RootDir, Normal ''etc''], DirNode 0 PUBLIC_DIR),
      ([RootDir, Normal ''etc'', Normal ''riku''], DirNode 0 PUBLIC_DIR), (etc_riku ''nginx'', DirNode 0 PUBLIC_DIR),
      (etc_riku ''nginx'' @ [Normal ''shop.conf''], FileNode PUBLIC_FILE ''old'')], dk_world = ()\<rparr>"

definition shop_programs :: reload_programs where
  "shop_programs = \<lparr>rg_systemctl = [], rg_caddy = [], rg_nginx = []\<rparr>"

definition shop_tera :: tera_engine where
  "shop_tera = \<lparr>te_register = Inr (), te_render = (\<lambda>_ _. Inr ''new'')\<rparr>"

definition shop_helper :: "bool \<Rightarrow> unit helper" where
  "shop_helper accepts = \<lparr>hp_host = calm_host accepts, hp_tls = no_tls, hp_tera = shop_tera,
     hp_codec = \<lparr>jc_object = (\<lambda>_. Inl []), jc_u64 = (\<lambda>_. None), jc_request = (\<lambda>_. Inl []), jc_reply = (\<lambda>_. Inl [])\<rparr>,
     hp_nginx = production_nginx shop_programs True False, hp_caddy = production_caddy shop_programs,
     hp_version = ''1'', hp_deploy_uid = 1000\<rparr>"

lemma shop_settled: "app_settled ''shop'' shop_disk"
  by code_simp

text \<open>
  Property C9.  A request the helper answers with a failure leaves every file it keeps for the app as it was, content and mode, unless
  the reply says that the previous files could not be put back.  The files are assumed to be absent or as the helper writes them; the
  roots are those of a real host, system calls may fail at any point, and the routers may refuse the config or the reload.
\<close>

theorem failed_request_changes_no_file:
  assumes "hp_nginx hp = production_nginx programs systemd inet" and "hp_caddy hp = production_caddy programs"
    and "request = RequestApply raw router route \<or> request = RequestRemove raw router"
    and "app_settled raw d" and "answer hp request d = (ReplyFailed stage e, d')" and "\<not> unrestored e"
    and "p \<in> set (case router of KindNginx \<Rightarrow> take 3 (app_files raw) | KindCaddy \<Rightarrow> drop 3 (app_files raw))"
  shows "node_at d' p = node_at d p"
proof (cases "app_name_try_from raw")
  case (Inl x)
  then show ?thesis using assms(3,5) by (auto simp: answer_def app_checked_def)
next
  case (Inr app)
  note outcomes = nginx_outcome(1) [OF Inr assms(4) _ refl assms(6)] remove_nginx_outcome(1) [OF Inr assms(4) _ _ refl assms(6)]
    caddy_outcome [OF Inr assms(4) _ refl assms(6)]
  show ?thesis
  proof (cases router)
    case KindNginx
    then have p: "p \<in> set (take 3 (app_files raw))" using assms(7) by simp
    have "(\<exists>route. apply_nginx (hp_host hp) (hp_tls hp) (hp_tera hp) (hp_nginx hp) app route d = (ReplyFailed stage e, d'))
        \<or> remove_nginx (hp_host hp) (hp_nginx hp) app d = (ReplyFailed stage e, d')"
      using assms(3,5) KindNginx Inr by (auto simp: answer_def app_checked_def)
    then show ?thesis using outcomes(1,2) p unfolding assms(1) by blast
  next
    case KindCaddy
    then have p: "p = etc_riku ''caddy'' @ [Normal (raw @ ''.caddy'')]" using assms(7) by (simp add: app_files_def)
    have "\<exists>route. apply_caddy (hp_host hp) (hp_caddy hp) app route d = (ReplyFailed stage e, d')
        \<or> remove_caddy (hp_host hp) (hp_caddy hp) app d = (ReplyFailed stage e, d')"
      using assms(3,5) KindCaddy Inr by (auto simp: answer_def app_checked_def)
    then show ?thesis using outcomes(3) p unfolding assms(2) by blast
  qed
qed

lemma shop_removal_refused:
  "\<exists>e d'. answer (shop_helper False) (RequestRemove ''shop'' KindNginx) shop_disk = (ReplyFailed StageCheck e, d') \<and> \<not> unrestored e"
proof -
  have "case fst (answer (shop_helper False) (RequestRemove ''shop'' KindNginx) shop_disk) of
      ReplyFailed st e \<Rightarrow> st = StageCheck \<and> \<not> unrestored e | _ \<Rightarrow> False"
    by code_simp
  then show ?thesis
    by (cases "answer (shop_helper False) (RequestRemove ''shop'' KindNginx) shop_disk") (auto split: helper_reply.splits)
qed

theorem failed_request_changes_no_file_witness:
  "\<exists>e d'. answer (shop_helper False) (RequestRemove ''shop'' KindNginx) shop_disk = (ReplyFailed StageCheck e, d')
     \<and> node_at d' (etc_riku ''nginx'' @ [Normal ''shop.conf'']) = Some (FileNode PUBLIC_FILE ''old'')"
proof -
  obtain e d' where run: "answer (shop_helper False) (RequestRemove ''shop'' KindNginx) shop_disk = (ReplyFailed StageCheck e, d')"
    and e: "\<not> unrestored e" using shop_removal_refused by blast
  have "node_at d' (etc_riku ''nginx'' @ [Normal ''shop.conf'']) = node_at shop_disk (etc_riku ''nginx'' @ [Normal ''shop.conf''])"
    by (rule failed_request_changes_no_file [where programs = shop_programs and systemd = True and inet = False,
          OF _ _ disjI2 [OF refl] shop_settled run e]) (simp_all add: shop_helper_def app_files_def)
  moreover have "node_at shop_disk (etc_riku ''nginx'' @ [Normal ''shop.conf'']) = Some (FileNode PUBLIC_FILE ''old'')"
    by (simp add: node_at_def shop_disk_def etc_riku_def)
  ultimately show ?thesis using run by auto
qed


lemma shop_applied:
  "\<exists>d'. apply_nginx (calm_host True) no_tls shop_tera (production_nginx shop_programs True False) (AppName ''shop'') shop_route shop_disk
     = (ReplyOk True, d')"
proof -
  let ?roots = "production_nginx shop_programs True False"
  have "gate_common shop_route = Inr ()" using shop_route_accepted by (auto simp: check_nginx_route_Inr)
  then obtain ctx where "build_context (route_site_of ?roots (AppName ''shop'') shop_route) = Inr ctx"
    using accepted_context [OF shop_app _ production_roots_safe] by blast
  then have render: "render_nginx shop_tera ?roots (AppName ''shop'') shop_route = Inr ''new''"
    by (simp add: render_nginx_def render_route_site_def shop_tera_def)
  have "case prepare_dirs (calm_host True) ?roots (AppName ''shop'') False shop_disk of
      (Inr _, d1) \<Rightarrow> fst (commit_nginx (calm_host True) ?roots (nginx_plan ?roots (AppName ''shop'') (Some ''new'') None) d1) = ReplyOk True
    | _ \<Rightarrow> False"
    by code_simp
  then obtain d1 d2 where "prepare_dirs (calm_host True) ?roots (AppName ''shop'') False shop_disk = (Inr (), d1)"
    "commit_nginx (calm_host True) ?roots (nginx_plan ?roots (AppName ''shop'') (Some ''new'') None) d1 = (ReplyOk True, d2)"
    by (auto split: prod.splits sum.splits) (metis prod.collapse)
  moreover have "ro_https shop_route = AlsoPlainHttp" by (simp add: shop_route_def)
  ultimately show ?thesis by (simp add: apply_nginx_def shop_route_accepted render)
qed


section \<open>Requests touch the files of their own app\<close>

text \<open>Everything the helper can touch for an app: its files, their staged siblings, and the directories above them.\<close>

definition app_entries :: "string \<Rightarrow> path set" where
  "app_entries raw = set (app_files raw) \<union> staged ` set (app_files raw) \<union> set (app_dirs raw)"

lemma app_may_act:
  assumes app: "app_name_try_from raw = Inr app"
  shows "touch.nginx_ok (app_entries raw) (production_nginx g s i) app" and "touch.caddy_ok (app_entries raw) (production_caddy g) app"
  unfolding touch.nginx_ok_def touch.caddy_ok_def touch.may_make_def touch.may_write_def
    app_paths [OF app] production_dirs etc_riku_join app_entries_def app_dirs_def ancestors_etc_riku
  by (auto simp: app_files_def KEY_FILE_def CERTIFICATE_FILE_def)

lemma answer_touches:
  assumes "hp_nginx hp = production_nginx programs systemd inet" and "hp_caddy hp = production_caddy programs"
    and "request = RequestApply raw router route \<or> request = RequestRemove raw router"
  shows "touching (app_entries raw) d (snd (answer hp request d))"
proof (cases "app_name_try_from raw")
  case (Inl e)
  then show ?thesis using assms(3) by (auto simp: answer_def app_checked_def touching_def)
next
  case (Inr app)
  have "within (touching (app_entries raw)) (apply_nginx (hp_host hp) (hp_tls hp) (hp_tera hp) (hp_nginx hp) app route)"
    "within (touching (app_entries raw)) (remove_nginx (hp_host hp) (hp_nginx hp) app)"
    "within (touching (app_entries raw)) (apply_caddy (hp_host hp) (hp_caddy hp) app route)"
    "within (touching (app_entries raw)) (remove_caddy (hp_host hp) (hp_caddy hp) app)"
    unfolding assms(1,2) by (intro touch.within_nginx touch.within_caddy app_may_act [OF Inr])+
  then show ?thesis
    using assms(3) Inr by (cases router) (auto simp: answer_def app_checked_def within_def)
qed

lemma app_entries_apart:
  assumes "raw \<noteq> other" and "p \<in> set (app_files other)"
  shows "p \<notin> app_entries raw"
proof -
  have "p \<notin> set (app_files raw)" using assms by (auto simp: app_files_def etc_riku_def)
  moreover have "p \<notin> set (map staged (app_files raw))"
    using assms(2) unfolding staged_app_files
    by (auto simp: app_files_def etc_riku_def)
  ultimately show ?thesis using app_files_not_dirs [OF assms(2)] by (auto simp: app_entries_def)
qed

text \<open>The app the helper acts for on a connection: none for a peer it refuses, for a request it cannot read and for a status request.\<close>

definition asked_app :: "'w helper \<Rightarrow> connection \<Rightarrow> string option" where
  "asked_app hp conn =
     (case co_peer conn of
        Inl _ \<Rightarrow> None
      | Inr peer \<Rightarrow>
          if peer \<noteq> 0 \<and> peer \<noteq> hp_deploy_uid hp then None
          else case read_request hp conn of
                 Inr (RequestApply raw _ _) \<Rightarrow> Some raw | Inr (RequestRemove raw _) \<Rightarrow> Some raw | _ \<Rightarrow> None)"

lemma serve_one_touches:
  assumes "hp_nginx hp = production_nginx programs systemd inet" and "hp_caddy hp = production_caddy programs"
  shows "touching (case asked_app hp conn of Some raw \<Rightarrow> app_entries raw | None \<Rightarrow> {}) d (snd (serve_one hp conn d))"
proof -
  have same: "touching S d d" for S by (simp add: touching_def)
  note own = answer_touches [OF assms, of _ _ _ _ d]
  show ?thesis
  proof (cases "asked_app hp conn")
    case None
    then have "snd (serve_one hp conn d) = d"
      by (auto simp: asked_app_def serve_one_def answer_def split: sum.splits if_splits request.splits)
    then show ?thesis using same None by simp
  next
    case (Some raw)
    then obtain request where request: "read_request hp conn = Inr request"
      and names: "\<exists>router route. request = RequestApply raw router route \<or> request = RequestRemove raw router"
      by (auto simp: asked_app_def split: sum.splits if_splits request.splits)
    have "snd (serve_one hp conn d) = snd (answer hp request d)"
      using Some request by (auto simp: asked_app_def serve_one_def split: sum.splits if_splits prod.splits)
    then show ?thesis using own names Some by fastforce
  qed
qed

text \<open>
  Property C10.  However many connections the helper serves, from whatever peers and with whatever bytes, the files it keeps for an app
  change only through a request of root or the deploy user that names this app: without one they are all as before.
\<close>

theorem helper_run_keeps_other_apps:
  assumes "hp_nginx hp = production_nginx programs systemd inet" and "hp_caddy hp = production_caddy programs"
    and "\<forall>conn. Inr conn \<in> set conns \<longrightarrow> asked_app hp conn \<noteq> Some raw" and "p \<in> set (app_files raw)"
  shows "node_at (snd (run_helper hp conns d)) p = node_at d p"
  using assms(3)
proof (induction conns arbitrary: d)
  case (Cons c conns)
  show ?case
  proof (cases c)
    case (Inr conn)
    have "p \<notin> (case asked_app hp conn of Some other \<Rightarrow> app_entries other | None \<Rightarrow> {})"
      using Cons.prems Inr app_entries_apart [OF _ assms(4)] by (auto split: option.splits)
    then have "node_at (snd (serve_one hp conn d)) p = node_at d p"
      using serve_one_touches [OF assms(1,2), of conn d] by (simp add: touching_def)
    then show ?thesis using Cons Inr by simp
  qed simp
qed simp

theorem helper_run_keeps_other_apps_witness:
  "node_at (snd (run_helper (shop_helper True) [Inr \<lparr>co_peer = Inr 33, co_turns = [], co_write = Inr ()\<rparr>] shop_disk))
     (etc_riku ''nginx'' @ [Normal ''shop.conf'']) = node_at shop_disk (etc_riku ''nginx'' @ [Normal ''shop.conf''])"
  by (rule helper_run_keeps_other_apps [where programs = shop_programs and systemd = True and inet = False and raw = "''shop''"])
    (simp_all add: shop_helper_def asked_app_def app_files_def)

section \<open>Private keys\<close>

definition key_path :: "path \<Rightarrow> bool" where
  "key_path p \<longleftrightarrow> p \<noteq> [] \<and> last p \<in> {Normal ''key.pem'', Normal ''key.pem.new''}"

definition key_entry_ok :: "path \<Rightarrow> node \<Rightarrow> bool" where
  "key_entry_ok p n = (case n of FileNode m _ \<Rightarrow> key_path p \<longrightarrow> m = PRIVATE_FILE | _ \<Rightarrow> True)"

definition keys_private :: "'w site_disk \<Rightarrow> bool" where
  "keys_private d = list_all (\<lambda>(p, n). key_entry_ok p n) (dk_nodes d)"

lemma keys_put: "key_entry_ok p n \<Longrightarrow> keys_private d \<Longrightarrow> keys_private (put_node p n d)"
  by (simp add: keys_private_def put_node_def list_all_iff)

lemma keys_drop: "keys_private d \<Longrightarrow> keys_private (drop_node p d)"
  by (simp add: keys_private_def drop_node_def list_all_iff)

lemma keys_world: "keys_private (d\<lparr>dk_world := w\<rparr>) = keys_private d"
  by (simp add: keys_private_def)

interpretation keys: site_frame "\<lambda>d d'. keys_private d \<longrightarrow> keys_private d'"
    "\<lambda>p n. case n of Some n \<Rightarrow> key_entry_ok p n | None \<Rightarrow> True"
  by unfold_locales (auto simp: keys_world intro: keys_put keys_drop)

lemma keys_may_act:
  assumes app: "app_name_try_from raw = Inr app"
  shows "keys.nginx_ok (production_nginx g s i) app" and "keys.caddy_ok (production_caddy g) app"
proof -
  have staged_paths: "staged (etc_riku dir @ [Normal n]) = etc_riku dir @ [Normal (n @ ''.new'')]"
    "staged (etc_riku dir @ [Normal m, Normal n]) = etc_riku dir @ [Normal m, Normal (n @ ''.new'')]" for dir m n
    using staged_etc_riku [of dir "[]" n] staged_etc_riku [of dir "[Normal m]" n] by simp_all
  show "keys.nginx_ok (production_nginx g s i) app" "keys.caddy_ok (production_caddy g) app"
    unfolding keys.nginx_ok_def keys.caddy_ok_def keys.may_make_def keys.may_write_def app_paths [OF app] etc_riku_join
      KEY_FILE_def CERTIFICATE_FILE_def
    by (auto simp: staged_paths key_entry_ok_def key_path_def)
qed


lemma shop_keys_private: "keys_private shop_disk"
  by code_simp


section \<open>Reading a request\<close>

lemma read_turns_bounded: "read_turns limit message turns = Inr body \<Longrightarrow> length message \<le> limit \<Longrightarrow> length body \<le> limit"
  by (induction turns arbitrary: message) (auto split: read_turn.splits if_splits)

lemma read_turns_pieces:
  "length message \<le> limit \<Longrightarrow>
   read_turns limit message (map TurnBytes (filter (\<lambda>c. c \<noteq> []) pieces) @ TurnBytes [] # rest)
   = (if limit < length (message @ concat pieces) then Inl (RequestTooLarge limit) else Inr (message @ concat pieces))"
  by (induction pieces arbitrary: message) auto

text \<open>
  Property C28.  A request that arrives in any number of pieces is handed to the parser whole when it has at most one mebibyte and is
  refused as too large otherwise; and whatever else happens on the connection, the parser never gets more than 1048576 bytes.
\<close>

theorem oversized_request_refused:
  "read_bounded (map TurnBytes (filter (\<lambda>c. c \<noteq> []) pieces) @ TurnBytes [] # rest) MAX_MESSAGE_BYTES
     = (if 1048576 < length (concat pieces) then Inl (RequestTooLarge 1048576) else Inr (concat pieces))
   \<and> (case read_bounded turns MAX_MESSAGE_BYTES of Inl _ \<Rightarrow> True | Inr body \<Rightarrow> length body \<le> 1048576)"
  using read_turns_pieces [of "[]" MAX_MESSAGE_BYTES pieces rest] read_turns_bounded [of MAX_MESSAGE_BYTES "[]" turns]
  by (auto simp: read_bounded_def MAX_MESSAGE_BYTES_def split: sum.splits)

end
