(* ===== verification/Build_Safety.thy ===== *)
theory Build_Safety
  imports Route_Build Helper_Safety
begin

text \<open>
  What a deploy and the router helper promise each other: a deploy through Caddy is never refused by the helper's gate, an app is only
  routed to its own sockets and those are named to nginx as the app opened them, and what the helper can still refuse of
  the nginx route a deploy built.
\<close>

named_theorems rt_simps

lemma rt_then_Inl [rt_simps]: "rt_then (rt_give (Inl e)) f w = (Inl e, w)"
  by (simp add: rt_then_def rt_give_def)

lemma rt_then_Inr [rt_simps]: "rt_then (rt_give (Inr a)) f w = f a w"
  by (simp add: rt_then_def rt_give_def)

lemma rt_give_run [rt_simps]: "rt_give r w = (r, w)"
  by (simp add: rt_give_def)

lemma rt_then_fails:
  "rt_then m f w = (Inl e, w') \<longleftrightarrow> m w = (Inl e, w') \<or> (\<exists>a w''. m w = (Inr a, w'') \<and> f a w'' = (Inl e, w'))"
  by (auto simp: rt_then_def split: prod.splits sum.splits)

section \<open>Caddy\<close>

text \<open>The helper on the other end of the socket, seen from the deploy.\<close>

definition helper_send :: "'w helper \<Rightarrow> request \<Rightarrow> (string, 'w site_disk, helper_reply) call" where
  "helper_send hp request d = apfst Inr (answer hp request d)"

lemma caddy_build:
  assumes "build_route host app env backends paths RouterCaddy w = (r, w')"
  shows "w' = w" and "r = Inr (Some route) \<Longrightarrow> check_caddy_route app route = Inr (CheckedRoute route)"
    and "r = Inl e \<Longrightarrow> e \<noteq> HelperFailed action stage cause"
proof -
  show "w' = w" using assms
    by (auto simp: build_route_def Let_def rt_simps split: option.splits sum.splits if_splits)
  show "check_caddy_route app route = Inr (CheckedRoute route)" if r: "r = Inr (Some route)"
    using assms unfolding r
    by (auto simp: build_route_def Let_def rt_simps caddy_route_def check_caddy_route_Inr split: option.splits sum.splits if_splits)
  show "e \<noteq> HelperFailed action stage cause" if r: "r = Inl e"
    using assms unfolding r
    by (auto simp: build_route_def Let_def rt_simps split: option.splits sum.splits if_splits)
qed

text \<open>What the helper answers once a Caddy route has passed the gate: it may fail on the files or on the reload.\<close>

definition late_failure :: "helper_reply \<Rightarrow> bool" where
  "late_failure reply \<longleftrightarrow>
     (case reply of
        ReplyFailed stage cause \<Rightarrow> stage \<in> {StageRender, StageReload} \<and> (\<forall>e. cause \<noteq> ErrorCaddySite e)
      | ReplyOk _ \<Rightarrow> True
      | ReplyStatus _ \<Rightarrow> False)"

lemma rolled_back_late:
  "stage \<in> {StageRender, StageReload} \<Longrightarrow> (\<forall>e. cause \<noteq> ErrorCaddySite e) \<Longrightarrow> late_failure (fst (rolled_back h snapshot stage cause d))"
  by (auto simp: rolled_back_def late_failure_def split: prod.splits sum.splits)

lemma commit_caddy_late: "late_failure (fst (commit_caddy h roots fs d))"
proof (cases "snapshot_take h fs d")
  case (Pair taken d1)
  show ?thesis
  proof (cases taken)
    case (Inl e)
    then show ?thesis using Pair by (simp add: commit_caddy_def commit_with_def late_failure_def)
  next
    case (Inr snapshot)
    obtain installed d2 where installed: "install h fs d1 = (installed, d2)" by (metis prod.exhaust)
    obtain asked d3 where asked: "caddy_reload h roots d2 = (asked, d3)" by (metis prod.exhaust)
    show ?thesis using Pair Inr installed asked
      by (cases installed; cases asked)
        (auto simp: commit_caddy_def commit_with_def site_err_def late_failure_def [of "ReplyOk _"] intro!: rolled_back_late)
  qed
qed

lemma accepted_site:
  assumes "check_caddy_route app route = Inr (CheckedRoute accepted)"
  shows "\<exists>site. and_then (plan_of accepted) (render_site raw) = Inr site"
proof -
  obtain targets where "plan_of accepted = Inr \<lparr>rpl_domains = map Domain (ro_domains route), rpl_https = ro_https route, rpl_backends = targets\<rparr>"
    "targets \<noteq> []" "list_all (\<lambda>b. \<exists>host port. b = BackendTcp host port \<and> ip_is_loopback host \<and> port \<noteq> 0) targets"
    by (rule accepted_plan [OF assms])
  moreover from this(3) have "\<not> list_ex (\<lambda>b. case b of BackendUnix _ \<Rightarrow> True | _ \<Rightarrow> False) targets"
    by (auto simp: list_all_iff list_ex_iff)
  ultimately show ?thesis by (simp add: render_site_def upstreams_def)
qed

lemma answered_caddy_late:
  assumes "app_name_try_from raw = Inr app"
  shows "check_caddy_route app route = Inr (CheckedRoute route)
      \<Longrightarrow> late_failure (fst (answer hp (RequestApply raw KindCaddy route) d))"
    and "late_failure (fst (answer hp (RequestRemove raw KindCaddy) d))"
proof -
  have checked: "app_checked raw = Inr app" using assms by (simp add: app_checked_def)
  show "late_failure (fst (answer hp (RequestApply raw KindCaddy route) d))"
    if gate: "check_caddy_route app route = Inr (CheckedRoute route)"
  proof -
    obtain site where "and_then (plan_of route) (render_site (app_str app)) = Inr site"
      using accepted_site [OF gate] by metis
    then show ?thesis
      using checked gate by (auto simp: answer_def apply_caddy_def late_failure_def [of "ReplyFailed _ _"] intro!: commit_caddy_late
          split: prod.splits sum.splits)
  qed
  show "late_failure (fst (answer hp (RequestRemove raw KindCaddy) d))"
    using checked by (auto simp: answer_def remove_caddy_def Let_def late_failure_def [of "ReplyFailed _ _"] late_failure_def [of "ReplyOk _"]
        intro!: commit_caddy_late split: prod.splits sum.splits)
qed

lemma site_app_name_Inr: "site_app_name app = Inr name \<longleftrightarrow> app_name_try_from app = Inr name"
  by (auto simp: site_app_name_def split: sum.splits)

lemma app_str_name: "app_name_try_from raw = Inr app \<Longrightarrow> app_str app = raw"
  by (simp add: app_name_Inr)

lemma ask_helper_fails:
  assumes "rt_send host = helper_send hp" and "ask_helper host action request d = (Inl e, d')"
  shows "(\<exists>stage cause. fst (answer hp request d) = ReplyFailed stage cause \<and> e = HelperFailed action stage cause)
    \<or> (\<exists>v. fst (answer hp request d) = ReplyStatus v)"
  using assms
  by (cases "answer hp request d")
    (auto simp: ask_helper_def rt_then_def rt_give_def rt_err_def helper_send_def helper_outcome_def split: helper_reply.splits)

lemma asked_late:
  assumes "rt_send host = helper_send hp" and "ask_helper host action request d = (Inl e, d')"
    and "late_failure (fst (answer hp request d))"
  shows "\<exists>stage cause. e = HelperFailed action stage cause \<and> stage \<in> {StageRender, StageReload} \<and> (\<forall>c. cause \<noteq> ErrorCaddySite c)"
  using ask_helper_fails [OF assms(1,2)] assms(3) by (auto simp: late_failure_def)


section \<open>Sockets\<close>

lemma parent_snoc [simp]: "parent_of (p @ [Normal name]) = Some p" "last_name (p @ [Normal name]) = Some name"
  by (simp_all add: parent_of_def last_name_def)

lemma path_join_name: "path_join p [Normal name] = p @ [Normal name]"
  by (simp add: path_join_def is_absolute_def)

lemma app_name_is_safe: "app_name_try_from raw = Inr app \<Longrightarrow> safe_app_name raw"
  by (auto simp: app_name_Inr check_app_name_def validate_app_name_Inr safe_iff_fixed split: sum.splits if_splits)

lemma own_sockets:
  assumes "app_name_try_from raw = Inr app" and "app_name_try_from other = Inr owner"
  shows "socket_backend app (rp_socket_root paths @ [Normal (copy_socket_file_name other n)]) paths
      = (if other = raw then Inr (UnixCopy n)
         else Inl (NotOwnSocket (rp_socket_root paths @ [Normal (copy_socket_file_name other n)]) raw (rp_socket_root paths)))"
    and "socket_backend app (rp_socket_root paths @ [Normal (other @ ''.sock'')]) paths
      = (if other = raw then Inr UnixDefault
         else Inl (NotOwnSocket (rp_socket_root paths @ [Normal (other @ ''.sock'')]) raw (rp_socket_root paths)))"
proof -
  note safe = app_name_is_safe [OF assms(1)] app_name_is_safe [OF assms(2)]
  have raw: "app_str app = raw" by (rule app_str_name [OF assms(1)])
  have "APP_SEPARATOR \<in> set (copy_socket_file_name other n)" by (simp add: copy_socket_file_name_def)
  moreover have "APP_SEPARATOR \<notin> set (raw @ ''.sock'')" using safe_no_sep [OF safe(1)] by (simp add: APP_SEPARATOR_def)
  ultimately have "copy_socket_file_name other n \<noteq> raw @ ''.sock''" by metis
  then show "socket_backend app (rp_socket_root paths @ [Normal (copy_socket_file_name other n)]) paths
      = (if other = raw then Inr (UnixCopy n)
         else Inl (NotOwnSocket (rp_socket_root paths @ [Normal (copy_socket_file_name other n)]) raw (rp_socket_root paths)))"
    using copy_socket_parse_name [OF safe(2)] by (simp add: socket_backend_def Let_def raw)
  show "socket_backend app (rp_socket_root paths @ [Normal (other @ ''.sock'')]) paths
      = (if other = raw then Inr UnixDefault
         else Inl (NotOwnSocket (rp_socket_root paths @ [Normal (other @ ''.sock'')]) raw (rp_socket_root paths)))"
    using single_socket_not_copy [OF safe(2)] by (simp add: socket_backend_def Let_def raw SOCKET_EXTENSION_def)
qed

text \<open>
  Property C24.  A deploy routes an app to its own sockets only: of the sockets the apps of a host open, it takes exactly those of the app
  itself and refuses the others.  From the copy number that is sent, the helper names the very socket the copy opened.
\<close>

theorem routes_reach_own_sockets:
  assumes "app_name_try_from raw = Inr app" and "app_name_try_from other = Inr owner"
    and "ng_socket_root roots = rp_socket_root paths"
  shows "and_then (route_backend_of app paths (BackendUnix (copy_socket (riku_paths.truncate paths) other copy)))
        (\<lambda>b. Inr (nginx_backend roots app b))
      = (if other = raw then Inr (BackendUnix (copy_socket (riku_paths.truncate paths) raw copy))
         else Inl (NotOwnSocket (copy_socket (riku_paths.truncate paths) other copy) raw (rp_socket_root paths)))
    \<and> and_then (route_backend_of app paths (BackendUnix (path_join (rp_socket_root paths) [Normal (other @ ''.sock'')])))
        (\<lambda>b. Inr (nginx_backend roots app b))
      = (if other = raw then Inr (BackendUnix (path_join (rp_socket_root paths) [Normal (raw @ ''.sock'')]))
         else Inl (NotOwnSocket (path_join (rp_socket_root paths) [Normal (other @ ''.sock'')]) raw (rp_socket_root paths)))"
proof -
  have raw: "app_str app = raw" by (rule app_str_name [OF assms(1)])
  have "components (copy_socket_file_name raw n) = [Normal (copy_socket_file_name raw n)]" for n
  proof -
    have "CHR ''/'' \<notin> set ([APP_SEPARATOR] @ show_u32 n @ SOCKET_EXTENSION)"
      using show_u32_digits [of n] by (auto simp: list_all_iff APP_SEPARATOR_def SOCKET_EXTENSION_def char_class_defs)
    from app_name_components [OF assms(1) this] show ?thesis by (simp add: copy_socket_file_name_def)
  qed
  moreover have "components (raw @ ''.sock'') = [Normal (raw @ ''.sock'')]" by (rule app_name_components [OF assms(1)]) simp
  ultimately show ?thesis
    using own_sockets [OF assms(1,2)] assms(3)
    by (simp_all add: copy_socket_def path_join_name riku_paths.truncate_def raw)
qed

section \<open>nginx\<close>

lemma no_words_iff: "filter (\<lambda>w. w \<noteq> []) (split_by P s) = [] \<longleftrightarrow> list_all P s"
proof
  assume empty: "filter (\<lambda>w. w \<noteq> []) (split_by P s) = []"
  have "P c" if "c \<in> set s" for c
    using split_by_covers [OF that, of P] empty by (auto simp: filter_empty_conv)
  then show "list_all P s" by (simp add: list_all_iff)
next
  show "list_all P s \<Longrightarrow> filter (\<lambda>w. w \<noteq> []) (split_by P s) = []" by (induction s) auto
qed

lemma traverse_nginx_domains:
  assumes "traverse nginx_domain entries = Inr ds"
  shows "(\<forall>d \<in> set ds. gate_domain d = Inr ()) \<and> (ds = [] \<longleftrightarrow> entries = [])"
proof -
  have "gate_domain d = Inr ()" if d: "d \<in> set ds" for d
  proof -
    obtain entry where "nginx_domain entry = Inr d" using traverse_set [OF assms] d by blast
    then show ?thesis
      using domain_again by (fastforce simp: nginx_domain_def gate_domain_Inr split: if_splits sum.splits)
  qed
  moreover have "length ds = length entries" using traverse_length [OF assms] by simp
  ultimately show ?thesis by auto
qed

lemma nginx_build:
  assumes "build_route host app env backends paths RouterNginx w = (Inr (Some route), w')"
  shows "nginx_domains app env = Inr (ro_domains route)" and "route_backends app backends paths = Inr (ro_backends route)"
    and "ro_kind route = site_kind_of env RouterNginx" and "ro_https route = (if https_only env then Only else AlsoPlainHttp)"
    and "ro_static_paths route = static_locations env" and "\<not> https_only env \<Longrightarrow> ro_tls route = None"
  using assms
  by (auto simp: build_route_def nginx_route_def caddy_route_def Let_def rt_simps rt_then_def rt_err_def
      split: option.splits sum.splits if_splits prod.splits)

lemma list_all2_gate: "list_all2 R xs ys \<Longrightarrow> (\<And>x y. R x y \<Longrightarrow> Q y \<longleftrightarrow> P x) \<Longrightarrow> (\<forall>y \<in> set ys. Q y) \<longleftrightarrow> list_all P xs"
  by (induction rule: list_all2_induct) auto

lemma route_backends_gate:
  assumes "route_backends app backends paths = Inr bs"
  shows "(\<forall>b \<in> set bs. gate_backend b = Inr ()) \<longleftrightarrow>
    list_all (\<lambda>b. case b of BackendTcp host port \<Rightarrow> (ip_is_loopback host \<or> host = V4 0 0 0 0) \<and> port \<noteq> 0
                         | BackendUnix socket \<Rightarrow> socket_backend app socket paths \<noteq> Inr (UnixCopy 0)) backends"
    and "bs = [] \<longleftrightarrow> backends = []"
proof -
  have local: "ip_is_loopback (local_host host) \<longleftrightarrow> ip_is_loopback host \<or> host = V4 0 0 0 0" for host
    by (cases host) (auto simp: LoopbackV4_def)
  have pairs: "list_all2 (\<lambda>x y. route_backend_of app paths x = Inr y) backends bs"
    using assms by (simp add: route_backends_def traverse_Inr)
  have "gate_backend y = Inr () \<longleftrightarrow> (case x of BackendTcp host port \<Rightarrow> (ip_is_loopback host \<or> host = V4 0 0 0 0) \<and> port \<noteq> 0
      | BackendUnix socket \<Rightarrow> socket_backend app socket paths \<noteq> Inr (UnixCopy 0))"
    if "route_backend_of app paths x = Inr y" for x y
  proof (cases x)
    case (BackendTcp host port)
    then show ?thesis using that local [of host] by (auto simp: gate_backend_Inr)
  next
    case (BackendUnix socket)
    then have y: "socket_backend app socket paths = Inr y" using that by simp
    then have "\<not> (\<exists>host port. y = Tcp host port)" by (auto simp: socket_backend_def Let_def split: if_splits option.splits)
    then show ?thesis using BackendUnix y by (cases y) (auto simp: copy_index_new_def)
  qed
  then show "(\<forall>b \<in> set bs. gate_backend b = Inr ()) \<longleftrightarrow>
    list_all (\<lambda>b. case b of BackendTcp host port \<Rightarrow> (ip_is_loopback host \<or> host = V4 0 0 0 0) \<and> port \<noteq> 0
                         | BackendUnix socket \<Rightarrow> socket_backend app socket paths \<noteq> Inr (UnixCopy 0)) backends"
    by (rule list_all2_gate [OF pairs])
  show "bs = [] \<longleftrightarrow> backends = []" using pairs by auto
qed

lemma nginx_domains_gate:
  assumes "nginx_domains app env = Inr ds"
  shows "ds \<noteq> [] \<and> (\<forall>d \<in> set ds. gate_domain d = Inr ()) \<longleftrightarrow>
    (case bt_get env ''RIKU_DOMAINS'' of
       None \<Rightarrow> domain_try_from (app_str app @ ''.example.com'') = Inr (Domain (app_str app @ ''.example.com''))
     | Some raw \<Rightarrow> \<not> list_all domain_separator raw)"
proof (cases "bt_get env ''RIKU_DOMAINS''")
  case None
  then have ds: "ds = [app_str app @ ''.example.com'']" using assms by (auto simp: nginx_domains_def)
  show ?thesis using None by (simp add: ds gate_domain_Inr CATCH_ALL_NAME_def)
next
  case (Some raw)
  then show ?thesis using assms traverse_nginx_domains no_words_iff [of domain_separator raw] by (auto simp: nginx_domains_def)
qed


section \<open>Examples\<close>

text \<open>A deploy on a host without certificate files, with the helper on the other end of the socket.\<close>

definition shop_sender :: "bool \<Rightarrow> unit site_disk router_host" where
  "shop_sender accepts = \<lparr>rt_read = (\<lambda>_ d. (Inl IoNotFound, d)), rt_publish = (\<lambda>_ _ _ d. (Inr (), d)),
     rt_certificates = (\<lambda>_ _ d. (Inr (), d)), rt_clean_up = (\<lambda>_ d. (Inr (), d)), rt_send = helper_send (shop_helper accepts)\<rparr>"

lemma shop_sends: "rt_send (shop_sender accepts) = helper_send (shop_helper accepts)"
  by (simp add: shop_sender_def)

definition shop_paths :: router_paths where
  "shop_paths = \<lparr>rp_socket_root = [RootDir, Normal ''run'', Normal ''riku-sockets''], rp_log_root = [], rp_nginx_root = []\<rparr>"

definition shop_env :: env_map where
  "shop_env = [(''RIKU_DOMAINS'', ''a.io'')]"

lemma shop_env_reads:
  "refused_key shop_env = None" "caddy_domains shop_env = Inr [''a.io'']" "nginx_domains app shop_env = Inr [''a.io'']"
  "site_kind_of shop_env router = Plain" "\<not> https_only shop_env" "static_locations shop_env = []"
proof -
  have "split_by domain_separator ''a.io'' = [''a.io'']" "domain_try_from ''a.io'' = Inr (Domain ''a.io'')" by code_simp+
  then show "refused_key shop_env = None" "caddy_domains shop_env = Inr [''a.io'']" "nginx_domains app shop_env = Inr [''a.io'']"
    "site_kind_of shop_env router = Plain" "\<not> https_only shop_env" "static_locations shop_env = []"
    by (simp_all add: shop_env_def refused_key_def REMOVED_KEYS_def REFUSED_KEYS_def has_key_def bt_get_def caddy_domains_def
        parse_domains_def nginx_domains_def nginx_domain_def CATCH_ALL_NAME_def site_kind_of_def https_only_def HTTPS_ONLY_KEY_def
        static_locations_def static_paths_def)
qed

lemma shop_caddy_built:
  "build_route (shop_sender accepts) (AppName ''shop'') shop_env [backend_loopback 5000] shop_paths RouterCaddy d
     = (Inr (Some (caddy_route [''a.io''] AlsoPlainHttp [Tcp LoopbackV4 5000] Plain)), d)"
proof -
  have "gate_domain ''a.io'' = Inr ()" by (rule shop_domains(1))
  then have "check_caddy_route (AppName ''shop'') (caddy_route [''a.io''] AlsoPlainHttp [Tcp LoopbackV4 5000] Plain)
      = Inr (CheckedRoute (caddy_route [''a.io''] AlsoPlainHttp [Tcp LoopbackV4 5000] Plain))"
    by (simp add: check_caddy_route_Inr caddy_cannot_take_None gate_common_Inr gate_domains_Inr gate_backends_Inr gate_listen_Inr
        gate_locations_Inr caddy_route_def DEFAULT_LISTEN_def HTTP_PORT_def LoopbackV4_def CATCH_ALL_NAME_def)
  moreover have "route_backends (AppName ''shop'') [backend_loopback 5000] shop_paths = Inr [Tcp LoopbackV4 5000]"
    by (simp add: route_backends_def backend_loopback_def LoopbackV4_def)
  ultimately show ?thesis by (simp add: build_route_def Let_def shop_env_reads rt_simps)
qed

lemma shop_caddy_refused:
  "\<exists>cause d'. apply_caddy_site (shop_sender True) ''shop'' shop_env [backend_loopback 5000] shop_paths shop_disk
     = (Inl (HelperFailed ''install the site'' StageRender cause), d')"
proof -
  let ?route = "caddy_route [''a.io''] AlsoPlainHttp [Tcp LoopbackV4 5000] Plain"
  have gate: "check_caddy_route (AppName ''shop'') ?route = Inr (CheckedRoute ?route)"
    using caddy_build(2) [OF shop_caddy_built] by blast
  obtain site where site: "and_then (plan_of ?route) (render_site ''shop'') = Inr site" using accepted_site [OF gate] by blast
  have "components CADDY_SITE_ROOT = etc_riku ''caddy''" by code_simp
  then have "cy_site_root (production_caddy shop_programs) = etc_riku ''caddy''" by (simp add: production_caddy_def)
  then have "\<exists>e d'. check_write_dir (calm_host True) (cy_site_root (production_caddy shop_programs)) 0 shop_disk = (Inl e, d')"
    by (simp add: check_write_dir_def site_then_def site_err_def syscall_def calm_host_def node_at_def shop_disk_def etc_riku_def)
  then obtain e d' where "check_write_dir (calm_host True) (cy_site_root (production_caddy shop_programs)) 0 shop_disk = (Inl e, d')" by blast
  then have "answer (shop_helper True) (RequestApply ''shop'' KindCaddy ?route) shop_disk = (ReplyFailed StageRender (ErrorFiles e), d')"
    using gate site
    by (simp add: answer_def app_checked_def shop_app apply_caddy_def shop_helper_def production_caddy_def ROOT_UID_def)
  then show ?thesis
    by (simp add: apply_caddy_site_def site_app_name_def shop_app rt_simps shop_caddy_built rt_then_def ask_helper_def rt_err_def
        shop_sends helper_send_def helper_outcome_def)
qed


lemma blog_app: "app_name_try_from ''blog'' = Inr (AppName ''blog'')"
  by code_simp

lemma shop_roots: "ng_socket_root (production_nginx shop_programs True False) = rp_socket_root shop_paths"
proof -
  have "components SOCKET_ROOT = [RootDir, Normal ''run'', Normal ''riku-sockets'']" by code_simp
  then show ?thesis by (simp add: production_nginx_def shop_paths_def)
qed

theorem routes_reach_own_sockets_witness:
  "is_ok (and_then (route_backend_of (AppName ''shop'') shop_paths
      (BackendUnix (copy_socket (riku_paths.truncate shop_paths) ''shop'' (CopyIndex 2))))
      (\<lambda>b. Inr (nginx_backend (production_nginx shop_programs True False) (AppName ''shop'') b)))
   \<and> \<not> is_ok (and_then (route_backend_of (AppName ''shop'') shop_paths
      (BackendUnix (copy_socket (riku_paths.truncate shop_paths) ''blog'' (CopyIndex 2))))
      (\<lambda>b. Inr (nginx_backend (production_nginx shop_programs True False) (AppName ''shop'') b)))"
  using routes_reach_own_sockets [OF shop_app shop_app shop_roots, of "CopyIndex 2"]
    routes_reach_own_sockets [OF shop_app blog_app shop_roots, of "CopyIndex 2"] by simp

lemma shop_nginx_built:
  assumes "refused_key env = None" and "nginx_domains app env = Inr ds" and "\<not> https_only env" and "site_kind_of env RouterNginx = Plain"
  shows "\<exists>route. build_route host app env [backend_loopback port] paths RouterNginx d = (Inr (Some route), d) \<and> ro_listen route = 80"
proof -
  have "route_backends app [backend_loopback port] paths = Inr [Tcp LoopbackV4 port]"
    by (simp add: route_backends_def backend_loopback_def LoopbackV4_def)
  then show ?thesis using assms
    by (simp add: build_route_def nginx_route_def route_listen_def caddy_route_def DEFAULT_HTTP_PORT_def Let_def rt_simps rt_err_def rt_then_def
        split: option.splits)
qed


text \<open>
  The check that runs before a deploy starts a copy builds the route but does not ask the gate: for an app whose name holds an underscore
  and that sets no domain it succeeds, and the helper then refuses the route of every such deploy.
\<close>

lemma early_check_misses_refusal:
  "fst (check_nginx_site (shop_sender True) ''my_app'' [] shop_paths shop_disk) = Inr ()
   \<and> (\<exists>route. build_route (shop_sender True) (AppName ''my_app'') [] [backend_loopback 5000] shop_paths RouterNginx shop_disk
        = (Inr (Some route), shop_disk) \<and> \<not> is_ok (check_nginx_route lib (AppName ''my_app'') route))"
proof -
  have name: "app_name_try_from ''my_app'' = Inr (AppName ''my_app'')" by code_simp
  have none: "refused_key [] = None" "nginx_domains (AppName ''my_app'') [] = Inr [''my_app.example.com'']" "\<not> https_only []"
    "site_kind_of [] RouterNginx = Plain" by code_simp+
  note built = shop_nginx_built [OF none, of "shop_sender True" _ shop_paths shop_disk]
  obtain route where run: "build_route (shop_sender True) (AppName ''my_app'') [] [backend_loopback 5000] shop_paths RouterNginx shop_disk
      = (Inr (Some route), shop_disk)" using built by blast
  have "\<not> is_ok (gate_domain ''my_app.example.com'')" by code_simp
  moreover have "ro_domains route = [''my_app.example.com'']" using nginx_build(1) [OF run] none(2) by simp
  ultimately have "gate_domains route \<noteq> Inr ()" by (auto simp: gate_domains_Inr)
  then have "\<not> is_ok (check_nginx_route lib (AppName ''my_app'') route)"
    by (auto simp: is_ok_iff check_nginx_route_Inr gate_common_Inr)
  moreover obtain first where "build_route (shop_sender True) (AppName ''my_app'') [] [backend_loopback STAND_IN_PORT] shop_paths RouterNginx
      shop_disk = (Inr (Some first), shop_disk)" using built by blast
  then have "fst (check_nginx_site (shop_sender True) ''my_app'' [] shop_paths shop_disk) = Inr ()"
    by (simp add: check_nginx_site_def site_app_name_def name site_route_def rt_then_def rt_give_def rt_err_def shop_sends helper_send_def
        answer_def)
  ultimately show ?thesis using run by blast
qed

end
